(* ===== verification/Prelude.thy ===== *)
theory Prelude
  imports Complex_Main "HOL-Library.AList" "HOL-Library.Char_ord" "HOL-Library.List_Lexorder"
begin

text \<open>
  Shared vocabulary of the development.

  \<^item> Python dictionaries keep insertion order, and the code iterates over them; they are
    association lists with distinct keys, read with \<open>dict_get\<close>, written with \<open>dict_put\<close>
    (an existing key keeps its position, a new one goes to the end) and emptied key by key
    with \<open>dict_del\<close>.
  \<^item> Objects with identity live in a heap, a list in which the position is the object's
    identity: allocation appends, mutation replaces in place, so a reference held by a
    consumer stays meaningful across operations.
  \<^item> Decoded JSON values (the code's \<open>Any\<close>) are the datatype \<open>json\<close>.
  \<^item> Python floats that the code only compares and adds (seconds, milliseconds) are read as
    exact rationals.
\<close>

section \<open>Collections of facts\<close>

named_theorems dict_simps \<open>lookup equations of dictionaries\<close>
named_theorems heap_simps \<open>allocation and mutation of heap objects\<close>

section \<open>Dictionaries\<close>

type_synonym ('k, 'v) dict = "('k \<times> 'v) list"

abbreviation dict_get :: "('k, 'v) dict \<Rightarrow> 'k \<Rightarrow> 'v option" where
  "dict_get \<equiv> map_of"

abbreviation dict_put :: "'k \<Rightarrow> 'v \<Rightarrow> ('k, 'v) dict \<Rightarrow> ('k, 'v) dict" where
  "dict_put \<equiv> AList.update"

abbreviation dict_del :: "'k \<Rightarrow> ('k, 'v) dict \<Rightarrow> ('k, 'v) dict" where
  "dict_del \<equiv> AList.delete"

abbreviation dict_keys :: "('k, 'v) dict \<Rightarrow> 'k list" where
  "dict_keys d \<equiv> map fst d"

abbreviation dict_values :: "('k, 'v) dict \<Rightarrow> 'v list" where
  "dict_values d \<equiv> map snd d"

definition dict_ok :: "('k, 'v) dict \<Rightarrow> bool" where
  "dict_ok d \<longleftrightarrow> distinct (dict_keys d)"

lemma dict_get_put [dict_simps, simp]:
  "dict_get (dict_put k v d) k' = (if k' = k then Some v else dict_get d k')"
  by (simp add: update_conv')

lemma dict_get_del [dict_simps, simp]:
  "dict_get (dict_del k d) k' = (if k' = k then None else dict_get d k')"
  by (simp add: delete_conv')

lemma dict_ok_Nil [simp]: "dict_ok []"
  by (simp add: dict_ok_def)

lemma dict_ok_put [simp, intro]: "dict_ok d \<Longrightarrow> dict_ok (dict_put k v d)"
  unfolding dict_ok_def by (rule distinct_update)

lemma dict_ok_del [simp, intro]: "dict_ok d \<Longrightarrow> dict_ok (dict_del k d)"
  unfolding dict_ok_def by (rule distinct_delete)

lemma dict_get_iff_mem: "dict_ok d \<Longrightarrow> dict_get d k = Some v \<longleftrightarrow> (k, v) \<in> set d"
  by (simp add: dict_ok_def)

lemma dict_get_None_iff: "dict_get d k = None \<longleftrightarrow> k \<notin> set (dict_keys d)"
  by (simp add: map_of_eq_None_iff)

lemma dict_keys_mem_iff: "k \<in> set (dict_keys d) \<longleftrightarrow> dict_get d k \<noteq> None"
  by (simp add: map_of_eq_None_iff)

lemma dict_keys_put:
  "dict_keys (dict_put k v d) = (if dict_get d k = None then dict_keys d @ [k] else dict_keys d)"
  by (simp add: update_keys map_of_eq_None_iff)

lemma length_dict_put:
  "length (dict_put k v d) = (if dict_get d k = None then Suc (length d) else length d)"
  using arg_cong [OF dict_keys_put [of k v d], of length] by (simp split: if_splits)

lemma length_dict_del_le [simp]: "length (dict_del k d) \<le> length d"
  by (rule length_delete_le)

text \<open>
  The code's way of dropping entries: collect the stale keys in a first pass, then delete
  them one by one. The result is the dictionary without them, in the same order.
\<close>

definition dict_del_all :: "'k list \<Rightarrow> ('k, 'v) dict \<Rightarrow> ('k, 'v) dict" where
  "dict_del_all ks d = fold dict_del ks d"

lemma dict_del_all_Nil [simp]: "dict_del_all [] d = d"
  by (simp add: dict_del_all_def)

lemma dict_del_all_Cons [simp]: "dict_del_all (k # ks) d = dict_del_all ks (dict_del k d)"
  by (simp add: dict_del_all_def)

lemma dict_del_all_filter: "dict_del_all ks d = filter (\<lambda>p. fst p \<notin> set ks) d"
proof (induction ks arbitrary: d)
  case Nil
  then show ?case by simp
next
  case (Cons k ks)
  then show ?case
    by (auto simp: AList.delete_eq case_prod_unfold intro!: filter_cong)
qed

lemma dict_get_del_all [dict_simps, simp]:
  "dict_get (dict_del_all ks d) k = (if k \<in> set ks then None else dict_get d k)"
  by (induction ks arbitrary: d) auto

lemma dict_ok_del_all [simp, intro]: "dict_ok d \<Longrightarrow> dict_ok (dict_del_all ks d)"
  by (induction ks arbitrary: d) auto

lemma length_dict_del_all_le [simp]: "length (dict_del_all ks d) \<le> length d"
  by (simp add: dict_del_all_filter)

section \<open>Heaps of objects\<close>

type_synonym oid = nat
type_synonym 'o heap = "'o list"

definition alloc :: "'o \<Rightarrow> 'o heap \<Rightarrow> oid \<times> 'o heap" where
  "alloc x h = (length h, h @ [x])"

definition mutate :: "oid \<Rightarrow> ('o \<Rightarrow> 'o) \<Rightarrow> 'o heap \<Rightarrow> 'o heap" where
  "mutate i f h = h[i := f (h ! i)]"

lemma fst_alloc [heap_simps, simp]: "fst (alloc x h) = length h"
  by (simp add: alloc_def)

lemma snd_alloc [heap_simps, simp]: "snd (alloc x h) = h @ [x]"
  by (simp add: alloc_def)

lemma length_mutate [heap_simps, simp]: "length (mutate i f h) = length h"
  by (simp add: mutate_def)

lemma nth_mutate [heap_simps, simp]:
  "j < length h \<Longrightarrow> mutate i f h ! j = (if j = i then f (h ! i) else h ! j)"
  by (auto simp: mutate_def)

lemma nth_append_old [heap_simps]: "i < length h \<Longrightarrow> (h @ xs) ! i = h ! i"
  by (simp add: nth_append)

section \<open>Strings\<close>

definition starts_with :: "string \<Rightarrow> string \<Rightarrow> bool" where
  "starts_with p s \<longleftrightarrow> take (length p) s = p"

definition ends_with :: "string \<Rightarrow> string \<Rightarrow> bool" where
  "ends_with q s \<longleftrightarrow> starts_with (rev q) (rev s)"

lemma starts_with_append [simp]: "starts_with p (p @ s)"
  by (simp add: starts_with_def)

lemma starts_withD: "starts_with p s \<Longrightarrow> \<exists>t. s = p @ t"
  unfolding starts_with_def by (metis append_take_drop_id)

lemma starts_with_iff: "starts_with p s \<longleftrightarrow> (\<exists>t. s = p @ t)"
  using starts_withD by auto

lemma ends_with_iff: "ends_with q s \<longleftrightarrow> (\<exists>t. s = t @ q)"
  unfolding ends_with_def starts_with_iff
  by (metis rev_append rev_rev_ident)

section \<open>Decoded JSON\<close>

datatype json =
    JNull
  | JBool bool
  | JInt int
  | JFloat rat
  | JStr string
  | JArr "json list"
  | JObj "(string \<times> json) list"

text \<open>\<open>frame.get(key)\<close>: \<open>None\<close> both for an absent key and for a JSON null.\<close>

definition obj_get :: "(string, json) dict \<Rightarrow> string \<Rightarrow> json" where
  "obj_get d k = (case dict_get d k of None \<Rightarrow> JNull | Some v \<Rightarrow> v)"

text \<open>
  \<open>isinstance(v, int)\<close> with the value Python then computes with: \<open>bool\<close> is a
  subclass of \<open>int\<close>.
\<close>

fun as_int :: "json \<Rightarrow> int option" where
  "as_int (JInt i) = Some i"
| "as_int (JBool b) = Some (if b then 1 else 0)"
| "as_int _ = None"

text \<open>\<open>isinstance(v, int | float)\<close> and \<open>float(v)\<close>.\<close>

fun as_float :: "json \<Rightarrow> rat option" where
  "as_float (JInt i) = Some (of_int i)"
| "as_float (JBool b) = Some (if b then 1 else 0)"
| "as_float (JFloat r) = Some r"
| "as_float _ = None"

lemma as_float_of_as_int: "as_int v = Some i \<Longrightarrow> as_float v = Some (of_int i)"
  by (cases v) auto

end
