(* ===== verification/EventBus.thy ===== *)
theory EventBus
  imports Prelude "HOL-Library.Sublist"
begin

text \<open>
  Model of \<open>events/bus.py\<close>: the registry of subscriptions (\<open>EventBus\<close>), the fan-out of
  one event (\<open>publish\<close>), the idempotent unsubscribe closure, and the cancellable bundle
  (\<open>SubscriptionGroup\<close>).

  A \<open>_Subscription\<close> is a heap object: the closure returned by \<open>subscribe\<close>, the bucket
  and a fan-out in progress all refer to the same object, and \<open>cancelled\<close> is how they
  communicate. A handler is named by a number; what it does to the bus while it runs is a
  parameter (\<open>script\<close>), any list of bus operations, followed by how its coroutine ends.
\<close>

section \<open>State\<close>

datatype bus_event = BusEvent (ev_type: string) (ev_key: "string option")

record subscription =
  sub_event_type :: string
  sub_event_key :: "string option"
  sub_handler :: nat
  sub_cancelled :: bool

record bus =
  bus_subs :: "(string, oid list) dict"
  bus_heap :: "subscription heap"

definition empty_bus :: bus where
  "empty_bus = \<lparr>bus_subs = [], bus_heap = []\<rparr>"

definition event_key_of :: "bus_event \<Rightarrow> string option" where
  "event_key_of e = ev_key e"

definition bucket :: "bus \<Rightarrow> string \<Rightarrow> oid list" where
  "bucket b t = (case dict_get (bus_subs b) t of None \<Rightarrow> [] | Some ids \<Rightarrow> ids)"

section \<open>Operations\<close>

definition bus_subscribe :: "string \<Rightarrow> nat \<Rightarrow> string option \<Rightarrow> bus \<Rightarrow> oid \<times> bus" where
  "bus_subscribe t h k b =
     (let (i, hp) = alloc \<lparr>sub_event_type = t, sub_event_key = k, sub_handler = h,
                           sub_cancelled = False\<rparr> (bus_heap b)
      in (i, \<lparr>bus_subs = dict_put t (bucket b t @ [i]) (bus_subs b), bus_heap = hp\<rparr>))"

text \<open>
  \<open>bucket.remove(sub)\<close> on a list of dataclass instances removes the first element that is
  \<^emph>\<open>equal\<close>, field by field; a \<open>ValueError\<close> (no such element) is suppressed.
\<close>

primrec remove_equal :: "subscription heap \<Rightarrow> oid \<Rightarrow> oid list \<Rightarrow> oid list" where
  "remove_equal hp i [] = []"
| "remove_equal hp i (j # js) = (if hp ! j = hp ! i then js else j # remove_equal hp i js)"

definition bus_unsubscribe :: "oid \<Rightarrow> bus \<Rightarrow> bus" where
  "bus_unsubscribe i b =
     (let s = bus_heap b ! i in
      if sub_cancelled s then b
      else
        let hp = mutate i (\<lambda>s. s\<lparr>sub_cancelled := True\<rparr>) (bus_heap b);
            t = sub_event_type s
        in case dict_get (bus_subs b) t of
             None \<Rightarrow> b\<lparr>bus_heap := hp\<rparr>
           | Some ids \<Rightarrow>
               let ids' = remove_equal hp i ids
               in \<lparr>bus_subs = (if ids' = [] then dict_del t (bus_subs b)
                               else dict_put t ids' (bus_subs b)),
                   bus_heap = hp\<rparr>)"

definition subscription_count :: "string option \<Rightarrow> bus \<Rightarrow> nat" where
  "subscription_count t b =
     (case t of None \<Rightarrow> sum_list (map length (dict_values (bus_subs b)))
      | Some t \<Rightarrow> length (bucket b t))"

section \<open>Fan-out\<close>

datatype bus_action = Subscribe string nat "string option" | Unsubscribe oid

text \<open>An unsubscribe closure only exists for a subscription that was made.\<close>

fun bus_act :: "bus_action \<Rightarrow> bus \<Rightarrow> bus" where
  "bus_act (Subscribe t h k) b = snd (bus_subscribe t h k b)"
| "bus_act (Unsubscribe i) b = (if i < length (bus_heap b) then bus_unsubscribe i b else b)"

definition bus_acts :: "bus_action list \<Rightarrow> bus \<Rightarrow> bus" where
  "bus_acts as b = fold bus_act as b"

text \<open>
  How an awaited handler ends: it returns, it raises an \<open>Exception\<close> (logged), or a
  \<open>BaseException\<close> such as a task cancellation passes through \<open>publish\<close>.
\<close>

datatype outcome = Returned | Raised | Aborted

type_synonym script = "nat \<Rightarrow> bus_event \<Rightarrow> bus \<Rightarrow> bus_action list \<times> outcome"

fun fan_out :: "script \<Rightarrow> bus_event \<Rightarrow> oid list \<Rightarrow> bus \<Rightarrow> (oid \<times> outcome) list \<times> bus" where
  "fan_out sc e [] b = ([], b)"
| "fan_out sc e (i # ids) b =
     (let s = bus_heap b ! i in
      if sub_cancelled s then fan_out sc e ids b
      else if sub_event_key s \<noteq> None \<and> sub_event_key s \<noteq> event_key_of e then fan_out sc e ids b
      else
        let (as, r) = sc (sub_handler s) e b;
            b' = bus_acts as b
        in if r = Aborted then ([(i, r)], b')
           else let (calls, b'') = fan_out sc e ids b' in ((i, r) # calls, b''))"

definition bus_publish :: "script \<Rightarrow> bus_event \<Rightarrow> bus \<Rightarrow> (oid \<times> outcome) list \<times> bus" where
  "bus_publish sc e b = fan_out sc e (bucket b (ev_type e)) b"

section \<open>Subscription groups\<close>

record sub_group =
  group_name :: string
  group_members :: "oid list"

definition create_subscription_group :: "string \<Rightarrow> sub_group" where
  "create_subscription_group n = \<lparr>group_name = n, group_members = []\<rparr>"

definition group_subscribe ::
  "string \<Rightarrow> nat \<Rightarrow> string option \<Rightarrow> sub_group \<times> bus \<Rightarrow> oid \<times> sub_group \<times> bus" where
  "group_subscribe t h k gb =
     (let (g, b) = gb; (i, b') = bus_subscribe t h k b
      in (i, g\<lparr>group_members := group_members g @ [i]\<rparr>, b'))"

definition group_cancel :: "sub_group \<times> bus \<Rightarrow> sub_group \<times> bus" where
  "group_cancel gb =
     (let (g, b) = gb in (g\<lparr>group_members := []\<rparr>, fold bus_unsubscribe (group_members g) b))"

definition group_size :: "sub_group \<Rightarrow> nat" where
  "group_size g = length (group_members g)"

section \<open>Well-formed registries\<close>

text \<open>
  Every bucket is non-empty, holds each subscription once, and holds exactly the live
  subscriptions of its event type.
\<close>

definition bus_ok :: "bus \<Rightarrow> bool" where
  "bus_ok b \<longleftrightarrow> dict_ok (bus_subs b)
     \<and> (\<forall>t. dict_get (bus_subs b) t \<noteq> Some [])
     \<and> (\<forall>t. distinct (bucket b t))
     \<and> (\<forall>t i. i \<in> set (bucket b t) \<longleftrightarrow>
          i < length (bus_heap b) \<and> \<not> sub_cancelled (bus_heap b ! i)
          \<and> sub_event_type (bus_heap b ! i) = t)"

definition live :: "bus \<Rightarrow> oid \<Rightarrow> bool" where
  "live b i \<longleftrightarrow> i < length (bus_heap b) \<and> \<not> sub_cancelled (bus_heap b ! i)"

lemma bus_ok_empty: "bus_ok empty_bus"
  by (simp add: bus_ok_def empty_bus_def bucket_def)

lemma bus_okD:
  assumes "bus_ok b"
  shows bus_ok_dict: "dict_ok (bus_subs b)"
    and bus_ok_nonempty: "dict_get (bus_subs b) t \<noteq> Some []"
    and bus_ok_distinct: "distinct (bucket b t)"
    and bus_ok_mem: "i \<in> set (bucket b t) \<longleftrightarrow> live b i \<and> sub_event_type (bus_heap b ! i) = t"
  using assms unfolding bus_ok_def live_def by blast+

lemma heap_subscribe [heap_simps]:
  "bus_heap (snd (bus_subscribe t h k b)) = bus_heap b @ [\<lparr>sub_event_type = t, sub_event_key = k,
     sub_handler = h, sub_cancelled = False\<rparr>]"
  by (simp add: bus_subscribe_def alloc_def)

lemma fst_subscribe [heap_simps]: "fst (bus_subscribe t h k b) = length (bus_heap b)"
  by (simp add: bus_subscribe_def alloc_def)

lemma bucket_subscribe [heap_simps]:
  "bucket (snd (bus_subscribe t h k b)) t' =
     (if t' = t then bucket b t @ [length (bus_heap b)] else bucket b t')"
  by (simp add: bus_subscribe_def alloc_def bucket_def)

lemma bus_ok_subscribe:
  assumes ok: "bus_ok b"
  shows "bus_ok (snd (bus_subscribe t h k b))"
proof -
  let ?b = "snd (bus_subscribe t h k b)"
  have d: "bus_subs ?b = dict_put t (bucket b t @ [length (bus_heap b)]) (bus_subs b)"
    by (simp add: bus_subscribe_def alloc_def)
  have fresh: "length (bus_heap b) \<notin> set (bucket b t')" for t'
    using bus_ok_mem [OF ok] by (auto simp: live_def)
  show ?thesis
    unfolding bus_ok_def
  proof (intro conjI allI impI)
    show "dict_ok (bus_subs ?b)" using bus_ok_dict [OF ok] by (simp add: d)
    show "dict_get (bus_subs ?b) t' \<noteq> Some []" for t'
      using bus_ok_nonempty [OF ok] by (simp add: d)
    show "distinct (bucket ?b t')" for t'
      using bus_ok_distinct [OF ok] fresh by (auto simp: bucket_subscribe)
    show "i \<in> set (bucket ?b t') \<longleftrightarrow>
        i < length (bus_heap ?b) \<and> \<not> sub_cancelled (bus_heap ?b ! i)
        \<and> sub_event_type (bus_heap ?b ! i) = t'" for t' i
      using bus_ok_mem [OF ok, of i t'] fresh [of t']
      by (auto simp: bucket_subscribe heap_subscribe nth_append live_def less_Suc_eq)
  qed
qed

text \<open>
  Removal by field equality removes the right element: after the flag is set, no other
  element of the bucket carries it.
\<close>

lemma remove_equal_eq_remove1:
  assumes "\<And>j. j \<in> set js \<Longrightarrow> j \<noteq> i \<Longrightarrow> hp ! j \<noteq> hp ! i"
  shows "remove_equal hp i js = remove1 i js"
  using assms by (induction js) auto

lemma heap_unsubscribe [heap_simps]:
  "\<not> sub_cancelled (bus_heap b ! i) \<Longrightarrow>
     bus_heap (bus_unsubscribe i b) = mutate i (\<lambda>s. s\<lparr>sub_cancelled := True\<rparr>) (bus_heap b)"
  by (simp add: bus_unsubscribe_def Let_def split: option.splits)

lemma unsubscribe_cancelled [simp]: "sub_cancelled (bus_heap b ! i) \<Longrightarrow> bus_unsubscribe i b = b"
  by (simp add: bus_unsubscribe_def)

lemma length_heap_unsubscribe [simp]:
  "length (bus_heap (bus_unsubscribe i b)) = length (bus_heap b)"
  by (cases "sub_cancelled (bus_heap b ! i)") (simp_all add: heap_unsubscribe)

lemma remove_equal_bucket:
  assumes ok: "bus_ok b" and lv: "live b i"
  shows "remove_equal (mutate i (\<lambda>s. s\<lparr>sub_cancelled := True\<rparr>) (bus_heap b)) i (bucket b t)
           = remove1 i (bucket b t)"
proof (rule remove_equal_eq_remove1)
  fix j assume j: "j \<in> set (bucket b t)" "j \<noteq> i"
  then have "live b j" using bus_ok_mem [OF ok] by blast
  with lv j show "mutate i (\<lambda>s. s\<lparr>sub_cancelled := True\<rparr>) (bus_heap b) ! j
      \<noteq> mutate i (\<lambda>s. s\<lparr>sub_cancelled := True\<rparr>) (bus_heap b) ! i"
    by (auto simp: live_def)
qed

lemma bucket_unsubscribe [heap_simps]:
  assumes ok: "bus_ok b" and lv: "live b i"
  shows "bucket (bus_unsubscribe i b) t = remove1 i (bucket b t)"
proof -
  let ?t = "sub_event_type (bus_heap b ! i)"
  let ?hp = "mutate i (\<lambda>s. s\<lparr>sub_cancelled := True\<rparr>) (bus_heap b)"
  have mem: "i \<in> set (bucket b ?t)" using bus_ok_mem [OF ok, of i ?t] lv by simp
  then have is_: "dict_get (bus_subs b) ?t = Some (bucket b ?t)"
    by (cases "dict_get (bus_subs b) ?t") (simp_all add: bucket_def)
  have other: "t \<noteq> ?t \<Longrightarrow> i \<notin> set (bucket b t)" using bus_ok_mem [OF ok, of i t] by simp
  have eq: "remove_equal ?hp i (bucket b ?t) = remove1 i (bucket b ?t)"
    by (rule remove_equal_bucket [OF ok lv])
  from lv have "\<not> sub_cancelled (bus_heap b ! i)" by (simp add: live_def)
  then have subs: "bus_subs (bus_unsubscribe i b) =
      (if remove1 i (bucket b ?t) = [] then dict_del ?t (bus_subs b)
       else dict_put ?t (remove1 i (bucket b ?t)) (bus_subs b))"
    unfolding bus_unsubscribe_def Let_def by (simp only: is_ option.case eq bus.simps if_False)
  show ?thesis
  proof (cases "t = ?t")
    case True
    then show ?thesis by (simp add: bucket_def [of "bus_unsubscribe i b"] subs)
  next
    case False
    then have "bucket (bus_unsubscribe i b) t = bucket b t"
      by (simp add: bucket_def subs)
    with other [OF False] show ?thesis by (simp add: remove1_idem)
  qed
qed

lemma bus_ok_unsubscribe:
  assumes ok: "bus_ok b" and i: "i < length (bus_heap b)"
  shows "bus_ok (bus_unsubscribe i b)"
proof (cases "sub_cancelled (bus_heap b ! i)")
  case True
  with ok show ?thesis by simp
next
  case False
  with i have lv: "live b i" by (simp add: live_def)
  let ?b = "bus_unsubscribe i b" and ?t = "sub_event_type (bus_heap b ! i)"
  have subs: "bus_subs ?b = (if remove1 i (bucket b ?t) = [] then dict_del ?t (bus_subs b)
       else dict_put ?t (remove1 i (bucket b ?t)) (bus_subs b)) \<or> bus_subs ?b = bus_subs b"
    using False remove_equal_bucket [OF ok lv, of ?t]
    by (auto simp: bus_unsubscribe_def Let_def bucket_def split: option.splits)
  show ?thesis
    unfolding bus_ok_def
  proof (intro conjI allI impI)
    show "dict_ok (bus_subs ?b)" using subs bus_ok_dict [OF ok] by (auto split: if_splits)
    show "dict_get (bus_subs ?b) t \<noteq> Some []" for t
      using subs bus_ok_nonempty [OF ok, of t] by (auto split: if_splits)
    show "distinct (bucket ?b t)" for t
      using bus_ok_distinct [OF ok] by (simp add: bucket_unsubscribe [OF ok lv] distinct_remove1)
    show "j \<in> set (bucket ?b t) \<longleftrightarrow> j < length (bus_heap ?b)
        \<and> \<not> sub_cancelled (bus_heap ?b ! j) \<and> sub_event_type (bus_heap ?b ! j) = t" for t j
      using bus_ok_mem [OF ok, of j t] bus_ok_distinct [OF ok, of t] lv
      by (cases "j < length (bus_heap b)")
        (auto simp: bucket_unsubscribe [OF ok lv] heap_unsubscribe [OF False] live_def set_remove1_eq
              split: if_splits)
  qed
qed

lemma bus_ok_act: "bus_ok b \<Longrightarrow> bus_ok (bus_act a b)"
  by (cases a) (auto intro: bus_ok_subscribe bus_ok_unsubscribe)

lemma bus_acts_Nil [simp]: "bus_acts [] b = b"
  by (simp add: bus_acts_def)

lemma bus_acts_Cons [simp]: "bus_acts (a # as) b = bus_acts as (bus_act a b)"
  by (simp add: bus_acts_def)

lemma bus_ok_acts: "bus_ok b \<Longrightarrow> bus_ok (bus_acts as b)"
  by (induction as arbitrary: b) (auto intro: bus_ok_act)


lemmas bus_acts_simps = bus_acts_Nil bus_acts_Cons

section \<open>How the registry evolves while handlers run\<close>

text \<open>
  The registry only grows, an object keeps its type, key and handler, and a cancelled
  subscription stays cancelled.
\<close>

definition bus_evolves :: "bus \<Rightarrow> bus \<Rightarrow> bool" where
  "bus_evolves b b' \<longleftrightarrow> length (bus_heap b) \<le> length (bus_heap b') \<and>
     (\<forall>i < length (bus_heap b).
        sub_event_type (bus_heap b' ! i) = sub_event_type (bus_heap b ! i)
        \<and> sub_event_key (bus_heap b' ! i) = sub_event_key (bus_heap b ! i)
        \<and> sub_handler (bus_heap b' ! i) = sub_handler (bus_heap b ! i)
        \<and> (sub_cancelled (bus_heap b ! i) \<longrightarrow> sub_cancelled (bus_heap b' ! i)))"

lemma bus_evolves_refl [simp]: "bus_evolves b b"
  by (simp add: bus_evolves_def)

lemma bus_evolves_trans: "bus_evolves a b \<Longrightarrow> bus_evolves b c \<Longrightarrow> bus_evolves a c"
  unfolding bus_evolves_def by (metis order_less_le_trans order_trans)

lemma bus_evolves_act: "bus_evolves b (bus_act a b)"
proof (cases a)
  case (Subscribe t h k)
  then show ?thesis by (simp add: bus_evolves_def heap_subscribe nth_append)
next
  case (Unsubscribe i)
  then show ?thesis
    by (cases "sub_cancelled (bus_heap b ! i)") (auto simp: bus_evolves_def heap_unsubscribe)
qed

lemma bus_evolves_acts: "bus_evolves b (bus_acts as b)"
  by (induction as arbitrary: b) (auto intro: bus_evolves_trans bus_evolves_act)

text \<open>The equations of the fan-out, one per way a subscription is treated.\<close>

definition wants :: "bus \<Rightarrow> bus_event \<Rightarrow> oid \<Rightarrow> bool" where
  "wants b e i \<longleftrightarrow> \<not> sub_cancelled (bus_heap b ! i) \<and>
     (sub_event_key (bus_heap b ! i) = None \<or> sub_event_key (bus_heap b ! i) = event_key_of e)"

lemma fan_out_skip: "\<not> wants b e i \<Longrightarrow> fan_out sc e (i # ids) b = fan_out sc e ids b"
  by (auto simp: wants_def Let_def)

lemma fan_out_call:
  "wants b e i \<Longrightarrow> sc (sub_handler (bus_heap b ! i)) e b = (as, r) \<Longrightarrow>
     fan_out sc e (i # ids) b =
       (if r = Aborted then ([(i, r)], bus_acts as b)
        else ((i, r) # fst (fan_out sc e ids (bus_acts as b)), snd (fan_out sc e ids (bus_acts as b))))"
  by (auto simp: wants_def Let_def case_prod_unfold)

declare fan_out.simps(2) [simp del]

text \<open>Case analysis of one step, shared by the inductions below.\<close>

lemma fan_out_cases:
  obtains (skip) "\<not> wants b e i" "fan_out sc e (i # ids) b = fan_out sc e ids b"
  | (abort) as where "wants b e i" "fan_out sc e (i # ids) b = ([(i, Aborted)], bus_acts as b)"
  | (call) as r where "wants b e i" "r \<noteq> Aborted" "sc (sub_handler (bus_heap b ! i)) e b = (as, r)"
      "fan_out sc e (i # ids) b = ((i, r) # fst (fan_out sc e ids (bus_acts as b)),
         snd (fan_out sc e ids (bus_acts as b)))"
  using fan_out_skip [of b e i sc ids] fan_out_call [of b e i sc _ _ ids]
  by (metis surj_pair)

lemma bus_ok_fan_out: "bus_ok b \<Longrightarrow> bus_ok (snd (fan_out sc e ids b))"
proof (induction ids arbitrary: b)
  case (Cons i ids)
  show ?case
    by (cases rule: fan_out_cases [of b e i sc ids]) (use Cons in \<open>auto intro: bus_ok_acts\<close>)
qed simp

lemma subseq_set_subset: "subseq xs ys \<Longrightarrow> set xs \<subseteq> set ys"
  by (induction xs ys rule: list_emb.induct) auto

lemma subseq_distinct: "subseq xs ys \<Longrightarrow> distinct ys \<Longrightarrow> distinct xs"
  by (induction xs ys rule: list_emb.induct) (auto dest: subseq_set_subset)

lemma fan_out_subseq: "subseq (map fst (fst (fan_out sc e ids b))) ids"
proof (induction ids arbitrary: b)
  case (Cons i ids)
  show ?case
    by (cases rule: fan_out_cases [of b e i sc ids]) (use Cons in auto)
qed simp

lemma fan_out_not_cancelled:
  "sub_cancelled (bus_heap b ! i) \<Longrightarrow> i < length (bus_heap b) \<Longrightarrow>
     i \<notin> fst ` set (fst (fan_out sc e ids b))"
proof (induction ids arbitrary: b)
  case (Cons j ids)
  have mono: "sub_cancelled (bus_heap (bus_acts as b) ! i) \<and> i < length (bus_heap (bus_acts as b))" for as
    using bus_evolves_acts [of b as] Cons.prems by (auto simp: bus_evolves_def)
  show ?case
  proof (cases rule: fan_out_cases [of b e j sc ids])
    case skip
    with Cons show ?thesis by simp
  next
    case (abort as)
    with Cons.prems show ?thesis by (auto simp: wants_def)
  next
    case (call as r)
    with Cons.IH [of "bus_acts as b"] mono [of as] Cons.prems show ?thesis by (auto simp: wants_def)
  qed
qed simp

lemma fan_out_key:
  "(i, r) \<in> set (fst (fan_out sc e ids b)) \<Longrightarrow> set ids \<subseteq> {..<length (bus_heap b)} \<Longrightarrow>
     sub_event_key (bus_heap b ! i) = None \<or> sub_event_key (bus_heap b ! i) = event_key_of e"
proof (induction ids arbitrary: b)
  case (Cons j ids)
  show ?case
  proof (cases rule: fan_out_cases [of b e j sc ids])
    case skip
    with Cons show ?thesis by simp
  next
    case (abort as)
    with Cons.prems show ?thesis by (auto simp: wants_def)
  next
    case (call as r')
    have ev: "bus_evolves b (bus_acts as b)" by (rule bus_evolves_acts)
    show ?thesis
    proof (cases "(i, r) = (j, r')")
      case True
      with call show ?thesis by (simp add: wants_def)
    next
      case False
      with Cons.prems(1) call have mem: "(i, r) \<in> set (fst (fan_out sc e ids (bus_acts as b)))" by auto
      moreover from Cons.prems(2) ev have "set ids \<subseteq> {..<length (bus_heap (bus_acts as b))}"
        by (auto simp: bus_evolves_def)
      ultimately have "sub_event_key (bus_heap (bus_acts as b) ! i) = None
          \<or> sub_event_key (bus_heap (bus_acts as b) ! i) = event_key_of e" by (rule Cons.IH)
      moreover have "i \<in> set ids"
        using set_mp [OF subseq_set_subset [OF fan_out_subseq [of sc e ids "bus_acts as b"]], of i] mem
        by force
      moreover from this Cons.prems(2) have "i < length (bus_heap b)" by auto
      ultimately show ?thesis using ev by (simp add: bus_evolves_def)
    qed
  qed
qed simp

text \<open>Handlers that leave the bus alone: the calls are the matching subscriptions, in order.\<close>

lemma fan_out_quiet:
  assumes "\<And>h. fst (sc h e b) = []" and "\<And>h. snd (sc h e b) \<noteq> Aborted"
  shows "fan_out sc e ids b =
    (map (\<lambda>i. (i, snd (sc (sub_handler (bus_heap b ! i)) e b))) (filter (wants b e) ids), b)"
proof (induction ids)
  case (Cons i ids)
  show ?case
  proof (cases "wants b e i")
    case True
    obtain as r where "sc (sub_handler (bus_heap b ! i)) e b = (as, r)" by fastforce
    moreover from this assms have "as = []" "r \<noteq> Aborted" by (metis fst_conv, metis snd_conv)
    ultimately show ?thesis using True Cons by (simp add: fan_out_call [where sc = sc, OF True])
  next
    case False
    with Cons show ?thesis by (simp add: fan_out_skip)
  qed
qed simp

text \<open>Whether a handler returns or raises makes no difference to the others.\<close>

definition quietened :: "script \<Rightarrow> script" where
  "quietened sc h e b = (fst (sc h e b), if snd (sc h e b) = Raised then Returned else snd (sc h e b))"

lemma fan_out_quietened:
  "map fst (fst (fan_out (quietened sc) e ids b)) = map fst (fst (fan_out sc e ids b))
   \<and> snd (fan_out (quietened sc) e ids b) = snd (fan_out sc e ids b)"
proof (induction ids arbitrary: b)
  case (Cons i ids)
  show ?case
  proof (cases "wants b e i")
    case True
    obtain as r where sc: "sc (sub_handler (bus_heap b ! i)) e b = (as, r)" by fastforce
    then have "quietened sc (sub_handler (bus_heap b ! i)) e b
        = (as, if r = Raised then Returned else r)"
      by (simp add: quietened_def)
    from fan_out_call [where sc = "quietened sc" and ids = ids, OF True this]
      fan_out_call [where sc = sc and ids = ids, OF True sc] Cons
    show ?thesis by (cases r) auto
  next
    case False
    with Cons show ?thesis by (simp add: fan_out_skip)
  qed
qed simp

section \<open>Runs of the registry\<close>

text \<open>
  Everything an application does with the bus, as a step relation: bus operations by anyone
  and publications whose handlers run any script.
\<close>

inductive bus_reachable :: "bus \<Rightarrow> bool" where
  start: "bus_reachable empty_bus"
| act: "bus_reachable b \<Longrightarrow> bus_reachable (bus_act a b)"
| publish: "bus_reachable b \<Longrightarrow> bus_reachable (snd (bus_publish sc e b))"

lemma bus_reachable_ok: "bus_reachable b \<Longrightarrow> bus_ok b"
  by (induction rule: bus_reachable.induct)
    (auto intro: bus_ok_empty bus_ok_act bus_ok_fan_out simp: bus_publish_def)

text \<open>Cancelling a list of subscriptions.\<close>

lemma unsubscribe_all:
  assumes "bus_ok b" and "set ids \<subseteq> {..<length (bus_heap b)}"
  shows "bus_ok (fold bus_unsubscribe ids b)
    \<and> bus_heap (fold bus_unsubscribe ids b) =
        map (\<lambda>j. (bus_heap b ! j)\<lparr>sub_cancelled := sub_cancelled (bus_heap b ! j) \<or> j \<in> set ids\<rparr>)
          [0..<length (bus_heap b)]"
  using assms
proof (induction ids arbitrary: b)
  case Nil
  then show ?case by (auto intro!: nth_equalityI)
next
  case (Cons i ids)
  let ?b = "bus_unsubscribe i b"
  have ok: "bus_ok ?b" using Cons.prems by (intro bus_ok_unsubscribe) auto
  have hp: "bus_heap ?b ! j = (bus_heap b ! j)\<lparr>sub_cancelled := sub_cancelled (bus_heap b ! j) \<or> j = i\<rparr>"
    if "j < length (bus_heap b)" for j
    using that by (cases "sub_cancelled (bus_heap b ! i)"; cases "j = i") (simp_all add: heap_unsubscribe)
  from Cons.IH [OF ok] Cons.prems hp show ?case by (auto simp: disj_ac)
qed


section \<open>Properties\<close>

text \<open>A registry in which one handler is registered twice for the same type, used by the witnesses.\<close>

definition twin_bus :: bus where
  "twin_bus = bus_act (Subscribe ''V'' 7 None) (bus_act (Subscribe ''V'' 7 None) empty_bus)"

lemma twin_bus_reachable: "bus_reachable twin_bus"
  unfolding twin_bus_def by (intro bus_reachable.intros)

lemmas twin_bus_simps =
  twin_bus_def empty_bus_def bus_subscribe_def bus_unsubscribe_def alloc_def bucket_def mutate_def
  live_def

lemma filter_eq_remove1: "distinct xs \<Longrightarrow> filter (\<lambda>j. j \<noteq> i) xs = remove1 i xs"
  by (simp add: distinct_remove1_removeAll removeAll_filter_not_eq eq_commute)

text \<open>Fact: an unsubscribe callback removes its own registration and nothing else, also when an
  equal registration (same type, key and handler) exists, in every reachable registry; calling
  it a second time changes nothing.\<close>

theorem unsubscribe_exact:
  assumes "bus_reachable b" and "i < length (bus_heap b)"
  shows "bucket (bus_unsubscribe i b) t = filter (\<lambda>j. j \<noteq> i) (bucket b t)
    \<and> \<not> live (bus_unsubscribe i b) i
    \<and> bus_unsubscribe i (bus_unsubscribe i b) = bus_unsubscribe i b"
proof (cases "sub_cancelled (bus_heap b ! i)")
  case True
  with bus_ok_mem [OF bus_reachable_ok [OF assms(1)], of i t] have "i \<notin> set (bucket b t)"
    by (simp add: live_def)
  then have "filter (\<lambda>j. j \<noteq> i) (bucket b t) = bucket b t" by (intro filter_True) auto
  with True show ?thesis by (simp add: live_def)
next
  case False
  have ok: "bus_ok b" by (rule bus_reachable_ok [OF assms(1)])
  from False assms(2) have lv: "live b i" by (simp add: live_def)
  have c: "sub_cancelled (bus_heap (bus_unsubscribe i b) ! i)"
    using False assms(2) by (simp add: heap_unsubscribe)
  then show ?thesis
    using bus_ok_distinct [OF ok, of t]
    by (simp add: bucket_unsubscribe [OF ok lv] filter_eq_remove1 live_def)
qed

theorem unsubscribe_exact_witness:
  "bucket twin_bus ''V'' = [0, 1] \<and> bucket (bus_unsubscribe 1 twin_bus) ''V'' = [0]"
proof -
  have "1 < length (bus_heap twin_bus)" by (simp add: twin_bus_simps)
  from unsubscribe_exact [OF twin_bus_reachable this, of "''V''"] show ?thesis
    by (simp add: twin_bus_simps)
qed



text \<open>Fact: a handler that raises is isolated: the fan-out calls the same subscriptions and leaves
  the same registry as if every raising handler had returned.\<close>

theorem raising_handler_isolated:
  "map fst (fst (bus_publish (quietened sc) e b)) = map fst (fst (bus_publish sc e b))
   \<and> snd (bus_publish (quietened sc) e b) = snd (bus_publish sc e b)"
  unfolding bus_publish_def by (rule fan_out_quietened)

text \<open>Fact: a subscription cancelled by a handler that runs earlier in the same fan-out is not
  called any more.\<close>

theorem cancelled_mid_fan_out_not_called:
  assumes "wants b e i" and "sc (sub_handler (bus_heap b ! i)) e b = (as, r)"
    and "j < length (bus_heap b)" and "j \<noteq> i" and "sub_cancelled (bus_heap (bus_acts as b) ! j)"
  shows "j \<notin> fst ` set (fst (fan_out sc e (i # ids) b))"
proof -
  have "j < length (bus_heap (bus_acts as b))"
    using bus_evolves_acts [of b as] assms(3) by (simp add: bus_evolves_def)
  from fan_out_not_cancelled [OF assms(5) this, of sc e ids] assms(4)
    fan_out_call [where sc = sc and ids = ids, OF assms(1,2)]
  show ?thesis by simp
qed

theorem cancelled_mid_fan_out_not_called_witness:
  "1 \<notin> fst ` set (fst (fan_out (\<lambda>h e b. ([Unsubscribe 1], Returned)) (BusEvent ''V'' None) [0, 1] twin_bus))"
  by (rule cancelled_mid_fan_out_not_called [where as = "[Unsubscribe 1]" and r = Returned])
    (simp_all add: twin_bus_simps wants_def)

text \<open>Fact: cancelling a group ends every subscription it made and touches no other; the group is
  empty afterwards, and cancelling it again changes nothing.\<close>

theorem group_cancel_exact:
  assumes "bus_reachable b" and "set (group_members g) \<subseteq> {..<length (bus_heap b)}"
  shows "(\<forall>i. live (snd (group_cancel (g, b))) i \<longleftrightarrow> live b i \<and> i \<notin> set (group_members g))
    \<and> group_size (fst (group_cancel (g, b))) = 0
    \<and> group_cancel (group_cancel (g, b)) = group_cancel (g, b)"
  using unsubscribe_all [OF bus_reachable_ok [OF assms(1)] assms(2)]
  by (auto simp: group_cancel_def group_size_def live_def)

theorem group_cancel_exact_witness:
  "live (snd (group_cancel (\<lparr>group_name = ''g'', group_members = [1]\<rparr>, twin_bus))) 0
   \<and> \<not> live (snd (group_cancel (\<lparr>group_name = ''g'', group_members = [1]\<rparr>, twin_bus))) 1"
proof -
  have "set (group_members \<lparr>group_name = ''g'', group_members = [1]\<rparr>) \<subseteq> {..<length (bus_heap twin_bus)}"
    by (simp add: twin_bus_simps)
  moreover have "live twin_bus 0" by (simp add: twin_bus_simps)
  ultimately show ?thesis using group_cancel_exact [OF twin_bus_reachable] by simp
qed

lemma dict_values_disjoint:
  assumes "dict_ok d" and "\<And>k v. dict_get d k = Some v \<Longrightarrow> distinct v"
    and "\<And>k k' v v'. dict_get d k = Some v \<Longrightarrow> dict_get d k' = Some v' \<Longrightarrow> k \<noteq> k' \<Longrightarrow> set v \<inter> set v' = {}"
  shows "distinct (concat (dict_values d))"
  using assms
proof (induction d)
  case (Cons p d)
  obtain k v where p: "p = (k, v)" by fastforce
  have d: "dict_ok d" and k: "dict_get d k = None" using Cons.prems(1) p
    by (auto simp: dict_ok_def dict_get_None_iff)
  have old: "dict_get (p # d) k' = Some v'" if "dict_get d k' = Some v'" for k' v'
    using that k p by auto
  have "distinct (concat (dict_values d))"
    using Cons.IH [OF d] Cons.prems(2,3) old by blast
  moreover have "set v \<inter> set v' = {}" if "v' \<in> set (dict_values d)" for v'
  proof -
    from that obtain k' where "(k', v') \<in> set d" by auto
    then have "dict_get d k' = Some v'" using dict_get_iff_mem [OF d] by blast
    moreover from this k have "k' \<noteq> k" by auto
    ultimately show ?thesis using Cons.prems(3) [of k v k' v'] p by auto
  qed
  ultimately show ?case using Cons.prems(2) [of k v] p by auto
qed simp

lemma card_live: "bus_ok b \<Longrightarrow> subscription_count None b = card {i. live b i}"
proof -
  assume ok: "bus_ok b"
  have bk: "bucket b t = ids" if "dict_get (bus_subs b) t = Some ids" for t ids
    using that by (simp add: bucket_def)
  have dis: "distinct (concat (dict_values (bus_subs b)))"
    by (rule dict_values_disjoint [OF bus_ok_dict [OF ok]])
      (use bk bus_ok_distinct [OF ok] bus_ok_mem [OF ok] in \<open>auto, metis\<close>)
  have "set (concat (dict_values (bus_subs b))) = {i. live b i}"
  proof (intro set_eqI iffI)
    fix i assume "i \<in> set (concat (dict_values (bus_subs b)))"
    then obtain t ids where "(t, ids) \<in> set (bus_subs b)" "i \<in> set ids" by auto
    then show "i \<in> {i. live b i}"
      using bk bus_ok_mem [OF ok] dict_get_iff_mem [OF bus_ok_dict [OF ok]] by (metis mem_Collect_eq)
  next
    fix i assume "i \<in> {i. live b i}"
    then have "i \<in> set (bucket b (sub_event_type (bus_heap b ! i)))" using bus_ok_mem [OF ok] by simp
    then obtain t ids where "dict_get (bus_subs b) t = Some ids" "i \<in> set ids"
      by (cases "dict_get (bus_subs b) (sub_event_type (bus_heap b ! i))") (simp_all add: bucket_def)
    then show "i \<in> set (concat (dict_values (bus_subs b)))" by (force dest: map_of_SomeD)
  qed
  moreover have "subscription_count None b = length (concat (dict_values (bus_subs b)))"
    by (simp add: subscription_count_def length_concat)
  ultimately show ?thesis using distinct_card [OF dis] by simp
qed

text \<open>Fact: the subscription count is the number of live subscriptions, in total and per event
  type, in every reachable registry.\<close>

theorem subscription_count_live:
  assumes "bus_reachable b"
  shows "subscription_count None b = card {i. live b i}
    \<and> subscription_count (Some t) b = card {i. live b i \<and> sub_event_type (bus_heap b ! i) = t}"
proof -
  have ok: "bus_ok b" by (rule bus_reachable_ok [OF assms])
  have "set (bucket b t) = {i. live b i \<and> sub_event_type (bus_heap b ! i) = t}"
    using bus_ok_mem [OF ok] by auto
  then show ?thesis
    using card_live [OF ok] distinct_card [OF bus_ok_distinct [OF ok, of t]]
    by (simp add: subscription_count_def)
qed

theorem subscription_count_live_witness:
  "subscription_count None (bus_act (Unsubscribe 0) twin_bus) = card {i. live (bus_act (Unsubscribe 0) twin_bus) i}
   \<and> subscription_count None (bus_act (Unsubscribe 0) twin_bus) = 1"
  using subscription_count_live [OF bus_reachable.act [OF twin_bus_reachable], of "Unsubscribe 0"]
  by (simp add: twin_bus_simps subscription_count_def)

end
