(* ===== verification/Errors.thy ===== *)
theory Errors
  imports Prelude
begin

text \<open>
  Model of \<open>exceptions.py\<close> (the exception hierarchy and the dispatch of an RFC 9457 problem to
  a class), of \<open>boxgate.py\<close> (telling a box gate's refusal from the daemon's own answer) and of
  the wire types they use (\<open>wire/rest.py\<close>: \<open>Code\<close>, \<open>Problem\<close>). Exceptions are values; the
  human-readable message is not modelled.
\<close>

section \<open>The exception hierarchy\<close>

datatype exc_class =
    BaseLoomException
  | LoomTransportError
  | LoomIncompatibleVersionError
  | LoomBoxGateError
  | LoomBoxTokenError
  | LoomBoxPairingError
  | LoomUnsupportedOperationError
  | LoomHttpError
  | LoomValidationError
  | LoomBadRequestError
  | LoomNotFoundError
  | LoomConflictError
  | LoomAuthError
  | LoomForbiddenError
  | LoomUnsupportedError
  | LoomFeatureUnavailableError
  | LoomRateLimitedError
  | LoomServiceUnreadyError
  | LoomUpstreamUnavailableError
  | LoomInternalError
  | LoomPairingOffError
  | LoomPairingNotLocalError
  | LoomPairingSlowDownError

fun parent_class :: "exc_class \<Rightarrow> exc_class option" where
  "parent_class BaseLoomException = None"
| "parent_class LoomTransportError = Some BaseLoomException"
| "parent_class LoomIncompatibleVersionError = Some LoomTransportError"
| "parent_class LoomBoxGateError = Some LoomTransportError"
| "parent_class LoomBoxTokenError = Some LoomBoxGateError"
| "parent_class LoomBoxPairingError = Some BaseLoomException"
| "parent_class LoomUnsupportedOperationError = Some BaseLoomException"
| "parent_class LoomHttpError = Some BaseLoomException"
| "parent_class LoomFeatureUnavailableError = Some LoomUnsupportedError"
| "parent_class LoomPairingOffError = Some LoomServiceUnreadyError"
| "parent_class LoomPairingNotLocalError = Some LoomForbiddenError"
| "parent_class LoomPairingSlowDownError = Some LoomRateLimitedError"
| "parent_class _ = Some LoomHttpError"

fun class_depth :: "exc_class \<Rightarrow> nat" where
  "class_depth BaseLoomException = 0"
| "class_depth LoomTransportError = 1"
| "class_depth LoomHttpError = 1"
| "class_depth LoomBoxPairingError = 1"
| "class_depth LoomUnsupportedOperationError = 1"
| "class_depth LoomBoxTokenError = 3"
| "class_depth LoomFeatureUnavailableError = 3"
| "class_depth LoomPairingOffError = 3"
| "class_depth LoomPairingNotLocalError = 3"
| "class_depth LoomPairingSlowDownError = 3"
| "class_depth _ = 2"

lemma parent_class_depth: "parent_class c = Some p \<Longrightarrow> class_depth p < class_depth c"
  by (cases c) auto

text \<open>\<open>issubclass\<close>: a class is a subclass of itself and of everything its parent is.\<close>

function subclass_of :: "exc_class \<Rightarrow> exc_class \<Rightarrow> bool" where
  "subclass_of c d = (c = d \<or> (case parent_class c of None \<Rightarrow> False | Some p \<Rightarrow> subclass_of p d))"
  by pat_completeness auto
termination
  by (relation "measure (\<lambda>(c, d). class_depth c)") (auto dest: parent_class_depth)

declare subclass_of.simps [simp del]

lemma subclass_of_refl [simp]: "subclass_of c c"
  by (simp add: subclass_of.simps)

lemma subclass_of_parent: "parent_class c = Some p \<Longrightarrow> subclass_of c d \<longleftrightarrow> c = d \<or> subclass_of p d"
  by (subst subclass_of.simps) simp

lemma subclass_of_base [simp]: "subclass_of c BaseLoomException"
proof (induction c "BaseLoomException" rule: subclass_of.induct)
  case (1 c)
  show ?case
  proof (cases "parent_class c")
    case None
    then show ?thesis by (cases c) (simp_all)
  next
    case (Some p)
    with 1 show ?thesis by (simp add: subclass_of_parent)
  qed
qed

lemma subclass_of_trans: "subclass_of a b \<Longrightarrow> subclass_of b c \<Longrightarrow> subclass_of a c"
proof (induction a b rule: subclass_of.induct)
  case (1 a b)
  show ?case
  proof (cases "a = b")
    case False
    with 1(2) obtain p where "parent_class a = Some p" "subclass_of p b"
      by (subst (asm) subclass_of.simps) (auto split: option.splits)
    with 1(1) [OF this(1,2)] 1(3) show ?thesis by (simp add: subclass_of_parent)
  qed (use 1 in simp)
qed

section \<open>Problem documents\<close>

text \<open>
  \<open>wire.rest.Code\<close> is a tolerant enumeration: constructing it from a string it does not know
  mints a pseudo-member instead of raising, modelled by \<open>OtherCode\<close>.
\<close>

datatype code =
    Validation | NotFound | Conflict | Unauthorized | Forbidden | Unsupported | RateLimited
  | Internal | BadRequest | ServiceUnready | UpstreamUnavailable | FeatureUnavailable
  | PairingOff | PairingNotLocal | PairingSlowDown
  | OtherCode string

definition code_table :: "(string, code) dict" where
  "code_table =
    [(''validation'', Validation), (''not_found'', NotFound), (''conflict'', Conflict),
     (''unauthorized'', Unauthorized), (''forbidden'', Forbidden), (''unsupported'', Unsupported),
     (''rate_limited'', RateLimited), (''internal'', Internal), (''bad_request'', BadRequest),
     (''service_unready'', ServiceUnready), (''upstream_unavailable'', UpstreamUnavailable),
     (''feature_unavailable'', FeatureUnavailable), (''pairing_off'', PairingOff),
     (''pairing_not_local'', PairingNotLocal), (''pairing_slow_down'', PairingSlowDown)]"

definition code_of_string :: "string \<Rightarrow> code" where
  "code_of_string s = (case dict_get code_table s of Some c \<Rightarrow> c | None \<Rightarrow> OtherCode s)"

record feature =
  feature_central :: string
  feature_key :: string
  feature_reason :: string
  feature_scope :: "string option"

record problem =
  problem_type :: string
  problem_title :: string
  problem_status :: int
  problem_detail :: "string option"
  problem_instance :: "string option"
  problem_code_field :: "code option"
  problem_feature :: "feature option"

definition problem_uri_prefix :: string where
  "problem_uri_prefix = ''https://openccu-loom.dev/errors/''"

text \<open>
  \<open>_problem_code\<close>: the explicit code wins, else the tail of the type URI. The \<open>except
  ValueError\<close> branch of the source is dead, because \<open>Code(tail)\<close> never raises on a string.
\<close>

definition problem_code :: "problem \<Rightarrow> code option" where
  "problem_code p =
     (case problem_code_field p of
        Some c \<Rightarrow> Some c
      | None \<Rightarrow>
          if \<not> starts_with problem_uri_prefix (problem_type p) then None
          else Some (code_of_string (drop (length problem_uri_prefix) (problem_type p))))"

fun code_to_exception :: "code \<Rightarrow> exc_class option" where
  "code_to_exception Validation = Some LoomValidationError"
| "code_to_exception BadRequest = Some LoomBadRequestError"
| "code_to_exception NotFound = Some LoomNotFoundError"
| "code_to_exception Conflict = Some LoomConflictError"
| "code_to_exception Unauthorized = Some LoomAuthError"
| "code_to_exception Forbidden = Some LoomForbiddenError"
| "code_to_exception Unsupported = Some LoomUnsupportedError"
| "code_to_exception FeatureUnavailable = Some LoomFeatureUnavailableError"
| "code_to_exception RateLimited = Some LoomRateLimitedError"
| "code_to_exception ServiceUnready = Some LoomServiceUnreadyError"
| "code_to_exception UpstreamUnavailable = Some LoomUpstreamUnavailableError"
| "code_to_exception Internal = Some LoomInternalError"
| "code_to_exception PairingOff = Some LoomPairingOffError"
| "code_to_exception PairingNotLocal = Some LoomPairingNotLocalError"
| "code_to_exception PairingSlowDown = Some LoomPairingSlowDownError"
| "code_to_exception (OtherCode _) = None"

section \<open>Exception values\<close>

record http_details =
  http_status :: int
  http_problem :: "problem option"
  http_raw_body :: "string option"
  http_method :: string
  http_url :: string

datatype loom_error =
    PlainError (error_class: exc_class)
  | HttpError (error_class: exc_class) (error_details: http_details)

definition error_isinstance :: "loom_error \<Rightarrow> exc_class \<Rightarrow> bool" where
  "error_isinstance e c = subclass_of (error_class e) c"

definition http_error_from_problem ::
  "int \<Rightarrow> problem option \<Rightarrow> string option \<Rightarrow> string \<Rightarrow> string \<Rightarrow> loom_error" where
  "http_error_from_problem status problem raw_body method url =
     (let cls = (case problem of
                   None \<Rightarrow> LoomHttpError
                 | Some p \<Rightarrow>
                     (case problem_code p of
                        None \<Rightarrow> LoomHttpError
                      | Some c \<Rightarrow> (case code_to_exception c of None \<Rightarrow> LoomHttpError | Some k \<Rightarrow> k)))
      in HttpError cls \<lparr>http_status = status, http_problem = problem, http_raw_body = raw_body,
                        http_method = method, http_url = url\<rparr>)"

text \<open>
  \<open>parse_problem\<close>: anything but a JSON object, and any object that fails the model's
  validation, is no problem document. Validation is pydantic's and comes as the argument.
\<close>

definition parse_problem :: "((string, json) dict \<Rightarrow> problem option) \<Rightarrow> json \<Rightarrow> problem option" where
  "parse_problem validate payload = (case payload of JObj d \<Rightarrow> validate d | _ \<Rightarrow> None)"

definition error_feature :: "loom_error \<Rightarrow> feature option" where
  "error_feature e =
     (case e of HttpError _ d \<Rightarrow> (case http_problem d of Some p \<Rightarrow> problem_feature p | None \<Rightarrow> None)
      | PlainError _ \<Rightarrow> None)"

section \<open>The box gate\<close>

definition problem_json_type :: string where
  "problem_json_type = ''application/problem+json''"

definition gate_refusal :: "int \<Rightarrow> string \<Rightarrow> exc_class option" where
  "gate_refusal status content_type =
     (if 300 \<le> status \<and> status < 400 then Some LoomBoxGateError
      else if starts_with problem_json_type content_type then None
      else if status = 401 then Some LoomBoxTokenError
      else if status = 403 then Some LoomBoxGateError
      else None)"

lemma gate_refusal_class:
  "gate_refusal st ct = Some c \<Longrightarrow> c = LoomBoxGateError \<or> c = LoomBoxTokenError"
  by (auto simp: gate_refusal_def split: if_splits)

lemma gate_refusal_is_gate_error: "gate_refusal st ct = Some c \<Longrightarrow> subclass_of c LoomBoxGateError"
  by (auto dest!: gate_refusal_class simp: subclass_of_parent)

lemma gate_refusal_is_transport_error: "gate_refusal st ct = Some c \<Longrightarrow> subclass_of c LoomTransportError"
  by (auto dest!: gate_refusal_class simp: subclass_of_parent)

lemma code_to_exception_http: "code_to_exception c = Some k \<Longrightarrow> subclass_of k LoomHttpError"
  by (cases c) (auto simp: subclass_of_parent)

lemma http_error_class_http:
  "subclass_of (error_class (http_error_from_problem st p raw mth url)) LoomHttpError"
  by (auto simp: http_error_from_problem_def dest: code_to_exception_http split: option.splits)

text \<open>The two branches of the hierarchy below the root are disjoint.\<close>

lemma http_not_transport: "subclass_of c LoomHttpError \<Longrightarrow> \<not> subclass_of c LoomTransportError"
  by (cases c) (simp_all add: subclass_of.simps)

section \<open>Properties\<close>

text \<open>C11: every error token of the wire catalogue selects its own exception class, and the two
  signals agree: a problem that carries the token as \<open>code\<close> and one that carries it only in its
  type URI raise the same class. An unknown token raises the generic \<open>LoomHttpError\<close>.\<close>

theorem problem_dispatch_agrees:
  assumes "problem_code_field p = Some (code_of_string tok)"
    and "problem_code_field q = None" and "problem_type q = problem_uri_prefix @ tok"
  shows "error_class (http_error_from_problem st (Some p) raw mth url)
           = error_class (http_error_from_problem st' (Some q) raw' mth' url')
    \<and> error_class (http_error_from_problem st (Some p) raw mth url)
           = (case code_to_exception (code_of_string tok) of None \<Rightarrow> LoomHttpError | Some k \<Rightarrow> k)
    \<and> (tok \<notin> set (dict_keys code_table) \<longrightarrow>
         error_class (http_error_from_problem st (Some p) raw mth url) = LoomHttpError)"
proof -
  have "problem_code p = Some (code_of_string tok)" "problem_code q = Some (code_of_string tok)"
    using assms by (simp_all add: problem_code_def)
  moreover have "code_of_string tok = OtherCode tok" if "tok \<notin> set (dict_keys code_table)"
    using that by (simp add: code_of_string_def dict_get_None_iff [THEN iffD2])
  ultimately show ?thesis by (auto simp: http_error_from_problem_def)
qed

theorem problem_dispatch_agrees_witness:
  "error_class (http_error_from_problem 503 (Some \<lparr>problem_type = problem_uri_prefix @ ''pairing_off'',
       problem_title = ''off'', problem_status = 503, problem_detail = None, problem_instance = None,
       problem_code_field = None, problem_feature = None\<rparr>) None ''GET'' ''/x'') = LoomPairingOffError"
  using problem_dispatch_agrees [of
      "\<lparr>problem_type = '''', problem_title = ''off'', problem_status = 503, problem_detail = None,
        problem_instance = None, problem_code_field = Some PairingOff, problem_feature = None\<rparr>"
      "''pairing_off''"
      "\<lparr>problem_type = problem_uri_prefix @ ''pairing_off'', problem_title = ''off'', problem_status = 503,
        problem_detail = None, problem_instance = None, problem_code_field = None, problem_feature = None\<rparr>"
      503 None "''GET''" "''/x''" 503 None "''GET''" "''/x''"]
  by (auto simp: code_of_string_def code_table_def)

text \<open>Fact: an answer is attributed to the box gate exactly when it is a redirect, or a 401 or 403
  whose content type is not the daemon's problem document; it is a token error exactly for the
  401, and always a transport error, so handlers of unreachable daemons see it.\<close>

theorem gate_refusal_spec:
  "(gate_refusal st ct \<noteq> None \<longleftrightarrow>
      300 \<le> st \<and> st < 400 \<or> (st = 401 \<or> st = 403) \<and> \<not> starts_with problem_json_type ct)
   \<and> (gate_refusal st ct = Some LoomBoxTokenError \<longleftrightarrow> st = 401 \<and> \<not> starts_with problem_json_type ct)
   \<and> (\<forall>c. gate_refusal st ct = Some c \<longrightarrow>
        subclass_of c LoomBoxGateError \<and> subclass_of c LoomTransportError \<and> \<not> subclass_of c LoomHttpError)"
proof -
  have "(gate_refusal st ct \<noteq> None \<longleftrightarrow>
      300 \<le> st \<and> st < 400 \<or> (st = 401 \<or> st = 403) \<and> \<not> starts_with problem_json_type ct)
    \<and> (gate_refusal st ct = Some LoomBoxTokenError \<longleftrightarrow> st = 401 \<and> \<not> starts_with problem_json_type ct)"
    by (auto simp: gate_refusal_def)
  then show ?thesis
    using gate_refusal_is_gate_error gate_refusal_is_transport_error http_not_transport by blast
qed

theorem gate_refusal_spec_witness:
  "subclass_of LoomBoxTokenError LoomTransportError \<and> gate_refusal 401 ''text/html'' = Some LoomBoxTokenError
   \<and> gate_refusal 401 ''application/problem+json'' = None"
  using gate_refusal_spec [of 401 "''text/html''"] gate_refusal_spec [of 401 "''application/problem+json''"]
  by (simp add: starts_with_def problem_json_type_def)

end
