(* ===== verification/Config.thy ===== *)
theory Config
  imports Prelude
begin

text \<open>
  Model of \<open>auth.py\<close> (the credential strategies and what they put into a request's headers) and
  \<open>config.py\<close> (\<open>BoxIngressConfig\<close>, \<open>LoomConfig\<close>, its construction check and the URLs derived
  from it). Strings are UTF-8 byte sequences. Headers are dictionaries, as in the code.
\<close>

section \<open>Text helpers of the standard library\<close>

definition digit :: "nat \<Rightarrow> char" where
  "digit n = char_of (48 + n)"

fun show_nat :: "nat \<Rightarrow> string" where
  "show_nat n = (if n < 10 then [digit n] else show_nat (n div 10) @ [digit (n mod 10)])"

declare show_nat.simps [simp del]

definition show_int :: "int \<Rightarrow> string" where
  "show_int i = (if i < 0 then ''-'' @ show_nat (nat (- i)) else show_nat (nat i))"

definition rstrip_slash :: "string \<Rightarrow> string" where
  "rstrip_slash s = rev (dropWhile (\<lambda>c. c = CHR ''/'') (rev s))"

definition b64_alphabet :: string where
  "b64_alphabet = ''ABCDEFGHIJKLMNOPQRSTUVWXYZabcdefghijklmnopqrstuvwxyz0123456789+/''"

definition b64_char :: "nat \<Rightarrow> char" where
  "b64_char n = b64_alphabet ! n"

fun b64encode :: "string \<Rightarrow> string" where
  "b64encode [] = []"
| "b64encode [x] =
     (let a = of_char x :: nat in [b64_char (a div 4), b64_char (a mod 4 * 16), CHR ''='', CHR ''=''])"
| "b64encode [x, y] =
     (let a = of_char x :: nat; b = of_char y in
      [b64_char (a div 4), b64_char (a mod 4 * 16 + b div 16), b64_char (b mod 16 * 4), CHR ''=''])"
| "b64encode (x # y # z # xs) =
     (let a = of_char x :: nat; b = of_char y; c = of_char z in
      [b64_char (a div 4), b64_char (a mod 4 * 16 + b div 16), b64_char (b mod 16 * 4 + c div 64),
       b64_char (c mod 64)] @ b64encode xs)"

section \<open>Credentials\<close>

type_synonym headers = "(string, string) dict"

datatype auth_method =
    BasicAuth (basic_username: string) (basic_password: string)
  | BearerAuth (bearer_token: string) (bearer_label: string)
  | NoAuth
  | SessionAuth (session_cookie_value: string) (session_cookie_name: string)

definition token_fingerprint_length :: nat where
  "token_fingerprint_length = 6"

fun auth_apply_to_headers :: "auth_method \<Rightarrow> headers \<Rightarrow> headers" where
  "auth_apply_to_headers (BasicAuth u p) h =
     dict_put ''Authorization'' (''Basic '' @ b64encode (u @ '':'' @ p)) h"
| "auth_apply_to_headers (BearerAuth t l) h = dict_put ''Authorization'' (''Bearer '' @ t) h"
| "auth_apply_to_headers NoAuth h = h"
| "auth_apply_to_headers (SessionAuth v n) h =
     (let existing = (case dict_get h ''Cookie'' of None \<Rightarrow> '''' | Some c \<Rightarrow> c);
          pair = n @ ''='' @ v
      in dict_put ''Cookie'' (if existing \<noteq> '''' then existing @ ''; '' @ pair else pair) h)"

definition ellipsis :: string where
  "ellipsis = [CHR 0xE2, CHR 0x80, CHR 0xA6]"

fun identity_hint :: "auth_method \<Rightarrow> string" where
  "identity_hint (BasicAuth u p) = ''basic:'' @ u"
| "identity_hint (BearerAuth t l) =
     (let suffix = (if token_fingerprint_length \<le> length t
                    then drop (length t - token_fingerprint_length) t else ''******'')
      in ''bearer:'' @ l @ '':'' @ ellipsis @ suffix)"
| "identity_hint NoAuth = ''none (box token)''"
| "identity_hint (SessionAuth v n) = ''session:'' @ n"

section \<open>Configuration\<close>

definition default_http_port :: int where "default_http_port = 8119"
definition default_https_port :: int where "default_https_port = 8119"
definition default_box_https_port :: int where "default_box_https_port = 443"
definition default_box_http_port :: int where "default_box_http_port = 80"

record box_ingress_config =
  box_token :: string
  box_port :: "int option"
  box_path_prefix :: string

definition box_apply_to_headers :: "box_ingress_config \<Rightarrow> headers \<Rightarrow> headers" where
  "box_apply_to_headers b h = dict_put ''Authorization'' (''Bearer '' @ box_token b) h"

record loom_config =
  cfg_host :: string
  cfg_auth :: auth_method
  cfg_port :: "int option"
  cfg_tls :: bool
  cfg_verify_tls :: bool
  cfg_base_path :: string
  cfg_request_timeout :: rat
  cfg_extra_headers :: headers
  cfg_user_agent :: string
  cfg_released_only :: bool
  cfg_readiness_wait :: rat
  cfg_box_ingress :: "box_ingress_config option"

datatype config_error = ValueError

definition config_post_init :: "loom_config \<Rightarrow> config_error + loom_config" where
  "config_post_init c =
     (let c' = (case cfg_port c of
                  None \<Rightarrow> c\<lparr>cfg_port := Some (if cfg_tls c then default_https_port else default_http_port)\<rparr>
                | Some _ \<Rightarrow> c)
      in if cfg_box_ingress c' \<noteq> None \<and> cfg_auth c' \<noteq> NoAuth then Inl ValueError else Inr c')"

definition show_port :: "int option \<Rightarrow> string" where
  "show_port p = (case p of None \<Rightarrow> ''None'' | Some i \<Rightarrow> show_int i)"

definition authority :: "loom_config \<Rightarrow> string" where
  "authority c =
     (case cfg_box_ingress c of
        None \<Rightarrow> cfg_host c @ '':'' @ show_port (cfg_port c)
      | Some b \<Rightarrow>
          let box_port = (case box_port b of
                            None \<Rightarrow> if cfg_tls c then default_box_https_port else default_box_http_port
                          | Some p \<Rightarrow> p)
          in cfg_host c @ '':'' @ show_int box_port)"

definition ingress_prefix :: "loom_config \<Rightarrow> string" where
  "ingress_prefix c =
     (case cfg_box_ingress c of None \<Rightarrow> '''' | Some b \<Rightarrow> rstrip_slash (box_path_prefix b))"

definition http_base_url :: "loom_config \<Rightarrow> string" where
  "http_base_url c =
     (if cfg_tls c then ''https'' else ''http'') @ ''://'' @ authority c @ ingress_prefix c @ cfg_base_path c"

definition ws_url :: "loom_config \<Rightarrow> string" where
  "ws_url c =
     (if cfg_tls c then ''wss'' else ''ws'') @ ''://'' @ authority c @ ingress_prefix c @ cfg_base_path c
       @ ''/events''"

definition create_central_url :: "loom_config \<Rightarrow> string" where
  "create_central_url c =
     (if cfg_tls c then ''https'' else ''http'') @ ''://'' @ authority c @ ingress_prefix c"

text \<open>
  The headers of one REST request (\<open>HttpTransport._build_headers\<close>): the fixed ones, the
  configured extra headers, the caller's, the credential, and last the box token.
\<close>

definition dict_update :: "('k, 'v) dict \<Rightarrow> ('k, 'v) dict \<Rightarrow> ('k, 'v) dict" where
  "dict_update d new = fold (\<lambda>(k, v). dict_put k v) new d"

definition build_headers :: "loom_config \<Rightarrow> headers option \<Rightarrow> headers" where
  "build_headers c extra =
     (let base = dict_update [(''Accept'', ''application/json''), (''User-Agent'', cfg_user_agent c)]
                   (cfg_extra_headers c);
          h1 = (case extra of None \<Rightarrow> base | Some x \<Rightarrow> dict_update base x);
          h2 = auth_apply_to_headers (cfg_auth c) h1
      in case cfg_box_ingress c of None \<Rightarrow> h2 | Some b \<Rightarrow> box_apply_to_headers b h2)"

section \<open>Decoding, to state that encoding loses nothing\<close>

definition b64_value :: "char \<Rightarrow> nat" where
  "b64_value c = (case dict_get (zip b64_alphabet [0..<64]) c of Some n \<Rightarrow> n | None \<Rightarrow> 0)"

fun b64decode :: "string \<Rightarrow> string" where
  "b64decode (p # q # r # s # xs) =
     (let a = b64_value p; b = b64_value q; c = b64_value r; d = b64_value s in
      if r = CHR ''='' then [char_of (a * 4 + b div 16)]
      else if s = CHR ''='' then [char_of (a * 4 + b div 16), char_of (b mod 16 * 16 + c div 4)]
      else [char_of (a * 4 + b div 16), char_of (b mod 16 * 16 + c div 4), char_of (c mod 4 * 64 + d)]
           @ b64decode xs)"
| "b64decode _ = []"

lemma b64_alphabet_facts:
  "length b64_alphabet = 64" "distinct b64_alphabet" "CHR ''='' \<notin> set b64_alphabet"
  by (simp_all add: b64_alphabet_def)

lemma b64_value_char: "n < 64 \<Longrightarrow> b64_value (b64_char n) = n"
  using map_of_zip_nth [of b64_alphabet "[0..<64]" n] b64_alphabet_facts
  by (simp add: b64_value_def b64_char_def)

lemma b64_char_not_pad: "n < 64 \<Longrightarrow> b64_char n \<noteq> CHR ''=''"
  by (metis b64_alphabet_facts(1,3) b64_char_def nth_mem)

lemma of_char_less: "(of_char c :: nat) < 256"
  using mod_less_divisor [of 256 "of_char c :: nat"] by simp

lemma b64_byte_parts:
  fixes a b c :: nat
  assumes "a < 256" and "b < 256" and "c < 256"
  shows "a div 4 < 64" and "a mod 4 * 16 + b div 16 < 64" and "b mod 16 * 4 + c div 64 < 64"
    and "a mod 4 * 16 < 64" and "b mod 16 * 4 < 64" and "c mod 64 < 64"
  using assms by auto

lemma b64_join:
  fixes a b c :: nat
  assumes "a < 256" and "b < 256" and "c < 256"
  shows "a div 4 * 4 + (a mod 4 * 16 + b div 16) div 16 = a"
    and "(a mod 4 * 16 + b div 16) mod 16 * 16 + (b mod 16 * 4 + c div 64) div 4 = b"
    and "(b mod 16 * 4 + c div 64) mod 4 * 64 + c mod 64 = c"
proof -
  have "b div 16 < 16" "c div 64 < 4" using assms by auto
  then have "(a mod 4 * 16 + b div 16) div 16 = a mod 4" "(a mod 4 * 16 + b div 16) mod 16 = b div 16"
    "(b mod 16 * 4 + c div 64) div 4 = b mod 16" "(b mod 16 * 4 + c div 64) mod 4 = c div 64"
    by simp_all
  then show "a div 4 * 4 + (a mod 4 * 16 + b div 16) div 16 = a"
    and "(a mod 4 * 16 + b div 16) mod 16 * 16 + (b mod 16 * 4 + c div 64) div 4 = b"
    and "(b mod 16 * 4 + c div 64) mod 4 * 64 + c mod 64 = c"
    by simp_all
qed

lemma b64decode_encode: "b64decode (b64encode s) = s"
proof (induction s rule: b64encode.induct)
  case (2 x)
  have x: "of_char x < (256::nat)" by (rule of_char_less)
  show ?case
    using b64_byte_parts [OF x, of 0 0] b64_join(1) [OF x, of 0 0]
    by (simp add: Let_def b64_value_char)
next
  case (3 x y)
  have x: "of_char x < (256::nat)" and y: "of_char y < (256::nat)" by (rule of_char_less)+
  show ?case
    using b64_byte_parts [OF x y, of 0] b64_join [OF x y, of 0]
    by (simp add: Let_def b64_value_char b64_char_not_pad)
next
  case (4 x y z xs)
  have x: "of_char x < (256::nat)" and y: "of_char y < (256::nat)" and z: "of_char z < (256::nat)"
    by (rule of_char_less)+
  show ?case
    using b64_byte_parts [OF x y z] b64_join [OF x y z] 4
    by (simp add: Let_def b64_value_char b64_char_not_pad)
qed simp

section \<open>Properties\<close>

text \<open>Fact: the header a Basic credential produces carries exactly \<open>username:password\<close>: decoding
  its base64 part gives them back, for every byte content, and no other header changes.\<close>

theorem basic_header_roundtrip:
  "\<exists>tok. dict_get (auth_apply_to_headers (BasicAuth u p) h) ''Authorization'' = Some (''Basic '' @ tok)
     \<and> b64decode tok = u @ '':'' @ p
     \<and> (\<forall>k. k \<noteq> ''Authorization'' \<longrightarrow>
          dict_get (auth_apply_to_headers (BasicAuth u p) h) k = dict_get h k)"
  by (simp add: b64decode_encode)

theorem basic_header_roundtrip_witness:
  "dict_get (auth_apply_to_headers (BasicAuth ''ab'' ''c'') [(''X'', ''1'')]) ''X'' = Some ''1''"
  using basic_header_roundtrip [of "''ab''" "''c''" "[(''X'', ''1'')]"] by auto

text \<open>Fact: a constructed configuration that reaches the daemon through a box carries no daemon
  credential, and every request then presents exactly the box token as its \<open>Authorization\<close>
  header, whatever the configured and the caller's extra headers say.\<close>

theorem box_token_is_only_credential:
  assumes "config_post_init c0 = Inr c" and "cfg_box_ingress c = Some b"
  shows "cfg_auth c = NoAuth
    \<and> dict_get (build_headers c extra) ''Authorization'' = Some (''Bearer '' @ box_token b)"
  using assms
  by (auto simp: config_post_init_def build_headers_def box_apply_to_headers_def Let_def
      split: option.splits if_splits)

definition box_cfg :: loom_config where
  "box_cfg = \<lparr>cfg_host = ''box'', cfg_auth = NoAuth, cfg_port = None, cfg_tls = True, cfg_verify_tls = True,
     cfg_base_path = ''/api/v1'', cfg_request_timeout = 30, cfg_extra_headers = [(''Authorization'', ''evil'')],
     cfg_user_agent = ''ua'', cfg_released_only = True, cfg_readiness_wait = 180,
     cfg_box_ingress = Some \<lparr>box_token = ''t'', box_port = None, box_path_prefix = ''/addons/loom/''\<rparr>\<rparr>"

theorem box_token_is_only_credential_witness:
  "dict_get (build_headers (box_cfg\<lparr>cfg_port := Some 8119\<rparr>) (Some [(''Authorization'', ''x'')])) ''Authorization''
     = Some ''Bearer t''"
  using box_token_is_only_credential [of box_cfg "box_cfg\<lparr>cfg_port := Some 8119\<rparr>"
      "\<lparr>box_token = ''t'', box_port = None, box_path_prefix = ''/addons/loom/''\<rparr>" "Some [(''Authorization'', ''x'')]"]
  by (simp add: box_cfg_def config_post_init_def default_https_port_def)

text \<open>Fact: REST and WebSocket traffic go to the same listener and path prefix: the REST base URL is
  the central URL followed by the API path, the WebSocket URL differs from it only in the scheme
  and the \<open>/events\<close> suffix, and in box mode the daemon port plays no part.\<close>

theorem urls_share_listener:
  "http_base_url c = create_central_url c @ cfg_base_path c
   \<and> (\<exists>rest. http_base_url c = (if cfg_tls c then ''https'' else ''http'') @ rest
        \<and> ws_url c = (if cfg_tls c then ''wss'' else ''ws'') @ rest @ ''/events'')
   \<and> (cfg_box_ingress c \<noteq> None \<longrightarrow>
        http_base_url (c\<lparr>cfg_port := p\<rparr>) = http_base_url c \<and> ws_url (c\<lparr>cfg_port := p\<rparr>) = ws_url c)"
  by (auto simp: http_base_url_def ws_url_def create_central_url_def authority_def ingress_prefix_def
      split: option.splits)

theorem urls_share_listener_witness:
  "http_base_url (box_cfg\<lparr>cfg_port := Some 1\<rparr>) = http_base_url box_cfg
   \<and> ingress_prefix box_cfg = ''/addons/loom''"
proof -
  have "cfg_box_ingress box_cfg \<noteq> None" by (simp add: box_cfg_def)
  moreover have "ingress_prefix box_cfg = ''/addons/loom''"
    by (simp add: box_cfg_def ingress_prefix_def rstrip_slash_def)
  ultimately show ?thesis using urls_share_listener [of box_cfg "Some 1"] by simp
qed

text \<open>Fact: the log hint of a credential never depends on a password, a cookie value, or more than
  the last six characters of a bearer token; but a bearer token of exactly six characters is
  shown whole, against the interface's rule that the hint never includes the secret.\<close>

theorem identity_hint_exposure:
  "identity_hint (BasicAuth u p) = identity_hint (BasicAuth u p')
   \<and> identity_hint (SessionAuth v n) = identity_hint (SessionAuth v' n)
   \<and> (length t < 6 \<and> length t' < 6 \<longrightarrow> identity_hint (BearerAuth t l) = identity_hint (BearerAuth t' l))
   \<and> (length s = 6 \<longrightarrow> identity_hint (BearerAuth (t @ s) l) = identity_hint (BearerAuth (t' @ s) l))
   \<and> (length s = 6 \<longrightarrow> identity_hint (BearerAuth s l) = ''bearer:'' @ l @ '':'' @ ellipsis @ s)"
  by (simp add: token_fingerprint_length_def)

theorem identity_hint_exposure_witness:
  "identity_hint (BearerAuth ''abcdef'' ''bearer'') = ''bearer:bearer:'' @ ellipsis @ ''abcdef''"
  using identity_hint_exposure [of _ _ _ _ _ _ "''''" "''''" "''bearer''" "''abcdef''"] by simp

end
