(* ===== verification/Http.thy ===== *)
theory Http
  imports Errors Config
begin

text \<open>
  Model of \<open>transport/http.py\<close>: one exchange with the daemon (\<open>_do_once\<close>, \<open>_upload_once\<close>,
  \<open>_bytes_once\<close>), the capped download, the retry loop with its shared deadline (\<open>request\<close>),
  and the session and handshake state (\<open>connect\<close>, \<open>close\<close>, \<open>recheck_contract\<close>).

  What the network does is input: an exchange is an answer, a client error or a timeout; each
  attempt of the loop comes with its duration and the extra time its backoff sleep took. A
  response body comes with what \<open>json.loads\<close> makes of it. Pydantic validation is an argument.
  The API-version and schema-digest notes only log and are not modelled.
\<close>

section \<open>One exchange\<close>

record response =
  resp_status :: int
  resp_content_type :: string
  resp_raw :: string
  resp_json :: "json option"

datatype exchange = Answered response | ClientFailure | TimedOut

definition raise_on_gate_bounce :: "loom_config \<Rightarrow> int \<Rightarrow> string \<Rightarrow> exc_class option" where
  "raise_on_gate_bounce c status content_type =
     (if cfg_box_ingress c = None then None else gate_refusal status content_type)"

text \<open>\<open>self._decode_json(raw) if raw else None\<close>; an undecodable body is \<open>None\<close> too.\<close>

definition decode_body :: "response \<Rightarrow> json" where
  "decode_body r =
     (if resp_raw r = '''' then JNull
      else case resp_json r of None \<Rightarrow> JNull | Some j \<Rightarrow> j)"

type_synonym problem_validator = "(string, json) dict \<Rightarrow> problem option"

definition http_failure :: "problem_validator \<Rightarrow> string \<Rightarrow> string \<Rightarrow> response \<Rightarrow> loom_error" where
  "http_failure vp method url r =
     (let payload = decode_body r;
          problem = (if payload = JNull then None else parse_problem vp payload)
      in http_error_from_problem (resp_status r) problem
           (if problem = None then Some (resp_raw r) else None) method url)"

definition do_once ::
  "loom_config \<Rightarrow> problem_validator \<Rightarrow> string \<Rightarrow> string \<Rightarrow> exchange \<Rightarrow> loom_error + json" where
  "do_once c vp method url ex =
     (case ex of
        ClientFailure \<Rightarrow> Inl (PlainError LoomTransportError)
      | TimedOut \<Rightarrow> Inl (PlainError LoomTransportError)
      | Answered r \<Rightarrow>
          (case raise_on_gate_bounce c (resp_status r) (resp_content_type r) of
             Some k \<Rightarrow> Inl (PlainError k)
           | None \<Rightarrow>
               if resp_status r = 204 then Inr JNull
               else if 200 \<le> resp_status r \<and> resp_status r < 300 then Inr (decode_body r)
               else Inl (http_failure vp method url r)))"

definition upload_once ::
  "loom_config \<Rightarrow> problem_validator \<Rightarrow> string \<Rightarrow> string \<Rightarrow> exchange \<Rightarrow> loom_error + json" where
  "upload_once c vp method url ex =
     (case ex of
        ClientFailure \<Rightarrow> Inl (PlainError LoomTransportError)
      | TimedOut \<Rightarrow> Inl (PlainError LoomTransportError)
      | Answered r \<Rightarrow>
          (case raise_on_gate_bounce c (resp_status r) (resp_content_type r) of
             Some k \<Rightarrow> Inl (PlainError k)
           | None \<Rightarrow>
               if resp_status r = 204 then Inr JNull
               else if 200 \<le> resp_status r \<and> resp_status r < 300 then Inr (decode_body r)
               else Inl (http_failure vp method url r)))"

subsection \<open>Capped download\<close>

definition default_max_download_bytes :: nat where
  "default_max_download_bytes = 512 * 1024 * 1024"

text \<open>
  The streaming loop: the running total is checked before a chunk is kept. The state is the
  total and the list of kept chunks.
\<close>

fun read_chunks :: "nat \<Rightarrow> nat \<Rightarrow> string list \<Rightarrow> string list \<Rightarrow> exc_class + string" where
  "read_chunks m tot kept [] = Inr (concat kept)"
| "read_chunks m tot kept (c # cs) =
     (let tot' = tot + length c in
      if tot' > m then Inl LoomTransportError else read_chunks m tot' (kept @ [c]) cs)"

definition read_capped :: "nat option \<Rightarrow> string list \<Rightarrow> exc_class + string" where
  "read_capped max_bytes cs =
     (case max_bytes of None \<Rightarrow> Inr (concat cs) | Some m \<Rightarrow> read_chunks m 0 [] cs)"

text \<open>What the loop holds in memory when it stops: everything kept so far.\<close>

fun buffered :: "nat \<Rightarrow> nat \<Rightarrow> string list \<Rightarrow> string list \<Rightarrow> nat" where
  "buffered m tot kept [] = length (concat kept)"
| "buffered m tot kept (c # cs) =
     (if tot + length c > m then length (concat kept)
      else buffered m (tot + length c) (kept @ [c]) cs)"

datatype download = Streamed response "string list" | DownloadFailed | DownloadTimedOut

text \<open>
  \<open>_bytes_once\<close>: the body is read under the cap before the status is looked at. The response
  record carries what decoding the whole body would give; it is only used on an error status.
\<close>

definition bytes_once ::
  "loom_config \<Rightarrow> problem_validator \<Rightarrow> nat option \<Rightarrow> string \<Rightarrow> string \<Rightarrow> download \<Rightarrow> loom_error + string" where
  "bytes_once c vp max_bytes method url d =
     (case d of
        DownloadFailed \<Rightarrow> Inl (PlainError LoomTransportError)
      | DownloadTimedOut \<Rightarrow> Inl (PlainError LoomTransportError)
      | Streamed r cs \<Rightarrow>
          (case raise_on_gate_bounce c (resp_status r) (resp_content_type r) of
             Some k \<Rightarrow> Inl (PlainError k)
           | None \<Rightarrow>
               (case read_capped max_bytes cs of
                  Inl k \<Rightarrow> Inl (PlainError k)
                | Inr raw \<Rightarrow>
                    if 200 \<le> resp_status r \<and> resp_status r < 300 then Inr raw
                    else Inl (http_failure vp method url (r\<lparr>resp_raw := raw\<rparr>)))))"

section \<open>The retry loop\<close>

definition retry_safe_methods :: "string list" where
  "retry_safe_methods = [''GET'', ''HEAD'', ''PUT'', ''DELETE'']"

definition retryable_exceptions :: "exc_class list" where
  "retryable_exceptions = [LoomServiceUnreadyError, LoomUpstreamUnavailableError, LoomTransportError]"

definition default_backoff_sequence :: "rat list" where
  "default_backoff_sequence = [1/2, 2]"

definition is_retryable :: "loom_error \<Rightarrow> bool" where
  "is_retryable e = list_ex (error_isinstance e) retryable_exceptions"

definition upper_char :: "char \<Rightarrow> char" where
  "upper_char c = (if 97 \<le> (of_char c :: nat) \<and> (of_char c :: nat) \<le> 122 then char_of (of_char c - 32 :: nat) else c)"

definition upper :: "string \<Rightarrow> string" where
  "upper s = map upper_char s"

record attempt =
  att_oversleep :: rat
  att_duration :: rat
  att_exchange :: exchange

text \<open>When no attempt is left the last failure is raised, or the no-budget error.\<close>

definition no_more_attempts :: "loom_error option \<Rightarrow> loom_error + json" where
  "no_more_attempts last_exc =
     (case last_exc of Some e \<Rightarrow> Inl e | None \<Rightarrow> Inl (PlainError LoomTransportError))"

text \<open>
  The body of \<open>request\<close>: \<open>deadline\<close> is shared by all attempts, the list holds the delays still
  to come, \<open>k\<close> counts attempts. Besides the result it returns the attempts made, as pairs of
  start time and timeout, and the time it ends.
\<close>

fun attempt_loop ::
  "(exchange \<Rightarrow> loom_error + json) \<Rightarrow> (nat \<Rightarrow> attempt) \<Rightarrow> rat \<Rightarrow> nat \<Rightarrow> rat \<Rightarrow> loom_error option \<Rightarrow> rat list
     \<Rightarrow> (loom_error + json) \<times> (rat \<times> rat) list \<times> rat" where
  "attempt_loop once env deadline k now last_exc [] = (no_more_attempts last_exc, [], now)"
| "attempt_loop once env deadline k now last_exc (delay # delays) =
     (let remaining = deadline - now in
      if remaining \<le> 0 \<or> (delay \<noteq> 0 \<and> delay \<ge> remaining) then (no_more_attempts last_exc, [], now)
      else
        let start = (if delay \<noteq> 0 then now + delay + att_oversleep (env k) else now);
            timeout = deadline - start;
            fin = start + att_duration (env k)
        in case once (att_exchange (env k)) of
             Inr v \<Rightarrow> (Inr v, [(start, timeout)], fin)
           | Inl e \<Rightarrow>
               if error_isinstance e LoomBoxGateError then (Inl e, [(start, timeout)], fin)
               else if is_retryable e then
                 let (res, tr, t) = attempt_loop once env deadline (Suc k) fin (Some e) delays
                 in (res, (start, timeout) # tr, t)
               else (Inl e, [(start, timeout)], fin))"

definition attempt_delays :: "rat list \<Rightarrow> string \<Rightarrow> bool option \<Rightarrow> rat list" where
  "attempt_delays backoff method allow_retry =
     (let retry = (case allow_retry of Some b \<Rightarrow> b | None \<Rightarrow> upper method \<in> set retry_safe_methods)
      in if retry then 0 # backoff else [0])"

definition request ::
  "loom_config \<Rightarrow> problem_validator \<Rightarrow> rat list \<Rightarrow> bool \<Rightarrow> (nat \<Rightarrow> attempt) \<Rightarrow> rat \<Rightarrow> string \<Rightarrow> string \<Rightarrow> bool option
     \<Rightarrow> (loom_error + json) \<times> (rat \<times> rat) list \<times> rat" where
  "request c vp backoff conn env now method path allow_retry =
     (if \<not> conn then (Inl (PlainError LoomTransportError), [], now)
      else attempt_loop (do_once c vp method (http_base_url c @ path)) env
             (now + cfg_request_timeout c) 0 now None (attempt_delays backoff method allow_retry))"

section \<open>Session and handshake\<close>

record info =
  info_version :: string
  info_api_version :: string
  info_capabilities :: "string list option"

text \<open>Sessions are numbered; \<open>hs_closed\<close> lists the closed ones.\<close>

record http_state =
  hs_external :: "nat option"
  hs_session :: "nat option"
  hs_closed :: "nat list"
  hs_next :: nat
  hs_info :: "info option"
  hs_required :: "string list"

definition is_connected :: "http_state \<Rightarrow> bool" where
  "is_connected h = (case hs_session h of None \<Rightarrow> False | Some s \<Rightarrow> s \<notin> set (hs_closed h))"

definition info_caps :: "info \<Rightarrow> string list" where
  "info_caps i = (case info_capabilities i of None \<Rightarrow> [] | Some cs \<Rightarrow> cs)"

definition missing_capabilities :: "http_state \<Rightarrow> string list" where
  "missing_capabilities h =
     (case hs_info h of
        None \<Rightarrow> []
      | Some i \<Rightarrow> filter (\<lambda>c. c \<notin> set (info_caps i)) (hs_required h))"

datatype handshake_error = LoomFailure loom_error | ValidationFailure

definition open_session :: "http_state \<Rightarrow> bool \<times> http_state" where
  "open_session h =
     (if is_connected h then (False, h)
      else (True, case hs_external h of
              Some x \<Rightarrow> h\<lparr>hs_session := Some x\<rparr>
            | None \<Rightarrow> h\<lparr>hs_session := Some (hs_next h), hs_next := Suc (hs_next h)\<rparr>))"

text \<open>
  The argument \<open>answer\<close> is what \<open>GET /info\<close> yields on an open session; without one,
  \<open>request\<close> raises the transport error itself.
\<close>

definition fetch_info :: "loom_error + json \<Rightarrow> http_state \<Rightarrow> loom_error + json" where
  "fetch_info answer h = (if is_connected h then answer else Inl (PlainError LoomTransportError))"

definition connect ::
  "(json \<Rightarrow> info option) \<Rightarrow> string list \<Rightarrow> loom_error + json \<Rightarrow> http_state
     \<Rightarrow> (handshake_error + info) \<times> http_state" where
  "connect validate required answer h =
     (let (created_here, h1) = open_session (h\<lparr>hs_required := required\<rparr>);
          failed = (\<lambda>e. (Inl e,
             (if created_here \<and> hs_external h1 = None \<and> hs_session h1 \<noteq> None
              then h1\<lparr>hs_closed := the (hs_session h1) # hs_closed h1, hs_session := None\<rparr>
              else h1)\<lparr>hs_info := None\<rparr>))
      in case fetch_info answer h1 of
           Inl e \<Rightarrow> failed (LoomFailure e)
         | Inr payload \<Rightarrow>
             (case validate payload of
                None \<Rightarrow> failed ValidationFailure
              | Some i \<Rightarrow>
                  let h2 = h1\<lparr>hs_info := Some i\<rparr>
                  in if missing_capabilities h2 \<noteq> []
                     then failed (LoomFailure (PlainError LoomIncompatibleVersionError))
                     else (Inr i, h2)))"

definition close :: "http_state \<Rightarrow> http_state" where
  "close h =
     (if \<not> is_connected h then h
      else (if hs_external h = None then h\<lparr>hs_closed := the (hs_session h) # hs_closed h\<rparr> else h)
             \<lparr>hs_session := None, hs_info := None\<rparr>)"

definition recheck_contract ::
  "(json \<Rightarrow> info option) \<Rightarrow> loom_error + json \<Rightarrow> http_state \<Rightarrow> (handshake_error + bool) \<times> http_state" where
  "recheck_contract validate answer h =
     (let previous = hs_info h in
      case fetch_info answer h of
        Inl e \<Rightarrow> (Inr False, h)
      | Inr payload \<Rightarrow>
          (case validate payload of
             None \<Rightarrow> (Inl ValidationFailure, h)
           | Some i \<Rightarrow>
               let h1 = h\<lparr>hs_info := Some i\<rparr>
               in if missing_capabilities h1 \<noteq> []
                  then (Inl (LoomFailure (PlainError LoomIncompatibleVersionError)), h1\<lparr>hs_info := previous\<rparr>)
                  else (Inr True, h1)))"


section \<open>Lemmas on the retry loop\<close>

declare attempt_loop.simps(2) [simp del]

definition final_failure :: "loom_error \<Rightarrow> bool" where
  "final_failure e \<longleftrightarrow> error_isinstance e LoomBoxGateError \<or> \<not> is_retryable e"

abbreviation attempt_start :: "(nat \<Rightarrow> attempt) \<Rightarrow> nat \<Rightarrow> rat \<Rightarrow> rat \<Rightarrow> rat" where
  "attempt_start env k now d \<equiv> (if d \<noteq> 0 then now + d + att_oversleep (env k) else now)"

text \<open>The four ways one round of the loop goes.\<close>

lemma attempt_loop_cases:
  obtains (budget) "deadline - now \<le> 0 \<or> (d \<noteq> 0 \<and> d \<ge> deadline - now)"
      "attempt_loop once env deadline k now le (d # ds) = (no_more_attempts le, [], now)"
  | (success) v s where "0 < deadline - now" "d = 0 \<or> d < deadline - now"
      "s = attempt_start env k now d" "once (att_exchange (env k)) = Inr v"
      "attempt_loop once env deadline k now le (d # ds)
         = (Inr v, [(s, deadline - s)], s + att_duration (env k))"
  | (failure) e s where "0 < deadline - now" "d = 0 \<or> d < deadline - now"
      "s = attempt_start env k now d" "once (att_exchange (env k)) = Inl e" "final_failure e"
      "attempt_loop once env deadline k now le (d # ds)
         = (Inl e, [(s, deadline - s)], s + att_duration (env k))"
  | (again) e s where "0 < deadline - now" "d = 0 \<or> d < deadline - now"
      "s = attempt_start env k now d" "once (att_exchange (env k)) = Inl e" "\<not> final_failure e"
      "attempt_loop once env deadline k now le (d # ds)
         = (fst (attempt_loop once env deadline (Suc k) (s + att_duration (env k)) (Some e) ds),
            (s, deadline - s) # fst (snd (attempt_loop once env deadline (Suc k) (s + att_duration (env k)) (Some e) ds)),
            snd (snd (attempt_loop once env deadline (Suc k) (s + att_duration (env k)) (Some e) ds)))"
proof (cases "deadline - now \<le> 0 \<or> (d \<noteq> 0 \<and> d \<ge> deadline - now)")
  case True
  then show thesis by (intro budget) (simp_all add: attempt_loop.simps)
next
  case False
  then have g: "0 < deadline - now" "d = 0 \<or> d < deadline - now" by auto
  show thesis
  proof (cases "once (att_exchange (env k))")
    case (Inr v)
    with False g show thesis by (intro success [OF g refl Inr]) (auto simp: attempt_loop.simps Let_def)
  next
    case (Inl e)
    show thesis
    proof (cases "final_failure e")
      case True
      with False Inl show thesis
        by (intro failure [OF g refl Inl True]) (auto simp: attempt_loop.simps Let_def final_failure_def)
    next
      case nf: False
      with False Inl show thesis
        by (intro again [OF g refl Inl nf])
          (auto simp: attempt_loop.simps Let_def final_failure_def case_prod_unfold)
    qed
  qed
qed

lemma attempt_loop_length:
  "length (fst (snd (attempt_loop once env dl k now le ds))) \<le> length ds"
proof (induction ds arbitrary: k now le)
  case (Cons d ds)
  show ?case
    by (cases rule: attempt_loop_cases [of dl now d once env k le ds]) (use Cons in auto)
qed simp

text \<open>
  The budget over the loop. A timeout is always what is left of the budget, and all attempts but the
  last have one that is positive; the last may have none left, by as much as its backoff sleep overran.
\<close>

lemma attempt_loop_window:
  assumes "\<And>j. 0 \<le> att_oversleep (env j)" and "\<And>j. 0 \<le> att_duration (env j)"
    and "\<And>d. d \<in> set ds \<Longrightarrow> 0 \<le> d"
  shows "let tr = fst (snd (attempt_loop once env dl k now le ds)) in
    (tr \<noteq> [] \<longrightarrow> now < dl)
    \<and> (\<forall>j < length tr. now \<le> fst (tr ! j) \<and> fst (tr ! j) + snd (tr ! j) = dl \<and> 0 < snd (tr ! j) + att_oversleep (env (k + j)))
    \<and> (\<forall>j. Suc j < length tr \<longrightarrow> 0 < snd (tr ! j))"
  using assms(3)
proof (induction ds arbitrary: k now le)
  case (Cons d ds)
  show ?case
  proof (cases rule: attempt_loop_cases [of dl now d once env k le ds])
    case budget
    then show ?thesis by simp
  next
    case (success v s)
    then show ?thesis using Cons.prems [of d] assms(1) [of k] by auto
  next
    case (failure e s)
    then show ?thesis using Cons.prems [of d] assms(1) [of k] by auto
  next
    case (again e s)
    let ?n = "s + att_duration (env k)"
    let ?tr = "fst (snd (attempt_loop once env dl (Suc k) ?n (Some e) ds))"
    have le: "now \<le> s" "s \<le> ?n" "0 < dl - s + att_oversleep (env k)"
      using again(1-3) Cons.prems [of d] assms(1) [of k] assms(2) [of k] by auto
    have IH: "?tr \<noteq> [] \<longrightarrow> ?n < dl"
      "\<forall>j < length ?tr. ?n \<le> fst (?tr ! j) \<and> fst (?tr ! j) + snd (?tr ! j) = dl \<and> 0 < snd (?tr ! j) + att_oversleep (env (Suc k + j))"
      "\<forall>j. Suc j < length ?tr \<longrightarrow> 0 < snd (?tr ! j)"
      using Cons.IH [of "Suc k" ?n "Some e"] Cons.prems by (simp_all add: Let_def)
    have nth: "now \<le> fst (((s, dl - s) # ?tr) ! j) \<and> fst (((s, dl - s) # ?tr) ! j) + snd (((s, dl - s) # ?tr) ! j) = dl
        \<and> 0 < snd (((s, dl - s) # ?tr) ! j) + att_oversleep (env (k + j))" if "j < Suc (length ?tr)" for j
    proof (cases j)
      case (Suc i)
      with that IH(2) have "?n \<le> fst (?tr ! i) \<and> fst (?tr ! i) + snd (?tr ! i) = dl \<and> 0 < snd (?tr ! i) + att_oversleep (env (Suc k + i))"
        by simp
      with le Suc show ?thesis by simp
    qed (use le in simp)
    have pos: "0 < snd (((s, dl - s) # ?tr) ! j)" if "j < length ?tr" for j
    proof (cases j)
      case 0
      with that IH(1) le(2) show ?thesis by (cases ?tr) auto
    qed (use that IH(3) in simp)
    show ?thesis unfolding again(6) Let_def using again(1) nth pos by simp
  qed
qed (simp add: Let_def)

lemma attempt_loop_end:
  assumes "\<forall>j < length (fst (snd (attempt_loop once env dl k now le ds))).
      0 < snd (fst (snd (attempt_loop once env dl k now le ds)) ! j)
      \<longrightarrow> att_duration (env (k + j)) \<le> snd (fst (snd (attempt_loop once env dl k now le ds)) ! j)"
  shows "snd (snd (attempt_loop once env dl k now le ds)) \<le> max now dl
    \<or> (\<exists>a \<in> set (fst (snd (attempt_loop once env dl k now le ds))). snd a \<le> 0)"
  using assms
proof (induction ds arbitrary: k now le)
  case (Cons d ds)
  show ?case
  proof (cases rule: attempt_loop_cases [of dl now d once env k le ds])
    case budget
    then show ?thesis by simp
  next
    case (success v s)
    then show ?thesis using Cons.prems by (cases "0 < dl - s") auto
  next
    case (failure e s)
    then show ?thesis using Cons.prems by (cases "0 < dl - s") auto
  next
    case (again e s)
    let ?n = "s + att_duration (env k)"
    let ?r = "attempt_loop once env dl (Suc k) ?n (Some e) ds"
    show ?thesis
    proof (cases "0 < dl - s")
      case True
      then have d0: "att_duration (env k) \<le> dl - s" using Cons.prems again by force
      have "\<forall>j < length (fst (snd ?r)). 0 < snd (fst (snd ?r) ! j) \<longrightarrow> att_duration (env (Suc k + j)) \<le> snd (fst (snd ?r) ! j)"
      proof (intro allI impI)
        fix j assume "j < length (fst (snd ?r))" "0 < snd (fst (snd ?r) ! j)"
        then show "att_duration (env (Suc k + j)) \<le> snd (fst (snd ?r) ! j)"
          using Cons.prems [rule_format, of "Suc j"] again by simp
      qed
      from Cons.IH [OF this] show ?thesis using d0 again by (auto simp: max_def split: if_splits)
    qed (simp add: again(6))
  qed
qed simp

text \<open>
  The outcome: the attempts before the last failed in a way worth retrying, and the result is
  what the last attempt gave.
\<close>

lemma attempt_loop_result:
  "(fst (snd (attempt_loop once env dl k now le ds)) = [] \<longrightarrow>
      fst (attempt_loop once env dl k now le ds) = no_more_attempts le)
   \<and> (\<forall>n. length (fst (snd (attempt_loop once env dl k now le ds))) = Suc n \<longrightarrow>
        fst (attempt_loop once env dl k now le ds) = once (att_exchange (env (k + n)))
        \<and> (\<forall>j < n. \<exists>e. once (att_exchange (env (k + j))) = Inl e \<and> \<not> final_failure e))"
proof (induction ds arbitrary: k now le)
  case (Cons d ds)
  show ?case
  proof (cases rule: attempt_loop_cases [of dl now d once env k le ds])
    case (again e s)
    let ?r = "attempt_loop once env dl (Suc k) (s + att_duration (env k)) (Some e) ds"
    note IH = Cons.IH [of "Suc k" "s + att_duration (env k)" "Some e"]
    show ?thesis
    proof (cases "fst (snd ?r)")
      case Nil
      with IH again show ?thesis by (simp add: no_more_attempts_def)
    next
      case (Cons a as)
      with IH have r: "fst ?r = once (att_exchange (env (Suc k + length as)))"
        and j: "\<And>j. j < length as \<Longrightarrow> \<exists>e. once (att_exchange (env (Suc k + j))) = Inl e \<and> \<not> final_failure e"
        by auto
      have "\<exists>e. once (att_exchange (env (k + j))) = Inl e \<and> \<not> final_failure e" if "j < Suc (length as)" for j
        using that j [of "j - 1"] again by (cases j) auto
      with r again Cons show ?thesis by auto
    qed
  qed (use Cons in auto)
qed simp

section \<open>Lemmas on downloads\<close>

lemma read_chunks_eq:
  "tot = length (concat kept) \<Longrightarrow> tot \<le> m \<Longrightarrow>
     read_chunks m tot kept cs =
       (if length (concat (kept @ cs)) \<le> m then Inr (concat (kept @ cs)) else Inl LoomTransportError)"
proof (induction cs arbitrary: tot kept)
  case (Cons c cs)
  show ?case
  proof (cases "tot + length c > m")
    case True
    with Cons.prems show ?thesis by simp
  next
    case False
    with Cons.prems Cons.IH [of "tot + length c" "kept @ [c]"] show ?thesis by simp
  qed
qed simp

lemma buffered_le: "tot = length (concat kept) \<Longrightarrow> tot \<le> m \<Longrightarrow> buffered m tot kept cs \<le> m"
proof (induction cs arbitrary: tot kept)
  case (Cons c cs)
  then show ?case using Cons.IH [of "tot + length c" "kept @ [c]"] by auto
qed simp

section \<open>Properties\<close>



lemma in_set_nthE:
  assumes "a \<in> set xs"
  obtains j where "j < length xs" and "xs ! j = a"
  using assms by (metis in_set_conv_nth)


definition http_cfg :: loom_config where
  "http_cfg = box_cfg\<lparr>cfg_box_ingress := None\<rparr>"

definition slow_unready :: "nat \<Rightarrow> attempt" where
  "slow_unready k = \<lparr>att_oversleep = 0, att_duration = 10, att_exchange = TimedOut\<rparr>"

definition late_unready :: "nat \<Rightarrow> attempt" where
  "late_unready k = \<lparr>att_oversleep = 1/4, att_duration = 10, att_exchange = TimedOut\<rparr>"

lemmas request_eval = request_def http_cfg_def box_cfg_def attempt_delays_def upper_def upper_char_def
  retry_safe_methods_def attempt_loop.simps do_once_def error_isinstance_def is_retryable_def
  retryable_exceptions_def subclass_of.simps Let_def no_more_attempts_def


text \<open>Fact: the budget is not checked again after the backoff. A sleep that wakes up late enough leaves a timeout that is not positive,
  which aiohttp takes for none at all, so the request can outlast its budget by as much as the peer likes.\<close>

theorem late_backoff_unbounded:
  "request http_cfg (\<lambda>_. None) [1/2] True
      (\<lambda>k. \<lparr>att_oversleep = 1/5, att_duration = (if k = 0 then 147/5 else x), att_exchange = TimedOut\<rparr>) 0 ''GET'' ''/info'' None
    = (Inl (PlainError LoomTransportError), [(0, 30), (301/10, - 1/10)], 301/10 + x)"
  by (simp add: request_eval)

text \<open>Fact: a request yields exactly what its last attempt yielded, every earlier attempt failed in a
  retryable way, and a refusal by the box gate, a client error answer or a success is never
  retried; with no attempt made (no connection or no budget) it raises the transport error.\<close>

theorem request_outcome:
  assumes "request c vp backoff conn env now method path allow_retry = (res, tr, fin)"
  shows "(tr = [] \<longrightarrow> res = Inl (PlainError LoomTransportError))
    \<and> (tr \<noteq> [] \<longrightarrow>
         res = do_once c vp method (http_base_url c @ path) (att_exchange (env (length tr - 1))))
    \<and> (\<forall>j. Suc j < length tr \<longrightarrow>
         (\<exists>e. do_once c vp method (http_base_url c @ path) (att_exchange (env j)) = Inl e
            \<and> is_retryable e \<and> \<not> error_isinstance e LoomBoxGateError))"
proof (cases conn)
  case False
  with assms show ?thesis by (auto simp: request_def)
next
  case True
  with assms attempt_loop_result [of "do_once c vp method (http_base_url c @ path)" env
      "now + cfg_request_timeout c" 0 now None "attempt_delays backoff method allow_retry"]
  show ?thesis
    by (cases tr) (auto simp: request_def no_more_attempts_def final_failure_def)
qed

theorem request_outcome_witness:
  "fst (request http_cfg (\<lambda>_. None) [] False slow_unready 0 ''GET'' ''/info'' None)
     = Inl (PlainError LoomTransportError)"
proof -
  have r: "request http_cfg (\<lambda>_. None) [] False slow_unready 0 ''GET'' ''/info'' None
      = (Inl (PlainError LoomTransportError), [], 0)"
    by (simp add: request_def)
  from request_outcome [OF r] r show ?thesis by simp
qed

text \<open>Fact: which error answers of the daemon are retried: exactly those in the classes for an
  unready service and an unreachable upstream, and, because its class derives from the former,
  the answer that pairing is switched off, whose documentation asks not to retry it.\<close>

theorem retried_http_errors:
  "is_retryable (http_error_from_problem st p raw mth url) \<longleftrightarrow>
     error_class (http_error_from_problem st p raw mth url)
       \<in> {LoomServiceUnreadyError, LoomUpstreamUnavailableError, LoomPairingOffError}"
proof -
  have h: "subclass_of (error_class (http_error_from_problem st p raw mth url)) LoomHttpError"
    by (rule http_error_class_http)
  then show ?thesis
    using http_not_transport [OF h]
    by (cases "error_class (http_error_from_problem st p raw mth url)")
      (simp_all add: is_retryable_def retryable_exceptions_def error_isinstance_def subclass_of.simps)
qed

text \<open>Fact: a capped download returns the whole body when it fits the cap and raises otherwise, and
  what it holds in memory never exceeds the cap, whatever the peer streams.\<close>

theorem read_capped_spec:
  "read_capped (Some m) cs =
     (if length (concat cs) \<le> m then Inr (concat cs) else Inl LoomTransportError)
   \<and> buffered m 0 [] cs \<le> m"
  using read_chunks_eq [of 0 "[]" m cs] buffered_le [of 0 "[]" m cs] by (simp add: read_capped_def)

text \<open>Fact: connecting succeeds only against a daemon that advertises every required capability, and
  then leaves an open session and the handshake; when it fails, no handshake is kept and every
  session the call itself opened is closed again.\<close>

theorem connect_gate:
  assumes "connect validate required answer h = (res, h')"
  shows "(\<forall>i. res = Inr i \<longrightarrow> is_connected h' \<and> hs_info h' = Some i \<and> set required \<subseteq> set (info_caps i))
    \<and> (\<forall>e. res = Inl e \<longrightarrow> hs_info h' = None
         \<and> (is_connected h' \<longrightarrow> hs_session h' = hs_session h \<or> hs_session h' = hs_external h)
         \<and> (hs_external h = None \<and> \<not> is_connected h \<longrightarrow> hs_session h' = None))"
proof -
  have conn: "is_connected (snd (open_session k)) \<or> fetch_info answer (snd (open_session k)) = Inl (PlainError LoomTransportError)" for k
    by (simp add: fetch_info_def)
  have sess: "hs_session (snd (open_session k)) \<noteq> None" for k
    by (auto simp: open_session_def is_connected_def split: option.splits)
  have same: "fst (open_session k) = (\<not> is_connected k)" "hs_external (snd (open_session k)) = hs_external k"
    "hs_closed (snd (open_session k)) = hs_closed k" "hs_required (snd (open_session k)) = hs_required k"
    "is_connected k \<Longrightarrow> hs_session (snd (open_session k)) = hs_session k"
    "\<not> is_connected k \<Longrightarrow> hs_external k \<noteq> None \<Longrightarrow> hs_session (snd (open_session k)) = hs_external k" for k
    by (auto simp: open_session_def split: option.splits)
  let ?h = "h\<lparr>hs_required := required\<rparr>"
  obtain b h1 where o: "open_session ?h = (b, h1)" by fastforce
  have b: "b = (\<not> is_connected h)" using same(1) [of ?h] o by (simp add: is_connected_def split: option.splits)
  note facts = conn [of ?h] sess [of ?h] same [of ?h]
  show ?thesis
    using assms facts o b
    by (auto simp: connect_def Let_def missing_capabilities_def filter_empty_conv is_connected_def
        split: sum.splits option.splits if_splits prod.splits)
qed

definition fresh_http :: http_state where
  "fresh_http = \<lparr>hs_external = None, hs_session = None, hs_closed = [], hs_next = 0, hs_info = None, hs_required = []\<rparr>"

theorem connect_gate_witness:
  "hs_session (snd (connect (\<lambda>_. Some \<lparr>info_version = ''1'', info_api_version = ''1.0'', info_capabilities = None\<rparr>)
      [''alarm.v1''] (Inr JNull) fresh_http)) = None"
proof -
  let ?c = "connect (\<lambda>_. Some \<lparr>info_version = ''1'', info_api_version = ''1.0'', info_capabilities = None\<rparr>)
      [''alarm.v1''] (Inr JNull) fresh_http"
  have "fst ?c = Inl (LoomFailure (PlainError LoomIncompatibleVersionError))"
    by (simp add: connect_def open_session_def fresh_http_def is_connected_def fetch_info_def Let_def
        missing_capabilities_def info_caps_def)
  with connect_gate [of _ _ _ fresh_http "fst ?c" "snd ?c"] show ?thesis
    by (simp add: fresh_http_def is_connected_def)
qed

text \<open>Fact: re-checking the contract against a daemon that changed underneath reports success only
  when the declared capabilities are still there, and whenever it does not, the previous
  handshake stands unchanged.\<close>

theorem recheck_keeps_previous:
  "(fst (recheck_contract validate answer h) = Inr True \<longrightarrow>
      (\<exists>i. hs_info (snd (recheck_contract validate answer h)) = Some i \<and> set (hs_required h) \<subseteq> set (info_caps i)))
   \<and> (fst (recheck_contract validate answer h) \<noteq> Inr True \<longrightarrow> snd (recheck_contract validate answer h) = h)"
  by (auto simp: recheck_contract_def Let_def missing_capabilities_def filter_empty_conv
      split: sum.splits option.splits)

theorem recheck_keeps_previous_witness:
  "snd (recheck_contract (\<lambda>_. None) (Inl (PlainError LoomTransportError)) fresh_http) = fresh_http"
  using recheck_keeps_previous [of "\<lambda>_. None" "Inl (PlainError LoomTransportError)" fresh_http]
  by (simp add: recheck_contract_def fresh_http_def fetch_info_def is_connected_def)

end
