(* ===== verification/Flow.thy ===== *)
theory Flow
  imports Prelude
begin

text \<open>
  Runs of a machine given by a step function that returns the new state and what it emits, and the
  contract of a lossless first-in first-out flow: whatever a step takes out comes from the front
  of what is pending, and whatever it admits goes to the back. A component that meets the contract
  step by step loses, duplicates and reorders nothing over a whole run.
\<close>

fun exec :: "('a \<Rightarrow> 's \<Rightarrow> 's \<times> 'o list) \<Rightarrow> 'a list \<Rightarrow> 's \<Rightarrow> 's \<times> 'o list" where
  "exec step [] s = (s, [])"
| "exec step (a # as) s =
     (case step a s of (s1, o1) \<Rightarrow> case exec step as s1 of (s2, o2) \<Rightarrow> (s2, o1 @ o2))"

lemma exec_append:
  "exec step (as @ bs) s =
     (case exec step as s of (s1, o1) \<Rightarrow> case exec step bs s1 of (s2, o2) \<Rightarrow> (s2, o1 @ o2))"
  by (induction as arbitrary: s) (auto split: prod.splits)

text \<open>What a per-step observation collects along a run.\<close>

fun along :: "('a \<Rightarrow> 's \<Rightarrow> 's \<times> 'o list) \<Rightarrow> ('a \<Rightarrow> 's \<Rightarrow> 'e list) \<Rightarrow> 'a list \<Rightarrow> 's \<Rightarrow> 'e list" where
  "along step f [] s = []"
| "along step f (a # as) s = f a s @ along step f as (fst (step a s))"

lemma along_append:
  "along step f (as @ bs) s = along step f as s @ along step f bs (fst (exec step as s))"
  by (induction as arbitrary: s) (auto split: prod.splits)

locale invariant =
  fixes step :: "'a \<Rightarrow> 's \<Rightarrow> 's \<times> 'o list"
    and inv :: "'s \<Rightarrow> bool"
  assumes inv_step: "inv s \<Longrightarrow> inv (fst (step a s))"
begin

lemma inv_exec: "inv s \<Longrightarrow> inv (fst (exec step as s))"
proof (induction as arbitrary: s)
  case Nil
  then show ?case by simp
next
  case (Cons a as)
  then show ?case
    using Cons.IH [OF inv_step [OF Cons.prems, of a]] by (simp add: case_prod_unfold)
qed

end

locale fifo_flow =
  fixes step :: "'a \<Rightarrow> 's \<Rightarrow> 's \<times> 'o list"
    and pending :: "'s \<Rightarrow> 'e list"
    and admitted :: "'a \<Rightarrow> 's \<Rightarrow> 'e list"
    and taken :: "'a \<Rightarrow> 's \<Rightarrow> 'e list"
  assumes conserve: "pending s @ admitted a s = taken a s @ pending (fst (step a s))"
begin

lemma run_conserves:
  "pending s @ along step admitted as s = along step taken as s @ pending (fst (exec step as s))"
proof (induction as arbitrary: s)
  case Nil
  then show ?case by simp
next
  case (Cons a as)
  let ?s1 = "fst (step a s)"
  have "pending s @ admitted a s @ along step admitted as ?s1
      = taken a s @ pending ?s1 @ along step admitted as ?s1"
    using conserve [of s a] by (metis append.assoc)
  then show ?case
    using Cons.IH [of ?s1] by (simp split: prod.splits)
qed

end

text \<open>
  The contract of a signal that reports transitions only: the reported level is part of the state,
  and each step emits the alternation from the old level to the new one.
\<close>

fun alternates :: "bool \<Rightarrow> bool list \<Rightarrow> bool \<Rightarrow> bool" where
  "alternates b [] b' \<longleftrightarrow> b = b'"
| "alternates b (x # xs) b' \<longleftrightarrow> x = (\<not> b) \<and> alternates x xs b'"

lemma alternates_append:
  "alternates a xs b \<Longrightarrow> alternates b ys c \<Longrightarrow> alternates a (xs @ ys) c"
  by (induction xs arbitrary: a) auto

lemma alternates_nth:
  "alternates b xs b' \<Longrightarrow> i < length xs \<Longrightarrow> xs ! i = (if even i then \<not> b else b)"
proof (induction xs arbitrary: b i)
  case Nil
  then show ?case by simp
next
  case (Cons x xs)
  then show ?case by (cases i) auto
qed

locale transition_signal = invariant step inv
  for step :: "'a \<Rightarrow> 's \<Rightarrow> 's \<times> 'o list" and inv :: "'s \<Rightarrow> bool" +
  fixes level :: "'s \<Rightarrow> bool"
    and signals :: "'o list \<Rightarrow> bool list"
  assumes signals_Nil: "signals [] = []"
    and signals_append: "signals (xs @ ys) = signals xs @ signals ys"
    and step_alternates: "inv s \<Longrightarrow> alternates (level s) (signals (snd (step a s))) (level (fst (step a s)))"
begin

lemma run_alternates:
  "inv s \<Longrightarrow> alternates (level s) (signals (snd (exec step as s))) (level (fst (exec step as s)))"
proof (induction as arbitrary: s)
  case Nil
  then show ?case by (simp add: signals_Nil)
next
  case (Cons a as)
  obtain s1 o1 where 1: "step a s = (s1, o1)" by fastforce
  have "inv s1" using inv_step [OF Cons.prems, of a] 1 by simp
  then show ?case
    using Cons.IH [of s1] step_alternates [OF Cons.prems, of a] 1
    by (auto simp: signals_append split: prod.splits intro: alternates_append)
qed

end

end
