(* ===== verification/Ws.thy ===== *)
theory Ws
  imports Errors Config Flow
begin

text \<open>
  The WebSocket transport (transport/ws.py).

  \<^item> \<open>ws\<close> is the state of a \<open>WsTransport\<close> object: the subscription set and the resume cursor that
    survive reconnects, the bounded envelope queue with its parallel deque of frame sizes, the
    overflow latch, the pending \<open>queue.get()\<close> task of the consumer and the \<open>reauth\<close> futures.
  \<^item> The operations return the new state, what they did to the outside (\<open>ws_out\<close>: frames sent,
    callbacks invoked, envelopes yielded, delays slept) and the exception that left them, if one did.
  \<^item> The coroutines run interleaved. A read loop is given the list of what it observes at its
    \<open>await\<close>s: a message, the expiry of the ping deadline, its cancellation, or an operation
    of another task that runs meanwhile (\<open>ws_op\<close>: the steps of the \<open>events()\<close> iterator,
    subscribe and unsubscribe, the halves of \<open>reauth\<close>, the start of \<open>stop\<close>).
  \<^item> pydantic's validation of an envelope is the argument \<open>validate\<close>. A text message is given
    by its length and by what \<open>json.loads\<close> makes of it.
\<close>

section \<open>State\<close>

record envelope =
  env_seq :: int
  env_kind :: string
  env_topic :: "string option"
  env_type :: string
  env_ts :: string
  env_payload :: json

type_synonym frame = "(string, json) dict"

datatype json_result = Decoded json | NotJson | DecodeFails

record text_msg =
  text_length :: nat
  text_json :: json_result

record handshake_error =
  hs_status :: int
  hs_content_type :: string
  hs_history :: "int list"

datatype ws_exc =
    ExcLoom exc_class
  | ExcHandshake handshake_error
  | ExcOther
  | ExcCancelled

datatype ws_out =
    OUpgrade string headers
  | OSend frame
  | OResync int
  | OHeartbeat rat
  | OAuthFailed
  | OConnState bool
  | OYield envelope
  | ODelay rat

text \<open>
  \<open>self._ws\<close>: absent, open, open by its flag although the connection under it is gone (sending
  raises), or closed. The pending \<open>queue.get()\<close> of the consumer: none, blocked, or finished with an
  envelope in hand.
\<close>

datatype socket = NoSocket | SockOpen | SockBroken | SockClosed

datatype getter = NoGetter | Waiting | Holds envelope

record ws =
  ws_config :: loom_config
  ws_classify :: bool
  ws_released_only :: bool
  ws_external_session :: bool
  ws_hook_replay_lost :: bool
  ws_hook_auth_failed :: bool
  ws_hook_conn_state :: bool
  ws_hook_heartbeat :: bool
  ws_session :: bool
  ws_socket :: socket
  ws_subs :: "string set"
  ws_last_seq :: "int option"
  ws_last_rtt :: "rat option"
  ws_reported :: bool
  ws_acks :: "bool option list"
  ws_reauth_ack :: "nat option"
  ws_queue :: "envelope list"
  ws_getter :: getter
  ws_sizes :: "nat list"
  ws_queued_bytes :: int
  ws_dropped :: nat
  ws_overflowing :: bool
  ws_overflow_start :: nat
  ws_task :: bool
  ws_closing :: bool
  ws_stopped :: bool

type_synonym ws_io = "ws \<times> ws_out list \<times> ws_exc option"

definition reconnect_backoff :: "rat list" where
  "reconnect_backoff = [1/2, 2, 5, 15, 30]"

definition reconnect_jitter_share :: rat where "reconnect_jitter_share = 1/5"
definition healthy_connection_seconds :: rat where "healthy_connection_seconds = 10"
definition inbound_ping_deadline_seconds :: rat where "inbound_ping_deadline_seconds = 60"
definition envelope_queue_maxsize :: nat where "envelope_queue_maxsize = 4096"
definition envelope_queue_max_bytes :: int where "envelope_queue_max_bytes = 64 * 1024 * 1024"
definition envelope_queue_low_water :: nat where "envelope_queue_low_water = envelope_queue_maxsize div 2"

definition ws_init :: "loom_config \<Rightarrow> string list \<Rightarrow> bool \<Rightarrow> bool \<Rightarrow> bool \<Rightarrow> bool \<Rightarrow> bool \<Rightarrow> bool \<Rightarrow> ws" where
  "ws_init cfg initial replay_lost auth_failed conn_state heartbeat session classify =
     \<lparr>ws_config = cfg, ws_classify = classify, ws_released_only = cfg_released_only cfg,
      ws_external_session = session, ws_hook_replay_lost = replay_lost, ws_hook_auth_failed = auth_failed,
      ws_hook_conn_state = conn_state, ws_hook_heartbeat = heartbeat, ws_session = session,
      ws_socket = NoSocket, ws_subs = set initial, ws_last_seq = None, ws_last_rtt = None,
      ws_reported = False, ws_acks = [], ws_reauth_ack = None, ws_queue = [], ws_getter = NoGetter,
      ws_sizes = [], ws_queued_bytes = 0, ws_dropped = 0, ws_overflowing = False, ws_overflow_start = 0,
      ws_task = False, ws_closing = False, ws_stopped = False\<rparr>"

text \<open>\<open>await\<close>ing one coroutine after the other: the second runs unless the first raised.\<close>

definition and_then :: "ws_io \<Rightarrow> (ws \<Rightarrow> ws_io) \<Rightarrow> ws_io" where
  "and_then r k =
     (case r of (s, out, Some e) \<Rightarrow> (s, out, Some e)
              | (s, out, None) \<Rightarrow> (case k s of (s', out', e) \<Rightarrow> (s', out @ out', e)))"

lemma and_then_simps [simp]:
  "and_then (s, out, Some e) k = (s, out, Some e)"
  "and_then (s, out, None) k = (case k s of (s', out', e) \<Rightarrow> (s', out @ out', e))"
  by (simp_all add: and_then_def)

section \<open>Sending and subscriptions\<close>

definition ws_is_open :: "ws \<Rightarrow> bool" where
  "ws_is_open s \<longleftrightarrow> ws_socket s = SockOpen \<or> ws_socket s = SockBroken"

definition send :: "frame \<Rightarrow> ws \<Rightarrow> ws_io" where
  "send frame s =
     (if \<not> ws_is_open s then (s, [], Some (ExcLoom LoomTransportError))
      else if ws_socket s = SockBroken then (s, [], Some ExcOther)
      else (s, [OSend frame], None))"

text \<open>The flags every subscribe frame carries, initial and runtime alike.\<close>

definition subscribe_flags :: "ws \<Rightarrow> frame" where
  "subscribe_flags s =
     (if ws_classify s then [(''classify'', JBool True)] else [])
     @ (if ws_released_only s then [(''released_only'', JBool True)] else [])"

definition subscribe :: "string list \<Rightarrow> ws \<Rightarrow> ws_io" where
  "subscribe topics s =
     (let new = filter (\<lambda>t. t \<notin> ws_subs s) topics
      in if new = [] then (s, [], None)
         else let s1 = s\<lparr>ws_subs := ws_subs s \<union> set new\<rparr>
              in if ws_is_open s1
                 then send ([(''op'', JStr ''subscribe''), (''topics'', JArr (map JStr new))]
                            @ subscribe_flags s1) s1
                 else (s1, [], None))"

definition unsubscribe :: "string list \<Rightarrow> ws \<Rightarrow> ws_io" where
  "unsubscribe topics s =
     (let gone = filter (\<lambda>t. t \<in> ws_subs s) topics
      in if gone = [] then (s, [], None)
         else let s1 = s\<lparr>ws_subs := ws_subs s - set gone\<rparr>
              in if ws_is_open s1
                 then send [(''op'', JStr ''unsubscribe''), (''topics'', JArr (map JStr gone))] s1
                 else (s1, [], None))"

definition initial_subscribe_frame :: "ws \<Rightarrow> frame" where
  "initial_subscribe_frame s =
     [(''op'', JStr ''subscribe''), (''topics'', JArr (map JStr (sorted_list_of_set (ws_subs s))))]
     @ subscribe_flags s
     @ (case ws_last_seq s of None \<Rightarrow> [] | Some n \<Rightarrow> [(''since'', JInt n)])"

definition send_initial_subscribe :: "ws \<Rightarrow> ws_io" where
  "send_initial_subscribe s =
     (if ws_subs s = {} then (s, [], None) else send (initial_subscribe_frame s) s)"

section \<open>Callbacks\<close>

definition report_connection_state :: "bool \<Rightarrow> ws \<Rightarrow> ws \<times> ws_out list" where
  "report_connection_state up s =
     (if up = ws_reported s then (s, [])
      else (s\<lparr>ws_reported := up\<rparr>, if ws_hook_conn_state s then [OConnState up] else []))"

definition trigger_resync :: "int \<Rightarrow> ws \<Rightarrow> ws_out list" where
  "trigger_resync oldest s = (if ws_hook_replay_lost s then [OResync oldest] else [])"

definition auth_failed :: "ws \<Rightarrow> ws_out list" where
  "auth_failed s = (if ws_hook_auth_failed s then [OAuthFailed] else [])"

section \<open>The envelope queue\<close>

definition register_overflow :: "ws \<Rightarrow> ws \<times> ws_out list" where
  "register_overflow s =
     (let s1 = s\<lparr>ws_dropped := ws_dropped s + 1\<rparr>
      in if ws_overflowing s1 then (s1, [])
         else (s1\<lparr>ws_overflowing := True, ws_overflow_start := ws_dropped s1\<rparr>, trigger_resync (-1) s1))"

definition queue_full :: "nat \<Rightarrow> ws \<Rightarrow> bool" where
  "queue_full frame_size s \<longleftrightarrow>
     ws_queued_bytes s + int frame_size > envelope_queue_max_bytes
     \<or> envelope_queue_maxsize \<le> length (ws_queue s)"

definition offer :: "envelope \<Rightarrow> nat \<Rightarrow> ws \<Rightarrow> ws \<times> ws_out list" where
  "offer env frame_size s =
     (if queue_full frame_size s then register_overflow s
      else (s\<lparr>ws_queue := ws_queue s @ [env], ws_sizes := ws_sizes s @ [frame_size],
              ws_queued_bytes := ws_queued_bytes s + int frame_size\<rparr>, []))"

text \<open>
  One turn of \<open>events()\<close> is three steps of the event loop: the iterator creates the \<open>get()\<close>
  task and waits; the task takes the head of the queue once there is one; the iterator wakes,
  either because the stop event fired (whatever the task holds is then discarded) or with the
  task's envelope.
\<close>

definition events_wait :: "ws \<Rightarrow> ws" where
  "events_wait s = (if ws_stopped s \<or> ws_getter s \<noteq> NoGetter then s else s\<lparr>ws_getter := Waiting\<rparr>)"

definition getter_runs :: "ws \<Rightarrow> ws" where
  "getter_runs s =
     (case (ws_getter s, ws_queue s) of
        (Waiting, e # q) \<Rightarrow> s\<lparr>ws_getter := Holds e, ws_queue := q\<rparr>
      | _ \<Rightarrow> s)"

definition drop_size :: "ws \<Rightarrow> ws" where
  "drop_size s =
     (case ws_sizes s of [] \<Rightarrow> s
      | n # ns \<Rightarrow> s\<lparr>ws_sizes := ns, ws_queued_bytes := ws_queued_bytes s - int n\<rparr>)"

definition end_episode :: "ws \<Rightarrow> ws" where
  "end_episode s =
     (if ws_overflowing s \<and> length (ws_queue s) \<le> envelope_queue_low_water
      then s\<lparr>ws_overflowing := False\<rparr> else s)"

definition events_wake :: "bool \<Rightarrow> ws \<Rightarrow> ws \<times> ws_out list" where
  "events_wake waiter_done s =
     (if waiter_done \<and> ws_stopped s then (s\<lparr>ws_getter := NoGetter\<rparr>, [])
      else case ws_getter s of
             Holds e \<Rightarrow> ((end_episode (drop_size s))\<lparr>ws_getter := NoGetter\<rparr>, [OYield e])
           | _ \<Rightarrow> (s, []))"

section \<open>Control frames\<close>

text \<open>\<open>float(i)\<close> raises \<open>OverflowError\<close> for an integer that rounds beyond the largest double.\<close>

definition float_overflows :: "json \<Rightarrow> bool" where
  "float_overflows v = (case v of JInt i \<Rightarrow> 2 ^ 1024 - 2 ^ 970 \<le> \<bar>i\<bar> | _ \<Rightarrow> False)"

definition pong_frame :: "frame \<Rightarrow> frame" where
  "pong_frame frame =
     [(''op'', JStr ''pong'')]
     @ (if obj_get frame ''echo'' = JNull then [] else [(''echo'', obj_get frame ''echo'')])"

definition handle_ping :: "frame \<Rightarrow> ws \<Rightarrow> ws_io" where
  "handle_ping frame s =
     (case as_float (obj_get frame ''rtt_ms'') of
        None \<Rightarrow> send (pong_frame frame) s
      | Some rtt \<Rightarrow>
          if float_overflows (obj_get frame ''rtt_ms'') then (s, [], Some ExcOther)
          else and_then (s\<lparr>ws_last_rtt := Some rtt\<rparr>,
                         if ws_hook_heartbeat s then [OHeartbeat rtt] else [], None)
                        (send (pong_frame frame)))"

definition handle_replay_lost :: "frame \<Rightarrow> ws \<Rightarrow> ws_io" where
  "handle_replay_lost frame s =
     (let oldest = as_int (obj_get frame ''oldest_seq'');
          s1 = s\<lparr>ws_last_seq := (case oldest of Some n \<Rightarrow> if 0 \<le> n then Some n else None | None \<Rightarrow> None)\<rparr>
      in (s1, trigger_resync (case oldest of Some n \<Rightarrow> n | None \<Rightarrow> -1) s1, None))"

definition set_reauth_ack :: "bool \<Rightarrow> ws \<Rightarrow> ws" where
  "set_reauth_ack accepted s =
     (case ws_reauth_ack s of
        None \<Rightarrow> s
      | Some i \<Rightarrow> if ws_acks s ! i = None then s\<lparr>ws_acks := (ws_acks s)[i := Some accepted]\<rparr> else s)"

definition handle_control :: "json \<Rightarrow> frame \<Rightarrow> ws \<Rightarrow> ws_io" where
  "handle_control op frame s =
     (if op = JStr ''ping'' then handle_ping frame s
      else if op = JStr ''replay_done'' then (s, [], None)
      else if op = JStr ''replay_lost'' then handle_replay_lost frame s
      else if op \<in> {JStr ''subscribe_ack'', JStr ''unsubscribe_ack'', JStr ''pong''} then (s, [], None)
      else if op = JStr ''reauth_ok'' then (set_reauth_ack True s, [], None)
      else if op = JStr ''reauth_failed'' then (set_reauth_ack False s, auth_failed s, None)
      else (s, [], None))"

section \<open>Text frames\<close>

definition advance_cursor :: "int \<Rightarrow> ws \<Rightarrow> ws" where
  "advance_cursor seq s =
     (case ws_last_seq s of
        None \<Rightarrow> s\<lparr>ws_last_seq := Some seq\<rparr>
      | Some cur \<Rightarrow> if cur < seq then s\<lparr>ws_last_seq := Some seq\<rparr> else s)"

definition handle_envelope :: "envelope \<Rightarrow> nat \<Rightarrow> ws \<Rightarrow> ws \<times> ws_out list" where
  "handle_envelope env frame_size s = offer env frame_size (advance_cursor (env_seq env) s)"

type_synonym validator = "frame \<Rightarrow> envelope option"

definition handle_text :: "validator \<Rightarrow> text_msg \<Rightarrow> ws \<Rightarrow> ws_io" where
  "handle_text validate raw s =
     (case text_json raw of
        NotJson \<Rightarrow> (s, [], None)
      | DecodeFails \<Rightarrow> (s, [], Some ExcOther)
      | Decoded (JObj frame) \<Rightarrow>
          if obj_get frame ''op'' \<noteq> JNull then handle_control (obj_get frame ''op'') frame s
          else (case validate frame of
                  None \<Rightarrow> (s, [], None)
                | Some env \<Rightarrow> (case handle_envelope env (text_length raw) s of (s1, out) \<Rightarrow> (s1, out, None)))
      | Decoded _ \<Rightarrow> (s, [], None))"

section \<open>In-band re-authentication\<close>

text \<open>
  \<open>reauth\<close> up to its wait for the ack, and from there on: the ack future is the position of the
  call in \<open>ws_acks\<close>; a future that is still pending when the wait ends has timed out.
\<close>

definition reauth_begin :: "string \<Rightarrow> ws \<Rightarrow> ws_io" where
  "reauth_begin token s =
     (let s1 = s\<lparr>ws_acks := ws_acks s @ [None], ws_reauth_ack := Some (length (ws_acks s))\<rparr>
      in case send [(''op'', JStr ''reauth''), (''token'', JStr token)] s1 of
           (s2, out, Some e) \<Rightarrow> (s2\<lparr>ws_reauth_ack := None\<rparr>, out, Some e)
         | (s2, out, None) \<Rightarrow> (s2, out, None))"

definition replace_token :: "string \<Rightarrow> auth_method \<Rightarrow> auth_method" where
  "replace_token token a = (case a of BearerAuth t l \<Rightarrow> BearerAuth token l | _ \<Rightarrow> a)"

definition ack_of :: "nat \<Rightarrow> ws \<Rightarrow> bool option" where
  "ack_of i s = (if i < length (ws_acks s) then ws_acks s ! i else None)"

definition reauth_end :: "nat \<Rightarrow> string \<Rightarrow> ws \<Rightarrow> ws_io" where
  "reauth_end i token s =
     (let s1 = s\<lparr>ws_reauth_ack := None\<rparr>
      in if ack_of i s = Some True
         then (s1\<lparr>ws_config := (ws_config s)\<lparr>cfg_auth := replace_token token (cfg_auth (ws_config s))\<rparr>\<rparr>, [], None)
         else (s1, [], Some (ExcLoom LoomTransportError)))"

section \<open>Start and stop\<close>

definition start :: "ws \<Rightarrow> ws" where
  "start s = (if ws_task s then s
              else s\<lparr>ws_session := True, ws_closing := False, ws_stopped := False, ws_task := True\<rparr>)"

text \<open>
  \<open>stop\<close> closes the socket and cancels the read task; the task's \<open>finally\<close> blocks run before
  \<open>stop\<close> continues with its second half.
\<close>

definition stop_begin :: "ws \<Rightarrow> ws" where
  "stop_begin s = s\<lparr>ws_closing := True, ws_socket := (if ws_is_open s then SockClosed else ws_socket s)\<rparr>"

definition stop_end :: "ws \<Rightarrow> ws \<times> ws_out list" where
  "stop_end s =
     (case report_connection_state False
             (s\<lparr>ws_task := False, ws_session := ws_session s \<and> ws_external_session s\<rparr>) of
        (s1, out) \<Rightarrow> (s1\<lparr>ws_stopped := True\<rparr>, out))"

section \<open>The read loop\<close>

datatype ws_op =
    OpWait
  | OpGet
  | OpWake bool
  | OpSubscribe "string list"
  | OpUnsubscribe "string list"
  | OpReauthBegin string
  | OpReauthEnd nat string
  | OpStopBegin

text \<open>An operation of another task; an exception it raises goes to that task.\<close>

fun run_op :: "ws_op \<Rightarrow> ws \<Rightarrow> ws \<times> ws_out list" where
  "run_op OpWait s = (events_wait s, [])"
| "run_op OpGet s = (getter_runs s, [])"
| "run_op (OpWake b) s = events_wake b s"
| "run_op (OpSubscribe ts) s = (case subscribe ts s of (s1, out, _) \<Rightarrow> (s1, out))"
| "run_op (OpUnsubscribe ts) s = (case unsubscribe ts s of (s1, out, _) \<Rightarrow> (s1, out))"
| "run_op (OpReauthBegin t) s = (case reauth_begin t s of (s1, out, _) \<Rightarrow> (s1, out))"
| "run_op (OpReauthEnd i t) s = (case reauth_end i t s of (s1, out, _) \<Rightarrow> (s1, out))"
| "run_op OpStopBegin s = (stop_begin s, [])"

fun run_ops :: "ws_op list \<Rightarrow> ws \<Rightarrow> ws \<times> ws_out list" where
  "run_ops [] s = (s, [])"
| "run_ops (p # ps) s =
     (case run_op p s of (s1, o1) \<Rightarrow> case run_ops ps s1 of (s2, o2) \<Rightarrow> (s2, o1 @ o2))"

datatype ws_msg = MsgText text_msg | MsgClose | MsgClosed | MsgClosing | MsgError | MsgOther

datatype loop_event = Msg ws_msg | PingDeadline | Meanwhile ws_op | Cancelled

datatype loop_end = Returned | Raised ws_exc | StillReading

text \<open>\<open>read_wait\<close> is the loop blocked in \<open>receive()\<close>; \<open>read_loop\<close> is the loop at its head.\<close>

fun read_wait :: "validator \<Rightarrow> loop_event list \<Rightarrow> ws \<Rightarrow> ws \<times> ws_out list \<times> loop_end" where
  "read_wait validate [] s = (s, [], StillReading)"
| "read_wait validate (Meanwhile p # evs) s =
     (case run_op p s of (s1, o1) \<Rightarrow>
        case read_wait validate evs s1 of (s2, o2, e) \<Rightarrow> (s2, o1 @ o2, e))"
| "read_wait validate (PingDeadline # evs) s = (s, [], Raised (ExcLoom LoomTransportError))"
| "read_wait validate (Cancelled # evs) s = (s, [], Raised ExcCancelled)"
| "read_wait validate (Msg (MsgText raw) # evs) s =
     (case handle_text validate raw s of
        (s1, o1, Some e) \<Rightarrow> (s1, o1, Raised e)
      | (s1, o1, None) \<Rightarrow>
          if ws_closing s1 then (s1, o1, Returned)
          else (case read_wait validate evs s1 of (s2, o2, e) \<Rightarrow> (s2, o1 @ o2, e)))"
| "read_wait validate (Msg MsgClose # evs) s = (s, [], Returned)"
| "read_wait validate (Msg MsgClosed # evs) s = (s, [], Returned)"
| "read_wait validate (Msg MsgClosing # evs) s = (s, [], Returned)"
| "read_wait validate (Msg MsgError # evs) s = (s, [], Raised (ExcLoom LoomTransportError))"
| "read_wait validate (Msg MsgOther # evs) s =
     (if ws_closing s then (s, [], Returned) else read_wait validate evs s)"

definition read_loop :: "validator \<Rightarrow> loop_event list \<Rightarrow> ws \<Rightarrow> ws \<times> ws_out list \<times> loop_end" where
  "read_loop validate evs s = (if ws_closing s then (s, [], Returned) else read_wait validate evs s)"

section \<open>Connecting\<close>

text \<open>
  How the upgrade ends: open (with a connection that can be written to, or not), refused with a
  status, or not at all.
\<close>

datatype handshake = HsOpen bool | HsRefused handshake_error | HsFails

definition socket_dropped :: "ws \<Rightarrow> ws \<times> ws_out list" where
  "socket_dropped s = report_connection_state False (s\<lparr>ws_socket := NoSocket\<rparr>)"

definition opened :: "bool \<Rightarrow> ws \<Rightarrow> ws_io" where
  "opened writable s =
     (case send_initial_subscribe (s\<lparr>ws_socket := (if writable then SockOpen else SockBroken)\<rparr>) of
        (s1, o1, Some e) \<Rightarrow> (s1\<lparr>ws_socket := SockClosed\<rparr>, o1, Some e)
      | (s1, o1, None) \<Rightarrow>
          (case report_connection_state True s1 of (s2, o2) \<Rightarrow> (s2, o1 @ o2, None)))"

definition open_and_read ::
  "validator \<Rightarrow> headers \<Rightarrow> handshake \<Rightarrow> loop_event list \<Rightarrow> ws \<Rightarrow> ws \<times> ws_out list \<times> loop_end" where
  "open_and_read validate hdrs hs evs s =
     (let up = OUpgrade (ws_url (ws_config s)) hdrs
      in case hs of
           HsFails \<Rightarrow> (s, [up], Raised ExcOther)
         | HsRefused e \<Rightarrow> (s, [up], Raised (ExcHandshake e))
         | HsOpen writable \<Rightarrow>
             (case opened writable s of
                (s1, o1, Some e) \<Rightarrow> (s1, up # o1, Raised e)
              | (s1, o1, None) \<Rightarrow>
                  (case read_loop validate evs s1 of
                     (s2, o2, e) \<Rightarrow>
                       if e = StillReading then (s2, up # o1 @ o2, e)
                       else (case socket_dropped s2 of (s3, o3) \<Rightarrow> (s3, up # o1 @ o2 @ o3, e)))))"

definition gate_refusal_or :: "handshake_error \<Rightarrow> ws_exc" where
  "gate_refusal_or e =
     (let refusal = gate_refusal (hs_status e) (hs_content_type e);
          refusal' = (if refusal = None \<and> hs_history e \<noteq> []
                      then gate_refusal (hd (hs_history e)) '''' else refusal)
      in case refusal' of Some c \<Rightarrow> ExcLoom c | None \<Rightarrow> ExcHandshake e)"

definition upgrade_headers :: "loom_config \<Rightarrow> headers" where
  "upgrade_headers cfg =
     (let h = auth_apply_to_headers (cfg_auth cfg) [(''User-Agent'', cfg_user_agent cfg)]
      in case cfg_box_ingress cfg of None \<Rightarrow> h | Some b \<Rightarrow> box_apply_to_headers b h)"

definition connect_and_read ::
  "validator \<Rightarrow> handshake \<Rightarrow> loop_event list \<Rightarrow> ws \<Rightarrow> ws \<times> ws_out list \<times> loop_end" where
  "connect_and_read validate hs evs s =
     (case open_and_read validate (upgrade_headers (ws_config s)) hs evs s of
        (s1, out, e) \<Rightarrow>
          (s1, out,
           if cfg_box_ingress (ws_config s) = None then e
           else (case e of Raised (ExcHandshake x) \<Rightarrow> Raised (gate_refusal_or x) | _ \<Rightarrow> e)))"

section \<open>The reconnect loop\<close>

text \<open>
  \<open>random.uniform(-spread, spread)\<close> is \<open>-spread + 2 * spread * r\<close> for the generator's \<open>r\<close> in [0, 1).
\<close>

definition backoff_delay :: "rat \<Rightarrow> nat \<Rightarrow> rat" where
  "backoff_delay r attempt =
     (let step = reconnect_backoff ! min attempt (length reconnect_backoff - 1);
          spread = step * reconnect_jitter_share
      in step + (- spread + (spread - (- spread)) * r))"

definition permanent_refusal :: "ws_exc \<Rightarrow> bool" where
  "permanent_refusal e =
     (case e of ExcLoom c \<Rightarrow> subclass_of c LoomBoxGateError
              | ExcHandshake x \<Rightarrow> hs_status x = 401 \<or> hs_status x = 403
              | _ \<Rightarrow> False)"

definition give_up :: "ws \<Rightarrow> ws \<times> ws_out list" where
  "give_up s =
     (case report_connection_state False s of
        (s1, out) \<Rightarrow> (s1\<lparr>ws_stopped := True, ws_task := False\<rparr>, out @ auth_failed s1))"

text \<open>
  One round of the loop: what the upgrade and the read loop meet, how long the connection was up
  by the event loop's clock, the random number of the delay, the operations of other tasks during
  the sleep, and whether the task is cancelled in it.
\<close>

record round =
  rd_handshake :: handshake
  rd_events :: "loop_event list"
  rd_uptime :: rat
  rd_random :: rat
  rd_sleep_ops :: "ws_op list"
  rd_sleep_cancelled :: bool

datatype run_end = LoopExit | GaveUp | TaskCancelled | InConnection | Sleeping nat

definition attempt_after :: "round \<Rightarrow> loop_end \<Rightarrow> nat \<Rightarrow> nat" where
  "attempt_after r e attempt =
     (if e = Returned \<and> healthy_connection_seconds \<le> rd_uptime r then 0 else attempt)"

definition gives_up :: "loop_end \<Rightarrow> bool" where
  "gives_up e \<longleftrightarrow> (case e of Raised x \<Rightarrow> permanent_refusal x | _ \<Rightarrow> False)"

fun run_forever :: "validator \<Rightarrow> nat \<Rightarrow> round list \<Rightarrow> ws \<Rightarrow> ws \<times> ws_out list \<times> run_end" where
  "run_forever validate attempt [] s = (s, [], Sleeping attempt)"
| "run_forever validate attempt (r # rs) s =
     (if ws_closing s then (s\<lparr>ws_task := False\<rparr>, [], LoopExit)
      else (case connect_and_read validate (rd_handshake r) (rd_events r) s of
              (s1, o1, e) \<Rightarrow>
                if e = StillReading then (s1, o1, InConnection)
                else if e = Raised ExcCancelled then (s1\<lparr>ws_task := False\<rparr>, o1, TaskCancelled)
                else if gives_up e then (case give_up s1 of (s2, o2) \<Rightarrow> (s2, o1 @ o2, GaveUp))
                else if ws_closing s1 then (s1\<lparr>ws_task := False\<rparr>, o1, LoopExit)
                else (let k = attempt_after r e attempt;
                          d = backoff_delay (rd_random r) k
                      in case run_ops (rd_sleep_ops r) s1 of
                           (s2, o2) \<Rightarrow>
                             if rd_sleep_cancelled r
                             then (s2\<lparr>ws_task := False\<rparr>, o1 @ ODelay d # o2, TaskCancelled)
                             else (case run_forever validate (k + 1) rs s2 of
                                     (s3, o3, fin) \<Rightarrow> (s3, o1 @ ODelay d # o2 @ o3, fin)))))"

end
