(* ===== verification/WsQueue.thy ===== *)
theory WsQueue
  imports Ws
begin

text \<open>
  The transport as one flat machine, and what holds of its envelope queue in every interleaving.

  \<open>ws_exec\<close> runs one action of any task: a text frame handled by the reader, a step of another task,
  the stages of the reconnect loop, \<open>start\<close> and the end of \<open>stop\<close>. The lemmas of the first section
  show that every run of \<open>run_forever\<close> is a sequence of these actions, so what the contracts of
  \<open>Flow\<close> give for all action sequences holds of the reconnect loop with any interleaving.
\<close>

section \<open>The flat machine\<close>

datatype ws_act =
    AText text_msg
  | AOp ws_op
  | AUpgrade
  | AOpened bool
  | ADropped
  | AGiveUp
  | ADelay rat
  | ATaskEnds
  | AStart
  | AStopEnd

definition drop_exc :: "ws_io \<Rightarrow> ws \<times> ws_out list" where
  "drop_exc r = (fst r, fst (snd r))"

lemma drop_exc_simp [simp]: "drop_exc (s, out, e) = (s, out)"
  by (simp add: drop_exc_def)

fun ws_exec :: "validator \<Rightarrow> ws_act \<Rightarrow> ws \<Rightarrow> ws \<times> ws_out list" where
  "ws_exec validate (AText raw) s = drop_exc (handle_text validate raw s)"
| "ws_exec validate (AOp p) s = run_op p s"
| "ws_exec validate AUpgrade s = (s, [OUpgrade (ws_url (ws_config s)) (upgrade_headers (ws_config s))])"
| "ws_exec validate (AOpened writable) s = drop_exc (opened writable s)"
| "ws_exec validate ADropped s = socket_dropped s"
| "ws_exec validate AGiveUp s = give_up s"
| "ws_exec validate (ADelay d) s = (s, [ODelay d])"
| "ws_exec validate ATaskEnds s = (s\<lparr>ws_task := False\<rparr>, [])"
| "ws_exec validate AStart s = (start s, [])"
| "ws_exec validate AStopEnd s = stop_end s"

abbreviation ws_run :: "validator \<Rightarrow> ws_act list \<Rightarrow> ws \<Rightarrow> ws \<times> ws_out list" where
  "ws_run validate \<equiv> exec (ws_exec validate)"

lemma run_ops_acts: "run_ops ps s = ws_run v (map AOp ps) s"
  by (induction ps arbitrary: s) (auto split: prod.splits)

lemma read_wait_acts: "\<exists>as. ws_run v as s = (\<lambda>(s', out, e). (s', out)) (read_wait v evs s)"
proof (induction v evs s rule: read_wait.induct)
  case (2 v p evs s)
  obtain s1 o1 where 1: "run_op p s = (s1, o1)" by fastforce
  with 2 have "\<exists>as. ws_run v as s1 = (\<lambda>(s', out, e). (s', out)) (read_wait v evs s1)" by simp
  then obtain as where "ws_run v as s1 = (\<lambda>(s', out, e). (s', out)) (read_wait v evs s1)" ..
  then have "ws_run v (AOp p # as) s = (\<lambda>(s', out, e). (s', out)) (read_wait v (Meanwhile p # evs) s)"
    using 1 by (auto split: prod.splits)
  then show ?case ..
next
  case (5 v raw evs s)
  obtain s1 o1 e where 1: "handle_text v raw s = (s1, o1, e)" by (cases "handle_text v raw s")
  show ?case
  proof (cases "e = None \<and> \<not> ws_closing s1")
    case True
    with 5 1 have "\<exists>as. ws_run v as s1 = (\<lambda>(s', out, e). (s', out)) (read_wait v evs s1)" by simp
    then obtain as where "ws_run v as s1 = (\<lambda>(s', out, e). (s', out)) (read_wait v evs s1)" ..
    then have "ws_run v (AText raw # as) s
        = (\<lambda>(s', out, e). (s', out)) (read_wait v (Msg (MsgText raw) # evs) s)"
      using 1 True by (auto split: prod.splits)
    then show ?thesis ..
  next
    case False
    then have "ws_run v [AText raw] s
        = (\<lambda>(s', out, e). (s', out)) (read_wait v (Msg (MsgText raw) # evs) s)"
      using 1 by (auto split: option.splits)
    then show ?thesis ..
  qed
next
  case (10 v evs s)
  then show ?case by (cases "ws_closing s") (auto intro: exI [of _ "[]"])
qed (auto intro: exI [of _ "[]"])

lemma read_loop_acts: "\<exists>as. ws_run v as s = (\<lambda>(s', out, e). (s', out)) (read_loop v evs s)"
  using read_wait_acts [of v s evs] by (auto simp: read_loop_def intro: exI [of _ "[]"])

lemma connect_and_read_acts:
  "\<exists>as. ws_run v as s = (\<lambda>(s', out, e). (s', out)) (connect_and_read v hs evs s)"
proof (cases hs)
  case (HsOpen writable)
  obtain s1 o1 e1 where 1: "opened writable s = (s1, o1, e1)" by (cases "opened writable s")
  obtain s2 o2 e2 where 2: "read_loop v evs s1 = (s2, o2, e2)" by (cases "read_loop v evs s1")
  obtain s3 o3 where 3: "socket_dropped s2 = (s3, o3)" by fastforce
  obtain as where as: "ws_run v as s1 = (s2, o2)" using read_loop_acts [of v s1 evs] 2 by auto
  consider (failed) x where "e1 = Some x" | (reading) "e1 = None" "e2 = StillReading"
    | (dropped) "e1 = None" "e2 \<noteq> StillReading" by (cases e1) auto
  then show ?thesis
  proof cases
    case failed
    then show ?thesis
      using HsOpen 1 by (intro exI [of _ "[AUpgrade, AOpened writable]"])
        (simp add: connect_and_read_def open_and_read_def Let_def)
  next
    case reading
    then show ?thesis
      using HsOpen 1 2 as by (intro exI [of _ "[AUpgrade, AOpened writable] @ as"])
        (simp add: connect_and_read_def open_and_read_def Let_def)
  next
    case dropped
    then show ?thesis
      using HsOpen 1 2 3 as by (intro exI [of _ "[AUpgrade, AOpened writable] @ as @ [ADropped]"])
        (simp add: connect_and_read_def open_and_read_def Let_def exec_append)
  qed
qed (auto simp: connect_and_read_def open_and_read_def Let_def intro!: exI [of _ "[AUpgrade]"])

lemma run_forever_acts:
  "\<exists>as. ws_run v as s = (\<lambda>(s', out, fin). (s', out)) (run_forever v attempt rs s)"
proof (induction rs arbitrary: attempt s)
  case Nil
  then show ?case by (auto intro: exI [of _ "[]"])
next
  case (Cons r rs)
  show ?case
  proof (cases "ws_closing s")
    case True
    then show ?thesis by (intro exI [of _ "[ATaskEnds]"]) simp
  next
    case open_loop: False
    obtain s1 o1 e where 1: "connect_and_read v (rd_handshake r) (rd_events r) s = (s1, o1, e)"
      by (cases "connect_and_read v (rd_handshake r) (rd_events r) s")
    obtain as where as: "ws_run v as s = (s1, o1)"
      using connect_and_read_acts [of v s "rd_handshake r" "rd_events r"] 1 by auto
    let ?k = "attempt_after r e attempt"
    let ?d = "backoff_delay (rd_random r) ?k"
    obtain s2 o2 where 2: "run_ops (rd_sleep_ops r) s1 = (s2, o2)" by fastforce
    obtain s3 o3 fin where 3: "run_forever v (?k + 1) rs s2 = (s3, o3, fin)"
      by (cases "run_forever v (?k + 1) rs s2")
    obtain bs where bs: "ws_run v bs s2 = (s3, o3)" using Cons.IH [of s2 "?k + 1"] 3 by auto
    have sl: "ws_run v (map AOp (rd_sleep_ops r)) s1 = (s2, o2)" using 2 run_ops_acts by metis
    have quiet: "gives_up e \<Longrightarrow> e \<noteq> StillReading \<and> e \<noteq> Raised ExcCancelled"
      by (auto simp: gives_up_def permanent_refusal_def)
    consider (reading) "e = StillReading" | (cancelled) "e = Raised ExcCancelled" | (refused) "gives_up e"
      | (closing) "e \<noteq> StillReading" "e \<noteq> Raised ExcCancelled" "\<not> gives_up e" "ws_closing s1"
      | (slept) "e \<noteq> StillReading" "e \<noteq> Raised ExcCancelled" "\<not> gives_up e" "\<not> ws_closing s1"
      by blast
    then show ?thesis
    proof cases
      case reading
      then show ?thesis using open_loop 1 as by (intro exI [of _ as]) simp
    next
      case cancelled
      then show ?thesis
        using open_loop 1 as by (intro exI [of _ "as @ [ATaskEnds]"]) (simp add: exec_append)
    next
      case refused
      then show ?thesis
        using open_loop 1 as quiet
        by (intro exI [of _ "as @ [AGiveUp]"]) (simp add: exec_append split: prod.splits)
    next
      case closing
      then show ?thesis
        using open_loop 1 as by (intro exI [of _ "as @ [ATaskEnds]"]) (simp add: exec_append)
    next
      case slept
      then show ?thesis
        using open_loop 1 2 3 as sl bs
        by (intro exI [of _ "as @ ADelay ?d # map AOp (rd_sleep_ops r)
              @ (if rd_sleep_cancelled r then [ATaskEnds] else bs)"])
          (simp add: exec_append Let_def)
    qed
  qed
qed

section \<open>What touches the queue\<close>

text \<open>
  Everything the queue invariant reads. Only a text frame that is an envelope, and the steps of the
  iterator, change it.
\<close>

definition queue_part :: "ws \<Rightarrow> envelope list \<times> getter \<times> nat list \<times> int \<times> nat \<times> bool \<times> nat" where
  "queue_part s = (ws_queue s, ws_getter s, ws_sizes s, ws_queued_bytes s, ws_dropped s,
     ws_overflowing s, ws_overflow_start s)"

lemma send_state [simp]: "fst (send f s) = s"
  by (simp add: send_def)

lemma send_cases:
  "send f s = (s, [OSend f], None) \<and> ws_socket s = SockOpen
   \<or> send f s = (s, [], Some ExcOther) \<and> ws_socket s = SockBroken
   \<or> send f s = (s, [], Some (ExcLoom LoomTransportError)) \<and> \<not> ws_is_open s"
  by (auto simp: send_def ws_is_open_def)

lemma queue_part_update [simp]:
  "queue_part (s\<lparr>ws_config := c\<rparr>) = queue_part s"
  "queue_part (s\<lparr>ws_session := b\<rparr>) = queue_part s"
  "queue_part (s\<lparr>ws_socket := k\<rparr>) = queue_part s"
  "queue_part (s\<lparr>ws_subs := x\<rparr>) = queue_part s"
  "queue_part (s\<lparr>ws_last_seq := n\<rparr>) = queue_part s"
  "queue_part (s\<lparr>ws_last_rtt := r\<rparr>) = queue_part s"
  "queue_part (s\<lparr>ws_reported := b\<rparr>) = queue_part s"
  "queue_part (s\<lparr>ws_acks := a\<rparr>) = queue_part s"
  "queue_part (s\<lparr>ws_reauth_ack := i\<rparr>) = queue_part s"
  "queue_part (s\<lparr>ws_task := b\<rparr>) = queue_part s"
  "queue_part (s\<lparr>ws_closing := b\<rparr>) = queue_part s"
  "queue_part (s\<lparr>ws_stopped := b\<rparr>) = queue_part s"
  by (simp_all add: queue_part_def)

lemma queue_part_report [simp]: "queue_part (fst (report_connection_state b s)) = queue_part s"
  by (simp add: report_connection_state_def)

lemma queue_part_cursor [simp]: "queue_part (advance_cursor n s) = queue_part s"
  by (simp add: advance_cursor_def split: option.splits)

lemma handle_ping_state:
  "fst (handle_ping frame s) = s \<or> (\<exists>r. fst (handle_ping frame s) = s\<lparr>ws_last_rtt := Some r\<rparr>)"
  by (auto simp: handle_ping_def case_prod_unfold split: option.splits)

lemma queue_part_ping [simp]: "queue_part (fst (handle_ping frame s)) = queue_part s"
  using handle_ping_state [of frame s] by auto

lemma queue_part_replay_lost [simp]: "queue_part (fst (handle_replay_lost frame s)) = queue_part s"
  by (simp add: handle_replay_lost_def Let_def)

lemma queue_part_ack [simp]: "queue_part (set_reauth_ack b s) = queue_part s"
  by (simp add: set_reauth_ack_def split: option.splits)

lemma queue_part_control [simp]: "queue_part (fst (handle_control op frame s)) = queue_part s"
  by (simp add: handle_control_def)

lemma queue_part_subscribe [simp]:
  "queue_part (fst (subscribe ts s)) = queue_part s" "queue_part (fst (unsubscribe ts s)) = queue_part s"
  by (simp_all add: subscribe_def unsubscribe_def Let_def)

lemma queue_part_reauth [simp]:
  "queue_part (fst (reauth_begin t s)) = queue_part s" "queue_part (fst (reauth_end i t s)) = queue_part s"
  by (auto simp: reauth_begin_def reauth_end_def send_def Let_def)

lemma queue_part_lifecycle [simp]:
  "queue_part (start s) = queue_part s" "queue_part (stop_begin s) = queue_part s"
  "queue_part (fst (stop_end s)) = queue_part s" "queue_part (fst (socket_dropped s)) = queue_part s"
  "queue_part (fst (give_up s)) = queue_part s"
  by (auto simp: start_def stop_begin_def stop_end_def socket_dropped_def give_up_def case_prod_unfold)

lemma queue_part_opened [simp]: "queue_part (fst (opened w s)) = queue_part s"
  by (auto simp: opened_def send_initial_subscribe_def send_def case_prod_unfold split: option.splits)

text \<open>The envelope a text frame carries, if it is one.\<close>

definition frame_envelope :: "validator \<Rightarrow> text_msg \<Rightarrow> envelope option" where
  "frame_envelope validate raw =
     (case text_json raw of
        Decoded (JObj frame) \<Rightarrow> if obj_get frame ''op'' \<noteq> JNull then None else validate frame
      | _ \<Rightarrow> None)"

lemma handle_text_envelope:
  "frame_envelope v raw = Some env \<Longrightarrow>
    handle_text v raw s = (fst (handle_envelope env (text_length raw) s),
                           snd (handle_envelope env (text_length raw) s), None)"
  by (auto simp: handle_text_def frame_envelope_def case_prod_unfold
      split: json_result.splits json.splits option.splits if_splits)

lemma queue_part_text: "frame_envelope v raw = None \<Longrightarrow> queue_part (fst (handle_text v raw s)) = queue_part s"
  by (auto simp: handle_text_def frame_envelope_def
      split: json_result.splits json.splits option.splits if_splits)

section \<open>The queue is bounded\<close>

definition held :: "ws \<Rightarrow> envelope list" where
  "held s = (case ws_getter s of Holds e \<Rightarrow> [e] | _ \<Rightarrow> [])"

definition backlog :: "ws \<Rightarrow> envelope list" where
  "backlog s = held s @ ws_queue s"

definition queue_ok :: "ws \<Rightarrow> bool" where
  "queue_ok s \<longleftrightarrow>
     length (ws_queue s) \<le> envelope_queue_maxsize
     \<and> ws_queued_bytes s = int (sum_list (ws_sizes s))
     \<and> ws_queued_bytes s \<le> envelope_queue_max_bytes
     \<and> length (backlog s) \<le> length (ws_sizes s)"

lemma queue_ok_part: "queue_part s' = queue_part s \<Longrightarrow> queue_ok s' = queue_ok s"
  by (simp add: queue_part_def queue_ok_def backlog_def held_def)

lemma queue_ok_overflow [simp]: "queue_ok (fst (register_overflow s)) = queue_ok s"
  by (simp add: register_overflow_def queue_ok_def backlog_def held_def Let_def)

lemma queue_ok_offer: "queue_ok s \<Longrightarrow> queue_ok (fst (offer env n s))"
  by (auto simp: offer_def queue_full_def)
    (auto simp: queue_ok_def backlog_def held_def)

lemma queue_ok_events: 
  "queue_ok s \<Longrightarrow> queue_ok (events_wait s)"
  "queue_ok s \<Longrightarrow> queue_ok (getter_runs s)"
  by (auto simp: queue_ok_def events_wait_def getter_runs_def backlog_def held_def
      split: getter.splits list.splits)

lemma end_episode_part [simp]:
  "ws_queue (end_episode s) = ws_queue s" "ws_getter (end_episode s) = ws_getter s"
  "ws_sizes (end_episode s) = ws_sizes s" "ws_queued_bytes (end_episode s) = ws_queued_bytes s"
  "ws_dropped (end_episode s) = ws_dropped s"
  by (simp_all add: end_episode_def)

lemma drop_size_part [simp]:
  "ws_queue (drop_size s) = ws_queue s" "ws_getter (drop_size s) = ws_getter s"
  "ws_sizes (drop_size s) = tl (ws_sizes s)" "ws_overflowing (drop_size s) = ws_overflowing s"
  "ws_dropped (drop_size s) = ws_dropped s"
  by (simp_all add: drop_size_def split: list.splits)

lemma queue_ok_wake: "queue_ok s \<Longrightarrow> queue_ok (fst (events_wake b s))"
  by (cases "ws_sizes s")
    (auto simp: queue_ok_def events_wake_def backlog_def held_def drop_size_def split: getter.splits)

lemma queue_ok_exec: "queue_ok s \<Longrightarrow> queue_ok (fst (ws_exec v a s))"
proof (cases a)
  case (AText raw)
  assume "queue_ok s"
  then show ?thesis
    using AText queue_ok_part [OF queue_part_text [of v raw s]]
    by (cases "frame_envelope v raw")
      (simp_all add: drop_exc_def handle_text_envelope handle_envelope_def queue_ok_offer
        queue_ok_part [OF queue_part_cursor])
next
  case (AOp p)
  assume "queue_ok s"
  then show ?thesis
    using AOp
    by (cases p) (auto simp: queue_ok_events queue_ok_wake case_prod_unfold
        queue_ok_part [OF queue_part_subscribe(1)] queue_ok_part [OF queue_part_subscribe(2)]
        queue_ok_part [OF queue_part_reauth(1)] queue_ok_part [OF queue_part_reauth(2)]
        queue_ok_part [OF queue_part_lifecycle(2)])
qed (simp_all add: drop_exc_def queue_ok_part [OF queue_part_opened] queue_ok_part [OF queue_part_lifecycle(1)]
  queue_ok_part [OF queue_part_lifecycle(3)] queue_ok_part [OF queue_part_lifecycle(4)]
  queue_ok_part [OF queue_part_lifecycle(5)] queue_ok_part [OF queue_part_update(10)])

interpretation queue_bound: invariant "ws_exec v" queue_ok for v
  by unfold_locales (rule queue_ok_exec)

lemma queue_ok_init [simp]: "queue_ok (ws_init cfg ts rl af cs hb sess cl)"
  by (simp add: queue_ok_def ws_init_def backlog_def held_def envelope_queue_maxsize_def
      envelope_queue_max_bytes_def)

text \<open>C14: whatever the daemon sends and however the tasks interleave, the transport never holds more
  than 4096 queued envelopes nor more than 64 MiB of queued frames by its own tally; the tally is
  the sum of the recorded frame sizes, never negative, and every envelope not yet yielded has its
  size on record.\<close>

theorem ws_queue_bounded:
  "let s = fst (run_forever v 0 rounds (start (ws_init cfg ts rl af cs hb sess cl)))
   in length (ws_queue s) \<le> 4096 \<and> 0 \<le> ws_queued_bytes s \<and> ws_queued_bytes s \<le> 67108864
      \<and> ws_queued_bytes s = int (sum_list (ws_sizes s)) \<and> length (backlog s) \<le> length (ws_sizes s)"
proof -
  let ?s0 = "start (ws_init cfg ts rl af cs hb sess cl)"
  obtain as where "ws_run v as ?s0 = (\<lambda>(s', out, fin). (s', out)) (run_forever v 0 rounds ?s0)"
    using run_forever_acts by metis
  then have "fst (run_forever v 0 rounds ?s0) = fst (ws_run v as ?s0)"
    by (simp add: case_prod_unfold)
  moreover have "queue_ok ?s0" by (simp add: queue_ok_part [OF queue_part_lifecycle(1)])
  ultimately have "queue_ok (fst (run_forever v 0 rounds ?s0))"
    using queue_bound.inv_exec by metis
  then show ?thesis
    by (simp add: queue_ok_def Let_def envelope_queue_maxsize_def envelope_queue_max_bytes_def)
qed

section \<open>A validator and frames for examples\<close>

definition any_envelope :: envelope where
  "any_envelope = \<lparr>env_seq = 1, env_kind = ''change'', env_topic = None, env_type = ''t'', env_ts = '''',
     env_payload = JNull\<rparr>"

definition seq_validate :: validator where
  "seq_validate frame =
     (case obj_get frame ''seq'' of JInt n \<Rightarrow> Some (any_envelope\<lparr>env_seq := n\<rparr>) | _ \<Rightarrow> None)"

definition text_frame :: "nat \<Rightarrow> frame \<Rightarrow> text_msg" where
  "text_frame n frame = \<lparr>text_length = n, text_json = Decoded (JObj frame)\<rparr>"

section \<open>First in, first out\<close>

text \<open>The envelope an action puts into the queue with its frame size, and what a wake takes out.\<close>

definition admitted :: "validator \<Rightarrow> ws_act \<Rightarrow> ws \<Rightarrow> (envelope \<times> nat) list" where
  "admitted v a s =
     (case a of
        AText raw \<Rightarrow>
          (case frame_envelope v raw of
             Some env \<Rightarrow> if queue_full (text_length raw) s then [] else [(env, text_length raw)]
           | None \<Rightarrow> [])
      | _ \<Rightarrow> [])"

definition taken :: "ws_act \<Rightarrow> ws \<Rightarrow> envelope list" where
  "taken a s = (case a of AOp (OpWake b) \<Rightarrow> held s | _ \<Rightarrow> [])"

definition sizes_taken :: "ws_act \<Rightarrow> ws \<Rightarrow> nat list" where
  "sizes_taken a s =
     (case a of AOp (OpWake b) \<Rightarrow> if b \<and> ws_stopped s \<or> held s = [] then [] else take 1 (ws_sizes s)
              | _ \<Rightarrow> [])"

definition yields :: "ws_out list \<Rightarrow> envelope list" where
  "yields out = concat (map (\<lambda>x. case x of OYield e \<Rightarrow> [e] | _ \<Rightarrow> []) out)"

lemma yields_simps [simp]:
  "yields [] = []" "yields (x # xs) = (case x of OYield e \<Rightarrow> [e] | _ \<Rightarrow> []) @ yields xs"
  "yields (xs @ ys) = yields xs @ yields ys"
  by (simp_all add: yields_def)

lemma backlog_part: "queue_part s' = queue_part s \<Longrightarrow> backlog s' = backlog s"
  by (simp add: queue_part_def backlog_def held_def)

lemma sizes_part: "queue_part s' = queue_part s \<Longrightarrow> ws_sizes s' = ws_sizes s"
  by (simp add: queue_part_def)

lemma queue_full_cursor [simp]: "queue_full n (advance_cursor k s) = queue_full n s"
  using queue_part_cursor [of k s] by (simp add: queue_full_def queue_part_def)

lemma backlog_offer:
  "backlog (fst (offer env n s)) = backlog s @ (if queue_full n s then [] else [env])"
  "ws_sizes (fst (offer env n s)) = ws_sizes s @ (if queue_full n s then [] else [n])"
  by (simp_all add: offer_def register_overflow_def backlog_def held_def Let_def)

lemma backlog_events [simp]:
  "backlog (events_wait s) = backlog s" "backlog (getter_runs s) = backlog s"
  "ws_sizes (events_wait s) = ws_sizes s" "ws_sizes (getter_runs s) = ws_sizes s"
  by (auto simp: backlog_def held_def events_wait_def getter_runs_def split: getter.splits list.splits)

lemma backlog_wake:
  "backlog s = held s @ backlog (fst (events_wake b s))"
  "ws_sizes s = (if b \<and> ws_stopped s \<or> held s = [] then [] else take 1 (ws_sizes s))
     @ ws_sizes (fst (events_wake b s))"
  by (cases "ws_sizes s"; auto simp: backlog_def held_def events_wake_def split: getter.splits)+

lemmas unrelated_parts =
  queue_part_subscribe queue_part_reauth queue_part_lifecycle queue_part_opened queue_part_update(10)

interpretation envelope_flow: fifo_flow "ws_exec v" backlog "\<lambda>a s. map fst (admitted v a s)" taken for v
proof unfold_locales
  fix s :: ws and a
  show "backlog s @ map fst (admitted v a s) = taken a s @ backlog (fst (ws_exec v a s))"
  proof (cases a)
    case (AText raw)
    then show ?thesis
      using backlog_part [OF queue_part_text [of v raw s]]
      by (cases "frame_envelope v raw")
        (simp_all add: drop_exc_def handle_text_envelope handle_envelope_def backlog_offer admitted_def
          taken_def backlog_part [OF queue_part_cursor])
  next
    case (AOp p)
    then show ?thesis
      by (cases p) (auto simp: admitted_def taken_def case_prod_unfold backlog_wake(1) [symmetric]
          unrelated_parts [THEN backlog_part])
  qed (simp_all add: admitted_def taken_def drop_exc_def unrelated_parts [THEN backlog_part])
qed

interpretation size_flow: fifo_flow "ws_exec v" ws_sizes "\<lambda>a s. map snd (admitted v a s)" sizes_taken for v
proof unfold_locales
  fix s :: ws and a
  show "ws_sizes s @ map snd (admitted v a s) = sizes_taken a s @ ws_sizes (fst (ws_exec v a s))"
  proof (cases a)
    case (AText raw)
    then show ?thesis
      using sizes_part [OF queue_part_text [of v raw s]]
      by (cases "frame_envelope v raw")
        (simp_all add: drop_exc_def handle_text_envelope handle_envelope_def backlog_offer admitted_def
          sizes_taken_def sizes_part [OF queue_part_cursor])
  next
    case (AOp p)
    then show ?thesis
      by (cases p) (auto simp: admitted_def sizes_taken_def case_prod_unfold backlog_wake(2) [symmetric]
          unrelated_parts [THEN sizes_part])
  qed (simp_all add: admitted_def sizes_taken_def drop_exc_def unrelated_parts [THEN sizes_part])
qed

text \<open>Nothing but a wake yields, and a wake yields what it takes out unless it discards it.\<close>

lemma yields_send [simp]: "yields (fst (snd (send f s))) = []"
  by (simp add: send_def)

lemma yields_report [simp]: "yields (snd (report_connection_state b s)) = []"
  by (simp add: report_connection_state_def)

lemma yields_callbacks [simp]: "yields (trigger_resync n s) = []" "yields (auth_failed s) = []"
  by (simp_all add: trigger_resync_def auth_failed_def)

lemma yields_offer [simp]: "yields (snd (offer env n s)) = []"
  by (simp add: offer_def register_overflow_def Let_def)

lemma yields_ping [simp]: "yields (fst (snd (handle_ping frame s))) = []"
  by (simp add: handle_ping_def case_prod_unfold split: option.splits)

lemma yields_control [simp]: "yields (fst (snd (handle_control op frame s))) = []"
  by (simp add: handle_control_def handle_replay_lost_def Let_def)

lemma yields_text [simp]: "yields (fst (snd (handle_text v raw s))) = []"
  by (simp add: handle_text_def handle_envelope_def case_prod_unfold split: json_result.splits json.splits option.splits)

lemma yields_subscribe [simp]:
  "yields (fst (snd (subscribe ts s))) = []" "yields (fst (snd (unsubscribe ts s))) = []"
  by (simp_all add: subscribe_def unsubscribe_def Let_def)

lemma yields_reauth [simp]:
  "yields (fst (snd (reauth_begin t s))) = []" "yields (fst (snd (reauth_end i t s))) = []"
  by (simp_all add: reauth_begin_def reauth_end_def send_def Let_def)

lemma yields_lifecycle [simp]:
  "yields (snd (stop_end s)) = []" "yields (snd (socket_dropped s)) = []" "yields (snd (give_up s)) = []"
  by (simp_all add: stop_end_def socket_dropped_def give_up_def case_prod_unfold)

lemma yields_opened [simp]: "yields (fst (snd (opened w s))) = []"
  by (auto simp: opened_def send_initial_subscribe_def send_def case_prod_unfold split: option.splits)

lemma yields_wake: "\<not> (b \<and> ws_stopped s) \<Longrightarrow> yields (snd (events_wake b s)) = held s"
  by (auto simp: events_wake_def held_def split: getter.splits)

lemma yields_exec: "a \<noteq> AOp (OpWake True) \<Longrightarrow> yields (snd (ws_exec v a s)) = taken a s"
proof (cases a)
  case (AOp p)
  assume "a \<noteq> AOp (OpWake True)"
  with AOp show ?thesis
    by (cases p) (auto simp: taken_def case_prod_unfold yields_wake)
qed (simp_all add: taken_def drop_exc_def)

lemma yields_run:
  "AOp (OpWake True) \<notin> set as \<Longrightarrow> yields (snd (ws_run v as s)) = along (ws_exec v) taken as s"
  by (induction as arbitrary: s) (auto simp: case_prod_unfold yields_exec)

lemma sizes_taken_length:
  assumes "queue_ok s" and "a \<noteq> AOp (OpWake True)"
  shows "length (sizes_taken a s) = length (taken a s)"
proof (cases "\<exists>b. a = AOp (OpWake b)")
  case True
  with assms(2) have a: "a = AOp (OpWake False)" by (metis (full_types))
  show ?thesis
  proof (cases "held s = []")
    case False
    then have "length (held s) = 1" by (auto simp: held_def split: getter.splits)
    moreover from assms(1) this have "1 \<le> length (ws_sizes s)" by (auto simp: queue_ok_def backlog_def)
    ultimately show ?thesis using a False by (simp add: sizes_taken_def taken_def)
  qed (simp add: a sizes_taken_def taken_def)
qed (auto simp: sizes_taken_def taken_def split: ws_act.splits ws_op.splits)

lemma taken_lengths_run:
  "queue_ok s \<Longrightarrow> AOp (OpWake True) \<notin> set as \<Longrightarrow>
    length (along (ws_exec v) sizes_taken as s) = length (along (ws_exec v) taken as s)"
proof (induction as arbitrary: s)
  case Nil
  then show ?case by simp
next
  case (Cons a as)
  then show ?case
    using sizes_taken_length [of s a] queue_ok_exec [OF Cons.prems(1), of v a]
    by (auto simp del: ws_exec.simps)
qed

lemma along_map: "along step (\<lambda>a s. map f (g a s)) as s = map f (along step g as s)"
  by (induction as arbitrary: s) simp_all

text \<open>C15: the queue is a lossless FIFO. As long as the consumer's iterator is not cut off by the stop
  event, what it has yielded and what is still waiting are together exactly the envelopes that
  were admitted, each once and in arrival order, and the deque of frame sizes lists the sizes of
  exactly the waiting ones in the same order.\<close>

theorem ws_fifo:
  assumes "AOp (OpWake True) \<notin> set as"
  shows "let s0 = start (ws_init cfg ts rl af cs hb sess cl); r = ws_run v as s0;
             accepted = along (ws_exec v) (admitted v) as s0; k = length (yields (snd r))
         in yields (snd r) = map fst (take k accepted)
            \<and> backlog (fst r) = map fst (drop k accepted)
            \<and> ws_sizes (fst r) = map snd (drop k accepted)"
proof -
  define s0 where "s0 = start (ws_init cfg ts rl af cs hb sess cl)"
  define acc where "acc = along (ws_exec v) (admitted v) as s0"
  define t where "t = along (ws_exec v) taken as s0"
  define u where "u = along (ws_exec v) sizes_taken as s0"
  have ok: "queue_ok s0" by (simp add: s0_def queue_ok_part [OF queue_part_lifecycle(1)])
  have "backlog s0 = []" "ws_sizes s0 = []"
    by (simp_all add: s0_def start_def ws_init_def backlog_def held_def)
  then have "map fst acc = t @ backlog (fst (ws_run v as s0))"
    and "map snd acc = u @ ws_sizes (fst (ws_run v as s0))"
    using envelope_flow.run_conserves [of s0 v as] size_flow.run_conserves [of s0 v as]
    by (simp_all add: acc_def t_def u_def along_map)
  moreover have "length u = length t"
    using taken_lengths_run [OF ok assms] by (simp add: t_def u_def)
  moreover have "yields (snd (ws_run v as s0)) = t"
    using yields_run [OF assms] by (simp add: t_def)
  ultimately show ?thesis
    unfolding Let_def s0_def [symmetric] acc_def [symmetric]
    by (metis append_eq_conv_conj take_map drop_map)
qed

lemmas demo_eval =
  handle_text_def handle_envelope_def offer_def register_overflow_def trigger_resync_def advance_cursor_def
  queue_full_def envelope_queue_max_bytes_def envelope_queue_maxsize_def seq_validate_def obj_get_def
  frame_envelope_def admitted_def events_wait_def getter_runs_def events_wake_def drop_size_def
  end_episode_def start_def ws_init_def any_envelope_def

definition fifo_demo :: "ws_act list" where
  "fifo_demo = [AText (text_frame 10 [(''seq'', JInt 1)]), AText (text_frame 20 [(''seq'', JInt 2)]),
     AOp OpWait, AOp OpGet, AText (text_frame 30 [(''seq'', JInt 3)]), AOp (OpWake False)]"

theorem ws_fifo_witness:
  "let r = ws_run seq_validate fifo_demo (start (ws_init box_cfg [] True True True True False False))
   in yields (snd r) = [any_envelope\<lparr>env_seq := 1\<rparr>]
      \<and> backlog (fst r) = [any_envelope\<lparr>env_seq := 2\<rparr>, any_envelope\<lparr>env_seq := 3\<rparr>]
      \<and> ws_sizes (fst r) = [20, 30]"
proof -
  let ?s0 = "start (ws_init box_cfg [] True True True True False False)"
  have accepted: "along (ws_exec seq_validate) (admitted seq_validate) fifo_demo ?s0
      = [(any_envelope\<lparr>env_seq := 1\<rparr>, 10), (any_envelope\<lparr>env_seq := 2\<rparr>, 20), (any_envelope\<lparr>env_seq := 3\<rparr>, 30)]"
    and one: "length (yields (snd (ws_run seq_validate fifo_demo ?s0))) = 1"
    by (simp_all add: fifo_demo_def text_frame_def demo_eval)
  have "AOp (OpWake True) \<notin> set fifo_demo" by (simp add: fifo_demo_def)
  from ws_fifo [OF this, of box_cfg "[]" True True True True False False seq_validate]
  show ?thesis
    unfolding Let_def accepted one by simp
qed

section \<open>Overflow episodes\<close>

definition resyncs :: "ws_out list \<Rightarrow> int list" where
  "resyncs out = concat (map (\<lambda>x. case x of OResync n \<Rightarrow> [n] | _ \<Rightarrow> []) out)"

lemma resyncs_simps [simp]:
  "resyncs [] = []" "resyncs (x # xs) = (case x of OResync n \<Rightarrow> [n] | _ \<Rightarrow> []) @ resyncs xs"
  "resyncs (xs @ ys) = resyncs xs @ resyncs ys"
  by (simp_all add: resyncs_def)

text \<open>The daemon announces a lost replay; the consumer's wake finds the queue at the low-water mark.\<close>

definition replay_lost_frame :: "text_msg \<Rightarrow> bool" where
  "replay_lost_frame raw \<longleftrightarrow>
     (case text_json raw of Decoded (JObj frame) \<Rightarrow> obj_get frame ''op'' = JStr ''replay_lost'' | _ \<Rightarrow> False)"

definition drained_wakes :: "ws_act \<Rightarrow> ws \<Rightarrow> nat list" where
  "drained_wakes a s =
     (case a of AOp (OpWake b) \<Rightarrow> if length (ws_queue s) \<le> envelope_queue_low_water then [length (ws_queue s)] else []
              | _ \<Rightarrow> [])"

definition episode :: "ws \<Rightarrow> nat \<times> bool" where
  "episode s = (ws_dropped s, ws_overflowing s)"

lemma episode_part: "queue_part s' = queue_part s \<Longrightarrow> episode s' = episode s"
  by (simp add: queue_part_def episode_def)

lemma resyncs_send [simp]: "resyncs (fst (snd (send f s))) = []"
  by (simp add: send_def)

lemma resyncs_report [simp]: "resyncs (snd (report_connection_state b s)) = []"
  by (simp add: report_connection_state_def)

lemma resyncs_auth [simp]: "resyncs (auth_failed s) = []"
  by (simp add: auth_failed_def)

lemma resyncs_ping [simp]: "resyncs (fst (snd (handle_ping frame s))) = []"
  by (simp add: handle_ping_def case_prod_unfold split: option.splits)

lemma resyncs_control:
  "op \<noteq> JStr ''replay_lost'' \<Longrightarrow> resyncs (fst (snd (handle_control op frame s))) = []"
  by (simp add: handle_control_def)

lemma resyncs_text:
  "frame_envelope v raw = None \<Longrightarrow> \<not> replay_lost_frame raw \<Longrightarrow> resyncs (fst (snd (handle_text v raw s))) = []"
  by (auto simp: handle_text_def frame_envelope_def replay_lost_frame_def resyncs_control
      split: json_result.splits json.splits option.splits if_splits)

lemma resyncs_subscribe [simp]:
  "resyncs (fst (snd (subscribe ts s))) = []" "resyncs (fst (snd (unsubscribe ts s))) = []"
  by (simp_all add: subscribe_def unsubscribe_def Let_def)

lemma resyncs_reauth [simp]:
  "resyncs (fst (snd (reauth_begin t s))) = []" "resyncs (fst (snd (reauth_end i t s))) = []"
  by (simp_all add: reauth_begin_def reauth_end_def send_def Let_def)

lemma resyncs_lifecycle [simp]:
  "resyncs (snd (stop_end s)) = []" "resyncs (snd (socket_dropped s)) = []" "resyncs (snd (give_up s)) = []"
  by (simp_all add: stop_end_def socket_dropped_def give_up_def case_prod_unfold)

lemma resyncs_opened [simp]: "resyncs (fst (snd (opened w s))) = []"
  by (auto simp: opened_def send_initial_subscribe_def send_def case_prod_unfold split: option.splits)

lemma resyncs_wake [simp]: "resyncs (snd (events_wake b s)) = []"
  by (simp add: events_wake_def split: getter.splits)

text \<open>Whether an action drops an envelope.\<close>

definition drops :: "validator \<Rightarrow> ws_act \<Rightarrow> ws \<Rightarrow> bool" where
  "drops v a s \<longleftrightarrow>
     (case a of AText raw \<Rightarrow> frame_envelope v raw \<noteq> None \<and> queue_full (text_length raw) s | _ \<Rightarrow> False)"

lemma hook_cursor [simp]:
  "ws_hook_replay_lost (advance_cursor k s) = ws_hook_replay_lost s"
  "ws_dropped (advance_cursor k s) = ws_dropped s" "ws_overflowing (advance_cursor k s) = ws_overflowing s"
  "episode (advance_cursor k s) = episode s"
  by (simp_all add: episode_def advance_cursor_def split: option.splits)

lemma episode_events [simp]: "episode (events_wait s) = episode s" "episode (getter_runs s) = episode s"
  by (simp_all add: episode_def events_wait_def getter_runs_def split: getter.splits list.splits)

lemma episode_wake:
  "envelope_queue_low_water < length (ws_queue s) \<Longrightarrow> episode (fst (events_wake b s)) = episode s"
  by (simp add: episode_def events_wake_def end_episode_def split: getter.splits)

lemma episode_offer:
  "episode (fst (offer env n s)) = (if queue_full n s then (ws_dropped s + 1, True) else episode s)"
  "resyncs (snd (offer env n s)) =
     (if queue_full n s \<and> \<not> ws_overflowing s \<and> ws_hook_replay_lost s then [-1] else [])"
  by (simp_all add: offer_def register_overflow_def trigger_resync_def episode_def Let_def)

definition replay_lost_act :: "ws_act \<Rightarrow> bool" where
  "replay_lost_act a = (case a of AText raw \<Rightarrow> replay_lost_frame raw | _ \<Rightarrow> False)"

lemma replay_lost_no_envelope: "replay_lost_frame raw \<Longrightarrow> frame_envelope v raw = None"
  by (auto simp: replay_lost_frame_def frame_envelope_def split: json_result.splits json.splits)

text \<open>One action inside an episode, or outside one.\<close>

lemma episode_exec:
  assumes "drained_wakes a s = []" and "\<not> replay_lost_act a"
  shows "episode (fst (ws_exec v a s)) = (if drops v a s then (ws_dropped s + 1, True) else episode s)
    \<and> resyncs (snd (ws_exec v a s))
        = (if drops v a s \<and> \<not> ws_overflowing s \<and> ws_hook_replay_lost s then [-1] else [])"
proof (cases a)
  case (AText raw)
  then show ?thesis
    using assms episode_part [OF queue_part_text [of v raw s]] resyncs_text [of v raw s]
    by (cases "frame_envelope v raw")
      (auto simp: drop_exc_def handle_text_envelope handle_envelope_def episode_offer drops_def
        replay_lost_act_def)
next
  case (AOp p)
  then show ?thesis
    using assms(1)
    by (cases p) (auto simp: drops_def case_prod_unfold episode_wake drained_wakes_def
        unrelated_parts [THEN episode_part] split: if_splits)
qed (simp_all add: drops_def drop_exc_def unrelated_parts [THEN episode_part])

lemma hook_send [simp]: "ws_hook_replay_lost (fst (send f s)) = ws_hook_replay_lost s"
  by simp

lemma hook_exec [simp]: "ws_hook_replay_lost (fst (ws_exec v a s)) = ws_hook_replay_lost s"
proof (cases a)
  case (AText raw)
  have ping: "ws_hook_replay_lost (fst (handle_ping f s)) = ws_hook_replay_lost s" for f
    using handle_ping_state [of f s] by auto
  show ?thesis
    using AText
    by (auto simp: drop_exc_def handle_text_def handle_control_def ping handle_replay_lost_def set_reauth_ack_def
        handle_envelope_def offer_def register_overflow_def case_prod_unfold Let_def
        split: json_result.splits json.splits option.splits)
next
  case (AOp p)
  then show ?thesis
    by (cases p) (auto simp: events_wait_def getter_runs_def events_wake_def end_episode_def drop_size_def
        subscribe_def unsubscribe_def reauth_begin_def reauth_end_def stop_begin_def send_def case_prod_unfold
        Let_def split: getter.splits list.splits)
qed (auto simp: drop_exc_def opened_def send_initial_subscribe_def send_def report_connection_state_def
    socket_dropped_def give_up_def start_def stop_end_def case_prod_unfold split: option.splits)

lemma episode_run:
  assumes "along (ws_exec v) drained_wakes as s = []" and "\<forall>a\<in>set as. \<not> replay_lost_act a"
  shows "ws_dropped s \<le> ws_dropped (fst (ws_run v as s))
    \<and> ws_overflowing (fst (ws_run v as s)) = (ws_overflowing s \<or> ws_dropped (fst (ws_run v as s)) \<noteq> ws_dropped s)
    \<and> resyncs (snd (ws_run v as s))
        = (if ws_hook_replay_lost s \<and> \<not> ws_overflowing s \<and> ws_dropped (fst (ws_run v as s)) \<noteq> ws_dropped s
           then [-1] else [])"
  using assms
proof (induction as arbitrary: s)
  case Nil
  then show ?case by simp
next
  case (Cons a as)
  let ?s1 = "fst (ws_exec v a s)"
  have "episode ?s1 = (if drops v a s then (ws_dropped s + 1, True) else episode s)"
    and out: "resyncs (snd (ws_exec v a s))
      = (if drops v a s \<and> \<not> ws_overflowing s \<and> ws_hook_replay_lost s then [-1] else [])"
    using episode_exec [of a s v] Cons.prems by auto
  then have "ws_dropped ?s1 = (if drops v a s then ws_dropped s + 1 else ws_dropped s)"
    and "ws_overflowing ?s1 = (ws_overflowing s \<or> drops v a s)"
    by (auto simp: episode_def split: if_splits)
  with Cons.IH [of ?s1] Cons.prems out show ?case
    by (cases "drops v a s") (auto simp add: case_prod_unfold simp del: ws_exec.simps)
qed

text \<open>C16: an overflow episode forces exactly one resync. Between two points where the consumer has
  drained the queue to the low-water mark, and apart from what the daemon itself announces, the
  replay-lost callback fires once if any envelope was dropped and never otherwise; it fires for
  the first drop, so every later drop of the episode is announced by nothing.\<close>

theorem one_resync_per_episode:
  assumes "ws_hook_replay_lost s" and "\<not> ws_overflowing s"
    and "along (ws_exec v) drained_wakes as s = []" and "\<forall>a\<in>set as. \<not> replay_lost_act a"
  shows "resyncs (snd (ws_run v as s)) = (if ws_dropped (fst (ws_run v as s)) = ws_dropped s then [] else [-1])
    \<and> ws_dropped s \<le> ws_dropped (fst (ws_run v as s))
    \<and> ws_overflowing (fst (ws_run v as s)) = (ws_dropped (fst (ws_run v as s)) \<noteq> ws_dropped s)"
  using episode_run [OF assms(3,4)] assms(1,2) by simp

definition overflow_demo :: ws where
  "overflow_demo = (start (ws_init box_cfg [] True True True True False False))
     \<lparr>ws_queue := replicate 4096 any_envelope, ws_sizes := replicate 4096 1, ws_queued_bytes := 4096\<rparr>"

theorem one_resync_per_episode_witness:
  "resyncs (snd (ws_run seq_validate (replicate 3 (AText (text_frame 1 [(''seq'', JInt 7)]))) overflow_demo)) = [-1]
   \<and> ws_dropped (fst (ws_run seq_validate (replicate 3 (AText (text_frame 1 [(''seq'', JInt 7)]))) overflow_demo)) = 3"
proof -
  let ?as = "replicate 3 (AText (text_frame 1 [(''seq'', JInt 7)]))"
  have hyps: "ws_hook_replay_lost overflow_demo" "\<not> ws_overflowing overflow_demo"
    "along (ws_exec seq_validate) drained_wakes ?as overflow_demo = []" "\<forall>a\<in>set ?as. \<not> replay_lost_act a"
    by (simp_all add: overflow_demo_def start_def ws_init_def drained_wakes_def replay_lost_act_def
        replay_lost_frame_def text_frame_def obj_get_def numeral_3_eq_3)
  have three: "ws_dropped (fst (ws_run seq_validate ?as overflow_demo)) = 3"
    by (simp add: numeral_3_eq_3 overflow_demo_def text_frame_def demo_eval case_prod_unfold)
  have "ws_dropped overflow_demo = 0" by (simp add: overflow_demo_def start_def ws_init_def)
  with one_resync_per_episode [OF hyps] three show ?thesis by simp
qed

section \<open>Overflow by bytes\<close>

text \<open>
  Frames of 512 KiB: 128 of them exhaust the byte budget, while the item count stays far below the
  low-water mark. \<open>big_turn\<close> is one turn of a consumer followed by two further frames.
\<close>

definition big_text :: ws_act where
  "big_text = AText (text_frame 524288 [(''seq'', JInt 1)])"

definition big_turn :: "ws_act list" where
  "big_turn = [AOp OpWait, AOp OpGet, AOp (OpWake False), big_text, big_text]"

lemma big_text_exec: "ws_exec seq_validate big_text s = handle_envelope any_envelope 524288 s"
proof -
  have "any_envelope\<lparr>env_seq := 1\<rparr> = any_envelope" by (simp add: any_envelope_def)
  then show ?thesis
    by (simp add: big_text_def text_frame_def handle_text_def seq_validate_def obj_get_def case_prod_unfold)
qed

definition big_state :: "nat \<Rightarrow> bool \<Rightarrow> ws \<Rightarrow> bool" where
  "big_state k latched s \<longleftrightarrow>
     ws_queue s = replicate k any_envelope \<and> ws_sizes s = replicate k 524288
     \<and> ws_queued_bytes s = 524288 * int k \<and> ws_getter s = NoGetter \<and> \<not> ws_stopped s
     \<and> ws_hook_replay_lost s \<and> ws_overflowing s = latched"

lemma big_state_cursor [simp]: "big_state k b (advance_cursor n s) = big_state k b s"
  by (simp add: big_state_def advance_cursor_def split: option.splits)

lemmas big_limits = queue_full_def envelope_queue_max_bytes_def envelope_queue_maxsize_def

lemma big_offer:
  "k < 128 \<Longrightarrow> big_state k b s \<Longrightarrow>
    snd (offer any_envelope 524288 s) = [] \<and> big_state (Suc k) b (fst (offer any_envelope 524288 s))"
  by (simp add: offer_def big_limits big_state_def replicate_append_same)

lemma big_reject:
  "big_state 128 b s \<Longrightarrow>
    snd (offer any_envelope 524288 s) = (if b then [] else [OResync (-1)])
    \<and> big_state 128 True (fst (offer any_envelope 524288 s))"
  by (simp add: offer_def big_limits big_state_def register_overflow_def trigger_resync_def Let_def)

lemma big_fill:
  "k < 128 \<Longrightarrow> big_state k b s \<Longrightarrow>
    snd (ws_exec seq_validate big_text s) = [] \<and> big_state (Suc k) b (fst (ws_exec seq_validate big_text s))"
  by (simp add: big_text_exec handle_envelope_def big_offer)

lemma big_overflow:
  "big_state 128 b s \<Longrightarrow>
    snd (ws_exec seq_validate big_text s) = (if b then [] else [OResync (-1)])
    \<and> big_state 128 True (fst (ws_exec seq_validate big_text s))"
  using big_reject [of b "advance_cursor (env_seq any_envelope) s"]
  by (simp add: big_text_exec handle_envelope_def)

lemma big_fill_run:
  "j + k \<le> 128 \<Longrightarrow> big_state k b s \<Longrightarrow>
    snd (ws_run seq_validate (replicate j big_text) s) = []
    \<and> big_state (j + k) b (fst (ws_run seq_validate (replicate j big_text) s))"
proof (induction j arbitrary: k s)
  case 0
  then show ?case by simp
next
  case (Suc j)
  then show ?case
    using big_fill [of k b s] Suc.IH [of "Suc k" "fst (ws_exec seq_validate big_text s)"]
    by (auto simp: case_prod_unfold)
qed

lemma big_take:
  assumes "big_state (Suc k) True s" and "k < 128"
  shows "snd (events_wake False (getter_runs (events_wait s))) = [OYield any_envelope]
    \<and> big_state k False (fst (events_wake False (getter_runs (events_wait s))))"
  using assms
  by (simp add: events_wait_def getter_runs_def events_wake_def drop_size_def big_state_def end_episode_def
      envelope_queue_low_water_def envelope_queue_maxsize_def)

lemma big_turn_run:
  assumes "big_state 128 True s"
  shows "resyncs (snd (ws_run seq_validate big_turn s)) = [-1]
    \<and> big_state 128 True (fst (ws_run seq_validate big_turn s))"
proof -
  let ?s2 = "fst (events_wake False (getter_runs (events_wait s)))"
  let ?s3 = "fst (ws_exec seq_validate big_text ?s2)"
  have "big_state (Suc 127) True s" using assms by simp
  then have 2: "big_state 127 False ?s2"
    and o2: "snd (events_wake False (getter_runs (events_wait s))) = [OYield any_envelope]"
    using big_take [of 127 s] by simp_all
  have 3: "big_state 128 False ?s3" and o3: "snd (ws_exec seq_validate big_text ?s2) = []"
    using big_fill [of 127 False ?s2] 2 by simp_all
  have 4: "big_state 128 True (fst (ws_exec seq_validate big_text ?s3))"
    and o4: "snd (ws_exec seq_validate big_text ?s3) = [OResync (-1)]"
    using big_overflow [OF 3] by simp_all
  show ?thesis
    using o2 o3 o4 4 by (simp add: big_turn_def case_prod_unfold)
qed

lemma big_turns_run:
  "big_state 128 True s \<Longrightarrow>
    resyncs (snd (ws_run seq_validate (concat (replicate n big_turn)) s)) = replicate n (-1)
    \<and> big_state 128 True (fst (ws_run seq_validate (concat (replicate n big_turn)) s))"
proof (induction n arbitrary: s)
  case 0
  then show ?case by simp
next
  case (Suc n)
  then show ?case
    using big_turn_run [OF Suc.prems] Suc.IH [of "fst (ws_run seq_validate big_turn s)"]
    by (auto simp: case_prod_unfold exec_append)
qed

text \<open>Fact: the one-resync latch does not hold when the byte budget, not the item count, is exhausted.
  From a fresh transport, 129 frames of 512 KiB overflow the queue with 128 items in it; from then
  on every single envelope the consumer takes ends the "episode" (128 is below the low-water mark
  of 2048 items although the queue is full), and the next frame that is dropped forces a resync
  again: \<open>n\<close> consumer turns cause \<open>n\<close> further resyncs, with the queue full throughout.\<close>

theorem byte_overflow_resyncs_every_turn:
  "let r = ws_run seq_validate (replicate 129 big_text @ concat (replicate n big_turn))
             (start (ws_init cfg ts True af cs hb sess cl))
   in resyncs (snd r) = replicate (Suc n) (-1) \<and> ws_queued_bytes (fst r) = envelope_queue_max_bytes
      \<and> length (ws_queue (fst r)) = 128"
proof -
  let ?s0 = "start (ws_init cfg ts True af cs hb sess cl)"
  let ?s1 = "fst (ws_run seq_validate (replicate 128 big_text) ?s0)"
  let ?s2 = "fst (ws_exec seq_validate big_text ?s1)"
  have "big_state 0 False ?s0" by (simp add: big_state_def start_def ws_init_def)
  then have "big_state 128 False ?s1" "snd (ws_run seq_validate (replicate 128 big_text) ?s0) = []"
    using big_fill_run [of 128 0 False ?s0] by simp_all
  moreover from this have "big_state 128 True ?s2" "snd (ws_exec seq_validate big_text ?s1) = [OResync (-1)]"
    using big_overflow [of False ?s1] by simp_all
  moreover have "replicate 129 big_text = replicate 128 big_text @ [big_text]"
    by (simp add: replicate_append_same flip: replicate_Suc)
  ultimately show ?thesis
    using big_turns_run [of ?s2 n]
    by (simp add: exec_append case_prod_unfold Let_def)
      (simp add: big_state_def envelope_queue_max_bytes_def)
qed

end
