(* ===== verification/WsConn.thy ===== *)
theory WsConn
  imports WsQueue
begin

text \<open>
  The connection side of the WebSocket transport: the resume cursor and the frames sent on a
  (re)connect, what a text frame can do to the reader, the connection notifications, the reconnect
  loop with its backoff ladder, and in-band re-authentication.
\<close>

section \<open>The resume cursor\<close>

definition cursor_seqs :: "validator \<Rightarrow> ws_act \<Rightarrow> ws \<Rightarrow> int list" where
  "cursor_seqs v a s =
     (case a of
        AText raw \<Rightarrow> (case frame_envelope v raw of Some env \<Rightarrow> [env_seq env] | None \<Rightarrow> [])
      | _ \<Rightarrow> [])"

definition highest :: "int option \<Rightarrow> int list \<Rightarrow> int option" where
  "highest c ns = fold (\<lambda>n c. case c of None \<Rightarrow> Some n | Some m \<Rightarrow> Some (max m n)) ns c"

lemma highest_simps [simp]:
  "highest c [] = c"
  "highest None (n # ns) = highest (Some n) ns"
  "highest (Some m) (n # ns) = highest (Some (max m n)) ns"
  by (simp_all add: highest_def)

lemma highest_append: "highest c (xs @ ys) = highest (highest c xs) ys"
  by (simp add: highest_def)

lemma highest_Max:
  "highest (Some m) ns = Some (Max (insert m (set ns)))"
proof (induction ns arbitrary: m)
  case Nil
  then show ?case by simp
next
  case (Cons n ns)
  have "Max (insert (max m n) (set ns)) = Max (insert m (insert n (set ns)))"
    by (cases "ns = []") (simp_all add: max.assoc)
  then show ?case using Cons by simp
qed

lemma cursor_advance: "ws_last_seq (advance_cursor n s) = highest (ws_last_seq s) [n]"
  by (auto simp: advance_cursor_def max_def split: option.splits)

lemma cursor_offer [simp]: "ws_last_seq (fst (offer env n s)) = ws_last_seq s"
  by (simp add: offer_def register_overflow_def Let_def)

lemma cursor_report [simp]: "ws_last_seq (fst (report_connection_state b s)) = ws_last_seq s"
  by (simp add: report_connection_state_def)

lemma cursor_ping [simp]: "ws_last_seq (fst (handle_ping f s)) = ws_last_seq s"
  using handle_ping_state [of f s] by auto

lemma cursor_control:
  "op \<noteq> JStr ''replay_lost'' \<Longrightarrow> ws_last_seq (fst (handle_control op f s)) = ws_last_seq s"
  by (simp add: handle_control_def set_reauth_ack_def split: option.splits)

lemma cursor_text:
  "frame_envelope v raw = None \<Longrightarrow> \<not> replay_lost_frame raw \<Longrightarrow>
    ws_last_seq (fst (handle_text v raw s)) = ws_last_seq s"
  by (auto simp: handle_text_def frame_envelope_def replay_lost_frame_def cursor_control
      split: json_result.splits json.splits option.splits if_splits)

lemma cursor_op [simp]: "ws_last_seq (fst (run_op p s)) = ws_last_seq s"
  by (cases p) (auto simp: events_wait_def getter_runs_def events_wake_def end_episode_def drop_size_def
      subscribe_def unsubscribe_def reauth_begin_def reauth_end_def stop_begin_def send_def case_prod_unfold
      Let_def split: getter.splits list.splits)

lemma cursor_opened [simp]: "ws_last_seq (fst (opened w s)) = ws_last_seq s"
  by (auto simp: opened_def send_initial_subscribe_def send_def case_prod_unfold split: option.splits)

lemma cursor_exec:
  "\<not> replay_lost_act a \<Longrightarrow> ws_last_seq (fst (ws_exec v a s)) = highest (ws_last_seq s) (cursor_seqs v a s)"
proof (cases a)
  case (AText raw)
  assume "\<not> replay_lost_act a"
  then show ?thesis
    using AText
    by (cases "frame_envelope v raw")
      (simp_all add: drop_exc_def handle_text_envelope handle_envelope_def cursor_advance cursor_seqs_def
        cursor_text replay_lost_act_def)
qed (simp_all add: cursor_seqs_def drop_exc_def socket_dropped_def give_up_def start_def stop_end_def
    case_prod_unfold)

text \<open>Fact: between two replay losses the resume cursor is exactly the highest sequence number of the
  envelopes received so far, including the ones that an overflow dropped; it never goes back, and
  reconnects, subscriptions, the consumer and stop and start leave it alone.\<close>

theorem cursor_tracks_stream:
  assumes "\<forall>a\<in>set as. \<not> replay_lost_act a"
  shows "ws_last_seq (fst (ws_run v as s)) = highest (ws_last_seq s) (along (ws_exec v) (cursor_seqs v) as s)"
  using assms
proof (induction as arbitrary: s)
  case Nil
  then show ?case by simp
next
  case (Cons a as)
  then show ?case
    using cursor_exec [of a v s] by (simp add: case_prod_unfold highest_append del: ws_exec.simps)
qed

theorem cursor_tracks_stream_witness:
  "ws_last_seq (fst (ws_run seq_validate fifo_demo (start (ws_init box_cfg [] True True True True False False))))
     = Some 3"
proof -
  let ?s0 = "start (ws_init box_cfg [] True True True True False False)"
  have "\<forall>a\<in>set fifo_demo. \<not> replay_lost_act a"
    by (simp add: fifo_demo_def replay_lost_act_def replay_lost_frame_def text_frame_def obj_get_def)
  from cursor_tracks_stream [OF this, of seq_validate ?s0]
  have "ws_last_seq (fst (ws_run seq_validate fifo_demo ?s0))
      = highest (ws_last_seq ?s0) (along (ws_exec seq_validate) (cursor_seqs seq_validate) fifo_demo ?s0)" .
  also have "along (ws_exec seq_validate) (cursor_seqs seq_validate) fifo_demo ?s0 = [1, 2, 3]"
    by (simp add: fifo_demo_def text_frame_def demo_eval cursor_seqs_def)
  also have "ws_last_seq ?s0 = None" by (simp add: start_def ws_init_def)
  finally show ?thesis by simp
qed

text \<open>Fact: a \<open>replay_lost\<close> frame re-anchors the cursor on the sequence number the daemon names (dropping
  the cursor when it names none it could use), even downwards, so that a restarted daemon's
  smaller numbers are followed again; it calls the resync callback exactly once, with \<open>-1\<close> when the
  number is missing or is not an integer, and changes nothing else.\<close>

theorem replay_lost_reanchors:
  "handle_text v (text_frame n ((''op'', JStr ''replay_lost'') # frame)) s =
     (s\<lparr>ws_last_seq := (case as_int (obj_get frame ''oldest_seq'') of
                           Some k \<Rightarrow> if 0 \<le> k then Some k else None | None \<Rightarrow> None)\<rparr>,
      if ws_hook_replay_lost s
      then [OResync (case as_int (obj_get frame ''oldest_seq'') of Some k \<Rightarrow> k | None \<Rightarrow> -1)] else [],
      None)"
  by (simp add: handle_text_def text_frame_def handle_control_def handle_replay_lost_def obj_get_def
      trigger_resync_def Let_def)

section \<open>Frames sent on a connect\<close>

lemma obj_get_append:
  "obj_get (xs @ ys) k = (case dict_get xs k of Some v \<Rightarrow> v | None \<Rightarrow> obj_get ys k)"
  by (auto simp: obj_get_def map_add_def split: option.splits)

lemma obj_get_simps:
  "obj_get [] k = JNull" "obj_get ((k', v) # xs) k = (if k = k' then v else obj_get xs k)"
  by (simp_all add: obj_get_def)

text \<open>Fact: whenever a connection opens, the first thing sent is one subscribe frame that lists exactly the
  current subscription set, sorted and without duplicates, carries \<open>since\<close> exactly when a cursor is
  held, and repeats the \<open>classify\<close> and \<open>released_only\<close> options; only then is the connection
  announced, and only if it was not announced already. With no subscriptions no frame is sent.\<close>

theorem connect_sends_subscribe:
  assumes "finite (ws_subs s)"
  shows "snd (opened True s) =
      ((if ws_subs s = {} then [] else [OSend (initial_subscribe_frame s)])
         @ (if ws_reported s \<or> \<not> ws_hook_conn_state s then [] else [OConnState True]), None)
    \<and> (\<exists>ts. obj_get (initial_subscribe_frame s) ''topics'' = JArr (map JStr ts)
        \<and> sorted_wrt (<) ts \<and> set ts = ws_subs s)
    \<and> obj_get (initial_subscribe_frame s) ''since''
        = (case ws_last_seq s of None \<Rightarrow> JNull | Some n \<Rightarrow> JInt n)
    \<and> obj_get (initial_subscribe_frame s) ''released_only'' = (if ws_released_only s then JBool True else JNull)
    \<and> obj_get (initial_subscribe_frame s) ''classify'' = (if ws_classify s then JBool True else JNull)"
proof (intro conjI)
  have "initial_subscribe_frame (s\<lparr>ws_socket := SockOpen\<rparr>) = initial_subscribe_frame s"
    by (simp add: initial_subscribe_frame_def subscribe_flags_def)
  then show "snd (opened True s) =
      ((if ws_subs s = {} then [] else [OSend (initial_subscribe_frame s)])
         @ (if ws_reported s \<or> \<not> ws_hook_conn_state s then [] else [OConnState True]), None)"
    by (simp add: opened_def send_initial_subscribe_def send_def ws_is_open_def report_connection_state_def)
  show "\<exists>ts. obj_get (initial_subscribe_frame s) ''topics'' = JArr (map JStr ts)
        \<and> sorted_wrt (<) ts \<and> set ts = ws_subs s"
    using assms by (intro exI [of _ "sorted_list_of_set (ws_subs s)"])
      (simp add: initial_subscribe_frame_def obj_get_simps)
qed (auto simp: initial_subscribe_frame_def subscribe_flags_def obj_get_simps split: option.splits)

definition conn_demo :: ws where
  "conn_demo = (ws_init box_cfg [''system.*'', ''device.*'', ''system.*''] True True True True False False)
     \<lparr>ws_last_seq := Some 41\<rparr>"

theorem connect_sends_subscribe_witness:
  "obj_get (initial_subscribe_frame conn_demo) ''since'' = JInt 41
   \<and> obj_get (initial_subscribe_frame conn_demo) ''topics'' = JArr [JStr ''device.*'', JStr ''system.*'']
   \<and> obj_get (initial_subscribe_frame conn_demo) ''released_only'' = JBool True
   \<and> length (fst (snd (opened True conn_demo))) = 2"
proof -
  have subs: "ws_subs conn_demo = {''device.*'', ''system.*''}" "ws_last_seq conn_demo = Some 41"
    "ws_released_only conn_demo" "ws_hook_conn_state conn_demo" "\<not> ws_reported conn_demo"
    by (auto simp: ws_init_def box_cfg_def conn_demo_def)
  then have "finite (ws_subs conn_demo)" by simp
  note facts = connect_sends_subscribe [OF this]
  have lt: "''device.*'' < ''system.*''" by (simp add: less_char_def)
  from facts obtain ts where ts: "obj_get (initial_subscribe_frame conn_demo) ''topics'' = JArr (map JStr ts)"
    "sorted_wrt (<) ts" "set ts = {''device.*'', ''system.*''}" using subs(1) by auto
  have "ts = [''device.*'', ''system.*'']"
    using ts(2,3) lt by (intro strict_sorted_equal) auto
  with ts(1) facts subs show ?thesis by simp
qed

section \<open>What a text frame does to the reader\<close>

text \<open>Fact: no text frame the daemon sends can crash the reader. While the socket can be written to, a
  frame makes the reader raise only if its text cannot be decoded at all or a ping carries a
  round-trip time beyond the range of a float; malformed JSON, non-objects, unknown control
  operations and envelopes that fail validation leave the state untouched and emit nothing.\<close>

theorem reader_survives:
  assumes "ws_socket s = SockOpen" and "text_json raw \<noteq> DecodeFails"
    and "\<And>frame. text_json raw = Decoded (JObj frame) \<Longrightarrow> obj_get frame ''op'' = JStr ''ping''
           \<Longrightarrow> \<not> float_overflows (obj_get frame ''rtt_ms'')"
  shows "snd (snd (handle_text v raw s)) = None
    \<and> ((\<forall>frame. text_json raw \<noteq> Decoded (JObj frame)) \<longrightarrow> handle_text v raw s = (s, [], None))
    \<and> (\<forall>frame. text_json raw = Decoded (JObj frame) \<longrightarrow> obj_get frame ''op'' = JNull \<longrightarrow> v frame = None
         \<longrightarrow> handle_text v raw s = (s, [], None))"
proof -
  have ping: "snd (snd (handle_ping frame s)) = None"
    if "\<not> float_overflows (obj_get frame ''rtt_ms'')" for frame
    using assms(1) that
    by (auto simp: handle_ping_def send_def ws_is_open_def case_prod_unfold split: option.splits)
  have "snd (snd (handle_text v raw s)) = None"
    using assms(2,3)
    by (auto simp: handle_text_def handle_control_def handle_replay_lost_def ping Let_def case_prod_unfold
        split: json_result.splits json.splits option.splits)
  then show ?thesis
    using assms(2) by (auto simp: handle_text_def split: json_result.splits json.splits)
qed

theorem reader_survives_witness:
  "handle_text seq_validate \<lparr>text_length = 2, text_json = Decoded (JArr [])\<rparr>
     ((start (ws_init box_cfg [] True True True True False False))\<lparr>ws_socket := SockOpen\<rparr>)
   = ((start (ws_init box_cfg [] True True True True False False))\<lparr>ws_socket := SockOpen\<rparr>, [], None)"
  using reader_survives [of "(start (ws_init box_cfg [] True True True True False False))\<lparr>ws_socket := SockOpen\<rparr>"
      "\<lparr>text_length = 2, text_json = Decoded (JArr [])\<rparr>" seq_validate]
  by simp

section \<open>Connection notifications\<close>

definition conn_states :: "ws_out list \<Rightarrow> bool list" where
  "conn_states out = concat (map (\<lambda>x. case x of OConnState b \<Rightarrow> [b] | _ \<Rightarrow> []) out)"

lemma conn_states_simps [simp]:
  "conn_states [] = []" "conn_states (x # xs) = (case x of OConnState b \<Rightarrow> [b] | _ \<Rightarrow> []) @ conn_states xs"
  "conn_states (xs @ ys) = conn_states xs @ conn_states ys"
  by (simp_all add: conn_states_def)

definition signal_part :: "ws \<Rightarrow> bool \<times> bool" where
  "signal_part s = (ws_reported s, ws_hook_conn_state s)"

lemma signal_send [simp]: "conn_states (fst (snd (send f s))) = []"
  by (simp add: send_def)

lemma signal_ping:
  "signal_part (fst (handle_ping f s)) = signal_part s \<and> conn_states (fst (snd (handle_ping f s))) = []"
  by (simp add: handle_ping_def signal_part_def case_prod_unfold split: option.splits)

lemma signal_ack [simp]: "signal_part (set_reauth_ack b s) = signal_part s"
  by (simp add: set_reauth_ack_def signal_part_def split: option.splits)

lemma signal_replay_lost:
  "signal_part (fst (handle_replay_lost f s)) = signal_part s
   \<and> conn_states (fst (snd (handle_replay_lost f s))) = []"
  by (simp add: handle_replay_lost_def signal_part_def trigger_resync_def Let_def)

lemma signal_control:
  "signal_part (fst (handle_control op f s)) = signal_part s \<and> conn_states (fst (snd (handle_control op f s))) = []"
  by (simp add: handle_control_def auth_failed_def signal_ping signal_replay_lost)

lemma signal_offer:
  "signal_part (fst (offer env n s)) = signal_part s \<and> conn_states (snd (offer env n s)) = []"
  by (simp add: offer_def register_overflow_def signal_part_def trigger_resync_def Let_def)

lemma signal_cursor [simp]: "signal_part (advance_cursor n s) = signal_part s"
  by (simp add: signal_part_def advance_cursor_def split: option.splits)

lemma signal_text:
  "signal_part (fst (handle_text v raw s)) = signal_part s \<and> conn_states (fst (snd (handle_text v raw s))) = []"
  by (simp add: handle_text_def handle_envelope_def case_prod_unfold signal_control signal_offer
      split: json_result.splits json.splits option.splits)

lemma signal_op:
  "signal_part (fst (run_op p s)) = signal_part s \<and> conn_states (snd (run_op p s)) = []"
  by (cases p) (auto simp: signal_part_def events_wait_def getter_runs_def events_wake_def end_episode_def
      drop_size_def subscribe_def unsubscribe_def reauth_begin_def reauth_end_def stop_begin_def send_def
      case_prod_unfold Let_def split: getter.splits list.splits)

lemma signal_report:
  "ws_hook_conn_state s \<Longrightarrow>
    alternates (ws_reported s) (conn_states (snd (report_connection_state b s)))
      (ws_reported (fst (report_connection_state b s)))"
  by (auto simp: report_connection_state_def)

lemma hook_report [simp]: "ws_hook_conn_state (fst (report_connection_state b s)) = ws_hook_conn_state s"
  by (simp add: report_connection_state_def)

lemma signal_opened:
  "ws_hook_conn_state s \<Longrightarrow>
    alternates (ws_reported s) (conn_states (fst (snd (opened w s)))) (ws_reported (fst (opened w s)))
    \<and> ws_hook_conn_state (fst (opened w s))"
  by (auto simp: opened_def send_initial_subscribe_def send_def report_connection_state_def case_prod_unfold
      split: option.splits)

interpretation conn_signal: transition_signal "ws_exec v" ws_hook_conn_state ws_reported conn_states for v
proof unfold_locales
  fix s :: ws and a
  assume hook: "ws_hook_conn_state s"
  have parts: "ws_hook_conn_state (fst (ws_exec v a s))
    \<and> alternates (ws_reported s) (conn_states (snd (ws_exec v a s))) (ws_reported (fst (ws_exec v a s)))"
  proof (cases a)
    case (AText raw)
    then show ?thesis using signal_text [of v raw s] hook by (simp add: drop_exc_def signal_part_def)
  next
    case (AOp p)
    then show ?thesis using signal_op [of p s] hook by (simp add: signal_part_def)
  next
    case (AOpened w)
    then show ?thesis using signal_opened [OF hook] by (simp add: drop_exc_def)
  qed (use hook in \<open>auto simp: socket_dropped_def give_up_def stop_end_def start_def auth_failed_def
         report_connection_state_def case_prod_unfold\<close>)
  then show "ws_hook_conn_state (fst (ws_exec v a s))"
    and "alternates (ws_reported s) (conn_states (snd (ws_exec v a s))) (ws_reported (fst (ws_exec v a s)))"
    by simp_all
qed simp_all

text \<open>C17: connection notifications report transitions only. Over any run of the reconnect loop, with any
  number of reconnects and any interleaving, the callback sees up, down, up, down, \<open>\<dots>\<close>, and its
  last call agrees with the state the transport holds.\<close>

theorem notifications_alternate:
  assumes "ws_hook_conn_state s" and "\<not> ws_reported s"
  shows "let r = run_forever v attempt rounds s; xs = conn_states (fst (snd r))
         in (\<forall>i < length xs. xs ! i = even i) \<and> ws_reported (fst r) = odd (length xs)"
proof -
  obtain as where as: "ws_run v as s = (\<lambda>(s', out, fin). (s', out)) (run_forever v attempt rounds s)"
    using run_forever_acts by metis
  have alt: "alternates False (conn_states (fst (snd (run_forever v attempt rounds s))))
      (ws_reported (fst (run_forever v attempt rounds s)))"
    using conn_signal.run_alternates [OF assms(1), of v as] as assms(2)
    by (simp add: case_prod_unfold)
  have "b' = (b \<noteq> odd (length xs))" if "alternates b xs b'" for b b' xs
    using that by (induction b xs b' rule: alternates.induct) auto
  from this [OF alt] show ?thesis
    using alternates_nth [OF alt] by (simp add: Let_def)
qed

theorem notifications_alternate_witness:
  "let r = run_forever seq_validate 0
        [\<lparr>rd_handshake = HsOpen True, rd_events = [Msg MsgClose], rd_uptime = 1, rd_random = 0,
          rd_sleep_ops = [], rd_sleep_cancelled = False\<rparr>,
         \<lparr>rd_handshake = HsOpen True, rd_events = [], rd_uptime = 1, rd_random = 0,
          rd_sleep_ops = [], rd_sleep_cancelled = False\<rparr>] conn_demo
   in (\<forall>i < length (conn_states (fst (snd r))). conn_states (fst (snd r)) ! i = even i)
      \<and> ws_reported (fst r) = odd (length (conn_states (fst (snd r))))"
  unfolding Let_def
  by (rule notifications_alternate [unfolded Let_def]) (simp_all add: conn_demo_def ws_init_def)

section \<open>The backoff ladder\<close>

lemma ladder_step:
  "reconnect_backoff ! min k (length reconnect_backoff - 1) \<in> {1/2, 2, 5, 15, 30}"
proof -
  have "min k (length reconnect_backoff - 1) \<in> {0, 1, 2, 3, 4}"
    by (auto simp: reconnect_backoff_def)
  then show ?thesis by (auto simp: reconnect_backoff_def)
qed

lemma backoff_delay_eq:
  "backoff_delay r k = reconnect_backoff ! min k (length reconnect_backoff - 1) * (4/5 + 2/5 * r)"
  by (simp add: backoff_delay_def reconnect_jitter_share_def Let_def algebra_simps)

lemma backoff_delay_bounds:
  assumes "0 \<le> r" and "r \<le> 1"
  shows "4/5 * reconnect_backoff ! min k (length reconnect_backoff - 1) \<le> backoff_delay r k"
    and "backoff_delay r k \<le> 6/5 * reconnect_backoff ! min k (length reconnect_backoff - 1)"
  using assms ladder_step [of k] by (auto simp: backoff_delay_eq)

lemma backoff_delay_range:
  assumes "0 \<le> r" and "r \<le> 1"
  shows "2/5 \<le> backoff_delay r k \<and> backoff_delay r k \<le> 36"
proof -
  define x where "x = reconnect_backoff ! min k (length reconnect_backoff - 1)"
  have x: "1/2 \<le> x" "x \<le> 30" using ladder_step [of k] by (auto simp: x_def)
  have "1/2 * (4/5) \<le> x * (4/5 + 2/5 * r)" using x assms by (intro mult_mono) auto
  moreover have "x * (4/5 + 2/5 * r) \<le> 30 * (6/5)" using x assms by (intro mult_mono) auto
  ultimately show ?thesis by (simp add: backoff_delay_eq x_def)
qed

definition delays :: "ws_out list \<Rightarrow> rat list" where
  "delays out = concat (map (\<lambda>x. case x of ODelay d \<Rightarrow> [d] | _ \<Rightarrow> []) out)"

lemma delays_simps [simp]:
  "delays [] = []" "delays (x # xs) = (case x of ODelay d \<Rightarrow> [d] | _ \<Rightarrow> []) @ delays xs"
  "delays (xs @ ys) = delays xs @ delays ys"
  by (simp_all add: delays_def)

lemma delays_send [simp]: "delays (fst (snd (send f s))) = []"
  by (simp add: send_def)

lemma delays_report [simp]: "delays (snd (report_connection_state b s)) = []"
  by (simp add: report_connection_state_def)

lemma delays_offer [simp]: "delays (snd (offer env n s)) = []"
  by (simp add: offer_def register_overflow_def trigger_resync_def Let_def)

lemma delays_ping [simp]: "delays (fst (snd (handle_ping f s))) = []"
  by (simp add: handle_ping_def case_prod_unfold split: option.splits)

lemma delays_control [simp]: "delays (fst (snd (handle_control op f s))) = []"
  by (simp add: handle_control_def handle_replay_lost_def trigger_resync_def auth_failed_def Let_def)

lemma delays_text [simp]: "delays (fst (snd (handle_text v raw s))) = []"
  by (simp add: handle_text_def handle_envelope_def case_prod_unfold
      split: json_result.splits json.splits option.splits)

lemma delays_op [simp]: "delays (snd (run_op p s)) = []"
  by (cases p) (auto simp: events_wake_def subscribe_def unsubscribe_def reauth_begin_def reauth_end_def
      send_def case_prod_unfold Let_def split: getter.splits)

lemma delays_ops [simp]: "delays (snd (run_ops ps s)) = []"
  by (induction ps arbitrary: s) (simp_all add: case_prod_unfold)

lemma delays_give_up [simp]: "delays (snd (give_up s)) = []"
  by (simp add: give_up_def auth_failed_def case_prod_unfold)

lemma delays_opened [simp]: "delays (fst (snd (opened w s))) = []"
  by (auto simp: opened_def send_initial_subscribe_def send_def case_prod_unfold split: option.splits)

lemma delays_read_wait [simp]: "delays (fst (snd (read_wait v evs s))) = []"
proof (induction evs arbitrary: s)
  case Nil
  then show ?case by simp
next
  case (Cons ev evs)
  show ?case
  proof (cases ev)
    case (Msg m)
    then show ?thesis
      using Cons.IH delays_text
      by (cases m) (auto simp: case_prod_unfold split: option.splits)
  qed (simp_all add: case_prod_unfold Cons.IH)
qed

lemma delays_connect [simp]: "delays (fst (snd (connect_and_read v hs evs s))) = []"
  by (auto simp: connect_and_read_def open_and_read_def read_loop_def socket_dropped_def case_prod_unfold Let_def
      split: handshake.splits option.splits)



lemma run_forever_delays:
  assumes "\<forall>r\<in>set rounds. 0 \<le> rd_random r \<and> rd_random r \<le> 1"
  shows "\<forall>d\<in>set (delays (fst (snd (run_forever v attempt rounds s)))). 2/5 \<le> d \<and> d \<le> 36"
  using assms
proof (induction rounds arbitrary: attempt s)
  case Nil
  then show ?case by simp
next
  case (Cons r rs)
  let ?c = "connect_and_read v (rd_handshake r) (rd_events r) s"
  let ?k = "attempt_after r (snd (snd ?c)) attempt"
  have "2/5 \<le> backoff_delay (rd_random r) ?k \<and> backoff_delay (rd_random r) ?k \<le> 36"
    using Cons.prems by (intro backoff_delay_range) simp_all
  then show ?case
    using Cons.IH [of "?k + 1" "fst (run_ops (rd_sleep_ops r) (fst ?c))"] Cons.prems
    by (auto simp: case_prod_unfold Let_def)
qed

text \<open>Fact: the reconnect loop never spins and never waits long. Whatever the connections do, every delay
  it sleeps lies between 0.4 and 36 seconds.\<close>

theorem reconnect_delays_bounded:
  assumes "\<forall>r\<in>set rounds. 0 \<le> rd_random r \<and> rd_random r \<le> 1"
    and "d \<in> set (delays (fst (snd (run_forever v attempt rounds s))))"
  shows "2/5 \<le> d \<and> d \<le> 36"
  using run_forever_delays [OF assms(1)] assms(2) by blast

section \<open>How the reconnect loop ends\<close>

lemma op_keeps_running:
  "p \<noteq> OpStopBegin \<Longrightarrow> ws_closing (fst (run_op p s)) = ws_closing s"
  by (cases p) (auto simp: events_wait_def getter_runs_def events_wake_def end_episode_def drop_size_def
      subscribe_def unsubscribe_def reauth_begin_def reauth_end_def send_def case_prod_unfold
      Let_def split: getter.splits list.splits)

lemma op_keeps_box:
  "cfg_box_ingress (ws_config (fst (run_op p s))) = cfg_box_ingress (ws_config s)"
  by (cases p) (auto simp: events_wait_def getter_runs_def events_wake_def end_episode_def drop_size_def
      subscribe_def unsubscribe_def reauth_begin_def reauth_end_def stop_begin_def send_def case_prod_unfold
      Let_def split: getter.splits list.splits)

lemma ops_keep:
  "OpStopBegin \<notin> set ps \<Longrightarrow> ws_closing (fst (run_ops ps s)) = ws_closing s"
  "cfg_box_ingress (ws_config (fst (run_ops ps s))) = cfg_box_ingress (ws_config s)"
  by (induction ps arbitrary: s) (auto simp: case_prod_unfold op_keeps_running op_keeps_box)

text \<open>The exception a refused upgrade leaves, and the refusals that do not clear on their own.\<close>

definition refusal_exc :: "loom_config \<Rightarrow> handshake_error \<Rightarrow> ws_exc" where
  "refusal_exc cfg e = (if cfg_box_ingress cfg = None then ExcHandshake e else gate_refusal_or e)"

definition permanent_status :: "bool \<Rightarrow> handshake_error \<Rightarrow> bool" where
  "permanent_status box e \<longleftrightarrow>
     hs_status e \<in> {401, 403}
     \<or> box \<and> (300 \<le> hs_status e \<and> hs_status e < 400
              \<or> hs_history e \<noteq> [] \<and> (300 \<le> hd (hs_history e) \<and> hd (hs_history e) < 400
                                     \<or> hd (hs_history e) \<in> {401, 403}))"

lemma gate_refusal_None_iff:
  "gate_refusal st ct = None \<longleftrightarrow>
     \<not> (300 \<le> st \<and> st < 400) \<and> (starts_with problem_json_type ct \<or> st \<noteq> 401 \<and> st \<noteq> 403)"
  by (simp add: gate_refusal_def)

lemma not_problem_json_empty [simp]: "\<not> starts_with problem_json_type ''''"
  by (simp add: starts_with_def problem_json_type_def)

lemma gate_refusal_or_cases:
  "gate_refusal_or e = ExcHandshake e \<and> gate_refusal (hs_status e) (hs_content_type e) = None
     \<and> (hs_history e = [] \<or> gate_refusal (hd (hs_history e)) '''' = None)
   \<or> (\<exists>c. gate_refusal_or e = ExcLoom c \<and> subclass_of c LoomBoxGateError)
     \<and> (gate_refusal (hs_status e) (hs_content_type e) \<noteq> None
        \<or> hs_history e \<noteq> [] \<and> gate_refusal (hd (hs_history e)) '''' \<noteq> None)"
  by (cases "gate_refusal (hs_status e) (hs_content_type e)"; cases "gate_refusal (hd (hs_history e)) ''''")
    (auto simp: gate_refusal_or_def Let_def dest: gate_refusal_is_gate_error)

lemma permanent_refusal_iff:
  "permanent_refusal (refusal_exc cfg e) = permanent_status (cfg_box_ingress cfg \<noteq> None) e"
proof (cases "cfg_box_ingress cfg = None")
  case True
  then show ?thesis by (auto simp: refusal_exc_def permanent_refusal_def permanent_status_def)
next
  case False
  from gate_refusal_or_cases [of e] show ?thesis
    using False
    by (auto simp: refusal_exc_def permanent_refusal_def permanent_status_def gate_refusal_None_iff)
qed

lemma connect_refused:
  "connect_and_read v (HsRefused e) evs s =
     (s, [OUpgrade (ws_url (ws_config s)) (upgrade_headers (ws_config s))], Raised (refusal_exc (ws_config s) e))"
  by (simp add: connect_and_read_def open_and_read_def refusal_exc_def)

lemma connect_fails:
  "connect_and_read v HsFails evs s =
     (s, [OUpgrade (ws_url (ws_config s)) (upgrade_headers (ws_config s))], Raised ExcOther)"
  by (simp add: connect_and_read_def open_and_read_def)

lemma refusal_not_cancel [simp]: "refusal_exc cfg e \<noteq> ExcCancelled"
  by (auto simp: refusal_exc_def gate_refusal_or_def Let_def split: option.splits)

lemma gives_up_raised [simp]: "gives_up (Raised x) = permanent_refusal x"
  by (simp add: gives_up_def)

text \<open>Fact: a refused upgrade ends the reconnect loop when it cannot clear on its own: a 401 or 403 from
  either side, or, when the daemon sits behind the box, a redirect, which is the gate's. The loop
  then reports the connection down, calls the auth-failed callback once and ends the stream, so a
  consumer waiting in \<open>events()\<close> is released and no further upgrade is tried.\<close>

theorem permanent_refusal_stops:
  assumes "\<not> ws_closing s" and "rd_handshake r = HsRefused e"
    and "permanent_status (cfg_box_ingress (ws_config s) \<noteq> None) e"
  shows "snd (run_forever v attempt (r # rs) s) =
      (OUpgrade (ws_url (ws_config s)) (upgrade_headers (ws_config s))
         # (if ws_reported s \<and> ws_hook_conn_state s then [OConnState False] else [])
         @ (if ws_hook_auth_failed s then [OAuthFailed] else []), GaveUp)
    \<and> ws_stopped (fst (run_forever v attempt (r # rs) s))
    \<and> \<not> ws_task (fst (run_forever v attempt (r # rs) s))
    \<and> \<not> ws_reported (fst (run_forever v attempt (r # rs) s))"
  using assms permanent_refusal_iff [of "ws_config s" e]
  by (simp add: connect_refused give_up_def report_connection_state_def auth_failed_def)

text \<open>C18: every other failed upgrade is retried for ever. As long as nobody stops the transport, a run of
  upgrades that are refused transiently or get no answer leaves the loop alive, one rung further
  per attempt, and the delays are the ladder's steps with their jitter.\<close>

theorem transient_failures_retried:
  assumes "\<not> ws_closing s"
    and "\<forall>r\<in>set rounds. OpStopBegin \<notin> set (rd_sleep_ops r) \<and> \<not> rd_sleep_cancelled r
           \<and> (rd_handshake r = HsFails
              \<or> (\<exists>e. rd_handshake r = HsRefused e
                     \<and> \<not> permanent_status (cfg_box_ingress (ws_config s) \<noteq> None) e))"
  shows "snd (snd (run_forever v attempt rounds s)) = Sleeping (attempt + length rounds)
    \<and> delays (fst (snd (run_forever v attempt rounds s)))
        = map (\<lambda>i. backoff_delay (rd_random (rounds ! i)) (attempt + i)) [0..<length rounds]"
  using assms
proof (induction rounds arbitrary: attempt s)
  case Nil
  then show ?case by simp
next
  case (Cons r rs)
  let ?s2 = "fst (run_ops (rd_sleep_ops r) s)"
  obtain x where c: "connect_and_read v (rd_handshake r) (rd_events r) s =
      (s, [OUpgrade (ws_url (ws_config s)) (upgrade_headers (ws_config s))], Raised x)"
    and x: "x \<noteq> ExcCancelled" "\<not> permanent_refusal x"
    using Cons.prems(2) permanent_refusal_iff [of "ws_config s"]
    by (auto simp: connect_refused connect_fails permanent_refusal_def [of ExcOther])
  have k: "attempt_after r (Raised x) attempt = attempt" by (simp add: attempt_after_def)
  have ops: "OpStopBegin \<notin> set (rd_sleep_ops r)" "\<not> rd_sleep_cancelled r" using Cons.prems(2) by simp_all
  then have "\<not> ws_closing ?s2" using Cons.prems(1) by (simp add: ops_keep)
  then have IH: "snd (snd (run_forever v (attempt + 1) rs ?s2)) = Sleeping (attempt + 1 + length rs)
    \<and> delays (fst (snd (run_forever v (attempt + 1) rs ?s2)))
        = map (\<lambda>i. backoff_delay (rd_random (rs ! i)) (attempt + 1 + i)) [0..<length rs]"
    using Cons.prems(2) by (intro Cons.IH) (simp_all add: ops_keep)
  have shift: "map (\<lambda>i. backoff_delay (rd_random ((r # rs) ! i)) (attempt + i)) [0..<length (r # rs)]
      = backoff_delay (rd_random r) attempt
        # map (\<lambda>i. backoff_delay (rd_random (rs ! i)) (attempt + 1 + i)) [0..<length rs]"
    by (simp add: upt_conv_Cons map_Suc_upt [symmetric] comp_def del: upt_Suc)
  show ?case
    unfolding shift using IH Cons.prems(1) c k x ops by (simp add: case_prod_unfold Let_def)
qed

definition down_round :: "handshake \<Rightarrow> round" where
  "down_round hs = \<lparr>rd_handshake = hs, rd_events = [], rd_uptime = 0, rd_random = 1/2, rd_sleep_ops = [],
     rd_sleep_cancelled = False\<rparr>"

theorem reconnect_delays_bounded_witness:
  "2/5 \<le> (15::rat) \<and> (15::rat) \<le> 36
   \<and> 15 \<in> set (delays (fst (snd (run_forever seq_validate 2 (replicate 2 (down_round HsFails)) conn_demo))))"
proof -
  have 15: "15 \<in> set (delays (fst (snd (run_forever seq_validate 2 (replicate 2 (down_round HsFails)) conn_demo))))"
    by (simp add: numeral_2_eq_2 down_round_def conn_demo_def ws_init_def connect_fails attempt_after_def
        permanent_refusal_def backoff_delay_def reconnect_backoff_def reconnect_jitter_share_def Let_def)
  have "\<forall>r\<in>set (replicate 2 (down_round HsFails)). 0 \<le> rd_random r \<and> rd_random r \<le> 1"
    by (simp add: down_round_def)
  from reconnect_delays_bounded [OF this 15] 15 show ?thesis by simp
qed

theorem permanent_refusal_stops_witness:
  "snd (run_forever seq_validate 0
     [down_round (HsRefused \<lparr>hs_status = 200, hs_content_type = ''text/html'', hs_history = [302]\<rparr>)] conn_demo)
   = ([OUpgrade (ws_url (ws_config conn_demo)) (upgrade_headers (ws_config conn_demo)), OAuthFailed], GaveUp)"
  using permanent_refusal_stops [of conn_demo
      "down_round (HsRefused \<lparr>hs_status = 200, hs_content_type = ''text/html'', hs_history = [302]\<rparr>)"
      "\<lparr>hs_status = 200, hs_content_type = ''text/html'', hs_history = [302]\<rparr>" seq_validate 0 "[]"]
  by (simp add: conn_demo_def ws_init_def down_round_def permanent_status_def box_cfg_def)

theorem transient_failures_retried_witness:
  "snd (snd (run_forever seq_validate 0
     [down_round HsFails, down_round (HsRefused \<lparr>hs_status = 503, hs_content_type = '''', hs_history = []\<rparr>)]
     conn_demo)) = Sleeping 2"
  using transient_failures_retried [of conn_demo
      "[down_round HsFails, down_round (HsRefused \<lparr>hs_status = 503, hs_content_type = '''', hs_history = []\<rparr>)]"
      seq_validate 0]
  by (simp add: conn_demo_def ws_init_def down_round_def permanent_status_def)

lemma report_keeps_closing [simp]: "ws_closing (fst (report_connection_state b s)) = ws_closing s"
  by (simp add: report_connection_state_def)

lemma connect_open:
  assumes "ws_subs s = {}"
    and "snd (snd (read_loop v evs (fst (report_connection_state True (s\<lparr>ws_socket := SockOpen\<rparr>))))) = e"
    and "\<forall>x. e \<noteq> Raised (ExcHandshake x)"
  shows "snd (snd (connect_and_read v (HsOpen True) evs s)) = e"
  using assms
  by (auto simp: connect_and_read_def open_and_read_def opened_def send_initial_subscribe_def case_prod_unfold
      Let_def split: loop_end.splits ws_exc.splits)

lemma connect_open_closing:
  assumes "ws_subs s = {}" and "evs \<in> {[Msg MsgClose], [PingDeadline], [Msg MsgError]}"
  shows "ws_closing (fst (connect_and_read v (HsOpen True) evs s)) = ws_closing s"
  using assms
  by (auto simp: connect_and_read_def open_and_read_def opened_def send_initial_subscribe_def read_loop_def
      socket_dropped_def case_prod_unfold Let_def)

text \<open>Fact: only a clean close resets the ladder. A connection that stayed up for at least ten seconds and
  then ended in a close frame restarts at the first rung; one that ended because the daemon fell
  silent or the socket failed does not, however long it had been healthy before: the loop goes on
  from the rung of the previous outage.\<close>

theorem ladder_reset_only_on_clean_close:
  assumes "\<not> ws_closing s" and "ws_subs s = {}" and "rd_sleep_ops r = []" and "\<not> rd_sleep_cancelled r"
    and "rd_handshake r = HsOpen True"
  shows "(rd_events r = [Msg MsgClose] \<longrightarrow> 10 \<le> rd_uptime r \<longrightarrow>
            snd (snd (run_forever v attempt [r] s)) = Sleeping 1)
    \<and> (rd_events r \<in> {[PingDeadline], [Msg MsgError]} \<longrightarrow>
            snd (snd (run_forever v attempt [r] s)) = Sleeping (attempt + 1)
            \<and> delays (fst (snd (run_forever v attempt [r] s))) = [backoff_delay (rd_random r) attempt])"
proof -
  have tr: "\<not> permanent_refusal (ExcLoom LoomTransportError)"
    by (simp add: permanent_refusal_def subclass_of.simps)
  let ?c = "\<lambda>evs. connect_and_read v (HsOpen True) evs s"
  let ?dead = "Raised (ExcLoom LoomTransportError)"
  have ends: "snd (snd (?c [Msg MsgClose])) = Returned" "snd (snd (?c [PingDeadline])) = ?dead"
    "snd (snd (?c [Msg MsgError])) = ?dead"
    using assms(1) by (auto intro!: connect_open [OF assms(2)] simp: read_loop_def)
  have run: "snd (snd (run_forever v attempt [r] s)) = Sleeping (attempt_after r e attempt + 1)
      \<and> delays (fst (snd (run_forever v attempt [r] s))) = [backoff_delay (rd_random r) (attempt_after r e attempt)]"
    if "rd_events r \<in> {[Msg MsgClose], [PingDeadline], [Msg MsgError]}"
      and "snd (snd (?c (rd_events r))) = e" and "e = Returned \<or> e = ?dead" for e
  proof -
    have "\<not> ws_closing (fst (?c (rd_events r)))"
      using assms(1) connect_open_closing [OF assms(2) that(1), of v] by simp
    then show ?thesis
      using assms that tr
      by (auto simp: case_prod_unfold Let_def gives_up_def)
  qed
  show ?thesis
    using run ends by (auto simp: attempt_after_def healthy_connection_seconds_def)
qed

theorem ladder_reset_only_on_clean_close_witness:
  "let r = (down_round (HsOpen True))\<lparr>rd_events := [PingDeadline], rd_uptime := 86400\<rparr>
   in snd (snd (run_forever seq_validate 4 [r] (conn_demo\<lparr>ws_subs := {}\<rparr>))) = Sleeping 5"
  using ladder_reset_only_on_clean_close [of "conn_demo\<lparr>ws_subs := {}\<rparr>"
      "(down_round (HsOpen True))\<lparr>rd_events := [PingDeadline], rd_uptime := 86400\<rparr>" seq_validate 4]
  by (simp add: conn_demo_def ws_init_def down_round_def)

section \<open>In-band re-authentication\<close>

lemma send_open [simp]: "ws_socket s = SockOpen \<Longrightarrow> send f s = (s, [OSend f], None)"
  by (simp add: send_def ws_is_open_def)

lemma handle_reauth_verdict:
  "handle_text v (text_frame n [(''op'', JStr (if ok then ''reauth_ok'' else ''reauth_failed''))]) s
     = (set_reauth_ack ok s, if ok then [] else auth_failed s, None)"
  by (simp add: handle_text_def text_frame_def handle_control_def obj_get_def)

text \<open>Fact: an accepted in-band re-authentication survives reconnects, a rejected one changes nothing.
  After the token has been sent on the open connection and the daemon's verdict has arrived, the
  call succeeds and later upgrades present the new token exactly when the verdict was acceptance
  (and the client authenticates with a bearer token); otherwise it raises and the configuration is
  as before. Either way no ack stays pending.\<close>

theorem reauth_outcome:
  assumes "ws_socket s = SockOpen" and "cfg_auth (ws_config s) = BearerAuth old label"
    and "cfg_box_ingress (ws_config s) = None"
  shows "let s1 = fst (reauth_begin token s);
             verdict = (if ok then ''reauth_ok'' else ''reauth_failed'');
             s2 = fst (handle_text v (text_frame n [(''op'', JStr verdict)]) s1);
             r = reauth_end (length (ws_acks s)) token s2
         in fst (snd (reauth_begin token s)) = [OSend [(''op'', JStr ''reauth''), (''token'', JStr token)]]
            \<and> snd (snd r) = (if ok then None else Some (ExcLoom LoomTransportError))
            \<and> ws_reauth_ack (fst r) = None
            \<and> dict_get (upgrade_headers (ws_config (fst r))) ''Authorization''
                = Some (''Bearer '' @ (if ok then token else old))"
proof -
  have sent: "reauth_begin token s =
      (s\<lparr>ws_acks := ws_acks s @ [None], ws_reauth_ack := Some (length (ws_acks s))\<rparr>,
       [OSend [(''op'', JStr ''reauth''), (''token'', JStr token)]], None)"
    using assms(1) by (simp add: reauth_begin_def)
  show ?thesis
    using assms(2,3)
    unfolding handle_reauth_verdict Let_def
    by (simp add: sent set_reauth_ack_def reauth_end_def ack_of_def replace_token_def upgrade_headers_def)
qed

theorem reauth_outcome_witness:
  "let s = conn_demo\<lparr>ws_socket := SockOpen,
             ws_config := box_cfg\<lparr>cfg_box_ingress := None, cfg_auth := BearerAuth ''old'' ''l''\<rparr>\<rparr>;
       s1 = fst (reauth_begin ''new'' s);
       s2 = fst (handle_text seq_validate (text_frame 9 [(''op'', JStr ''reauth_ok'')]) s1)
   in dict_get (upgrade_headers (ws_config (fst (reauth_end 0 ''new'' s2)))) ''Authorization'' = Some ''Bearer new''"
  using reauth_outcome [of "conn_demo\<lparr>ws_socket := SockOpen,
             ws_config := box_cfg\<lparr>cfg_box_ingress := None, cfg_auth := BearerAuth ''old'' ''l''\<rparr>\<rparr>" "''old''" "''l''"
        "''new''" True seq_validate 9]
  by (simp add: conn_demo_def ws_init_def Let_def)

end
