(* ===== verification/Registry.thy ===== *)
theory Registry
  imports Flow
begin

text \<open>
  Registries of live objects: a dictionary from keys to object identities over a heap of objects.
  Every map of the store is one. A consumer holds an object's identity, so what matters to it is
  which identity a key has and how that changes; \<open>reg_upsert\<close> is the code's "update in place, build
  only what is new" idiom. The locale \<open>live_registry\<close> is the contract behind the store's
  never-rebuild discipline, and its lemmas are what a consumer may rely on.
\<close>

record ('k, 'o) registry =
  reg_map :: "('k, oid) dict"
  reg_heap :: "'o heap"

definition reg_empty :: "('k, 'o) registry" where
  "reg_empty = \<lparr>reg_map = [], reg_heap = []\<rparr>"

definition reg_ref :: "('k, 'o) registry \<Rightarrow> 'k \<Rightarrow> oid option" where
  "reg_ref r k = dict_get (reg_map r) k"

definition reg_get :: "('k, 'o) registry \<Rightarrow> 'k \<Rightarrow> 'o option" where
  "reg_get r k = map_option (\<lambda>i. reg_heap r ! i) (reg_ref r k)"

definition reg_keys :: "('k, 'o) registry \<Rightarrow> 'k list" where
  "reg_keys r = dict_keys (reg_map r)"

definition reg_insert :: "'k \<Rightarrow> 'o \<Rightarrow> ('k, 'o) registry \<Rightarrow> ('k, 'o) registry" where
  "reg_insert k x r = \<lparr>reg_map = dict_put k (length (reg_heap r)) (reg_map r), reg_heap = reg_heap r @ [x]\<rparr>"

definition reg_modify :: "'k \<Rightarrow> ('o \<Rightarrow> 'o) \<Rightarrow> ('k, 'o) registry \<Rightarrow> ('k, 'o) registry" where
  "reg_modify k f r =
     (case reg_ref r k of None \<Rightarrow> r | Some i \<Rightarrow> r\<lparr>reg_heap := mutate i f (reg_heap r)\<rparr>)"

definition reg_upsert :: "'k \<Rightarrow> 'o \<Rightarrow> ('o \<Rightarrow> 'o) \<Rightarrow> ('k, 'o) registry \<Rightarrow> ('k, 'o) registry" where
  "reg_upsert k new upd r = (if reg_ref r k = None then reg_insert k new r else reg_modify k upd r)"

definition reg_delete :: "'k \<Rightarrow> ('k, 'o) registry \<Rightarrow> ('k, 'o) registry" where
  "reg_delete k r = r\<lparr>reg_map := dict_del k (reg_map r)\<rparr>"

text \<open>The collect-then-delete loops of the code: \<open>stale = [k for k in m if p(k)]; for k in stale: del m[k]\<close>.\<close>

definition reg_delete_where :: "('k \<Rightarrow> bool) \<Rightarrow> ('k, 'o) registry \<Rightarrow> ('k, 'o) registry" where
  "reg_delete_where p r = r\<lparr>reg_map := dict_del_all (filter p (reg_keys r)) (reg_map r)\<rparr>"

text \<open>Every registered identity is allocated, and no object is registered under two keys.\<close>

definition reg_ok :: "('k, 'o) registry \<Rightarrow> bool" where
  "reg_ok r \<longleftrightarrow>
     dict_ok (reg_map r) \<and> (\<forall>k i. reg_ref r k = Some i \<longrightarrow> i < length (reg_heap r))
     \<and> (\<forall>k k' i. reg_ref r k = Some i \<longrightarrow> reg_ref r k' = Some i \<longrightarrow> k = k')"

named_theorems reg_simps \<open>references and objects after a registry operation\<close>

lemma reg_ref_empty [reg_simps, simp]: "reg_ref reg_empty k = None"
  by (simp add: reg_ref_def reg_empty_def)

lemma reg_ref_insert [reg_simps, simp]:
  "reg_ref (reg_insert k x r) k' = (if k' = k then Some (length (reg_heap r)) else reg_ref r k')"
  by (simp add: reg_ref_def reg_insert_def)

lemma reg_ref_modify [reg_simps, simp]: "reg_ref (reg_modify k f r) k' = reg_ref r k'"
  by (simp add: reg_ref_def reg_modify_def split: option.splits)

lemma reg_ref_upsert [reg_simps, simp]:
  "reg_ref (reg_upsert k new upd r) k' =
     (if k' = k \<and> reg_ref r k = None then Some (length (reg_heap r)) else reg_ref r k')"
  by (simp add: reg_upsert_def)

lemma reg_ref_delete [reg_simps, simp]:
  "reg_ref (reg_delete k r) k' = (if k' = k then None else reg_ref r k')"
  by (simp add: reg_ref_def reg_delete_def)

lemma reg_ref_delete_where [reg_simps, simp]:
  "reg_ref (reg_delete_where p r) k = (if p k then None else reg_ref r k)"
  by (auto simp: reg_ref_def reg_delete_where_def reg_keys_def dict_get_None_iff)

lemma length_heap_insert [reg_simps, simp]: "length (reg_heap (reg_insert k x r)) = Suc (length (reg_heap r))"
  by (simp add: reg_insert_def)

lemma length_heap_modify [reg_simps, simp]: "length (reg_heap (reg_modify k f r)) = length (reg_heap r)"
  by (simp add: reg_modify_def split: option.splits)

lemma length_heap_upsert [reg_simps, simp]:
  "length (reg_heap (reg_upsert k new upd r)) =
     (if reg_ref r k = None then Suc (length (reg_heap r)) else length (reg_heap r))"
  by (simp add: reg_upsert_def)

lemma heap_delete [reg_simps, simp]:
  "reg_heap (reg_delete k r) = reg_heap r" "reg_heap (reg_delete_where p r) = reg_heap r"
  by (simp_all add: reg_delete_def reg_delete_where_def)

lemma reg_ok_empty [simp]: "reg_ok reg_empty"
  by (simp add: reg_ok_def reg_empty_def reg_ref_def)

lemma reg_ok_bound: "reg_ok r \<Longrightarrow> reg_ref r k = Some i \<Longrightarrow> i < length (reg_heap r)"
  by (simp add: reg_ok_def)

lemma reg_ok_inj: "reg_ok r \<Longrightarrow> reg_ref r k = Some i \<Longrightarrow> reg_ref r k' = Some i \<Longrightarrow> k = k'"
  unfolding reg_ok_def by blast

lemma reg_ok_insert [simp, intro]: "reg_ok r \<Longrightarrow> reg_ok (reg_insert k x r)"
proof -
  assume r: "reg_ok r"
  have "dict_ok (reg_map (reg_insert k x r))"
    using r by (simp add: reg_ok_def reg_insert_def)
  then show ?thesis
    using reg_ok_bound [OF r] reg_ok_inj [OF r] unfolding reg_ok_def
    by (auto simp: less_Suc_eq)
qed

lemma reg_ok_modify [simp, intro]: "reg_ok r \<Longrightarrow> reg_ok (reg_modify k f r)"
  by (auto simp: reg_ok_def) (simp add: reg_modify_def split: option.splits)

lemma reg_ok_upsert [simp, intro]: "reg_ok r \<Longrightarrow> reg_ok (reg_upsert k new upd r)"
  by (simp add: reg_upsert_def reg_ok_insert reg_ok_modify)

lemma reg_ok_delete [simp, intro]: "reg_ok r \<Longrightarrow> reg_ok (reg_delete k r)"
  by (auto simp: reg_ok_def) (simp add: reg_delete_def)

lemma reg_ok_delete_where [simp, intro]: "reg_ok r \<Longrightarrow> reg_ok (reg_delete_where p r)"
  by (auto simp: reg_ok_def) (simp add: reg_delete_where_def)

lemma reg_get_insert [reg_simps]:
  "reg_ok r \<Longrightarrow> reg_get (reg_insert k x r) k' = (if k' = k then Some x else reg_get r k')"
  by (auto simp: reg_get_def reg_insert_def reg_ref_def nth_append dest: reg_ok_bound [unfolded reg_ref_def]
      intro!: map_option_cong)

lemma reg_get_modify [reg_simps]:
  "reg_ok r \<Longrightarrow> reg_get (reg_modify k f r) k' = (if k' = k then map_option f (reg_get r k) else reg_get r k')"
proof (cases "reg_ref r k")
  case None
  then show ?thesis by (simp add: reg_get_def reg_modify_def)
next
  case (Some i)
  assume r: "reg_ok r"
  have ref: "reg_ref (reg_modify k f r) k' = reg_ref r k'" by simp
  have heap: "reg_heap (reg_modify k f r) = mutate i f (reg_heap r)" using Some by (simp add: reg_modify_def)
  show ?thesis
    using reg_ok_bound [OF r] reg_ok_inj [OF r Some, of k'] Some
    unfolding reg_get_def ref heap by (cases "reg_ref r k'") auto
qed

lemma reg_get_upsert [reg_simps]:
  "reg_ok r \<Longrightarrow> reg_get (reg_upsert k new upd r) k' =
     (if k' = k then Some (case reg_get r k of None \<Rightarrow> new | Some x \<Rightarrow> upd x) else reg_get r k')"
proof (cases "reg_ref r k")
  case None
  then have "reg_get r k = None" by (simp add: reg_get_def)
  then show "reg_ok r \<Longrightarrow> ?thesis" using None by (simp add: reg_upsert_def reg_get_insert)
next
  case (Some i)
  then have "reg_get r k = Some (reg_heap r ! i)" by (simp add: reg_get_def)
  then show "reg_ok r \<Longrightarrow> ?thesis" using Some by (simp add: reg_upsert_def reg_get_modify)
qed

lemma reg_get_delete [reg_simps]:
  "reg_get (reg_delete k r) k' = (if k' = k then None else reg_get r k')"
  "reg_get (reg_delete_where p r) k' = (if p k' then None else reg_get r k')"
  by (simp_all add: reg_get_def)

lemma reg_get_None_iff [simp]: "reg_get r k = None \<longleftrightarrow> reg_ref r k = None"
  by (simp add: reg_get_def)

lemma reg_keys_mem [simp]: "k \<in> set (reg_keys r) \<longleftrightarrow> reg_ref r k \<noteq> None"
  unfolding reg_keys_def reg_ref_def by (rule dict_keys_mem_iff)

lemma length_reg_map_le:
  "length (reg_map (reg_modify k f r)) = length (reg_map r)"
  "length (reg_map (reg_delete k r)) \<le> length (reg_map r)"
  "length (reg_map (reg_delete_where p r)) \<le> length (reg_map r)"
  by (simp_all add: reg_modify_def reg_delete_def reg_delete_where_def split: option.splits)

lemma length_reg_map_insert:
  "length (reg_map (reg_insert k x r)) = (if reg_ref r k = None then Suc (length (reg_map r)) else length (reg_map r))"
  by (simp add: reg_insert_def length_dict_put reg_ref_def)

section \<open>The never-rebuild contract\<close>

text \<open>
  A machine with a registry. Each step leaves a key's identity, or drops the key; a key that was
  absent may get an identity, which is then a new one, never one handed out before.
\<close>

definition keeps_identities :: "('k \<Rightarrow> oid option) \<Rightarrow> nat \<Rightarrow> ('k \<Rightarrow> oid option) \<Rightarrow> nat \<Rightarrow> bool" where
  "keeps_identities before n after n' \<longleftrightarrow>
     n \<le> n' \<and> (\<forall>k. after k = before k \<or> after k = None
                    \<or> before k = None \<and> (\<exists>i. after k = Some i \<and> n \<le> i \<and> i < n'))"

lemma keeps_identities_refl [simp]: "keeps_identities f n f n"
  by (simp add: keeps_identities_def)

lemma keeps_identities_trans:
  assumes fg: "keeps_identities f n g m" and gh: "keeps_identities g m h l"
    and gone: "\<And>k. f k \<noteq> None \<Longrightarrow> g k = None \<Longrightarrow> h k = None"
  shows "keeps_identities f n h l"
proof -
  have "h k = f k \<or> h k = None \<or> f k = None \<and> (\<exists>i. h k = Some i \<and> n \<le> i \<and> i < l)" for k
  proof -
    have "n \<le> m" "m \<le> l" using fg gh by (simp_all add: keeps_identities_def)
    moreover from fg have "g k = f k \<or> g k = None \<or> f k = None \<and> (\<exists>i. g k = Some i \<and> n \<le> i \<and> i < m)"
      unfolding keeps_identities_def by blast
    moreover from gh have "h k = g k \<or> h k = None \<or> g k = None \<and> (\<exists>i. h k = Some i \<and> m \<le> i \<and> i < l)"
      unfolding keeps_identities_def by blast
    ultimately show ?thesis using gone [of k] by fastforce
  qed
  then show ?thesis using fg gh by (simp add: keeps_identities_def)
qed

text \<open>An identity an operation hands out for a key is new, or the one the key had.\<close>

definition hands_out_new :: "('k \<Rightarrow> oid option) \<Rightarrow> nat \<Rightarrow> ('k \<Rightarrow> oid option) \<Rightarrow> nat \<Rightarrow> bool" where
  "hands_out_new before n after n' \<longleftrightarrow>
     n \<le> n' \<and> (\<forall>k i. after k = Some i \<longrightarrow> i < n \<longrightarrow> before k = Some i)"

lemma keeps_hands_out: "keeps_identities f n g m \<Longrightarrow> hands_out_new f n g m"
  unfolding keeps_identities_def hands_out_new_def by (metis linorder_not_less option.distinct(1) option.inject)

lemma hands_out_trans: "hands_out_new f n g m \<Longrightarrow> hands_out_new g m h l \<Longrightarrow> hands_out_new f n h l"
  unfolding hands_out_new_def by (meson le_trans less_le_trans)

text \<open>
  \<open>fresh_registry\<close> is the contract every operation meets; \<open>live_registry\<close> adds what those do that do not build a key's
  object anew: \<open>allowed k a\<close> says that \<open>a\<close> is none of the exceptions for \<open>k\<close>.
\<close>

locale fresh_registry =
  fixes step :: "'a \<Rightarrow> 's \<Rightarrow> 's \<times> 'o list"
    and inv :: "'s \<Rightarrow> bool"
    and ref :: "'s \<Rightarrow> 'k \<Rightarrow> oid option"
    and allocated :: "'s \<Rightarrow> nat"
  assumes inv_step: "inv s \<Longrightarrow> inv (fst (step a s))"
    and step_new: "inv s \<Longrightarrow> hands_out_new (ref s) (allocated s) (ref (fst (step a s))) (allocated (fst (step a s)))"
begin

lemma run_new:
  "inv s \<Longrightarrow> hands_out_new (ref s) (allocated s) (ref (fst (exec step as s))) (allocated (fst (exec step as s)))"
proof (induction as arbitrary: s)
  case Nil
  then show ?case by (simp add: hands_out_new_def)
next
  case (Cons a as)
  show ?case
    using hands_out_trans [OF step_new [OF Cons.prems] Cons.IH [OF inv_step [OF Cons.prems]]]
    by (simp add: case_prod_unfold)
qed

text \<open>An object that existed before a run is, after it, under the key it had before or under none.\<close>

lemma never_reused:
  "inv s \<Longrightarrow> i < allocated s \<Longrightarrow> ref (fst (exec step as s)) k = Some i \<Longrightarrow> ref s k = Some i"
  using run_new by (auto simp: hands_out_new_def)

end

locale live_registry = fresh_registry step inv ref allocated
  for step :: "'a \<Rightarrow> 's \<Rightarrow> 's \<times> 'o list" and inv and ref :: "'s \<Rightarrow> 'k \<Rightarrow> oid option" and allocated +
  fixes allowed :: "'k \<Rightarrow> 'a \<Rightarrow> bool"
  assumes step_keeps: "inv s \<Longrightarrow> allowed k a \<Longrightarrow> ref s k = Some i \<Longrightarrow> ref (fst (step a s)) k \<noteq> None \<Longrightarrow>
          ref (fst (step a s)) k = Some i"
begin

text \<open>A key that is present at every point of a run has the same object at its end as at its start.\<close>

lemma stays_same:
  assumes "inv s" and "\<forall>a\<in>set as. allowed k a" and "ref s k = Some i"
    and "\<forall>n \<le> length as. ref (fst (exec step (take n as) s)) k \<noteq> None"
  shows "ref (fst (exec step as s)) k = Some i"
  using assms
proof (induction as arbitrary: s)
  case Nil
  then show ?case by simp
next
  case (Cons a as)
  let ?s1 = "fst (step a s)"
  have present: "\<forall>n \<le> length as. ref (fst (exec step (take n as) ?s1)) k \<noteq> None"
    using Cons.prems(4) by (force simp: case_prod_unfold dest: spec [of _ "Suc _"])
  then have "ref ?s1 k \<noteq> None" by (metis exec.simps(1) fst_conv le0 take_0)
  then have "ref ?s1 k = Some i"
    using step_keeps [OF Cons.prems(1)] Cons.prems(2,3) by simp
  then show ?case
    using Cons.IH [of ?s1] inv_step [OF Cons.prems(1), of a] Cons.prems(2) present
    by (simp add: case_prod_unfold)
qed

end

section \<open>Growing and shrinking\<close>

text \<open>
  The two ways the store's operations change a registry: they update objects in place and add new
  ones, or they drop keys. \<open>reg_grows\<close> and \<open>reg_shrinks\<close> compose along the code's loops.
\<close>

definition reg_grows :: "('k, 'o) registry \<Rightarrow> ('k, 'o) registry \<Rightarrow> bool" where
  "reg_grows r r' \<longleftrightarrow>
     (reg_ok r \<longrightarrow> reg_ok r') \<and> length (reg_heap r) \<le> length (reg_heap r')
     \<and> (\<forall>k i. reg_ref r k = Some i \<longrightarrow> reg_ref r' k = Some i)
     \<and> (\<forall>k i. reg_ref r k = None \<longrightarrow> reg_ref r' k = Some i \<longrightarrow>
             length (reg_heap r) \<le> i \<and> i < length (reg_heap r'))"

definition reg_shrinks :: "('k, 'o) registry \<Rightarrow> ('k, 'o) registry \<Rightarrow> bool" where
  "reg_shrinks r r' \<longleftrightarrow>
     (reg_ok r \<longrightarrow> reg_ok r') \<and> length (reg_heap r') = length (reg_heap r)
     \<and> (\<forall>k. reg_ref r' k = reg_ref r k \<or> reg_ref r' k = None)"

lemma reg_grows_refl [simp]: "reg_grows r r"
  by (simp add: reg_grows_def)

lemma reg_shrinks_refl [simp]: "reg_shrinks r r"
  by (simp add: reg_shrinks_def)

lemma reg_grows_trans: "reg_grows r s \<Longrightarrow> reg_grows s t \<Longrightarrow> reg_grows r t"
proof -
  assume a: "reg_grows r s" "reg_grows s t"
  have "length (reg_heap r) \<le> i \<and> i < length (reg_heap t)" if "reg_ref r k = None" "reg_ref t k = Some i" for k i
  proof (cases "reg_ref s k")
    case None
    with a(2) that(2) have "length (reg_heap s) \<le> i \<and> i < length (reg_heap t)"
      unfolding reg_grows_def by blast
    then show ?thesis using a(1) unfolding reg_grows_def by linarith
  next
    case (Some j)
    with a(2) that(2) have "j = i" unfolding reg_grows_def by (metis option.inject)
    with a(1) that(1) Some have "length (reg_heap r) \<le> i \<and> i < length (reg_heap s)"
      unfolding reg_grows_def by blast
    then show ?thesis using a(2) unfolding reg_grows_def by linarith
  qed
  then show ?thesis using a unfolding reg_grows_def by (auto intro: order_trans)
qed

lemma reg_shrinks_trans: "reg_shrinks r s \<Longrightarrow> reg_shrinks s t \<Longrightarrow> reg_shrinks r t"
  unfolding reg_shrinks_def by (metis (no_types, opaque_lifting))

lemma reg_grows_insert: "reg_ref r k = None \<Longrightarrow> reg_grows r (reg_insert k x r)"
  by (auto simp: reg_grows_def)

lemma reg_grows_modify [simp]: "reg_grows r (reg_modify k f r)"
  by (auto simp: reg_grows_def)

lemma reg_grows_upsert [simp]: "reg_grows r (reg_upsert k new upd r)"
  by (simp add: reg_upsert_def reg_grows_insert)

lemma reg_shrinks_modify [simp]: "reg_shrinks r (reg_modify k f r)"
  by (auto simp: reg_shrinks_def)

lemma reg_shrinks_delete [simp]: "reg_shrinks r (reg_delete k r)" "reg_shrinks r (reg_delete_where p r)"
  by (auto simp: reg_shrinks_def)

lemma fold_grows:
  "(\<And>x s. reg_grows (p s) (p (f x s))) \<Longrightarrow> reg_grows (p s) (p (fold f xs s))"
  by (induction xs arbitrary: s) (auto intro: reg_grows_trans)

lemma fold_shrinks:
  "(\<And>x s. reg_shrinks (p s) (p (f x s))) \<Longrightarrow> reg_shrinks (p s) (p (fold f xs s))"
  by (induction xs arbitrary: s) (auto intro: reg_shrinks_trans)

lemma fold_unchanged: "(\<And>x s. p (f x s) = p s) \<Longrightarrow> p (fold f xs s) = p s"
  by (induction xs arbitrary: s) auto

definition reg_evolves :: "('k, 'o) registry \<Rightarrow> ('k, 'o) registry \<Rightarrow> bool" where
  "reg_evolves r r' \<longleftrightarrow> (reg_ok r \<longrightarrow> reg_ok r')
     \<and> keeps_identities (reg_ref r) (length (reg_heap r)) (reg_ref r') (length (reg_heap r'))"

lemma reg_grows_evolves:
  assumes "reg_grows r r'"
  shows "reg_evolves r r'"
proof -
  have "reg_ref r' k = reg_ref r k \<or> reg_ref r' k = None
      \<or> reg_ref r k = None \<and> (\<exists>i. reg_ref r' k = Some i \<and> length (reg_heap r) \<le> i \<and> i < length (reg_heap r'))" for k
    using assms by (cases "reg_ref r k"; cases "reg_ref r' k") (auto simp: reg_grows_def)
  then show ?thesis using assms by (simp add: reg_evolves_def reg_grows_def keeps_identities_def)
qed

lemma reg_shrinks_evolves: "reg_shrinks r r' \<Longrightarrow> reg_evolves r r'"
  by (auto simp: reg_shrinks_def reg_evolves_def keeps_identities_def)

lemma reg_evolves_refl [simp]: "reg_evolves r r"
  by (simp add: reg_evolves_def)

lemma grow_then_shrink:
  assumes "reg_grows r s" and "reg_shrinks s t"
  shows "reg_evolves r t"
proof -
  have "reg_ref s k \<noteq> None" if "reg_ref r k \<noteq> None" for k
    using assms(1) that unfolding reg_grows_def by auto
  then have "keeps_identities (reg_ref r) (length (reg_heap r)) (reg_ref t) (length (reg_heap t))"
    using reg_grows_evolves [OF assms(1)] reg_shrinks_evolves [OF assms(2)]
    unfolding reg_evolves_def by - (rule keeps_identities_trans [of _ _ "reg_ref s" "length (reg_heap s)"], blast+)
  then show ?thesis using assms by (simp add: reg_evolves_def reg_grows_def reg_shrinks_def)
qed

lemma shrink_then_grow:
  assumes "reg_shrinks r s" and "reg_grows s t"
    and "\<And>k. reg_ref r k \<noteq> None \<Longrightarrow> reg_ref s k = None \<Longrightarrow> reg_ref t k = None"
  shows "reg_evolves r t"
proof -
  have "keeps_identities (reg_ref r) (length (reg_heap r)) (reg_ref t) (length (reg_heap t))"
    using reg_shrinks_evolves [OF assms(1)] reg_grows_evolves [OF assms(2)] assms(3)
    unfolding reg_evolves_def by - (rule keeps_identities_trans [of _ _ "reg_ref s" "length (reg_heap s)"], blast+)
  then show ?thesis using assms(1,2) by (simp add: reg_evolves_def reg_grows_def reg_shrinks_def)
qed

end
