(* ===== verification/StoreData.thy ===== *)
theory StoreData
  imports Registry
begin

text \<open>
  The wire summaries the store keeps and the domain objects that wrap them (model/*.py), reduced to
  the fields the store and the objects' own mutators read or write; every other field of a wire
  record travels in its \<open>rest\<close>, which the store only copies. Times are instants on an integer scale.
  An object is what sits behind a live reference: its mutators are the code's \<open>_replace_summary\<close>,
  \<open>_replace_state\<close>, \<open>_attach_detail\<close> and the zone-detail setters of the alarm panel.
\<close>

type_synonym instant = int

section \<open>Devices\<close>

record availability =
  av_reachable :: "bool option"
  av_last_updated :: "instant option"
  av_last_refreshed :: "instant option"
  av_battery :: "int option"
  av_low_battery :: "bool option"
  av_signal :: "int option"

definition no_availability :: availability where
  "no_availability = \<lparr>av_reachable = None, av_last_updated = None, av_last_refreshed = None,
     av_battery = None, av_low_battery = None, av_signal = None\<rparr>"

record device_summary =
  ds_address :: string
  ds_central :: "string option"
  ds_interface :: string
  ds_interface_id :: string
  ds_model :: string
  ds_name :: string
  ds_available :: bool
  ds_channels_count :: int
  ds_updatable :: bool
  ds_update_available :: bool
  ds_config_pending :: bool
  ds_has_sub_devices :: bool
  ds_firmware :: json
  ds_availability :: availability
  ds_rest :: json

record channel_summary =
  cs_address :: string
  cs_number :: int
  cs_rest :: json

record device_detail =
  dd_summary :: device_summary
  dd_channels :: "channel_summary list"

record device_obj =
  dv_summary :: device_summary
  dv_firmware :: "json option"
  dv_availability :: "availability option"

definition new_device :: "device_summary \<Rightarrow> device_obj" where
  "new_device sm = \<lparr>dv_summary = sm, dv_firmware = None, dv_availability = None\<rparr>"

definition update_summary :: "device_summary \<Rightarrow> device_obj \<Rightarrow> device_obj" where
  "update_summary sm d = d\<lparr>dv_summary := sm\<rparr>"

definition replace_availability :: "availability \<Rightarrow> device_obj \<Rightarrow> device_obj" where
  "replace_availability a d =
     d\<lparr>dv_availability := Some a, dv_summary := (dv_summary d)\<lparr>ds_availability := a\<rparr>\<rparr>"

definition attach_detail :: "json \<Rightarrow> availability \<Rightarrow> device_obj \<Rightarrow> device_obj" where
  "attach_detail fw a d = d\<lparr>dv_firmware := Some fw, dv_availability := Some a\<rparr>"

text \<open>\<open>Device.available\<close> without a forced override, \<open>Device.availability.is_reachable\<close>, \<open>Device.last_refreshed\<close>.\<close>

definition device_available :: "device_obj \<Rightarrow> bool" where
  "device_available d = ds_available (dv_summary d)"

definition is_reachable :: "device_obj \<Rightarrow> bool" where
  "is_reachable d =
     (case dv_availability d of
        None \<Rightarrow> device_available d
      | Some a \<Rightarrow> (case av_reachable a of Some b \<Rightarrow> b | None \<Rightarrow> device_available d))"

definition last_refreshed :: "instant \<Rightarrow> device_obj \<Rightarrow> instant option" where
  "last_refreshed zero_time d =
     (case dv_availability d of
        None \<Rightarrow> None
      | Some a \<Rightarrow> if av_last_refreshed a = Some zero_time then None else av_last_refreshed a)"

section \<open>Channels and data points\<close>

record channel_obj =
  ch_summary :: channel_summary

record dp_summary =
  dp_parameter :: string
  dp_value :: json
  dp_display_value :: "rat option"
  dp_observed :: bool
  dp_modified_at :: "instant option"
  dp_last_changed_at :: "instant option"
  dp_last_seen_at :: "instant option"
  dp_rest :: json

text \<open>
  A data point with the optimistic value a consumer wrote over it, if any, and, for a calculated
  one, the daemon's verdict on the derived value.
\<close>

record dp_obj =
  do_summary :: dp_summary
  do_address :: string
  do_channel :: int
  do_override :: "json option"
  do_calculated_available :: "bool option"

definition new_data_point :: "dp_summary \<Rightarrow> string \<Rightarrow> int \<Rightarrow> dp_obj" where
  "new_data_point sm addr ch = \<lparr>do_summary = sm, do_address = addr, do_channel = ch, do_override = None,
     do_calculated_available = None\<rparr>"

definition replace_dp_summary :: "dp_summary \<Rightarrow> dp_obj \<Rightarrow> dp_obj" where
  "replace_dp_summary sm d = d\<lparr>do_summary := sm\<rparr>"

definition clear_value_override :: "dp_obj \<Rightarrow> dp_obj" where
  "clear_value_override d = d\<lparr>do_override := None\<rparr>"

text \<open>\<open>DataPoint.value\<close>: an unobserved data point reads as no value.\<close>

definition dp_read_value :: "dp_obj \<Rightarrow> json" where
  "dp_read_value d = (if \<not> dp_observed (do_summary d) then JNull else dp_value (do_summary d))"

record calc_summary =
  ca_name :: string
  ca_value :: json
  ca_observed :: bool
  ca_available :: bool
  ca_modified_at :: "instant option"
  ca_rest :: json

section \<open>Custom data points\<close>

type_synonym cdp_state = "(string, json) dict"

record cdp_summary =
  cd_name :: string
  cd_channel_no :: int
  cd_state :: "cdp_state option"
  cd_rest :: json

record cdp_obj =
  co_summary :: cdp_summary
  co_address :: string
  co_state :: cdp_state
  co_generation :: nat

definition new_cdp :: "cdp_summary \<Rightarrow> string \<Rightarrow> cdp_state option \<Rightarrow> cdp_obj" where
  "new_cdp sm addr initial = \<lparr>co_summary = sm, co_address = addr,
     co_state = (case initial of None \<Rightarrow> [] | Some st \<Rightarrow> st), co_generation = 0\<rparr>"

definition replace_cdp_state :: "cdp_state \<Rightarrow> cdp_obj \<Rightarrow> cdp_obj" where
  "replace_cdp_state st c = c\<lparr>co_state := st, co_generation := co_generation c + 1\<rparr>"

definition replace_cdp_summary :: "cdp_summary \<Rightarrow> cdp_obj \<Rightarrow> cdp_obj" where
  "replace_cdp_summary sm c = c\<lparr>co_summary := sm\<rparr>"

section \<open>Hub objects\<close>

record program_summary =
  pg_id :: string
  pg_active :: "bool option"
  pg_execute_available :: "bool option"
  pg_channel :: "string option"
  pg_device_address :: "string option"
  pg_enabled_default :: "bool option"
  pg_rest :: json

record program_obj =
  po_summary :: program_summary
  po_class :: string

record sysvar_summary =
  sv_name :: string
  sv_value :: json
  sv_observed :: bool
  sv_channel :: "string option"
  sv_device_address :: "string option"
  sv_enabled_default :: "bool option"
  sv_rest :: json

text \<open>\<open>so_plain\<close>: the object is a bare \<open>Sysvar\<close>, not one of the categorised subclasses.\<close>

record sysvar_obj =
  so_summary :: sysvar_summary
  so_plain :: bool

definition replace_program_summary :: "program_summary \<Rightarrow> program_obj \<Rightarrow> program_obj" where
  "replace_program_summary sm p = p\<lparr>po_summary := sm\<rparr>"

definition replace_sysvar_summary :: "sysvar_summary \<Rightarrow> sysvar_obj \<Rightarrow> sysvar_obj" where
  "replace_sysvar_summary sm v = v\<lparr>so_summary := sm\<rparr>"

section \<open>Alarm panels\<close>

record panel_entity =
  pe_unique_id :: string
  pe_zone_id :: string
  pe_name :: string
  pe_category :: string
  pe_state :: string
  pe_supported_modes :: "string list option"
  pe_available :: bool
  pe_master :: "bool option"
  pe_code_arm_required :: bool
  pe_code_disarm_required :: bool

record countdown =
  cn_kind :: string
  cn_remaining :: int
  cn_total :: int

record incident =
  in_id :: int
  in_cause :: string
  in_sensor :: "string option"

record zone_status =
  zs_id :: string
  zs_mode :: "string option"
  zs_bypassed :: "string list option"
  zs_countdown :: "countdown option"
  zs_readiness :: "(string, json) dict option"
  zs_walktest_active :: bool

record panel_obj =
  pa_summary :: panel_entity
  pa_mode :: "string option"
  pa_bypassed :: "string list"
  pa_countdown :: "countdown option"
  pa_readiness :: "(string, json) dict"
  pa_walktest_active :: bool
  pa_incident :: "incident option"
  pa_triggered_motion :: nat

definition master_zone_id :: string where
  "master_zone_id = ''master''"

definition new_panel :: "panel_entity \<Rightarrow> panel_obj" where
  "new_panel sm = \<lparr>pa_summary = sm, pa_mode = None, pa_bypassed = [], pa_countdown = None, pa_readiness = [],
     pa_walktest_active = False, pa_incident = None, pa_triggered_motion = 0\<rparr>"

definition is_master :: "panel_obj \<Rightarrow> bool" where
  "is_master p = (pe_master (pa_summary p) = Some True)"

definition supported_modes :: "panel_obj \<Rightarrow> string list" where
  "supported_modes p = (case pe_supported_modes (pa_summary p) of None \<Rightarrow> [] | Some ms \<Rightarrow> ms)"

definition replace_panel_summary :: "panel_entity \<Rightarrow> panel_obj \<Rightarrow> panel_obj" where
  "replace_panel_summary sm p = p\<lparr>pa_summary := sm\<rparr>"

definition clear_countdown :: "panel_obj \<Rightarrow> panel_obj" where
  "clear_countdown p = p\<lparr>pa_countdown := None\<rparr>"

definition replace_status :: "zone_status \<Rightarrow> panel_obj \<Rightarrow> panel_obj" where
  "replace_status st p =
     (let p1 = p\<lparr>pa_mode := zs_mode st,
                 pa_bypassed := (case zs_bypassed st of None \<Rightarrow> [] | Some bs \<Rightarrow> bs)\<rparr>;
          p2 = (case zs_countdown st of Some c \<Rightarrow> p1\<lparr>pa_countdown := Some c\<rparr> | None \<Rightarrow> clear_countdown p1)
      in p2\<lparr>pa_readiness := (case zs_readiness st of None \<Rightarrow> [] | Some r \<Rightarrow> r),
             pa_walktest_active := zs_walktest_active st\<rparr>)"

definition set_mode :: "string option \<Rightarrow> panel_obj \<Rightarrow> panel_obj" where
  "set_mode m p = p\<lparr>pa_mode := m\<rparr>"

definition set_countdown :: "countdown \<Rightarrow> panel_obj \<Rightarrow> panel_obj" where
  "set_countdown c p = p\<lparr>pa_countdown := Some c\<rparr>"

definition set_readiness :: "(string, json) dict \<Rightarrow> panel_obj \<Rightarrow> panel_obj" where
  "set_readiness r p = p\<lparr>pa_readiness := r\<rparr>"

definition set_triggered_motion_count :: "nat \<Rightarrow> panel_obj \<Rightarrow> panel_obj" where
  "set_triggered_motion_count n p = p\<lparr>pa_triggered_motion := n\<rparr>"

definition record_incident :: "incident \<Rightarrow> panel_obj \<Rightarrow> panel_obj" where
  "record_incident i p = p\<lparr>pa_incident := Some i\<rparr>"

end
