(* ===== verification/Store.thy ===== *)
theory Store
  imports StoreData
begin

text \<open>
  The store (store.py): the in-memory mirror of the daemon's model. Each of its maps is a registry of
  live objects; the two secondary indexes (custom data points by channel, alarm panels by zone)
  are separate dictionaries into the same heaps, as in the code. The factories the compat layer
  installs are functions held in the state. A refresh is two operations, before and after the
  awaited request, so that a push can be interleaved. \<open>store_step\<close> collects the operations.
\<close>

section \<open>State\<close>

record transport =
  tr_connected :: bool
  tr_capabilities :: "string list option"

type_synonym dp_key = "string \<times> int \<times> string"

record store =
  st_transport :: "transport option"
  st_max_devices :: nat
  st_cap_warned :: bool
  st_central_id :: string
  st_central_count :: int
  st_central_name :: string
  st_locale :: string
  st_entity_names :: "(string, string) dict"
  st_serial_suffix :: string
  st_dp_factory :: "(dp_summary \<Rightarrow> string \<Rightarrow> int \<Rightarrow> dp_obj) option"
  st_cdp_factory :: "(cdp_summary \<Rightarrow> string \<Rightarrow> cdp_state option \<Rightarrow> cdp_obj) option"
  st_calc_factory :: "(calc_summary \<Rightarrow> string \<Rightarrow> int \<Rightarrow> dp_obj) option"
  st_panel_factory :: "(panel_entity \<Rightarrow> panel_obj) option"
  st_program_factory :: "(program_summary \<Rightarrow> bool \<Rightarrow> program_obj list) option"
  st_sysvar_factory :: "(sysvar_summary \<Rightarrow> bool \<Rightarrow> sysvar_obj) option"
  st_devices :: "(string, device_obj) registry"
  st_channels :: "(string \<times> int, channel_obj) registry"
  st_dps :: "(dp_key, dp_obj) registry"
  st_calc_keys :: "dp_key set"
  st_cdps :: "(string \<times> string, cdp_obj) registry"
  st_cdp_index :: "(string \<times> int, oid) dict"
  st_programs :: "(string, program_obj) registry"
  st_program_dps :: "(string, oid list) dict"
  st_twin_heap :: "program_obj heap"
  st_sysvars :: "(string, sysvar_obj) registry"
  st_panels :: "(string, panel_obj) registry"
  st_zone_index :: "(string, oid) dict"
  st_alarm_healthy :: bool
  st_week_profiles :: "(string, (bool, oid) dict) dict"

definition default_max_devices :: nat where "default_max_devices = 20000"

definition empty_store :: "transport option \<Rightarrow> nat \<Rightarrow> store" where
  "empty_store tr max_devices =
     \<lparr>st_transport = tr, st_max_devices = max_devices, st_cap_warned = False, st_central_id = '''',
      st_central_count = 0, st_central_name = '''', st_locale = ''en'', st_entity_names = [],
      st_serial_suffix = '''', st_dp_factory = None, st_cdp_factory = None, st_calc_factory = None,
      st_panel_factory = None, st_program_factory = None, st_sysvar_factory = None,
      st_devices = reg_empty, st_channels = reg_empty, st_dps = reg_empty, st_calc_keys = {},
      st_cdps = reg_empty, st_cdp_index = [], st_programs = reg_empty, st_program_dps = [],
      st_twin_heap = [], st_sysvars = reg_empty, st_panels = reg_empty, st_zone_index = [],
      st_alarm_healthy = True, st_week_profiles = []\<rparr>"

section \<open>Central identity\<close>

definition serial_suffix_len :: nat where "serial_suffix_len = 10"

definition lower_char :: "char \<Rightarrow> char" where
  "lower_char c = (let n = of_char c :: nat in if 65 \<le> n \<and> n \<le> 90 then char_of (n + 32) else c)"

text \<open>Serials are ASCII; \<open>str.lower\<close> is modelled on ASCII letters.\<close>

definition canonical_serial_suffix :: "string \<Rightarrow> string" where
  "canonical_serial_suffix serial =
     (let s = map lower_char serial
      in if length s \<le> serial_suffix_len then s else drop (length s - serial_suffix_len) s)"

definition set_central_id :: "string option \<Rightarrow> store \<Rightarrow> store" where
  "set_central_id c s = s\<lparr>st_central_id := (case c of None \<Rightarrow> '''' | Some x \<Rightarrow> x)\<rparr>"

definition set_central_name :: "string option \<Rightarrow> store \<Rightarrow> store" where
  "set_central_name c s = s\<lparr>st_central_name := (case c of None \<Rightarrow> '''' | Some x \<Rightarrow> x)\<rparr>"

definition central_name :: "store \<Rightarrow> string" where
  "central_name s = (if st_central_name s \<noteq> '''' then st_central_name s else st_central_id s)"

definition set_daemon_central_count :: "int \<Rightarrow> store \<Rightarrow> store" where
  "set_daemon_central_count n s = s\<lparr>st_central_count := n\<rparr>"

definition set_locale :: "string option \<Rightarrow> store \<Rightarrow> store" where
  "set_locale l s = s\<lparr>st_locale := (case l of None \<Rightarrow> ''en'' | Some x \<Rightarrow> if x = '''' then ''en'' else x)\<rparr>"

definition set_entity_names :: "(string, string) dict \<Rightarrow> store \<Rightarrow> store" where
  "set_entity_names es s = s\<lparr>st_entity_names := es\<rparr>"

definition set_serial :: "string option \<Rightarrow> store \<Rightarrow> store" where
  "set_serial sn s =
     s\<lparr>st_serial_suffix := (case sn of None \<Rightarrow> '''' | Some x \<Rightarrow> if x = '''' then '''' else canonical_serial_suffix x)\<rparr>"

definition set_transport :: "transport \<Rightarrow> store \<Rightarrow> store" where
  "set_transport t s = s\<lparr>st_transport := Some t\<rparr>"

definition has_capability :: "string \<Rightarrow> store \<Rightarrow> bool" where
  "has_capability c s =
     (case st_transport s of None \<Rightarrow> False
      | Some t \<Rightarrow> (case tr_capabilities t of None \<Rightarrow> False | Some cs \<Rightarrow> c \<in> set cs))"

text \<open>\<open>list(dict.fromkeys(xs))\<close>: the first occurrences, in order.\<close>

fun dedupe :: "'a list \<Rightarrow> 'a list" where
  "dedupe [] = []"
| "dedupe (x # xs) = x # dedupe (filter (\<lambda>y. y \<noteq> x) xs)"

record snapshot =
  sn_devices :: "device_summary list"
  sn_programs :: "program_summary list option"
  sn_sysvars :: "sysvar_summary list option"
  sn_interfaces :: "string option list option"

definition snapshot_candidates :: "snapshot \<Rightarrow> string list" where
  "snapshot_candidates sn =
     (case sn_interfaces sn of None \<Rightarrow> []
      | Some xs \<Rightarrow> concat (map (\<lambda>c. case c of None \<Rightarrow> [] | Some x \<Rightarrow> if x = '''' then [] else [x]) xs))"

definition infer_central_id :: "store \<Rightarrow> snapshot \<Rightarrow> string option" where
  "infer_central_id s sn =
     (let candidates = snapshot_candidates sn
      in if st_central_name s \<noteq> '''' \<and> st_central_name s \<in> set candidates then Some (st_central_name s)
         else (case dedupe candidates of [x] \<Rightarrow> Some x | _ \<Rightarrow> None))"

section \<open>Building objects\<close>

definition build_data_point :: "store \<Rightarrow> dp_summary \<Rightarrow> string \<Rightarrow> int \<Rightarrow> dp_obj" where
  "build_data_point s sm addr ch =
     (case st_dp_factory s of Some f \<Rightarrow> f sm addr ch | None \<Rightarrow> new_data_point sm addr ch)"

definition build_custom_data_point :: "store \<Rightarrow> cdp_summary \<Rightarrow> string \<Rightarrow> cdp_state option \<Rightarrow> cdp_obj" where
  "build_custom_data_point s sm addr initial =
     (case st_cdp_factory s of Some f \<Rightarrow> f sm addr initial | None \<Rightarrow> new_cdp sm addr initial)"

definition build_alarm_panel :: "store \<Rightarrow> panel_entity \<Rightarrow> panel_obj" where
  "build_alarm_panel s sm = (case st_panel_factory s of Some f \<Rightarrow> f sm | None \<Rightarrow> new_panel sm)"

definition truthy :: "bool option \<Rightarrow> bool" where
  "truthy b = (b = Some True)"

section \<open>Devices\<close>

definition can_admit_device :: "string \<Rightarrow> store \<Rightarrow> bool" where
  "can_admit_device addr s \<longleftrightarrow>
     reg_ref (st_devices s) addr \<noteq> None \<or> length (reg_map (st_devices s)) < st_max_devices s"

text \<open>\<open>_upsert_device_summary\<close> returns the device, or nothing when the cap refuses a new address.\<close>

definition upsert_device_summary :: "device_summary \<Rightarrow> store \<Rightarrow> store \<times> bool" where
  "upsert_device_summary sm s =
     (if reg_ref (st_devices s) (ds_address sm) \<noteq> None
      then (s\<lparr>st_devices := reg_modify (ds_address sm) (update_summary sm) (st_devices s)\<rparr>, True)
      else if can_admit_device (ds_address sm) s
      then (s\<lparr>st_devices := reg_insert (ds_address sm) (new_device sm) (st_devices s)\<rparr>, True)
      else (s\<lparr>st_cap_warned := True\<rparr>, False))"

text \<open>\<open>address.split(":", 1)[0]\<close>\<close>

definition before_colon :: "string \<Rightarrow> string" where
  "before_colon a = takeWhile (\<lambda>c. c \<noteq> CHR '':'') a"

definition upsert_channel :: "channel_summary \<Rightarrow> store \<Rightarrow> store" where
  "upsert_channel sm s =
     s\<lparr>st_channels := reg_upsert (before_colon (cs_address sm), cs_number sm) \<lparr>ch_summary = sm\<rparr>
                        (\<lambda>c. c\<lparr>ch_summary := sm\<rparr>) (st_channels s)\<rparr>"

definition drop_channel :: "string \<times> int \<Rightarrow> store \<Rightarrow> store" where
  "drop_channel key s =
     (let stale = (\<lambda>k. fst k = fst key \<and> fst (snd k) = snd key)
      in s\<lparr>st_channels := reg_delete key (st_channels s),
           st_dps := reg_delete_where stale (st_dps s),
           st_calc_keys := st_calc_keys s - {k. stale k \<and> reg_ref (st_dps s) k \<noteq> None}\<rparr>)"

definition attach_device_detail :: "device_detail \<Rightarrow> store \<Rightarrow> store" where
  "attach_device_detail dd s =
     (let sm = dd_summary dd; addr = ds_address sm
      in case upsert_device_summary sm s of
           (s1, False) \<Rightarrow> s1
         | (s1, True) \<Rightarrow>
             (let s2 = s1\<lparr>st_devices := reg_modify addr (attach_detail (ds_firmware sm) (ds_availability sm))
                                           (st_devices s1)\<rparr>;
                  s3 = fold upsert_channel (dd_channels dd) s2;
                  stale = filter (\<lambda>k. fst k = addr \<and> snd k \<notin> cs_number ` set (dd_channels dd))
                            (reg_keys (st_channels s3))
              in fold drop_channel stale s3))"

section \<open>Data points\<close>

definition attach_channel_data_points :: "string \<Rightarrow> int \<Rightarrow> dp_summary list \<Rightarrow> store \<Rightarrow> store" where
  "attach_channel_data_points addr ch dps s =
     (let incoming = (\<lambda>d. (addr, ch, dp_parameter d)) ` set dps;
          stale = (\<lambda>k. fst k = addr \<and> fst (snd k) = ch \<and> k \<notin> incoming \<and> k \<notin> st_calc_keys s);
          s1 = s\<lparr>st_dps := reg_delete_where stale (st_dps s)\<rparr>
      in s1\<lparr>st_dps := fold (\<lambda>d. reg_upsert (addr, ch, dp_parameter d) (build_data_point s d addr ch)
                                   (replace_dp_summary d)) dps (st_dps s1)\<rparr>)"

definition attach_channel_calculated_data_points :: "string \<Rightarrow> int \<Rightarrow> calc_summary list \<Rightarrow> store \<Rightarrow> store" where
  "attach_channel_calculated_data_points addr ch calcs s =
     (case st_calc_factory s of None \<Rightarrow> s
      | Some f \<Rightarrow>
          s\<lparr>st_dps := fold (\<lambda>c. reg_insert (addr, ch, ca_name c) (f c addr ch)) calcs (st_dps s),
            st_calc_keys := st_calc_keys s \<union> (\<lambda>c. (addr, ch, ca_name c)) ` set calcs\<rparr>)"

definition is_calculated_data_point :: "string \<Rightarrow> int \<Rightarrow> string \<Rightarrow> store \<Rightarrow> bool" where
  "is_calculated_data_point addr ch p s \<longleftrightarrow> (addr, ch, p) \<in> st_calc_keys s"

section \<open>Custom data points\<close>

definition register_cdp :: "string \<times> string \<Rightarrow> cdp_obj \<Rightarrow> store \<Rightarrow> store" where
  "register_cdp key c s =
     s\<lparr>st_cdps := reg_insert key c (st_cdps s),
       st_cdp_index := dict_put (fst key, cd_channel_no (co_summary c)) (length (reg_heap (st_cdps s)))
                         (st_cdp_index s)\<rparr>"

definition drop_cdp :: "string \<times> string \<Rightarrow> store \<Rightarrow> store" where
  "drop_cdp key s =
     (case reg_get (st_cdps s) key of None \<Rightarrow> s
      | Some c \<Rightarrow> s\<lparr>st_cdps := reg_delete key (st_cdps s),
                     st_cdp_index := dict_del (fst key, cd_channel_no (co_summary c)) (st_cdp_index s)\<rparr>)"

definition attach_one_cdp :: "string \<Rightarrow> cdp_summary \<Rightarrow> store \<Rightarrow> store" where
  "attach_one_cdp addr sm s =
     (case reg_ref (st_cdps s) (addr, cd_name sm) of
        Some i \<Rightarrow>
          s\<lparr>st_cdps := reg_modify (addr, cd_name sm)
                          (\<lambda>c. let c1 = replace_cdp_summary sm c
                               in case cd_state sm of Some st \<Rightarrow> replace_cdp_state st c1 | None \<Rightarrow> c1) (st_cdps s),
            st_cdp_index := dict_put (addr, cd_channel_no sm) i (st_cdp_index s)\<rparr>
      | None \<Rightarrow> register_cdp (addr, cd_name sm) (build_custom_data_point s sm addr (cd_state sm)) s)"

definition attach_custom_data_points :: "string \<Rightarrow> cdp_summary list \<Rightarrow> store \<Rightarrow> store" where
  "attach_custom_data_points addr cdps s =
     (let incoming = (\<lambda>c. (addr, cd_name c)) ` set cdps;
          stale = filter (\<lambda>k. fst k = addr \<and> k \<notin> incoming) (reg_keys (st_cdps s))
      in fold (attach_one_cdp addr) cdps (fold drop_cdp stale s))"

definition get_custom_data_point_by_channel :: "string \<Rightarrow> int \<Rightarrow> store \<Rightarrow> cdp_obj option" where
  "get_custom_data_point_by_channel addr ch s =
     map_option (\<lambda>i. reg_heap (st_cdps s) ! i) (dict_get (st_cdp_index s) (addr, ch))"

section \<open>Hub catalogue\<close>

definition alloc_twins :: "program_obj list \<Rightarrow> string \<Rightarrow> store \<Rightarrow> store" where
  "alloc_twins ps pid s =
     s\<lparr>st_program_dps := dict_put pid [length (st_twin_heap s)..<length (st_twin_heap s) + length ps]
                            (st_program_dps s),
       st_twin_heap := st_twin_heap s @ ps\<rparr>"

definition program_data_points :: "string \<Rightarrow> store \<Rightarrow> oid list" where
  "program_data_points pid s = (case dict_get (st_program_dps s) pid of None \<Rightarrow> [] | Some xs \<Rightarrow> xs)"

definition upsert_program :: "program_summary \<Rightarrow> store \<Rightarrow> store" where
  "upsert_program sm s =
     (if reg_ref (st_programs s) (pg_id sm) = None
      then (let s1 = s\<lparr>st_programs := reg_insert (pg_id sm) \<lparr>po_summary = sm, po_class = ''Program''\<rparr> (st_programs s)\<rparr>
            in case st_program_factory s of None \<Rightarrow> s1
               | Some f \<Rightarrow> alloc_twins (f sm (truthy (pg_enabled_default sm))) (pg_id sm) s1)
      else s\<lparr>st_programs := reg_modify (pg_id sm) (replace_program_summary sm) (st_programs s),
             st_twin_heap := fold (\<lambda>i. mutate i (replace_program_summary sm)) (program_data_points (pg_id sm) s)
                               (st_twin_heap s)\<rparr>)"

definition build_sysvar :: "store \<Rightarrow> sysvar_summary \<Rightarrow> sysvar_obj" where
  "build_sysvar s sm =
     (case st_sysvar_factory s of Some f \<Rightarrow> f sm (truthy (sv_enabled_default sm))
      | None \<Rightarrow> \<lparr>so_summary = sm, so_plain = True\<rparr>)"

definition upsert_sysvar :: "sysvar_summary \<Rightarrow> store \<Rightarrow> store" where
  "upsert_sysvar sm s =
     s\<lparr>st_sysvars := reg_upsert (sv_name sm) (build_sysvar s sm) (replace_sysvar_summary sm) (st_sysvars s)\<rparr>"

definition attach_hub_catalogue ::
  "sysvar_summary list option \<Rightarrow> program_summary list option \<Rightarrow> store \<Rightarrow> store" where
  "attach_hub_catalogue sysvars programs s =
     fold upsert_program (case programs of None \<Rightarrow> [] | Some ps \<Rightarrow> ps)
       (fold upsert_sysvar (case sysvars of None \<Rightarrow> [] | Some vs \<Rightarrow> vs) s)"

text \<open>A late install of the hub factories: twins for programs without any, and plain sysvars rebuilt.\<close>

definition categorise_program :: "(program_summary \<Rightarrow> bool \<Rightarrow> program_obj list) \<Rightarrow> program_obj \<Rightarrow> store \<Rightarrow> store" where
  "categorise_program f p s =
     (let sm = po_summary p
      in if dict_get (st_program_dps s) (pg_id sm) = None
         then alloc_twins (f sm (truthy (pg_enabled_default sm))) (pg_id sm) s else s)"

definition categorise_sysvar :: "(sysvar_summary \<Rightarrow> bool \<Rightarrow> sysvar_obj) \<Rightarrow> string \<Rightarrow> store \<Rightarrow> store" where
  "categorise_sysvar f name s =
     (case reg_get (st_sysvars s) name of
        Some v \<Rightarrow> if so_plain v
                  then s\<lparr>st_sysvars := reg_insert name (f (so_summary v) (truthy (sv_enabled_default (so_summary v))))
                                         (st_sysvars s)\<rparr>
                  else s
      | None \<Rightarrow> s)"

definition set_hub_data_point_factories ::
  "(program_summary \<Rightarrow> bool \<Rightarrow> program_obj list) option \<Rightarrow> (sysvar_summary \<Rightarrow> bool \<Rightarrow> sysvar_obj) option
    \<Rightarrow> store \<Rightarrow> store" where
  "set_hub_data_point_factories pf sf s =
     (let s1 = s\<lparr>st_program_factory := pf, st_sysvar_factory := sf\<rparr>;
          s2 = (case pf of None \<Rightarrow> s1
                | Some f \<Rightarrow> fold (categorise_program f)
                              (map (\<lambda>i. reg_heap (st_programs s1) ! i) (dict_values (reg_map (st_programs s1)))) s1)
      in case sf of None \<Rightarrow> s2 | Some f \<Rightarrow> fold (categorise_sysvar f) (reg_keys (st_sysvars s2)) s2)"

section \<open>Bootstrap\<close>

definition load_snapshot :: "snapshot \<Rightarrow> store \<Rightarrow> store" where
  "load_snapshot sn s =
     (let s1 = (if st_central_id s = '''' then set_central_id (infer_central_id s sn) s else s);
          s2 = fold (\<lambda>sm t. fst (upsert_device_summary sm t)) (sn_devices sn) s1;
          s3 = fold upsert_program (case sn_programs sn of None \<Rightarrow> [] | Some ps \<Rightarrow> ps) s2
      in fold upsert_sysvar (case sn_sysvars sn of None \<Rightarrow> [] | Some vs \<Rightarrow> vs) s3)"

section \<open>Alarm panels\<close>

definition register_alarm_panel :: "panel_obj \<Rightarrow> store \<Rightarrow> store" where
  "register_alarm_panel p s =
     s\<lparr>st_panels := reg_insert (pe_unique_id (pa_summary p)) p (st_panels s),
       st_zone_index := dict_put (pe_zone_id (pa_summary p)) (length (reg_heap (st_panels s))) (st_zone_index s)\<rparr>"

definition drop_alarm_panel :: "string \<Rightarrow> store \<Rightarrow> store" where
  "drop_alarm_panel uid s =
     (case reg_get (st_panels s) uid of None \<Rightarrow> s
      | Some p \<Rightarrow> s\<lparr>st_panels := reg_delete uid (st_panels s),
                     st_zone_index := dict_del (pe_zone_id (pa_summary p)) (st_zone_index s)\<rparr>)"

definition attach_one_panel :: "panel_entity \<Rightarrow> store \<Rightarrow> store" where
  "attach_one_panel e s =
     (case reg_ref (st_panels s) (pe_unique_id e) of
        Some i \<Rightarrow> s\<lparr>st_panels := reg_modify (pe_unique_id e) (replace_panel_summary e) (st_panels s),
                     st_zone_index := dict_put (pe_zone_id e) i (st_zone_index s)\<rparr>
      | None \<Rightarrow> register_alarm_panel (build_alarm_panel s e) s)"

definition attach_alarm_panels :: "panel_entity list \<Rightarrow> store \<Rightarrow> store" where
  "attach_alarm_panels es s =
     (let stale = filter (\<lambda>uid. uid \<notin> pe_unique_id ` set es) (reg_keys (st_panels s))
      in fold attach_one_panel es (fold drop_alarm_panel stale s))"

text \<open>The panel a zone's push goes to, through the zone index.\<close>

definition on_zone :: "string \<Rightarrow> (panel_obj \<Rightarrow> panel_obj) \<Rightarrow> store \<Rightarrow> store" where
  "on_zone zid f s =
     (case dict_get (st_zone_index s) zid of None \<Rightarrow> s
      | Some i \<Rightarrow> s\<lparr>st_panels := (st_panels s)\<lparr>reg_heap := mutate i f (reg_heap (st_panels s))\<rparr>\<rparr>)"

definition motion_count :: "string list \<Rightarrow> panel_obj \<Rightarrow> nat" where
  "motion_count zones p = (if is_master p then length zones
     else length (filter (\<lambda>z. z = pe_zone_id (pa_summary p)) zones))"

text \<open>The sensors are given by their zone ids.\<close>

definition apply_triggered_motion :: "string list \<Rightarrow> store \<Rightarrow> store" where
  "apply_triggered_motion zones s =
     s\<lparr>st_panels := fold (\<lambda>uid. reg_modify uid (\<lambda>p. set_triggered_motion_count (motion_count zones p) p))
                      (reg_keys (st_panels s)) (st_panels s)\<rparr>"

definition attach_alarm_zone_statuses :: "zone_status list \<Rightarrow> store \<Rightarrow> store" where
  "attach_alarm_zone_statuses sts s = fold (\<lambda>st. on_zone (zs_id st) (replace_status st)) sts s"

record panel_changed =
  pc_unique_id :: string
  pc_zone_id :: string
  pc_name :: string
  pc_state :: string
  pc_available :: bool
  pc_code_arm :: bool
  pc_code_disarm :: bool
  pc_removed :: "bool option"

definition stub_panel :: "panel_changed \<Rightarrow> panel_entity" where
  "stub_panel p = \<lparr>pe_unique_id = pc_unique_id p, pe_zone_id = pc_zone_id p, pe_name = pc_name p,
     pe_category = ''alarm_control_panel'', pe_state = pc_state p, pe_supported_modes = None,
     pe_available = pc_available p, pe_master = Some (pc_zone_id p = master_zone_id),
     pe_code_arm_required = pc_code_arm p, pe_code_disarm_required = pc_code_disarm p\<rparr>"

definition apply_alarm_panel_changed :: "panel_changed \<Rightarrow> store \<Rightarrow> store" where
  "apply_alarm_panel_changed p s =
     (if truthy (pc_removed p) then drop_alarm_panel (pc_unique_id p) s
      else if reg_ref (st_panels s) (pc_unique_id p) = None
      then register_alarm_panel (build_alarm_panel s (stub_panel p)) s
      else s\<lparr>st_panels := reg_modify (pc_unique_id p)
               (\<lambda>x. replace_panel_summary ((pa_summary x)\<lparr>pe_name := pc_name p, pe_state := pc_state p,
                        pe_available := pc_available p, pe_code_arm_required := pc_code_arm p,
                        pe_code_disarm_required := pc_code_disarm p\<rparr>) x) (st_panels s)\<rparr>)"

definition apply_alarm_state_changed :: "string \<Rightarrow> string option \<Rightarrow> string \<Rightarrow> store \<Rightarrow> store" where
  "apply_alarm_state_changed zid mode new_state s =
     on_zone zid (\<lambda>p. let p1 = set_mode mode p
                      in if new_state \<in> {''arming'', ''pending''} then p1 else clear_countdown p1) s"

definition apply_alarm_countdown :: "string \<Rightarrow> countdown \<Rightarrow> store \<Rightarrow> store" where
  "apply_alarm_countdown zid c = on_zone zid (set_countdown c)"

definition apply_alarm_readiness_changed :: "string \<Rightarrow> (string, json) dict \<Rightarrow> store \<Rightarrow> store" where
  "apply_alarm_readiness_changed zid r = on_zone zid (set_readiness r)"

definition apply_alarm_triggered :: "string \<Rightarrow> incident \<Rightarrow> store \<Rightarrow> store" where
  "apply_alarm_triggered zid i = on_zone zid (record_incident i)"

definition apply_alarm_health_changed :: "bool \<Rightarrow> store \<Rightarrow> store" where
  "apply_alarm_health_changed healthy s = s\<lparr>st_alarm_healthy := healthy\<rparr>"

section \<open>Live updates\<close>

record value_changed =
  vc_address :: string
  vc_channel :: int
  vc_parameter :: string
  vc_value :: json
  vc_display_value :: "rat option"
  vc_modified_at :: instant
  vc_available :: bool

definition pushed_summary :: "value_changed \<Rightarrow> dp_summary \<Rightarrow> dp_summary" where
  "pushed_summary p sm = sm\<lparr>dp_value := vc_value p, dp_display_value := vc_display_value p, dp_observed := True,
     dp_modified_at := Some (vc_modified_at p), dp_last_changed_at := Some (vc_modified_at p),
     dp_last_seen_at := Some (vc_modified_at p)\<rparr>"

definition apply_value_changed :: "value_changed \<Rightarrow> store \<Rightarrow> store" where
  "apply_value_changed p s =
     s\<lparr>st_dps := reg_modify (vc_address p, vc_channel p, vc_parameter p)
          (\<lambda>d. clear_value_override (replace_dp_summary (pushed_summary p (do_summary d)) d)) (st_dps s)\<rparr>"

record device_created =
  dc_address :: string
  dc_central :: string
  dc_interface_id :: string
  dc_model :: string

definition stub_device :: "device_created \<Rightarrow> device_summary" where
  "stub_device p = \<lparr>ds_address = dc_address p, ds_central = Some (dc_central p), ds_interface = dc_interface_id p,
     ds_interface_id = dc_interface_id p, ds_model = dc_model p, ds_name = dc_address p, ds_available = True,
     ds_channels_count = 0, ds_updatable = False, ds_update_available = False, ds_config_pending = False,
     ds_has_sub_devices = False, ds_firmware = JObj [],
     ds_availability = no_availability\<lparr>av_reachable := Some True\<rparr>, ds_rest = JObj []\<rparr>"

definition apply_device_created :: "device_created \<Rightarrow> store \<Rightarrow> store" where
  "apply_device_created p s =
     (if reg_ref (st_devices s) (dc_address p) \<noteq> None then s
      else if \<not> can_admit_device (dc_address p) s then s\<lparr>st_cap_warned := True\<rparr>
      else s\<lparr>st_devices := reg_insert (dc_address p) (new_device (stub_device p)) (st_devices s)\<rparr>)"

definition apply_device_availability_changed :: "string \<Rightarrow> bool \<Rightarrow> store \<Rightarrow> store" where
  "apply_device_availability_changed addr available s =
     s\<lparr>st_devices := reg_modify addr
          (\<lambda>d. if ds_available (dv_summary d) = available then d
               else update_summary ((dv_summary d)\<lparr>ds_available := available\<rparr>) d) (st_devices s)\<rparr>"

definition refreshed_device :: "instant \<Rightarrow> device_obj \<Rightarrow> device_obj" where
  "refreshed_device ts d =
     (case dv_availability d of
        None \<Rightarrow> d
      | Some a \<Rightarrow>
          (case av_last_refreshed a of
             Some cur \<Rightarrow> if ts \<le> cur then d else replace_availability (a\<lparr>av_last_refreshed := Some ts\<rparr>) d
           | None \<Rightarrow> replace_availability (a\<lparr>av_last_refreshed := Some ts\<rparr>) d))"

definition apply_device_refreshed :: "string \<Rightarrow> instant \<Rightarrow> store \<Rightarrow> store" where
  "apply_device_refreshed addr ts s = s\<lparr>st_devices := reg_modify addr (refreshed_device ts) (st_devices s)\<rparr>"

definition apply_device_removed :: "string \<Rightarrow> store \<Rightarrow> store" where
  "apply_device_removed addr s =
     (let s1 = s\<lparr>st_devices := reg_delete addr (st_devices s)\<rparr>;
          s2 = fold drop_channel (filter (\<lambda>k. fst k = addr) (reg_keys (st_channels s1))) s1;
          s3 = fold drop_cdp (filter (\<lambda>k. fst k = addr) (reg_keys (st_cdps s2))) s2
      in s3\<lparr>st_week_profiles := dict_del addr (st_week_profiles s3)\<rparr>)"

definition apply_sysvar_changed ::
  "string \<Rightarrow> json \<Rightarrow> string option \<Rightarrow> string option \<Rightarrow> store \<Rightarrow> store" where
  "apply_sysvar_changed name val channel device s =
     s\<lparr>st_sysvars := reg_modify name
          (\<lambda>v. replace_sysvar_summary ((so_summary v)\<lparr>sv_value := val, sv_observed := True,
                 sv_channel := channel, sv_device_address := device\<rparr>) v) (st_sysvars s)\<rparr>"

definition given :: "string option \<Rightarrow> bool" where
  "given x \<longleftrightarrow> x \<noteq> None \<and> x \<noteq> Some ''''"

definition apply_program_executed :: "string \<Rightarrow> string option \<Rightarrow> string option \<Rightarrow> store \<Rightarrow> store" where
  "apply_program_executed pid channel device s =
     (case reg_get (st_programs s) pid of
        None \<Rightarrow> s
      | Some p \<Rightarrow>
          if \<not> given channel then s
          else (let sm = po_summary p
                in if channel \<noteq> pg_channel sm \<or> device \<noteq> pg_device_address sm
                   then upsert_program (sm\<lparr>pg_channel := channel, pg_device_address := device\<rparr>) s else s))"

definition apply_program_changed ::
  "string \<Rightarrow> bool \<Rightarrow> bool \<Rightarrow> string option \<Rightarrow> string option \<Rightarrow> store \<Rightarrow> store" where
  "apply_program_changed pid active execute_available channel device s =
     (case reg_get (st_programs s) pid of
        None \<Rightarrow> s
      | Some p \<Rightarrow>
          (let sm = (po_summary p)\<lparr>pg_active := Some active, pg_execute_available := Some execute_available\<rparr>
           in upsert_program
                (if given channel then sm\<lparr>pg_channel := channel, pg_device_address := device\<rparr> else sm) s))"

definition apply_cdp_state_changed :: "string \<Rightarrow> string \<Rightarrow> cdp_state \<Rightarrow> store \<Rightarrow> store" where
  "apply_cdp_state_changed addr name state s =
     s\<lparr>st_cdps := reg_modify (addr, name) (replace_cdp_state state) (st_cdps s)\<rparr>"

section \<open>Week profiles\<close>

definition set_week_profile :: "string \<Rightarrow> oid \<Rightarrow> bool \<Rightarrow> store \<Rightarrow> store" where
  "set_week_profile addr dp climate s =
     s\<lparr>st_week_profiles := dict_put addr
          (dict_put climate dp (case dict_get (st_week_profiles s) addr of None \<Rightarrow> [] | Some d \<Rightarrow> d))
          (st_week_profiles s)\<rparr>"

definition week_profiles_of :: "string \<Rightarrow> store \<Rightarrow> oid list" where
  "week_profiles_of addr s =
     (let by_kind = (case dict_get (st_week_profiles s) addr of None \<Rightarrow> [] | Some d \<Rightarrow> d);
          entry = (\<lambda>k. case dict_get by_kind k of None \<Rightarrow> [] | Some x \<Rightarrow> [x])
      in entry False @ entry True)"

section \<open>Factories\<close>

definition set_data_point_factory ::
  "(dp_summary \<Rightarrow> string \<Rightarrow> int \<Rightarrow> dp_obj) option \<Rightarrow> store \<Rightarrow> store" where
  "set_data_point_factory f s = s\<lparr>st_dp_factory := f\<rparr>"

definition set_custom_data_point_factory ::
  "(cdp_summary \<Rightarrow> string \<Rightarrow> cdp_state option \<Rightarrow> cdp_obj) option \<Rightarrow> store \<Rightarrow> store" where
  "set_custom_data_point_factory f s = s\<lparr>st_cdp_factory := f\<rparr>"

definition set_calculated_data_point_factory ::
  "(calc_summary \<Rightarrow> string \<Rightarrow> int \<Rightarrow> dp_obj) option \<Rightarrow> store \<Rightarrow> store" where
  "set_calculated_data_point_factory f s = s\<lparr>st_calc_factory := f\<rparr>"

definition set_alarm_panel_factory :: "(panel_entity \<Rightarrow> panel_obj) option \<Rightarrow> store \<Rightarrow> store" where
  "set_alarm_panel_factory f s = s\<lparr>st_panel_factory := f\<rparr>"

section \<open>Refreshes\<close>

definition refresh_is_stale :: "instant option \<Rightarrow> instant option \<Rightarrow> bool" where
  "refresh_is_stale current incoming =
     (case (current, incoming) of (Some c, Some i) \<Rightarrow> i < c | _ \<Rightarrow> False)"

text \<open>
  Each refresh is split at its \<open>await\<close>: the first half decides whether to ask the daemon (and what it
  remembers), the second applies the answer to the store as it is by then.
\<close>

definition refresh_cdp_begin :: "string \<Rightarrow> string \<Rightarrow> store \<Rightarrow> nat option" where
  "refresh_cdp_begin addr name s =
     (if st_transport s = None then None
      else map_option co_generation (reg_get (st_cdps s) (addr, name)))"

definition refresh_cdp_end :: "string \<Rightarrow> string \<Rightarrow> nat \<Rightarrow> cdp_state option \<Rightarrow> store \<Rightarrow> store" where
  "refresh_cdp_end addr name generation state s =
     (case reg_get (st_cdps s) (addr, name) of
        None \<Rightarrow> s
      | Some c \<Rightarrow>
          if co_generation c \<noteq> generation then s
          else (case state of None \<Rightarrow> s
                | Some st \<Rightarrow> s\<lparr>st_cdps := reg_modify (addr, name) (replace_cdp_state st) (st_cdps s)\<rparr>))"

definition refresh_dp_begin :: "store \<Rightarrow> bool" where
  "refresh_dp_begin s = (case st_transport s of None \<Rightarrow> False | Some t \<Rightarrow> tr_connected t)"

definition refresh_dp_end :: "dp_key \<Rightarrow> dp_summary \<Rightarrow> store \<Rightarrow> store" where
  "refresh_dp_end key sm s =
     s\<lparr>st_dps := reg_modify key
          (\<lambda>d. if refresh_is_stale (dp_modified_at (do_summary d)) (dp_modified_at sm) then d
               else clear_value_override (replace_dp_summary sm d)) (st_dps s)\<rparr>"

definition refresh_calculated_end :: "dp_key \<Rightarrow> calc_summary \<Rightarrow> store \<Rightarrow> store" where
  "refresh_calculated_end key c s =
     s\<lparr>st_dps := reg_modify key
          (\<lambda>d. if refresh_is_stale (dp_modified_at (do_summary d)) (ca_modified_at c) then d
               else let d1 = replace_dp_summary ((do_summary d)\<lparr>dp_value := ca_value c,
                               dp_observed := ca_observed c, dp_modified_at := ca_modified_at c\<rparr>) d;
                        d2 = (if do_calculated_available d1 \<noteq> None
                              then d1\<lparr>do_calculated_available := Some (ca_available c)\<rparr> else d1)
                    in clear_value_override d2) (st_dps s)\<rparr>"

section \<open>The store as one machine\<close>

datatype store_op =
    LoadSnapshot snapshot
  | AttachDetail device_detail
  | AttachDataPoints string int "dp_summary list"
  | AttachCalculated string int "calc_summary list"
  | AttachCdps string "cdp_summary list"
  | AttachPanels "panel_entity list"
  | AttachZoneStatuses "zone_status list"
  | AttachHub "sysvar_summary list option" "program_summary list option"
  | TriggeredMotion "string list"
  | PanelChanged panel_changed
  | AlarmStateChanged string "string option" string
  | AlarmCountdown string countdown
  | AlarmReadiness string "(string, json) dict"
  | AlarmTriggered string incident
  | AlarmHealth bool
  | ValueChanged value_changed
  | DeviceCreated device_created
  | AvailabilityChanged string bool
  | DeviceRefreshed string instant
  | DeviceRemoved string
  | SysvarChanged string json "string option" "string option"
  | ProgramExecuted string "string option" "string option"
  | ProgramChanged string bool bool "string option" "string option"
  | CdpStateChanged string string cdp_state
  | WeekProfile string oid bool
  | RefreshCdpEnd string string nat "cdp_state option"
  | RefreshDpEnd dp_key dp_summary
  | RefreshCalculatedEnd dp_key calc_summary
  | SetHubFactories "(program_summary \<Rightarrow> bool \<Rightarrow> program_obj list) option"
      "(sysvar_summary \<Rightarrow> bool \<Rightarrow> sysvar_obj) option"
  | SetDataPointFactory "(dp_summary \<Rightarrow> string \<Rightarrow> int \<Rightarrow> dp_obj) option"
  | SetCdpFactory "(cdp_summary \<Rightarrow> string \<Rightarrow> cdp_state option \<Rightarrow> cdp_obj) option"
  | SetCalculatedFactory "(calc_summary \<Rightarrow> string \<Rightarrow> int \<Rightarrow> dp_obj) option"
  | SetCentralId "string option"
  | SetCentralName "string option"
  | SetCentralCount int
  | SetLocale "string option"
  | SetEntityNames "(string, string) dict"
  | SetSerial "string option"
  | SetTransport transport

fun apply_op :: "store_op \<Rightarrow> store \<Rightarrow> store" where
  "apply_op (LoadSnapshot sn) = load_snapshot sn"
| "apply_op (AttachDetail dd) = attach_device_detail dd"
| "apply_op (AttachDataPoints a c ds) = attach_channel_data_points a c ds"
| "apply_op (AttachCalculated a c cs) = attach_channel_calculated_data_points a c cs"
| "apply_op (AttachCdps a cs) = attach_custom_data_points a cs"
| "apply_op (AttachPanels es) = attach_alarm_panels es"
| "apply_op (AttachZoneStatuses sts) = attach_alarm_zone_statuses sts"
| "apply_op (AttachHub vs ps) = attach_hub_catalogue vs ps"
| "apply_op (TriggeredMotion zs) = apply_triggered_motion zs"
| "apply_op (PanelChanged p) = apply_alarm_panel_changed p"
| "apply_op (AlarmStateChanged z m n) = apply_alarm_state_changed z m n"
| "apply_op (AlarmCountdown z c) = apply_alarm_countdown z c"
| "apply_op (AlarmReadiness z r) = apply_alarm_readiness_changed z r"
| "apply_op (AlarmTriggered z i) = apply_alarm_triggered z i"
| "apply_op (AlarmHealth b) = apply_alarm_health_changed b"
| "apply_op (ValueChanged p) = apply_value_changed p"
| "apply_op (DeviceCreated p) = apply_device_created p"
| "apply_op (AvailabilityChanged a b) = apply_device_availability_changed a b"
| "apply_op (DeviceRefreshed a t) = apply_device_refreshed a t"
| "apply_op (DeviceRemoved a) = apply_device_removed a"
| "apply_op (SysvarChanged n v c d) = apply_sysvar_changed n v c d"
| "apply_op (ProgramExecuted p c d) = apply_program_executed p c d"
| "apply_op (ProgramChanged p a e c d) = apply_program_changed p a e c d"
| "apply_op (CdpStateChanged a n st) = apply_cdp_state_changed a n st"
| "apply_op (WeekProfile a d k) = set_week_profile a d k"
| "apply_op (RefreshCdpEnd a n g st) = refresh_cdp_end a n g st"
| "apply_op (RefreshDpEnd k sm) = refresh_dp_end k sm"
| "apply_op (RefreshCalculatedEnd k c) = refresh_calculated_end k c"
| "apply_op (SetHubFactories pf sf) = set_hub_data_point_factories pf sf"
| "apply_op (SetDataPointFactory f) = set_data_point_factory f"
| "apply_op (SetCdpFactory f) = set_custom_data_point_factory f"
| "apply_op (SetCalculatedFactory f) = set_calculated_data_point_factory f"
| "apply_op (SetCentralId c) = set_central_id c"
| "apply_op (SetCentralName n) = set_central_name n"
| "apply_op (SetCentralCount n) = set_daemon_central_count n"
| "apply_op (SetLocale l) = set_locale l"
| "apply_op (SetEntityNames es) = set_entity_names es"
| "apply_op (SetSerial x) = set_serial x"
| "apply_op (SetTransport t) = set_transport t"

lemmas setter_defs [simp] =
  set_data_point_factory_def set_custom_data_point_factory_def set_calculated_data_point_factory_def
  set_central_id_def set_central_name_def set_daemon_central_count_def set_locale_def set_entity_names_def
  set_serial_def set_transport_def

definition store_step :: "store_op \<Rightarrow> store \<Rightarrow> store \<times> unit list" where
  "store_step p s = (apply_op p s, [])"

end
