(* ===== verification/StoreLive.thy ===== *)
theory StoreLive
  imports Store
begin

text \<open>
  The never-rebuild discipline of the store: how each operation changes each registry, the
  interpretation of the \<open>live_registry\<close> contract on every one of them, and the device cap.
\<close>

section \<open>Effects of the building blocks\<close>

lemma dc_fields [simp]:
  "st_devices (upsert_channel c s) = st_devices s" "st_devices (drop_channel k s) = st_devices s"
  "st_devices (upsert_program p s) = st_devices s" "st_devices (upsert_sysvar v s) = st_devices s"
  "st_devices (drop_cdp ck s) = st_devices s" "st_devices (attach_one_cdp a cd s) = st_devices s"
  "st_devices (alloc_twins ps pid s) = st_devices s" "st_devices (set_central_id x s) = st_devices s"
  by (simp_all add: upsert_channel_def drop_channel_def upsert_program_def upsert_sysvar_def drop_cdp_def
      attach_one_cdp_def register_cdp_def alloc_twins_def set_central_id_def Let_def split: option.splits)

lemma cap_fields [simp]:
  "st_max_devices (upsert_channel c s) = st_max_devices s" "st_max_devices (drop_channel k s) = st_max_devices s"
  "st_max_devices (upsert_program p s) = st_max_devices s" "st_max_devices (upsert_sysvar v s) = st_max_devices s"
  "st_max_devices (drop_cdp ck s) = st_max_devices s" "st_max_devices (attach_one_cdp a cd s) = st_max_devices s"
  "st_max_devices (alloc_twins ps pid s) = st_max_devices s"
  "st_max_devices (fst (upsert_device_summary sm s)) = st_max_devices s"
  "st_max_devices (set_central_id x s) = st_max_devices s"
  by (simp_all add: upsert_channel_def drop_channel_def upsert_program_def upsert_sysvar_def drop_cdp_def
      attach_one_cdp_def register_cdp_def alloc_twins_def upsert_device_summary_def set_central_id_def Let_def
      split: option.splits)

lemma channels_fields [simp]:
  "st_channels (fst (upsert_device_summary sm s)) = st_channels s"
  "st_channels (upsert_program p s) = st_channels s" "st_channels (upsert_sysvar v s) = st_channels s"
  "st_channels (drop_cdp ck s) = st_channels s" "st_channels (attach_one_cdp a cd s) = st_channels s"
  "st_channels (set_central_id x s) = st_channels s"
  by (simp_all add: upsert_device_summary_def upsert_program_def upsert_sysvar_def drop_cdp_def
      attach_one_cdp_def register_cdp_def alloc_twins_def set_central_id_def Let_def split: option.splits)

lemma dps_fields [simp]:
  "st_dps (fst (upsert_device_summary sm s)) = st_dps s" "st_dps (upsert_channel c s) = st_dps s"
  "st_dps (upsert_program p s) = st_dps s" "st_dps (upsert_sysvar v s) = st_dps s"
  "st_dps (drop_cdp ck s) = st_dps s" "st_dps (attach_one_cdp a cd s) = st_dps s"
  "st_dps (set_central_id x s) = st_dps s"
  by (simp_all add: upsert_device_summary_def upsert_channel_def upsert_program_def upsert_sysvar_def drop_cdp_def
      attach_one_cdp_def register_cdp_def alloc_twins_def set_central_id_def Let_def split: option.splits)

lemma cdps_fields [simp]:
  "st_cdps (fst (upsert_device_summary sm s)) = st_cdps s" "st_cdps (upsert_channel c s) = st_cdps s"
  "st_cdps (drop_channel k s) = st_cdps s"
  "st_cdps (upsert_program p s) = st_cdps s" "st_cdps (upsert_sysvar v s) = st_cdps s"
  "st_cdps (set_central_id x s) = st_cdps s"
  by (simp_all add: upsert_device_summary_def upsert_channel_def drop_channel_def upsert_program_def
      upsert_sysvar_def alloc_twins_def set_central_id_def Let_def split: option.splits)

lemma programs_fields [simp]:
  "st_programs (fst (upsert_device_summary sm s)) = st_programs s" "st_programs (upsert_channel c s) = st_programs s"
  "st_programs (drop_channel k s) = st_programs s" "st_programs (upsert_sysvar v s) = st_programs s"
  "st_programs (drop_cdp ck s) = st_programs s" "st_programs (attach_one_cdp a cd s) = st_programs s"
  "st_programs (set_central_id x s) = st_programs s" "st_programs (alloc_twins ps pid s) = st_programs s"
  by (simp_all add: upsert_device_summary_def upsert_channel_def drop_channel_def upsert_sysvar_def drop_cdp_def
      attach_one_cdp_def register_cdp_def alloc_twins_def set_central_id_def Let_def split: option.splits)

lemma sysvars_fields [simp]:
  "st_sysvars (fst (upsert_device_summary sm s)) = st_sysvars s" "st_sysvars (upsert_channel c s) = st_sysvars s"
  "st_sysvars (drop_channel k s) = st_sysvars s" "st_sysvars (upsert_program p s) = st_sysvars s"
  "st_sysvars (drop_cdp ck s) = st_sysvars s" "st_sysvars (attach_one_cdp a cd s) = st_sysvars s"
  "st_sysvars (set_central_id x s) = st_sysvars s" "st_sysvars (alloc_twins ps pid s) = st_sysvars s"
  by (simp_all add: upsert_device_summary_def upsert_channel_def drop_channel_def upsert_program_def drop_cdp_def
      attach_one_cdp_def register_cdp_def alloc_twins_def set_central_id_def Let_def split: option.splits)

lemma panels_fields [simp]:
  "st_panels (fst (upsert_device_summary sm s)) = st_panels s" "st_panels (upsert_channel c s) = st_panels s"
  "st_panels (drop_channel k s) = st_panels s" "st_panels (upsert_program p s) = st_panels s"
  "st_panels (upsert_sysvar v s) = st_panels s"
  "st_panels (drop_cdp ck s) = st_panels s" "st_panels (attach_one_cdp a cd s) = st_panels s"
  "st_panels (set_central_id x s) = st_panels s" "st_panels (alloc_twins ps pid s) = st_panels s"
  by (simp_all add: upsert_device_summary_def upsert_channel_def drop_channel_def upsert_program_def
      upsert_sysvar_def drop_cdp_def attach_one_cdp_def register_cdp_def alloc_twins_def set_central_id_def Let_def
      split: option.splits)

lemma fold_fields [simp]:
  "st_devices (fold upsert_channel cs s) = st_devices s" "st_devices (fold drop_channel ks s) = st_devices s"
  "st_devices (fold upsert_program ps s) = st_devices s" "st_devices (fold upsert_sysvar vs s) = st_devices s"
  "st_devices (fold drop_cdp cks s) = st_devices s" "st_devices (fold (attach_one_cdp a) cds s) = st_devices s"
  "st_max_devices (fold upsert_channel cs s) = st_max_devices s"
  "st_max_devices (fold drop_channel ks s) = st_max_devices s"
  "st_max_devices (fold upsert_program ps s) = st_max_devices s"
  "st_max_devices (fold upsert_sysvar vs s) = st_max_devices s"
  "st_max_devices (fold drop_cdp cks s) = st_max_devices s"
  "st_max_devices (fold (attach_one_cdp a) cds s) = st_max_devices s"
  "st_max_devices (fold (\<lambda>sm t. fst (upsert_device_summary sm t)) sms s) = st_max_devices s"
  "st_channels (fold (\<lambda>sm t. fst (upsert_device_summary sm t)) sms s) = st_channels s"
  "st_channels (fold upsert_program ps s) = st_channels s" "st_channels (fold upsert_sysvar vs s) = st_channels s"
  "st_channels (fold drop_cdp cks s) = st_channels s" "st_channels (fold (attach_one_cdp a) cds s) = st_channels s"
  "st_dps (fold (\<lambda>sm t. fst (upsert_device_summary sm t)) sms s) = st_dps s"
  "st_dps (fold upsert_channel cs s) = st_dps s" "st_dps (fold upsert_program ps s) = st_dps s"
  "st_dps (fold upsert_sysvar vs s) = st_dps s" "st_dps (fold drop_cdp cks s) = st_dps s"
  "st_dps (fold (attach_one_cdp a) cds s) = st_dps s"
  "st_cdps (fold (\<lambda>sm t. fst (upsert_device_summary sm t)) sms s) = st_cdps s"
  "st_cdps (fold upsert_channel cs s) = st_cdps s" "st_cdps (fold drop_channel ks s) = st_cdps s"
  "st_cdps (fold upsert_program ps s) = st_cdps s" "st_cdps (fold upsert_sysvar vs s) = st_cdps s"
  "st_programs (fold (\<lambda>sm t. fst (upsert_device_summary sm t)) sms s) = st_programs s"
  "st_programs (fold upsert_channel cs s) = st_programs s" "st_programs (fold drop_channel ks s) = st_programs s"
  "st_programs (fold upsert_sysvar vs s) = st_programs s" "st_programs (fold drop_cdp cks s) = st_programs s"
  "st_programs (fold (attach_one_cdp a) cds s) = st_programs s"
  "st_sysvars (fold (\<lambda>sm t. fst (upsert_device_summary sm t)) sms s) = st_sysvars s"
  "st_sysvars (fold upsert_channel cs s) = st_sysvars s" "st_sysvars (fold drop_channel ks s) = st_sysvars s"
  "st_sysvars (fold upsert_program ps s) = st_sysvars s" "st_sysvars (fold drop_cdp cks s) = st_sysvars s"
  "st_sysvars (fold (attach_one_cdp a) cds s) = st_sysvars s"
  "st_panels (fold (\<lambda>sm t. fst (upsert_device_summary sm t)) sms s) = st_panels s"
  "st_panels (fold upsert_channel cs s) = st_panels s" "st_panels (fold drop_channel ks s) = st_panels s"
  "st_panels (fold upsert_program ps s) = st_panels s" "st_panels (fold upsert_sysvar vs s) = st_panels s"
  "st_panels (fold drop_cdp cks s) = st_panels s" "st_panels (fold (attach_one_cdp a) cds s) = st_panels s"
  by (simp_all add: fold_unchanged [where p = st_devices] fold_unchanged [where p = st_max_devices]
      fold_unchanged [where p = st_channels] fold_unchanged [where p = st_dps] fold_unchanged [where p = st_cdps]
      fold_unchanged [where p = st_programs] fold_unchanged [where p = st_sysvars]
      fold_unchanged [where p = st_panels])

lemma panel_factory_fields [simp]:
  "st_panel_factory (fst (upsert_device_summary sm s)) = st_panel_factory s"
  "st_panel_factory (upsert_channel c s) = st_panel_factory s"
  "st_panel_factory (drop_channel k s) = st_panel_factory s"
  "st_panel_factory (upsert_program p s) = st_panel_factory s"
  "st_panel_factory (upsert_sysvar v s) = st_panel_factory s"
  "st_panel_factory (drop_cdp ck s) = st_panel_factory s"
  "st_panel_factory (attach_one_cdp a cd s) = st_panel_factory s"
  "st_panel_factory (set_central_id x s) = st_panel_factory s"
  by (simp_all add: upsert_device_summary_def upsert_channel_def drop_channel_def upsert_program_def
      upsert_sysvar_def drop_cdp_def attach_one_cdp_def register_cdp_def alloc_twins_def set_central_id_def Let_def
      split: option.splits)

lemma panel_factory_folds [simp]:
  "st_panel_factory (fold (\<lambda>sm t. fst (upsert_device_summary sm t)) sms s) = st_panel_factory s"
  "st_panel_factory (fold upsert_channel cs s) = st_panel_factory s"
  "st_panel_factory (fold drop_channel ks s) = st_panel_factory s"
  "st_panel_factory (fold upsert_program ps s) = st_panel_factory s"
  "st_panel_factory (fold upsert_sysvar vs s) = st_panel_factory s"
  "st_panel_factory (fold drop_cdp cks s) = st_panel_factory s"
  "st_panel_factory (fold (attach_one_cdp a) cds s) = st_panel_factory s"
  by (simp_all add: fold_unchanged [where p = st_panel_factory])

section \<open>What an operation leaves alone\<close>

text \<open>One lemma per operation: the registries it does not touch.\<close>

lemma on_zone_frame [simp]:
  "st_devices (on_zone z f s) = st_devices s" "st_channels (on_zone z f s) = st_channels s"
  "st_dps (on_zone z f s) = st_dps s" "st_cdps (on_zone z f s) = st_cdps s"
  "st_programs (on_zone z f s) = st_programs s" "st_sysvars (on_zone z f s) = st_sysvars s"
  "st_max_devices (on_zone z f s) = st_max_devices s"
  "st_panel_factory (on_zone z f s) = st_panel_factory s"
  by (simp_all add: on_zone_def split: option.splits)

lemma attach_one_panel_frame [simp]:
  "st_devices (attach_one_panel e s) = st_devices s" "st_channels (attach_one_panel e s) = st_channels s"
  "st_dps (attach_one_panel e s) = st_dps s" "st_cdps (attach_one_panel e s) = st_cdps s"
  "st_programs (attach_one_panel e s) = st_programs s" "st_sysvars (attach_one_panel e s) = st_sysvars s"
  "st_max_devices (attach_one_panel e s) = st_max_devices s"
  "st_panel_factory (attach_one_panel e s) = st_panel_factory s"
  by (simp_all add: attach_one_panel_def register_alarm_panel_def split: option.splits)

lemma register_alarm_panel_frame [simp]:
  "st_devices (register_alarm_panel pn s) = st_devices s"
  "st_channels (register_alarm_panel pn s) = st_channels s" "st_dps (register_alarm_panel pn s) = st_dps s"
  "st_cdps (register_alarm_panel pn s) = st_cdps s"
  "st_programs (register_alarm_panel pn s) = st_programs s"
  "st_sysvars (register_alarm_panel pn s) = st_sysvars s"
  "st_max_devices (register_alarm_panel pn s) = st_max_devices s"
  "st_panel_factory (register_alarm_panel pn s) = st_panel_factory s"
  by (simp_all add: register_alarm_panel_def)

lemma drop_alarm_panel_frame [simp]:
  "st_devices (drop_alarm_panel u s) = st_devices s" "st_channels (drop_alarm_panel u s) = st_channels s"
  "st_dps (drop_alarm_panel u s) = st_dps s" "st_cdps (drop_alarm_panel u s) = st_cdps s"
  "st_programs (drop_alarm_panel u s) = st_programs s" "st_sysvars (drop_alarm_panel u s) = st_sysvars s"
  "st_max_devices (drop_alarm_panel u s) = st_max_devices s"
  "st_panel_factory (drop_alarm_panel u s) = st_panel_factory s"
  by (simp_all add: drop_alarm_panel_def split: option.splits)

lemma categorise_program_frame [simp]:
  "st_devices (categorise_program cf pg s) = st_devices s"
  "st_channels (categorise_program cf pg s) = st_channels s"
  "st_dps (categorise_program cf pg s) = st_dps s" "st_cdps (categorise_program cf pg s) = st_cdps s"
  "st_programs (categorise_program cf pg s) = st_programs s"
  "st_sysvars (categorise_program cf pg s) = st_sysvars s"
  "st_panels (categorise_program cf pg s) = st_panels s"
  "st_max_devices (categorise_program cf pg s) = st_max_devices s"
  "st_panel_factory (categorise_program cf pg s) = st_panel_factory s"
  by (simp_all add: categorise_program_def alloc_twins_def Let_def split: option.splits)

lemma categorise_sysvar_frame [simp]:
  "st_devices (categorise_sysvar sg nm s) = st_devices s"
  "st_channels (categorise_sysvar sg nm s) = st_channels s" "st_dps (categorise_sysvar sg nm s) = st_dps s"
  "st_cdps (categorise_sysvar sg nm s) = st_cdps s"
  "st_programs (categorise_sysvar sg nm s) = st_programs s"
  "st_panels (categorise_sysvar sg nm s) = st_panels s"
  "st_max_devices (categorise_sysvar sg nm s) = st_max_devices s"
  "st_panel_factory (categorise_sysvar sg nm s) = st_panel_factory s"
  by (simp_all add: categorise_sysvar_def split: option.splits)

lemma panel_folds_frame [simp]:
  "st_devices (fold attach_one_panel es s) = st_devices s"
  "st_channels (fold attach_one_panel es s) = st_channels s"
  "st_dps (fold attach_one_panel es s) = st_dps s" "st_cdps (fold attach_one_panel es s) = st_cdps s"
  "st_programs (fold attach_one_panel es s) = st_programs s"
  "st_sysvars (fold attach_one_panel es s) = st_sysvars s"
  "st_max_devices (fold attach_one_panel es s) = st_max_devices s"
  "st_panel_factory (fold attach_one_panel es s) = st_panel_factory s"
  "st_devices (fold drop_alarm_panel us s) = st_devices s"
  "st_channels (fold drop_alarm_panel us s) = st_channels s"
  "st_dps (fold drop_alarm_panel us s) = st_dps s" "st_cdps (fold drop_alarm_panel us s) = st_cdps s"
  "st_programs (fold drop_alarm_panel us s) = st_programs s"
  "st_sysvars (fold drop_alarm_panel us s) = st_sysvars s"
  "st_max_devices (fold drop_alarm_panel us s) = st_max_devices s"
  "st_panel_factory (fold drop_alarm_panel us s) = st_panel_factory s"
  "st_devices (fold (\<lambda>x. on_zone (f x) (g x)) xs s) = st_devices s"
  "st_channels (fold (\<lambda>x. on_zone (f x) (g x)) xs s) = st_channels s"
  "st_dps (fold (\<lambda>x. on_zone (f x) (g x)) xs s) = st_dps s"
  "st_cdps (fold (\<lambda>x. on_zone (f x) (g x)) xs s) = st_cdps s"
  "st_programs (fold (\<lambda>x. on_zone (f x) (g x)) xs s) = st_programs s"
  "st_sysvars (fold (\<lambda>x. on_zone (f x) (g x)) xs s) = st_sysvars s"
  "st_max_devices (fold (\<lambda>x. on_zone (f x) (g x)) xs s) = st_max_devices s"
  "st_panel_factory (fold (\<lambda>x. on_zone (f x) (g x)) xs s) = st_panel_factory s"
  "st_devices (fold (categorise_program cf) pgs s) = st_devices s"
  "st_channels (fold (categorise_program cf) pgs s) = st_channels s"
  "st_dps (fold (categorise_program cf) pgs s) = st_dps s"
  "st_cdps (fold (categorise_program cf) pgs s) = st_cdps s"
  "st_programs (fold (categorise_program cf) pgs s) = st_programs s"
  "st_sysvars (fold (categorise_program cf) pgs s) = st_sysvars s"
  "st_panels (fold (categorise_program cf) pgs s) = st_panels s"
  "st_max_devices (fold (categorise_program cf) pgs s) = st_max_devices s"
  "st_panel_factory (fold (categorise_program cf) pgs s) = st_panel_factory s"
  "st_devices (fold (categorise_sysvar sg) nms s) = st_devices s"
  "st_channels (fold (categorise_sysvar sg) nms s) = st_channels s"
  "st_dps (fold (categorise_sysvar sg) nms s) = st_dps s"
  "st_cdps (fold (categorise_sysvar sg) nms s) = st_cdps s"
  "st_programs (fold (categorise_sysvar sg) nms s) = st_programs s"
  "st_panels (fold (categorise_sysvar sg) nms s) = st_panels s"
  "st_max_devices (fold (categorise_sysvar sg) nms s) = st_max_devices s"
  "st_panel_factory (fold (categorise_sysvar sg) nms s) = st_panel_factory s"
  by (simp_all add: fold_unchanged [where p = st_devices] fold_unchanged [where p = st_channels] fold_unchanged [where p = st_dps] fold_unchanged [where p = st_cdps] fold_unchanged [where p = st_programs] fold_unchanged [where p = st_sysvars] fold_unchanged [where p = st_panels] fold_unchanged [where p = st_max_devices] fold_unchanged [where p = st_panel_factory])

lemma load_snapshot_frame [simp]:
  "st_channels (load_snapshot sn s) = st_channels s" "st_dps (load_snapshot sn s) = st_dps s"
  "st_cdps (load_snapshot sn s) = st_cdps s" "st_panels (load_snapshot sn s) = st_panels s"
  "st_max_devices (load_snapshot sn s) = st_max_devices s"
  "st_panel_factory (load_snapshot sn s) = st_panel_factory s"
  by (simp_all add: load_snapshot_def Let_def)

lemma attach_device_detail_frame [simp]:
  "st_cdps (attach_device_detail dd s) = st_cdps s"
  "st_programs (attach_device_detail dd s) = st_programs s"
  "st_sysvars (attach_device_detail dd s) = st_sysvars s"
  "st_panels (attach_device_detail dd s) = st_panels s"
  "st_max_devices (attach_device_detail dd s) = st_max_devices s"
  "st_panel_factory (attach_device_detail dd s) = st_panel_factory s"
  by (simp_all add: attach_device_detail_def Let_def case_prod_unfold split: bool.splits)

lemma attach_channel_data_points_frame [simp]:
  "st_devices (attach_channel_data_points a c ds s) = st_devices s"
  "st_channels (attach_channel_data_points a c ds s) = st_channels s"
  "st_cdps (attach_channel_data_points a c ds s) = st_cdps s"
  "st_programs (attach_channel_data_points a c ds s) = st_programs s"
  "st_sysvars (attach_channel_data_points a c ds s) = st_sysvars s"
  "st_panels (attach_channel_data_points a c ds s) = st_panels s"
  "st_max_devices (attach_channel_data_points a c ds s) = st_max_devices s"
  "st_panel_factory (attach_channel_data_points a c ds s) = st_panel_factory s"
  by (simp_all add: attach_channel_data_points_def Let_def)

lemma attach_channel_calculated_data_points_frame [simp]:
  "st_devices (attach_channel_calculated_data_points a c ks s) = st_devices s"
  "st_channels (attach_channel_calculated_data_points a c ks s) = st_channels s"
  "st_cdps (attach_channel_calculated_data_points a c ks s) = st_cdps s"
  "st_programs (attach_channel_calculated_data_points a c ks s) = st_programs s"
  "st_sysvars (attach_channel_calculated_data_points a c ks s) = st_sysvars s"
  "st_panels (attach_channel_calculated_data_points a c ks s) = st_panels s"
  "st_max_devices (attach_channel_calculated_data_points a c ks s) = st_max_devices s"
  "st_panel_factory (attach_channel_calculated_data_points a c ks s) = st_panel_factory s"
  by (simp_all add: attach_channel_calculated_data_points_def split: option.splits)

lemma attach_custom_data_points_frame [simp]:
  "st_devices (attach_custom_data_points a cs s) = st_devices s"
  "st_channels (attach_custom_data_points a cs s) = st_channels s"
  "st_dps (attach_custom_data_points a cs s) = st_dps s"
  "st_programs (attach_custom_data_points a cs s) = st_programs s"
  "st_sysvars (attach_custom_data_points a cs s) = st_sysvars s"
  "st_panels (attach_custom_data_points a cs s) = st_panels s"
  "st_max_devices (attach_custom_data_points a cs s) = st_max_devices s"
  "st_panel_factory (attach_custom_data_points a cs s) = st_panel_factory s"
  by (simp_all add: attach_custom_data_points_def Let_def)

lemma attach_alarm_panels_frame [simp]:
  "st_devices (attach_alarm_panels es s) = st_devices s"
  "st_channels (attach_alarm_panels es s) = st_channels s" "st_dps (attach_alarm_panels es s) = st_dps s"
  "st_cdps (attach_alarm_panels es s) = st_cdps s" "st_programs (attach_alarm_panels es s) = st_programs s"
  "st_sysvars (attach_alarm_panels es s) = st_sysvars s"
  "st_max_devices (attach_alarm_panels es s) = st_max_devices s"
  "st_panel_factory (attach_alarm_panels es s) = st_panel_factory s"
  by (simp_all add: attach_alarm_panels_def Let_def)

lemma attach_alarm_zone_statuses_frame [simp]:
  "st_devices (attach_alarm_zone_statuses sts s) = st_devices s"
  "st_channels (attach_alarm_zone_statuses sts s) = st_channels s"
  "st_dps (attach_alarm_zone_statuses sts s) = st_dps s"
  "st_cdps (attach_alarm_zone_statuses sts s) = st_cdps s"
  "st_programs (attach_alarm_zone_statuses sts s) = st_programs s"
  "st_sysvars (attach_alarm_zone_statuses sts s) = st_sysvars s"
  "st_max_devices (attach_alarm_zone_statuses sts s) = st_max_devices s"
  "st_panel_factory (attach_alarm_zone_statuses sts s) = st_panel_factory s"
  by (simp_all add: attach_alarm_zone_statuses_def)

lemma attach_hub_catalogue_frame [simp]:
  "st_devices (attach_hub_catalogue vs ps s) = st_devices s"
  "st_channels (attach_hub_catalogue vs ps s) = st_channels s"
  "st_dps (attach_hub_catalogue vs ps s) = st_dps s" "st_cdps (attach_hub_catalogue vs ps s) = st_cdps s"
  "st_panels (attach_hub_catalogue vs ps s) = st_panels s"
  "st_max_devices (attach_hub_catalogue vs ps s) = st_max_devices s"
  "st_panel_factory (attach_hub_catalogue vs ps s) = st_panel_factory s"
  by (simp_all add: attach_hub_catalogue_def)

lemma apply_triggered_motion_frame [simp]:
  "st_devices (apply_triggered_motion zs s) = st_devices s"
  "st_channels (apply_triggered_motion zs s) = st_channels s"
  "st_dps (apply_triggered_motion zs s) = st_dps s" "st_cdps (apply_triggered_motion zs s) = st_cdps s"
  "st_programs (apply_triggered_motion zs s) = st_programs s"
  "st_sysvars (apply_triggered_motion zs s) = st_sysvars s"
  "st_max_devices (apply_triggered_motion zs s) = st_max_devices s"
  "st_panel_factory (apply_triggered_motion zs s) = st_panel_factory s"
  by (simp_all add: apply_triggered_motion_def)

lemma apply_alarm_panel_changed_frame [simp]:
  "st_devices (apply_alarm_panel_changed pc s) = st_devices s"
  "st_channels (apply_alarm_panel_changed pc s) = st_channels s"
  "st_dps (apply_alarm_panel_changed pc s) = st_dps s"
  "st_cdps (apply_alarm_panel_changed pc s) = st_cdps s"
  "st_programs (apply_alarm_panel_changed pc s) = st_programs s"
  "st_sysvars (apply_alarm_panel_changed pc s) = st_sysvars s"
  "st_max_devices (apply_alarm_panel_changed pc s) = st_max_devices s"
  "st_panel_factory (apply_alarm_panel_changed pc s) = st_panel_factory s"
  by (simp_all add: apply_alarm_panel_changed_def)

lemma apply_alarm_state_changed_frame [simp]:
  "st_devices (apply_alarm_state_changed z md ns s) = st_devices s"
  "st_channels (apply_alarm_state_changed z md ns s) = st_channels s"
  "st_dps (apply_alarm_state_changed z md ns s) = st_dps s"
  "st_cdps (apply_alarm_state_changed z md ns s) = st_cdps s"
  "st_programs (apply_alarm_state_changed z md ns s) = st_programs s"
  "st_sysvars (apply_alarm_state_changed z md ns s) = st_sysvars s"
  "st_max_devices (apply_alarm_state_changed z md ns s) = st_max_devices s"
  "st_panel_factory (apply_alarm_state_changed z md ns s) = st_panel_factory s"
  by (simp_all add: apply_alarm_state_changed_def)

lemma apply_alarm_countdown_frame [simp]:
  "st_devices (apply_alarm_countdown z cn s) = st_devices s"
  "st_channels (apply_alarm_countdown z cn s) = st_channels s"
  "st_dps (apply_alarm_countdown z cn s) = st_dps s" "st_cdps (apply_alarm_countdown z cn s) = st_cdps s"
  "st_programs (apply_alarm_countdown z cn s) = st_programs s"
  "st_sysvars (apply_alarm_countdown z cn s) = st_sysvars s"
  "st_max_devices (apply_alarm_countdown z cn s) = st_max_devices s"
  "st_panel_factory (apply_alarm_countdown z cn s) = st_panel_factory s"
  by (simp_all add: apply_alarm_countdown_def)

lemma apply_alarm_readiness_changed_frame [simp]:
  "st_devices (apply_alarm_readiness_changed z rd s) = st_devices s"
  "st_channels (apply_alarm_readiness_changed z rd s) = st_channels s"
  "st_dps (apply_alarm_readiness_changed z rd s) = st_dps s"
  "st_cdps (apply_alarm_readiness_changed z rd s) = st_cdps s"
  "st_programs (apply_alarm_readiness_changed z rd s) = st_programs s"
  "st_sysvars (apply_alarm_readiness_changed z rd s) = st_sysvars s"
  "st_max_devices (apply_alarm_readiness_changed z rd s) = st_max_devices s"
  "st_panel_factory (apply_alarm_readiness_changed z rd s) = st_panel_factory s"
  by (simp_all add: apply_alarm_readiness_changed_def)

lemma apply_alarm_triggered_frame [simp]:
  "st_devices (apply_alarm_triggered z ic s) = st_devices s"
  "st_channels (apply_alarm_triggered z ic s) = st_channels s"
  "st_dps (apply_alarm_triggered z ic s) = st_dps s" "st_cdps (apply_alarm_triggered z ic s) = st_cdps s"
  "st_programs (apply_alarm_triggered z ic s) = st_programs s"
  "st_sysvars (apply_alarm_triggered z ic s) = st_sysvars s"
  "st_max_devices (apply_alarm_triggered z ic s) = st_max_devices s"
  "st_panel_factory (apply_alarm_triggered z ic s) = st_panel_factory s"
  by (simp_all add: apply_alarm_triggered_def)

lemma apply_alarm_health_changed_frame [simp]:
  "st_devices (apply_alarm_health_changed b s) = st_devices s"
  "st_channels (apply_alarm_health_changed b s) = st_channels s"
  "st_dps (apply_alarm_health_changed b s) = st_dps s"
  "st_cdps (apply_alarm_health_changed b s) = st_cdps s"
  "st_programs (apply_alarm_health_changed b s) = st_programs s"
  "st_sysvars (apply_alarm_health_changed b s) = st_sysvars s"
  "st_panels (apply_alarm_health_changed b s) = st_panels s"
  "st_max_devices (apply_alarm_health_changed b s) = st_max_devices s"
  "st_panel_factory (apply_alarm_health_changed b s) = st_panel_factory s"
  by (simp_all add: apply_alarm_health_changed_def)

lemma apply_value_changed_frame [simp]:
  "st_devices (apply_value_changed vc s) = st_devices s"
  "st_channels (apply_value_changed vc s) = st_channels s" "st_cdps (apply_value_changed vc s) = st_cdps s"
  "st_programs (apply_value_changed vc s) = st_programs s"
  "st_sysvars (apply_value_changed vc s) = st_sysvars s"
  "st_panels (apply_value_changed vc s) = st_panels s"
  "st_max_devices (apply_value_changed vc s) = st_max_devices s"
  "st_panel_factory (apply_value_changed vc s) = st_panel_factory s"
  by (simp_all add: apply_value_changed_def)

lemma apply_device_created_frame [simp]:
  "st_channels (apply_device_created dc s) = st_channels s" "st_dps (apply_device_created dc s) = st_dps s"
  "st_cdps (apply_device_created dc s) = st_cdps s"
  "st_programs (apply_device_created dc s) = st_programs s"
  "st_sysvars (apply_device_created dc s) = st_sysvars s"
  "st_panels (apply_device_created dc s) = st_panels s"
  "st_max_devices (apply_device_created dc s) = st_max_devices s"
  "st_panel_factory (apply_device_created dc s) = st_panel_factory s"
  by (simp_all add: apply_device_created_def)

lemma apply_device_availability_changed_frame [simp]:
  "st_channels (apply_device_availability_changed a b s) = st_channels s"
  "st_dps (apply_device_availability_changed a b s) = st_dps s"
  "st_cdps (apply_device_availability_changed a b s) = st_cdps s"
  "st_programs (apply_device_availability_changed a b s) = st_programs s"
  "st_sysvars (apply_device_availability_changed a b s) = st_sysvars s"
  "st_panels (apply_device_availability_changed a b s) = st_panels s"
  "st_max_devices (apply_device_availability_changed a b s) = st_max_devices s"
  "st_panel_factory (apply_device_availability_changed a b s) = st_panel_factory s"
  by (simp_all add: apply_device_availability_changed_def)

lemma apply_device_refreshed_frame [simp]:
  "st_channels (apply_device_refreshed a t s) = st_channels s"
  "st_dps (apply_device_refreshed a t s) = st_dps s" "st_cdps (apply_device_refreshed a t s) = st_cdps s"
  "st_programs (apply_device_refreshed a t s) = st_programs s"
  "st_sysvars (apply_device_refreshed a t s) = st_sysvars s"
  "st_panels (apply_device_refreshed a t s) = st_panels s"
  "st_max_devices (apply_device_refreshed a t s) = st_max_devices s"
  "st_panel_factory (apply_device_refreshed a t s) = st_panel_factory s"
  by (simp_all add: apply_device_refreshed_def)

lemma apply_device_removed_frame [simp]:
  "st_programs (apply_device_removed a s) = st_programs s"
  "st_sysvars (apply_device_removed a s) = st_sysvars s"
  "st_panels (apply_device_removed a s) = st_panels s"
  "st_max_devices (apply_device_removed a s) = st_max_devices s"
  "st_panel_factory (apply_device_removed a s) = st_panel_factory s"
  by (simp_all add: apply_device_removed_def Let_def)

lemma apply_sysvar_changed_frame [simp]:
  "st_devices (apply_sysvar_changed n v ch d s) = st_devices s"
  "st_channels (apply_sysvar_changed n v ch d s) = st_channels s"
  "st_dps (apply_sysvar_changed n v ch d s) = st_dps s"
  "st_cdps (apply_sysvar_changed n v ch d s) = st_cdps s"
  "st_programs (apply_sysvar_changed n v ch d s) = st_programs s"
  "st_panels (apply_sysvar_changed n v ch d s) = st_panels s"
  "st_max_devices (apply_sysvar_changed n v ch d s) = st_max_devices s"
  "st_panel_factory (apply_sysvar_changed n v ch d s) = st_panel_factory s"
  by (simp_all add: apply_sysvar_changed_def)

lemma apply_program_executed_frame [simp]:
  "st_devices (apply_program_executed i ch d s) = st_devices s"
  "st_channels (apply_program_executed i ch d s) = st_channels s"
  "st_dps (apply_program_executed i ch d s) = st_dps s"
  "st_cdps (apply_program_executed i ch d s) = st_cdps s"
  "st_sysvars (apply_program_executed i ch d s) = st_sysvars s"
  "st_panels (apply_program_executed i ch d s) = st_panels s"
  "st_max_devices (apply_program_executed i ch d s) = st_max_devices s"
  "st_panel_factory (apply_program_executed i ch d s) = st_panel_factory s"
  by (simp_all add: apply_program_executed_def Let_def split: option.splits)

lemma apply_program_changed_frame [simp]:
  "st_devices (apply_program_changed i x y ch d s) = st_devices s"
  "st_channels (apply_program_changed i x y ch d s) = st_channels s"
  "st_dps (apply_program_changed i x y ch d s) = st_dps s"
  "st_cdps (apply_program_changed i x y ch d s) = st_cdps s"
  "st_sysvars (apply_program_changed i x y ch d s) = st_sysvars s"
  "st_panels (apply_program_changed i x y ch d s) = st_panels s"
  "st_max_devices (apply_program_changed i x y ch d s) = st_max_devices s"
  "st_panel_factory (apply_program_changed i x y ch d s) = st_panel_factory s"
  by (simp_all add: apply_program_changed_def Let_def split: option.splits)

lemma apply_cdp_state_changed_frame [simp]:
  "st_devices (apply_cdp_state_changed a n st s) = st_devices s"
  "st_channels (apply_cdp_state_changed a n st s) = st_channels s"
  "st_dps (apply_cdp_state_changed a n st s) = st_dps s"
  "st_programs (apply_cdp_state_changed a n st s) = st_programs s"
  "st_sysvars (apply_cdp_state_changed a n st s) = st_sysvars s"
  "st_panels (apply_cdp_state_changed a n st s) = st_panels s"
  "st_max_devices (apply_cdp_state_changed a n st s) = st_max_devices s"
  "st_panel_factory (apply_cdp_state_changed a n st s) = st_panel_factory s"
  by (simp_all add: apply_cdp_state_changed_def)

lemma set_week_profile_frame [simp]:
  "st_devices (set_week_profile a wp k s) = st_devices s"
  "st_channels (set_week_profile a wp k s) = st_channels s" "st_dps (set_week_profile a wp k s) = st_dps s"
  "st_cdps (set_week_profile a wp k s) = st_cdps s"
  "st_programs (set_week_profile a wp k s) = st_programs s"
  "st_sysvars (set_week_profile a wp k s) = st_sysvars s"
  "st_panels (set_week_profile a wp k s) = st_panels s"
  "st_max_devices (set_week_profile a wp k s) = st_max_devices s"
  "st_panel_factory (set_week_profile a wp k s) = st_panel_factory s"
  by (simp_all add: set_week_profile_def)

lemma refresh_cdp_end_frame [simp]:
  "st_devices (refresh_cdp_end a n g so s) = st_devices s"
  "st_channels (refresh_cdp_end a n g so s) = st_channels s"
  "st_dps (refresh_cdp_end a n g so s) = st_dps s"
  "st_programs (refresh_cdp_end a n g so s) = st_programs s"
  "st_sysvars (refresh_cdp_end a n g so s) = st_sysvars s"
  "st_panels (refresh_cdp_end a n g so s) = st_panels s"
  "st_max_devices (refresh_cdp_end a n g so s) = st_max_devices s"
  "st_panel_factory (refresh_cdp_end a n g so s) = st_panel_factory s"
  by (simp_all add: refresh_cdp_end_def split: option.splits)

lemma refresh_dp_end_frame [simp]:
  "st_devices (refresh_dp_end k sm s) = st_devices s" "st_channels (refresh_dp_end k sm s) = st_channels s"
  "st_cdps (refresh_dp_end k sm s) = st_cdps s" "st_programs (refresh_dp_end k sm s) = st_programs s"
  "st_sysvars (refresh_dp_end k sm s) = st_sysvars s" "st_panels (refresh_dp_end k sm s) = st_panels s"
  "st_max_devices (refresh_dp_end k sm s) = st_max_devices s"
  "st_panel_factory (refresh_dp_end k sm s) = st_panel_factory s"
  by (simp_all add: refresh_dp_end_def)

lemma refresh_calculated_end_frame [simp]:
  "st_devices (refresh_calculated_end k cm s) = st_devices s"
  "st_channels (refresh_calculated_end k cm s) = st_channels s"
  "st_cdps (refresh_calculated_end k cm s) = st_cdps s"
  "st_programs (refresh_calculated_end k cm s) = st_programs s"
  "st_sysvars (refresh_calculated_end k cm s) = st_sysvars s"
  "st_panels (refresh_calculated_end k cm s) = st_panels s"
  "st_max_devices (refresh_calculated_end k cm s) = st_max_devices s"
  "st_panel_factory (refresh_calculated_end k cm s) = st_panel_factory s"
  by (simp_all add: refresh_calculated_end_def)

lemma set_hub_data_point_factories_frame [simp]:
  "st_devices (set_hub_data_point_factories pf sf s) = st_devices s"
  "st_channels (set_hub_data_point_factories pf sf s) = st_channels s"
  "st_dps (set_hub_data_point_factories pf sf s) = st_dps s"
  "st_cdps (set_hub_data_point_factories pf sf s) = st_cdps s"
  "st_programs (set_hub_data_point_factories pf sf s) = st_programs s"
  "st_panels (set_hub_data_point_factories pf sf s) = st_panels s"
  "st_max_devices (set_hub_data_point_factories pf sf s) = st_max_devices s"
  "st_panel_factory (set_hub_data_point_factories pf sf s) = st_panel_factory s"
  by (simp_all add: set_hub_data_point_factories_def Let_def split: option.splits)


section \<open>Each registry evolves\<close>

lemma upsert_device_grows: "reg_grows (st_devices s) (st_devices (fst (upsert_device_summary sm s)))"
  by (auto simp: upsert_device_summary_def reg_grows_insert)

lemma snapshot_devices_grow:
  "reg_grows (st_devices s) (st_devices (fold (\<lambda>sm t. fst (upsert_device_summary sm t)) sms s))"
  by (rule fold_grows) (rule upsert_device_grows)

lemma load_snapshot_devices:
  "st_devices (load_snapshot sn s) =
     st_devices (fold (\<lambda>sm t. fst (upsert_device_summary sm t)) (sn_devices sn)
       (if st_central_id s = '''' then set_central_id (infer_central_id s sn) s else s))"
  by (simp add: load_snapshot_def Let_def)

lemma attach_detail_devices:
  "st_devices (attach_device_detail dd s) =
     (let r = upsert_device_summary (dd_summary dd) s
      in if snd r then reg_modify (ds_address (dd_summary dd))
                         (attach_detail (ds_firmware (dd_summary dd)) (ds_availability (dd_summary dd)))
                         (st_devices (fst r))
         else st_devices (fst r))"
  by (simp add: attach_device_detail_def Let_def case_prod_unfold split: bool.splits)

definition removes_device :: "store_op \<Rightarrow> bool" where
  "removes_device p = (case p of DeviceRemoved a \<Rightarrow> True | _ \<Rightarrow> False)"

lemma devices_grow: "\<not> removes_device p \<Longrightarrow> reg_grows (st_devices s) (st_devices (apply_op p s))"
proof (cases p)
  case (LoadSnapshot sn)
  have "reg_grows (st_devices s) (st_devices (load_snapshot sn s))"
    unfolding load_snapshot_devices
    by (rule reg_grows_trans [OF _ snapshot_devices_grow]) simp
  then show ?thesis using LoadSnapshot by simp
next
  case (AttachDetail dd)
  have "reg_grows (st_devices s) (st_devices (attach_device_detail dd s))"
    unfolding attach_detail_devices Let_def
    using reg_grows_trans [OF upsert_device_grows reg_grows_modify] upsert_device_grows by simp
  then show ?thesis using AttachDetail by simp
next
  case (DeviceCreated dc)
  then show ?thesis by (simp add: apply_device_created_def reg_grows_insert)
qed (simp_all add: removes_device_def apply_device_availability_changed_def apply_device_refreshed_def)

lemma devices_evolve: "reg_evolves (st_devices s) (st_devices (apply_op p s))"
proof (cases "removes_device p")
  case True
  then show ?thesis
    by (cases p) (simp_all add: removes_device_def apply_device_removed_def Let_def reg_shrinks_evolves)
qed (rule reg_grows_evolves [OF devices_grow])

lemma upsert_channel_grows: "reg_grows (st_channels s) (st_channels (upsert_channel c s))"
  by (simp add: upsert_channel_def)

lemma drop_channel_shrinks:
  "reg_shrinks (st_channels s) (st_channels (drop_channel k s))" "reg_shrinks (st_dps s) (st_dps (drop_channel k s))"
  by (simp_all add: drop_channel_def Let_def)

text \<open>A detail attach either refuses the device or upserts the channels and drops the vanished ones.\<close>

lemma attach_detail_attached:
  assumes "snd (upsert_device_summary (dd_summary dd) s)"
  obtains t where
      "attach_device_detail dd s = fold drop_channel
         (filter (\<lambda>k. fst k = ds_address (dd_summary dd) \<and> snd k \<notin> cs_number ` set (dd_channels dd))
            (reg_keys (st_channels (fold upsert_channel (dd_channels dd) t))))
         (fold upsert_channel (dd_channels dd) t)"
      "st_channels t = st_channels s" "st_dps t = st_dps s" "st_calc_keys t = st_calc_keys s"
proof -
  have calc: "st_calc_keys (fst (upsert_device_summary (dd_summary dd) s)) = st_calc_keys s"
    by (simp add: upsert_device_summary_def)
  let ?u = "fst (upsert_device_summary (dd_summary dd) s)"
  show ?thesis
    by (rule that [where t = "?u\<lparr>st_devices := reg_modify (ds_address (dd_summary dd))
              (attach_detail (ds_firmware (dd_summary dd)) (ds_availability (dd_summary dd))) (st_devices ?u)\<rparr>"])
      (use assms calc in \<open>simp_all add: attach_device_detail_def Let_def case_prod_unfold\<close>)
qed

lemma attach_detail_cases:
  obtains (refused) "attach_device_detail dd s = fst (upsert_device_summary (dd_summary dd) s)"
  | (attached) ks t where
      "attach_device_detail dd s = fold drop_channel ks (fold upsert_channel (dd_channels dd) t)"
      "st_channels t = st_channels s" "st_dps t = st_dps s"
proof (cases "snd (upsert_device_summary (dd_summary dd) s)")
  case True
  then show ?thesis by (rule attach_detail_attached) (rule attached)
next
  case False
  then show ?thesis
    by (intro refused) (simp add: attach_device_detail_def Let_def case_prod_unfold)
qed

lemma drop_channels_shrink:
  "reg_shrinks (st_channels t) (st_channels (fold drop_channel ks t))"
  "reg_shrinks (st_dps t) (st_dps (fold drop_channel ks t))"
  by (rule fold_shrinks, rule drop_channel_shrinks)+

lemma upsert_channels_grow: "reg_grows (st_channels t) (st_channels (fold upsert_channel cs t))"
  by (rule fold_grows) (rule upsert_channel_grows)

lemma channels_evolve: "reg_evolves (st_channels s) (st_channels (apply_op p s))"
proof (cases p)
  case (AttachDetail dd)
  have "reg_evolves (st_channels s) (st_channels (attach_device_detail dd s))"
  proof (cases rule: attach_detail_cases [of dd s])
    case refused
    then show ?thesis by simp
  next
    case (attached ks t)
    then show ?thesis
      using grow_then_shrink [OF upsert_channels_grow drop_channels_shrink(1)] by metis
  qed
  then show ?thesis using AttachDetail by simp
next
  case (DeviceRemoved a)
  then show ?thesis
    using reg_shrinks_evolves [OF drop_channels_shrink(1) [of "s\<lparr>st_devices := reg_delete a (st_devices s)\<rparr>"]]
    by (simp add: apply_device_removed_def Let_def)
qed simp_all

lemma fold_upsert_ref:
  "reg_ref (fold (\<lambda>d. reg_upsert (key d) (new d) (upd d)) ds r) k = None \<longleftrightarrow>
     reg_ref r k = None \<and> k \<notin> key ` set ds"
  by (induction ds arbitrary: r) auto

definition rebuilds :: "store_op \<Rightarrow> bool" where
  "rebuilds p = (case p of AttachCalculated a c cs \<Rightarrow> True | SetHubFactories pf sf \<Rightarrow> True | _ \<Rightarrow> False)"

lemma dps_evolve: "\<not> rebuilds p \<Longrightarrow> reg_evolves (st_dps s) (st_dps (apply_op p s))"
proof (cases p)
  case (AttachDataPoints addr ch ds)
  define stale where "stale = (\<lambda>k. fst k = addr \<and> fst (snd k) = ch
      \<and> k \<notin> (\<lambda>d. (addr, ch, dp_parameter d)) ` set ds \<and> k \<notin> st_calc_keys s)"
  define r where "r = reg_delete_where stale (st_dps s)"
  have eq: "st_dps (attach_channel_data_points addr ch ds s) =
      fold (\<lambda>d. reg_upsert (addr, ch, dp_parameter d)
                  (build_data_point (s\<lparr>st_dps := r\<rparr>) d addr ch) (replace_dp_summary d)) ds r"
    by (simp add: attach_channel_data_points_def Let_def stale_def r_def build_data_point_def)
  have "reg_evolves (st_dps s) (st_dps (attach_channel_data_points addr ch ds s))"
    unfolding eq
  proof (rule shrink_then_grow)
    show "reg_shrinks (st_dps s) r" by (simp add: r_def)
    show "reg_grows r (fold (\<lambda>d. reg_upsert (addr, ch, dp_parameter d)
             (build_data_point (s\<lparr>st_dps := r\<rparr>) d addr ch) (replace_dp_summary d)) ds r)"
      by (rule fold_grows [where p = "\<lambda>x. x"]) simp
  qed (auto simp: fold_upsert_ref r_def stale_def split: if_splits)
  then show ?thesis using AttachDataPoints by simp
next
  case (AttachDetail dd)
  have "reg_evolves (st_dps s) (st_dps (attach_device_detail dd s))"
  proof (cases rule: attach_detail_cases [of dd s])
    case refused
    then show ?thesis by simp
  next
    case (attached ks t)
    then show ?thesis
      using reg_shrinks_evolves [OF drop_channels_shrink(2) [of "fold upsert_channel (dd_channels dd) t" ks]]
      by simp
  qed
  then show ?thesis using AttachDetail by simp
next
  case (DeviceRemoved a)
  then show ?thesis
    using reg_shrinks_evolves [OF drop_channels_shrink(2) [of "s\<lparr>st_devices := reg_delete a (st_devices s)\<rparr>"]]
    by (simp add: apply_device_removed_def Let_def)
qed (simp_all add: rebuilds_def apply_value_changed_def refresh_dp_end_def refresh_calculated_end_def reg_grows_evolves)

lemma drop_cdp_shrinks: "reg_shrinks (st_cdps s) (st_cdps (drop_cdp k s))"
  by (simp add: drop_cdp_def split: option.splits)

lemma attach_one_cdp_grows: "reg_grows (st_cdps s) (st_cdps (attach_one_cdp a c s))"
  by (simp add: attach_one_cdp_def register_cdp_def reg_grows_insert split: option.splits)

lemma drop_cdps_ref:
  "reg_ref (st_cdps (fold drop_cdp ks s)) k = (if k \<in> set ks then None else reg_ref (st_cdps s) k)"
proof (induction ks arbitrary: s)
  case Nil
  then show ?case by simp
next
  case (Cons q ks)
  have "reg_ref (st_cdps (drop_cdp q s)) k = (if k = q then None else reg_ref (st_cdps s) k)"
    by (auto simp: drop_cdp_def split: option.splits)
  then show ?case using Cons.IH [of "drop_cdp q s"] by auto
qed

lemma attach_cdps_ref:
  "reg_ref (st_cdps (fold (attach_one_cdp a) cs s)) k = None \<longleftrightarrow>
     reg_ref (st_cdps s) k = None \<and> k \<notin> (\<lambda>c. (a, cd_name c)) ` set cs"
proof (induction cs arbitrary: s)
  case Nil
  then show ?case by simp
next
  case (Cons c cs)
  have "reg_ref (st_cdps (attach_one_cdp a c s)) k = None \<longleftrightarrow> reg_ref (st_cdps s) k = None \<and> k \<noteq> (a, cd_name c)"
    by (auto simp: attach_one_cdp_def register_cdp_def split: option.splits)
  then show ?case using Cons.IH [of "attach_one_cdp a c s"] by auto
qed

lemma cdps_evolve: "reg_evolves (st_cdps s) (st_cdps (apply_op p s))"
proof (cases p)
  case (AttachCdps a cs)
  let ?ks = "filter (\<lambda>k. fst k = a \<and> k \<notin> (\<lambda>c. (a, cd_name c)) ` set cs) (reg_keys (st_cdps s))"
  have "reg_evolves (st_cdps s) (st_cdps (fold (attach_one_cdp a) cs (fold drop_cdp ?ks s)))"
  proof (rule shrink_then_grow)
    show "reg_shrinks (st_cdps s) (st_cdps (fold drop_cdp ?ks s))"
      by (rule fold_shrinks) (rule drop_cdp_shrinks)
    show "reg_grows (st_cdps (fold drop_cdp ?ks s)) (st_cdps (fold (attach_one_cdp a) cs (fold drop_cdp ?ks s)))"
      by (rule fold_grows) (rule attach_one_cdp_grows)
  qed (auto simp: attach_cdps_ref drop_cdps_ref split: if_splits)
  then show ?thesis using AttachCdps by (simp add: attach_custom_data_points_def Let_def)
next
  case (DeviceRemoved a)
  let ?s1 = "s\<lparr>st_devices := reg_delete a (st_devices s)\<rparr>"
  define t where "t = fold drop_channel (filter (\<lambda>k. fst k = a) (reg_keys (st_channels s))) ?s1"
  have "st_cdps t = st_cdps s" by (simp add: t_def)
  moreover have "reg_shrinks (st_cdps t) (st_cdps (fold drop_cdp ks t))" for ks
    by (rule fold_shrinks) (rule drop_cdp_shrinks)
  ultimately show ?thesis
    using DeviceRemoved by (simp add: apply_device_removed_def Let_def t_def [symmetric] reg_shrinks_evolves)
qed (simp_all add: apply_cdp_state_changed_def refresh_cdp_end_def reg_grows_evolves split: option.splits)

lemma upsert_program_grows: "reg_grows (st_programs s) (st_programs (upsert_program sm s))"
  by (simp add: upsert_program_def Let_def reg_grows_insert split: option.splits)

lemma upsert_programs_grow: "reg_grows (st_programs s) (st_programs (fold upsert_program ps s))"
  by (rule fold_grows) (rule upsert_program_grows)

lemma upsert_sysvar_grows: "reg_grows (st_sysvars s) (st_sysvars (upsert_sysvar v s))"
  by (simp add: upsert_sysvar_def)

lemma upsert_sysvars_grow: "reg_grows (st_sysvars s) (st_sysvars (fold upsert_sysvar vs s))"
  by (rule fold_grows) (rule upsert_sysvar_grows)

lemma load_snapshot_hub:
  "reg_grows (st_programs s) (st_programs (load_snapshot sn s))"
  "reg_grows (st_sysvars s) (st_sysvars (load_snapshot sn s))"
proof -
  define t where "t = fold (\<lambda>sm t. fst (upsert_device_summary sm t)) (sn_devices sn)
    (if st_central_id s = '''' then set_central_id (infer_central_id s sn) s else s)"
  have t: "st_programs t = st_programs s" "st_sysvars t = st_sysvars s" by (simp_all add: t_def)
  define u where "u = fold upsert_program (case sn_programs sn of None \<Rightarrow> [] | Some ps \<Rightarrow> ps) t"
  have u: "st_sysvars u = st_sysvars s" using t by (simp add: u_def)
  have l: "load_snapshot sn s = fold upsert_sysvar (case sn_sysvars sn of None \<Rightarrow> [] | Some vs \<Rightarrow> vs) u"
    by (simp add: load_snapshot_def Let_def t_def u_def)
  show "reg_grows (st_programs s) (st_programs (load_snapshot sn s))"
    using upsert_programs_grow [of t] t by (simp add: l u_def)
  show "reg_grows (st_sysvars s) (st_sysvars (load_snapshot sn s))"
    using upsert_sysvars_grow [of u] u by (simp add: l)
qed

lemma programs_evolve: "reg_evolves (st_programs s) (st_programs (apply_op p s))"
proof (cases p)
  case (AttachHub vs ps)
  then show ?thesis
    using upsert_programs_grow [of "fold upsert_sysvar (case vs of None \<Rightarrow> [] | Some vs \<Rightarrow> vs) s"]
    by (simp add: attach_hub_catalogue_def reg_grows_evolves)
next
  case (ProgramExecuted i c d)
  then show ?thesis
    by (simp add: apply_program_executed_def Let_def reg_grows_evolves upsert_program_grows split: option.splits)
next
  case (ProgramChanged i x y c d)
  then show ?thesis
    by (simp add: apply_program_changed_def Let_def reg_grows_evolves upsert_program_grows split: option.splits)
qed (simp_all add: reg_grows_evolves load_snapshot_hub)

lemma sysvars_evolve: "\<not> rebuilds p \<Longrightarrow> reg_evolves (st_sysvars s) (st_sysvars (apply_op p s))"
proof (cases p)
  case (AttachHub vs ps)
  then show ?thesis
    using upsert_sysvars_grow by (simp add: attach_hub_catalogue_def reg_grows_evolves)
qed (simp_all add: reg_grows_evolves load_snapshot_hub rebuilds_def apply_sysvar_changed_def)

section \<open>Alarm panels\<close>

lemma drop_panel_shrinks: "reg_shrinks (st_panels s) (st_panels (drop_alarm_panel u s))"
  by (simp add: drop_alarm_panel_def split: option.splits)

text \<open>A panel factory keeps the unique id of the entity it wraps.\<close>

definition panel_factory_ok :: "store \<Rightarrow> bool" where
  "panel_factory_ok s \<longleftrightarrow>
     (\<forall>f e. st_panel_factory s = Some f \<longrightarrow> pe_unique_id (pa_summary (f e)) = pe_unique_id e)"

lemma built_panel_id: "panel_factory_ok s \<Longrightarrow> pe_unique_id (pa_summary (build_alarm_panel s e)) = pe_unique_id e"
  by (auto simp: build_alarm_panel_def panel_factory_ok_def new_panel_def split: option.splits)

lemma attach_one_panel_grows:
  "panel_factory_ok s \<Longrightarrow> reg_grows (st_panels s) (st_panels (attach_one_panel e s))"
  by (simp add: attach_one_panel_def register_alarm_panel_def built_panel_id reg_grows_insert split: option.splits)

lemma panel_factory_frame [simp]:
  "panel_factory_ok (attach_one_panel e s) = panel_factory_ok s"
  "panel_factory_ok (drop_alarm_panel u s) = panel_factory_ok s"
  by (simp_all add: panel_factory_ok_def attach_one_panel_def register_alarm_panel_def drop_alarm_panel_def
      split: option.splits)

lemma drop_panels_ref:
  "reg_ref (st_panels (fold drop_alarm_panel us s)) k = (if k \<in> set us then None else reg_ref (st_panels s) k)"
proof (induction us arbitrary: s)
  case Nil
  then show ?case by simp
next
  case (Cons u us)
  have "reg_ref (st_panels (drop_alarm_panel u s)) k = (if k = u then None else reg_ref (st_panels s) k)"
    by (auto simp: drop_alarm_panel_def split: option.splits)
  then show ?case using Cons.IH [of "drop_alarm_panel u s"] by auto
qed

lemma attach_panels_grow:
  "panel_factory_ok s \<Longrightarrow> reg_grows (st_panels s) (st_panels (fold attach_one_panel es s))
    \<and> (\<forall>k. reg_ref (st_panels (fold attach_one_panel es s)) k = None \<longleftrightarrow>
           reg_ref (st_panels s) k = None \<and> k \<notin> pe_unique_id ` set es)"
proof (induction es arbitrary: s)
  case Nil
  then show ?case by simp
next
  case (Cons e es)
  have "reg_ref (st_panels (attach_one_panel e s)) k = None \<longleftrightarrow> reg_ref (st_panels s) k = None \<and> k \<noteq> pe_unique_id e"
    for k using Cons.prems
    by (auto simp: attach_one_panel_def register_alarm_panel_def built_panel_id split: option.splits)
  then show ?case
    using Cons.IH [of "attach_one_panel e s"] attach_one_panel_grows [OF Cons.prems, of e] Cons.prems
    by (auto intro: reg_grows_trans)
qed

lemma on_zone_grows: "reg_grows (st_panels s) (st_panels (on_zone z f s))"
  by (auto simp: on_zone_def reg_grows_def reg_ok_def reg_ref_def split: option.splits)

lemma panels_evolve: "panel_factory_ok s \<Longrightarrow> reg_evolves (st_panels s) (st_panels (apply_op p s))"
proof (cases p)
  case (AttachPanels es)
  assume ok: "panel_factory_ok s"
  let ?us = "filter (\<lambda>uid. uid \<notin> pe_unique_id ` set es) (reg_keys (st_panels s))"
  have ok': "panel_factory_ok (fold drop_alarm_panel us t) = panel_factory_ok t" for us t
    by (rule fold_unchanged) simp
  have "reg_evolves (st_panels s) (st_panels (fold attach_one_panel es (fold drop_alarm_panel ?us s)))"
  proof (rule shrink_then_grow)
    show "reg_shrinks (st_panels s) (st_panels (fold drop_alarm_panel ?us s))"
      by (rule fold_shrinks) (rule drop_panel_shrinks)
  qed (use attach_panels_grow [of "fold drop_alarm_panel ?us s" es] ok ok' in
      \<open>auto simp: drop_panels_ref split: if_splits\<close>)
  then show ?thesis using AttachPanels by (simp add: attach_alarm_panels_def Let_def)
next
  case (AttachZoneStatuses sts)
  have "reg_grows (st_panels s) (st_panels (attach_alarm_zone_statuses sts s))"
    unfolding attach_alarm_zone_statuses_def by (rule fold_grows) (rule on_zone_grows)
  then show ?thesis using AttachZoneStatuses by (simp add: reg_grows_evolves)
next
  case (TriggeredMotion zs)
  have "reg_grows r (fold (\<lambda>uid. reg_modify uid (f uid)) us r)" for f us and r :: "(string, panel_obj) registry"
    by (rule fold_grows [where p = "\<lambda>x. x"]) simp
  then show ?thesis using TriggeredMotion by (simp add: apply_triggered_motion_def reg_grows_evolves)
next
  case (PanelChanged pc)
  assume ok: "panel_factory_ok s"
  then show ?thesis
    using PanelChanged reg_shrinks_evolves [OF drop_panel_shrinks] built_panel_id [OF ok, of "stub_panel pc"]
    by (simp add: apply_alarm_panel_changed_def register_alarm_panel_def reg_grows_evolves reg_grows_insert
        stub_panel_def)
qed (simp_all add: apply_alarm_state_changed_def apply_alarm_countdown_def apply_alarm_readiness_changed_def
    apply_alarm_triggered_def on_zone_grows reg_grows_evolves)

section \<open>The contract, registry by registry\<close>

lemma panel_factory_op [simp]: "st_panel_factory (apply_op p s) = st_panel_factory s"
  by (cases p) simp_all

lemma max_devices_op [simp]: "st_max_devices (apply_op p s) = st_max_devices s"
  by (cases p) simp_all

lemma store_step_simps [simp]: "fst (store_step p s) = apply_op p s" "snd (store_step p s) = []"
  by (simp_all add: store_step_def)

abbreviation store_run :: "store_op list \<Rightarrow> store \<Rightarrow> store" where
  "store_run ps s \<equiv> fst (exec store_step ps s)"

lemma evolves_ok: "reg_evolves r r' \<Longrightarrow> reg_ok r \<Longrightarrow> reg_ok r'"
  by (simp add: reg_evolves_def)

lemma evolves_new:
  "reg_evolves r r' \<Longrightarrow> hands_out_new (reg_ref r) (length (reg_heap r)) (reg_ref r') (length (reg_heap r'))"
  by (simp add: reg_evolves_def keeps_hands_out)

lemma evolves_keeps:
  "reg_evolves r r' \<Longrightarrow> reg_ref r k = Some i \<Longrightarrow> reg_ref r' k \<noteq> None \<Longrightarrow> reg_ref r' k = Some i"
  unfolding reg_evolves_def keeps_identities_def by (metis option.distinct(1))

interpretation live_devices: live_registry store_step "\<lambda>s. reg_ok (st_devices s)"
  "\<lambda>s. reg_ref (st_devices s)" "\<lambda>s. length (reg_heap (st_devices s))" "\<lambda>k p. True"
  by unfold_locales (auto intro: evolves_ok [OF devices_evolve] evolves_new [OF devices_evolve]
      dest: evolves_keeps [OF devices_evolve])

interpretation live_channels: live_registry store_step "\<lambda>s. reg_ok (st_channels s)"
  "\<lambda>s. reg_ref (st_channels s)" "\<lambda>s. length (reg_heap (st_channels s))" "\<lambda>k p. True"
  by unfold_locales (auto intro: evolves_ok [OF channels_evolve] evolves_new [OF channels_evolve]
      dest: evolves_keeps [OF channels_evolve])

interpretation live_cdps: live_registry store_step "\<lambda>s. reg_ok (st_cdps s)"
  "\<lambda>s. reg_ref (st_cdps s)" "\<lambda>s. length (reg_heap (st_cdps s))" "\<lambda>k p. True"
  by unfold_locales (auto intro: evolves_ok [OF cdps_evolve] evolves_new [OF cdps_evolve]
      dest: evolves_keeps [OF cdps_evolve])

interpretation live_programs: live_registry store_step "\<lambda>s. reg_ok (st_programs s)"
  "\<lambda>s. reg_ref (st_programs s)" "\<lambda>s. length (reg_heap (st_programs s))" "\<lambda>k p. True"
  by unfold_locales (auto intro: evolves_ok [OF programs_evolve] evolves_new [OF programs_evolve]
      dest: evolves_keeps [OF programs_evolve])

text \<open>
  Two operations put a new object under a key that has one: attaching calculated data points, under
  each name it attaches, and the installation of a factory for system variables. The data points and system
  variables keep their identities under every other operation; these two still hand out new ones only
  and keep the registries well formed.
\<close>

definition replaces_dp :: "string \<times> int \<times> string \<Rightarrow> store_op \<Rightarrow> bool" where
  "replaces_dp k p = (case p of AttachCalculated a c cs \<Rightarrow> k \<in> (\<lambda>x. (a, c, ca_name x)) ` set cs | _ \<Rightarrow> False)"

definition replaces_sysvar :: "store_op \<Rightarrow> bool" where
  "replaces_sysvar p = (case p of SetHubFactories pf sf \<Rightarrow> sf \<noteq> None | _ \<Rightarrow> False)"

lemma fold_insert_ok: "reg_ok r \<Longrightarrow> reg_ok (fold (\<lambda>c. reg_insert (key c) (new c)) cs r)"
  by (induction cs arbitrary: r) auto

lemma insert_new:
  "hands_out_new (reg_ref r) (length (reg_heap r)) (reg_ref (reg_insert k x r)) (length (reg_heap (reg_insert k x r)))"
  by (simp add: hands_out_new_def reg_insert_def reg_ref_def)

lemmas insert_new_Suc = insert_new [simplified]

lemma fold_insert_new:
  "hands_out_new (reg_ref r) (length (reg_heap r)) (reg_ref (fold (\<lambda>c. reg_insert (key c) (new c)) cs r))
     (length (reg_heap (fold (\<lambda>c. reg_insert (key c) (new c)) cs r)))"
proof (induction cs arbitrary: r)
  case (Cons c cs)
  show ?case using hands_out_trans [OF insert_new Cons.IH] by simp
qed (simp add: hands_out_new_def)

lemma fold_insert_other:
  "k \<notin> key ` set cs \<Longrightarrow> reg_ref (fold (\<lambda>c. reg_insert (key c) (new c)) cs r) k = reg_ref r k"
  by (induction cs arbitrary: r) auto

lemma fold_insert_in:
  "k \<in> key ` set cs \<Longrightarrow>
     \<exists>j. reg_ref (fold (\<lambda>c. reg_insert (key c) (new c)) cs r) k = Some j \<and> length (reg_heap r) \<le> j"
proof (induction cs arbitrary: r)
  case (Cons c cs)
  let ?r = "reg_insert (key c) (new c) r"
  have len: "length (reg_heap ?r) = Suc (length (reg_heap r))" by (simp add: reg_insert_def)
  show ?case
  proof (cases "k \<in> key ` set cs")
    case True
    then show ?thesis using Cons.IH [OF True, of ?r] len by auto
  next
    case False
    with Cons.prems have "k = key c" by auto
    with False show ?thesis by (simp add: fold_insert_other)
  qed
qed simp

lemma dps_op:
  "(reg_ok (st_dps s) \<longrightarrow> reg_ok (st_dps (apply_op p s)))
   \<and> hands_out_new (reg_ref (st_dps s)) (length (reg_heap (st_dps s))) (reg_ref (st_dps (apply_op p s)))
        (length (reg_heap (st_dps (apply_op p s))))
   \<and> (\<not> replaces_dp k p \<longrightarrow> reg_ref (st_dps s) k = Some i \<longrightarrow> reg_ref (st_dps (apply_op p s)) k \<noteq> None
        \<longrightarrow> reg_ref (st_dps (apply_op p s)) k = Some i)"
proof (cases "rebuilds p")
  case False
  note e = dps_evolve [OF this, of s]
  show ?thesis using evolves_ok [OF e] evolves_new [OF e] evolves_keeps [OF e] by blast
next
  case True
  then show ?thesis
    by (cases p) (auto simp: rebuilds_def replaces_dp_def attach_channel_calculated_data_points_def fold_insert_ok
        fold_insert_new fold_insert_other hands_out_new_def [of f n f n for f n] split: option.splits)
qed

lemma categorise_sysvars_new:
  "(reg_ok (st_sysvars s) \<longrightarrow> reg_ok (st_sysvars (fold (categorise_sysvar f) ns s)))
   \<and> hands_out_new (reg_ref (st_sysvars s)) (length (reg_heap (st_sysvars s)))
       (reg_ref (st_sysvars (fold (categorise_sysvar f) ns s))) (length (reg_heap (st_sysvars (fold (categorise_sysvar f) ns s))))"
proof (induction ns arbitrary: s)
  case (Cons n ns)
  have "(reg_ok (st_sysvars s) \<longrightarrow> reg_ok (st_sysvars (categorise_sysvar f n s)))
      \<and> hands_out_new (reg_ref (st_sysvars s)) (length (reg_heap (st_sysvars s)))
          (reg_ref (st_sysvars (categorise_sysvar f n s))) (length (reg_heap (st_sysvars (categorise_sysvar f n s))))"
    by (auto simp: categorise_sysvar_def insert_new_Suc hands_out_new_def [of f n f n for f n] split: option.split)
  then show ?case using Cons.IH [of "categorise_sysvar f n s"] hands_out_trans by fastforce
qed (simp add: hands_out_new_def)

lemma categorise_programs_sysvars [simp]: "st_sysvars (fold (categorise_program f) ps s) = st_sysvars s"
  by (rule fold_unchanged) (simp add: categorise_program_def alloc_twins_def Let_def)

lemma sysvars_op:
  "(reg_ok (st_sysvars s) \<longrightarrow> reg_ok (st_sysvars (apply_op p s)))
   \<and> hands_out_new (reg_ref (st_sysvars s)) (length (reg_heap (st_sysvars s))) (reg_ref (st_sysvars (apply_op p s)))
        (length (reg_heap (st_sysvars (apply_op p s))))
   \<and> (\<not> replaces_sysvar p \<longrightarrow> reg_ref (st_sysvars s) k = Some i \<longrightarrow> reg_ref (st_sysvars (apply_op p s)) k \<noteq> None
        \<longrightarrow> reg_ref (st_sysvars (apply_op p s)) k = Some i)"
proof (cases "rebuilds p")
  case False
  note e = sysvars_evolve [OF this, of s]
  show ?thesis using evolves_ok [OF e] evolves_new [OF e] evolves_keeps [OF e] by blast
next
  case True
  have same: "hands_out_new f n f n" for f :: "string \<Rightarrow> oid option" and n by (simp add: hands_out_new_def)
  from True show ?thesis
  proof (cases p)
    case (SetHubFactories pf sf)
    define t where "t = (case pf of None \<Rightarrow> s\<lparr>st_program_factory := pf, st_sysvar_factory := sf\<rparr>
        | Some f \<Rightarrow> fold (categorise_program f) (map (\<lambda>i. reg_heap (st_programs s) ! i) (dict_values (reg_map (st_programs s))))
            (s\<lparr>st_program_factory := pf, st_sysvar_factory := sf\<rparr>))"
    have t: "st_sysvars t = st_sysvars s" by (simp add: t_def split: option.split)
    have "apply_op p s = (case sf of None \<Rightarrow> t | Some f \<Rightarrow> fold (categorise_sysvar f) (reg_keys (st_sysvars t)) t)"
      by (cases pf; cases sf) (simp_all add: SetHubFactories set_hub_data_point_factories_def t_def Let_def)
    then show ?thesis
      using categorise_sysvars_new [of t] t same by (cases sf) (simp_all add: SetHubFactories replaces_sysvar_def)
  qed (simp_all add: rebuilds_def same)
qed

interpretation live_dps: live_registry store_step "\<lambda>s. reg_ok (st_dps s)"
  "\<lambda>s. reg_ref (st_dps s)" "\<lambda>s. length (reg_heap (st_dps s))" "\<lambda>k p. \<not> replaces_dp k p"
  by unfold_locales (use dps_op in auto)

interpretation live_sysvars: live_registry store_step "\<lambda>s. reg_ok (st_sysvars s)"
  "\<lambda>s. reg_ref (st_sysvars s)" "\<lambda>s. length (reg_heap (st_sysvars s))" "\<lambda>k p. \<not> replaces_sysvar p"
  by unfold_locales (use sysvars_op in auto)

lemma panel_factory_ok_op: "panel_factory_ok (apply_op p s) = panel_factory_ok s"
  by (simp add: panel_factory_ok_def)

interpretation live_panels: live_registry store_step "\<lambda>s. reg_ok (st_panels s) \<and> panel_factory_ok s"
  "\<lambda>s. reg_ref (st_panels s)" "\<lambda>s. length (reg_heap (st_panels s))" "\<lambda>k p. True"
  by unfold_locales (auto simp: panel_factory_ok_op intro: evolves_ok [OF panels_evolve] evolves_new [OF panels_evolve]
      dest: evolves_keeps [OF panels_evolve])

section \<open>Properties\<close>

definition store_ok :: "store \<Rightarrow> bool" where
  "store_ok s \<longleftrightarrow>
     reg_ok (st_devices s) \<and> reg_ok (st_channels s) \<and> reg_ok (st_dps s) \<and> reg_ok (st_cdps s)
     \<and> reg_ok (st_programs s) \<and> reg_ok (st_sysvars s) \<and> reg_ok (st_panels s) \<and> panel_factory_ok s"

lemma store_ok_empty [simp]: "store_ok (empty_store tr n)"
  by (simp add: store_ok_def empty_store_def panel_factory_ok_def)

lemma store_ok_op: "store_ok s \<Longrightarrow> store_ok (apply_op p s)"
  unfolding store_ok_def panel_factory_ok_op
  using evolves_ok [OF devices_evolve] evolves_ok [OF channels_evolve] dps_op evolves_ok [OF cdps_evolve]
    evolves_ok [OF programs_evolve] sysvars_op evolves_ok [OF panels_evolve] by blast

interpretation store_inv: invariant store_step store_ok
  by unfold_locales (simp add: store_ok_op)

text \<open>The objects a registry lookup yields before and after a run, for a key that never left it.\<close>

definition present_throughout :: "(store \<Rightarrow> ('k, 'o) registry) \<Rightarrow> 'k \<Rightarrow> store_op list \<Rightarrow> store \<Rightarrow> bool" where
  "present_throughout reg k ps s \<longleftrightarrow> (\<forall>n \<le> length ps. reg_ref (reg (store_run (take n ps) s)) k \<noteq> None)"

lemma same_object:
  assumes "present_throughout reg x ps s"
    and "\<And>i. reg_ref (reg s) x = Some i \<Longrightarrow>
           \<forall>n \<le> length ps. reg_ref (reg (store_run (take n ps) s)) x \<noteq> None \<Longrightarrow>
           reg_ref (reg (store_run ps s)) x = Some i"
  shows "reg_ref (reg (store_run ps s)) x = reg_ref (reg s) x"
proof -
  have pres: "\<forall>n \<le> length ps. reg_ref (reg (store_run (take n ps) s)) x \<noteq> None"
    using assms(1) by (simp add: present_throughout_def)
  then have "reg_ref (reg (store_run (take 0 ps) s)) x \<noteq> None" by blast
  then obtain i where "reg_ref (reg s) x = Some i" by auto
  then show ?thesis using assms(2) [OF _ pres] by simp
qed


text \<open>Fact: attaching calculated data points again does replace them: with a factory installed, every name attached gets an object
  that did not exist before, whatever was there.\<close>

theorem reattached_calculated_replaced:
  assumes "store_ok s" and "st_calc_factory s = Some f" and "x \<in> set cs" and "reg_ref (st_dps s) (a, c, ca_name x) = Some i"
  shows "reg_ref (st_dps (apply_op (AttachCalculated a c cs) s)) (a, c, ca_name x) \<notin> {None, Some i}"
proof -
  have "\<exists>j. reg_ref (st_dps (apply_op (AttachCalculated a c cs) s)) (a, c, ca_name x) = Some j \<and> length (reg_heap (st_dps s)) \<le> j"
    using fold_insert_in [of "(a, c, ca_name x)" "\<lambda>c'. (a, c, ca_name c')" cs "\<lambda>c'. f c' a c" "st_dps s"] assms(2,3)
    by (simp add: attach_channel_calculated_data_points_def)
  moreover have "i < length (reg_heap (st_dps s))"
    using reg_ok_bound [OF _ assms(4)] assms(1) by (simp add: store_ok_def)
  ultimately show ?thesis by auto
qed


definition demo_dp :: "string \<Rightarrow> int \<Rightarrow> instant \<Rightarrow> dp_summary" where
  "demo_dp p v t = \<lparr>dp_parameter = p, dp_value = JInt v, dp_display_value = None, dp_observed = True,
     dp_modified_at = Some t, dp_last_changed_at = Some t, dp_last_seen_at = Some t, dp_rest = JNull\<rparr>"

definition demo_store :: store where
  "demo_store = attach_channel_data_points ''D'' 1 [demo_dp ''STATE'' 0 5] (empty_store None 2)"

lemmas registry_eval =
  reg_insert_def reg_upsert_def reg_modify_def reg_delete_def reg_delete_where_def reg_keys_def reg_ref_def
  reg_get_def reg_empty_def mutate_def


section \<open>The device cap\<close>

definition capped :: "store \<Rightarrow> bool" where
  "capped s \<longleftrightarrow> length (reg_map (st_devices s)) \<le> st_max_devices s"

lemma capped_upsert: "capped s \<Longrightarrow> capped (fst (upsert_device_summary sm s))"
  by (auto simp: capped_def upsert_device_summary_def can_admit_device_def length_reg_map_insert length_reg_map_le)

lemma capped_frame: "st_devices t = st_devices s \<Longrightarrow> st_max_devices t = st_max_devices s \<Longrightarrow> capped t = capped s"
  by (simp add: capped_def)

lemma capped_snapshot: "capped s \<Longrightarrow> capped (fold (\<lambda>sm t. fst (upsert_device_summary sm t)) sms s)"
  by (induction sms arbitrary: s) (auto intro: capped_upsert)

lemma capped_op: "capped s \<Longrightarrow> capped (apply_op p s)"
proof (cases p)
  case (LoadSnapshot sn)
  assume "capped s"
  then have "capped (fold (\<lambda>sm t. fst (upsert_device_summary sm t)) (sn_devices sn)
      (if st_central_id s = '''' then set_central_id (infer_central_id s sn) s else s))"
    by (intro capped_snapshot) (simp add: capped_def)
  then show ?thesis
    using LoadSnapshot load_snapshot_devices [of sn s] by (simp add: capped_def split: if_splits)
next
  case (AttachDetail dd)
  assume "capped s"
  then show ?thesis
    using AttachDetail capped_upsert [of s "dd_summary dd"]
    by (simp add: capped_def attach_detail_devices length_reg_map_le Let_def)
next
  case (DeviceCreated dc)
  assume "capped s"
  then show ?thesis
    using DeviceCreated
    by (simp add: capped_def apply_device_created_def can_admit_device_def length_reg_map_insert)
next
  case (DeviceRemoved a)
  assume "capped s"
  then show ?thesis
    using DeviceRemoved le_trans [OF length_reg_map_le(2) [of a "st_devices s"]]
    by (simp add: capped_def apply_device_removed_def Let_def)
qed (simp_all add: capped_def apply_device_availability_changed_def apply_device_refreshed_def length_reg_map_le)

interpretation cap_inv: invariant store_step capped
  by unfold_locales (simp add: capped_op)

text \<open>C39: however many distinct addresses the daemon streams, through snapshots, details or pairing
  pushes, the store never holds more devices than its cap; and a device it already holds keeps
  being updated at the cap.\<close>

theorem device_cap:
  "length (reg_map (st_devices (store_run ps (empty_store tr n)))) \<le> n
   \<and> (\<forall>sm. reg_ref (st_devices (store_run ps (empty_store tr n))) (ds_address sm) \<noteq> None \<longrightarrow>
        map_option dv_summary (reg_get (st_devices (fst (upsert_device_summary sm
            (store_run ps (empty_store tr n))))) (ds_address sm)) = Some sm)"
proof -
  let ?s = "store_run ps (empty_store tr n)"
  have "capped ?s" by (rule cap_inv.inv_exec) (simp add: capped_def empty_store_def reg_empty_def)
  moreover have "st_max_devices ?s = n"
  proof -
    have "st_max_devices (store_run ps t) = st_max_devices t" for t
      by (induction ps arbitrary: t) (simp_all add: case_prod_unfold)
    then show ?thesis by (simp add: empty_store_def)
  qed
  moreover have "reg_ok (st_devices ?s)"
    using store_inv.inv_exec [OF store_ok_empty, of ps tr n] by (simp only: store_ok_def)
  ultimately show ?thesis
    by (auto simp: capped_def upsert_device_summary_def reg_get_modify update_summary_def)
      (auto simp: reg_get_def)
qed

theorem device_cap_witness:
  "length (reg_map (st_devices (store_run [DeviceCreated \<lparr>dc_address = ''A'', dc_central = ''c'',
       dc_interface_id = ''i'', dc_model = ''m''\<rparr>, DeviceCreated \<lparr>dc_address = ''B'', dc_central = ''c'',
       dc_interface_id = ''i'', dc_model = ''m''\<rparr>] (empty_store None 1)))) \<le> 1"
  using device_cap [of "[DeviceCreated \<lparr>dc_address = ''A'', dc_central = ''c'', dc_interface_id = ''i'',
       dc_model = ''m''\<rparr>, DeviceCreated \<lparr>dc_address = ''B'', dc_central = ''c'', dc_interface_id = ''i'',
       dc_model = ''m''\<rparr>]" None 1] by blast

end
