(* ===== verification/StoreProps.thy ===== *)
theory StoreProps
  imports StoreLive
begin

text \<open>
  What the store's operations do, exactly: the reconciling reads of the bootstrap walk, the removal of
  a device, the guards of the refreshes against a push that overtakes them, the secondary
  indexes, the alarm panels and the hub twins.
\<close>

section \<open>Removal and reconciliation of the device graph\<close>

lemma drop_channels_ref:
  "reg_ref (st_channels (fold drop_channel ks s)) k = (if k \<in> set ks then None else reg_ref (st_channels s) k)"
  "reg_ref (st_dps (fold drop_channel ks s)) d =
     (if (fst d, fst (snd d)) \<in> set ks then None else reg_ref (st_dps s) d)"
proof (induction ks arbitrary: s)
  case (Cons q ks)
  {
    case 1
    then show ?case using Cons.IH(1) [of "drop_channel q s"] by (simp add: drop_channel_def Let_def)
  next
    case 2
    have "(fst d, fst (snd d)) = q \<longleftrightarrow> fst d = fst q \<and> fst (snd d) = snd q" by (cases q) auto
    then show ?case using Cons.IH(2) [of "drop_channel q s"] by (auto simp: drop_channel_def Let_def)
  }
qed simp_all

lemma drop_channels_week [simp]: "st_week_profiles (fold drop_channel ks s) = st_week_profiles s"
  by (rule fold_unchanged) (simp add: drop_channel_def Let_def)

lemma drop_cdps_week [simp]: "st_week_profiles (fold drop_cdp ks s) = st_week_profiles s"
  by (rule fold_unchanged) (simp add: drop_cdp_def split: option.splits)

text \<open>Fact: removing a device drops the device, all its channels, all its custom data points and its week
  profiles, and leaves every other device's entries alone. Its data points go with its channels:
  exactly the ones on a channel the store had registered are dropped, so a data point attached
  to a channel the store never saw stays behind.\<close>

theorem device_removed_exact:
  "let t = apply_device_removed addr s
   in (\<forall>a. reg_ref (st_devices t) a = (if a = addr then None else reg_ref (st_devices s) a))
      \<and> (\<forall>k. reg_ref (st_channels t) k = (if fst k = addr then None else reg_ref (st_channels s) k))
      \<and> (\<forall>k. reg_ref (st_cdps t) k = (if fst k = addr then None else reg_ref (st_cdps s) k))
      \<and> (\<forall>a. dict_get (st_week_profiles t) a = (if a = addr then None else dict_get (st_week_profiles s) a))
      \<and> (\<forall>k. reg_ref (st_dps t) k =
              (if fst k = addr \<and> reg_ref (st_channels s) (addr, fst (snd k)) \<noteq> None then None
               else reg_ref (st_dps s) k))"
  by (auto simp: apply_device_removed_def Let_def drop_channels_ref drop_cdps_ref)

lemma upsert_channels_ref:
  "reg_ref (st_channels (fold upsert_channel cs s)) k = None \<longleftrightarrow>
     reg_ref (st_channels s) k = None \<and> k \<notin> (\<lambda>c. (before_colon (cs_address c), cs_number c)) ` set cs"
  by (induction cs arbitrary: s) (auto simp: upsert_channel_def)

text \<open>C9: a device detail is authoritative for its channels. After it is applied, the device's channels
  are exactly the ones it lists, the data points of a channel that vanished are gone with it,
  the data points of its other channels and all channels of other devices are untouched.\<close>

theorem detail_reconciles_channels:
  assumes "snd (upsert_device_summary (dd_summary dd) s)" and "addr = ds_address (dd_summary dd)"
    and "\<forall>c\<in>set (dd_channels dd). before_colon (cs_address c) = addr"
  shows "let t = attach_device_detail dd s
    in (\<forall>n. reg_ref (st_channels t) (addr, n) \<noteq> None \<longleftrightarrow> n \<in> cs_number ` set (dd_channels dd))
       \<and> (\<forall>k. fst k \<noteq> addr \<longrightarrow> reg_ref (st_channels t) k = None \<longleftrightarrow> reg_ref (st_channels s) k = None)
       \<and> (\<forall>k. reg_ref (st_dps t) k =
             (if fst k = addr \<and> fst (snd k) \<notin> cs_number ` set (dd_channels dd)
                 \<and> reg_ref (st_channels s) (addr, fst (snd k)) \<noteq> None
              then None else reg_ref (st_dps s) k))"
proof -
  let ?keys = "(\<lambda>c. (before_colon (cs_address c), cs_number c)) ` set (dd_channels dd)"
  have keys: "k \<in> ?keys \<longleftrightarrow> fst k = addr \<and> snd k \<in> cs_number ` set (dd_channels dd)" for k
    using assms(3) by (cases k) force
  from assms(1) obtain t where
      eq: "attach_device_detail dd s = fold drop_channel
        (filter (\<lambda>k. fst k = addr \<and> snd k \<notin> cs_number ` set (dd_channels dd))
          (reg_keys (st_channels (fold upsert_channel (dd_channels dd) t))))
        (fold upsert_channel (dd_channels dd) t)"
    and t: "st_channels t = st_channels s" "st_dps t = st_dps s"
    unfolding assms(2) by (rule attach_detail_attached)
  have ch: "reg_ref (st_channels (fold upsert_channel (dd_channels dd) t)) k = None \<longleftrightarrow>
      reg_ref (st_channels s) k = None \<and> k \<notin> ?keys" for k
    by (simp add: upsert_channels_ref t)
  have present: "\<exists>i. reg_ref (st_channels (fold upsert_channel (dd_channels dd) t)) (addr, n) = Some i"
    if "n \<in> cs_number ` set (dd_channels dd)" for n
    using ch [of "(addr, n)"] keys [of "(addr, n)"] that by auto
  show ?thesis
    unfolding Let_def eq drop_channels_ref
    using ch keys t present by (auto split: if_splits)
qed

definition demo_summary :: "string \<Rightarrow> device_summary" where
  "demo_summary a = \<lparr>ds_address = a, ds_central = None, ds_interface = ''i'', ds_interface_id = ''i'',
     ds_model = ''m'', ds_name = a, ds_available = True, ds_channels_count = 1, ds_updatable = False,
     ds_update_available = False, ds_config_pending = False, ds_has_sub_devices = False,
     ds_firmware = JObj [], ds_availability = no_availability\<lparr>av_reachable := Some True\<rparr>, ds_rest = JNull\<rparr>"

definition demo_detail :: "string \<Rightarrow> int list \<Rightarrow> device_detail" where
  "demo_detail a ns = \<lparr>dd_summary = demo_summary a,
     dd_channels = map (\<lambda>n. \<lparr>cs_address = a @ '':'', cs_number = n, cs_rest = JNull\<rparr>) ns\<rparr>"

theorem detail_reconciles_channels_witness:
  "let t = attach_device_detail (demo_detail ''D'' [1]) (attach_device_detail (demo_detail ''D'' [0, 1]) (empty_store None 5))
   in reg_ref (st_channels t) (''D'', 0) = None \<and> reg_ref (st_channels t) (''D'', 1) \<noteq> None"
proof -
  let ?s = "attach_device_detail (demo_detail ''D'' [0, 1]) (empty_store None 5)"
  have "snd (upsert_device_summary (dd_summary (demo_detail ''D'' [1])) ?s)"
    by (simp add: attach_device_detail_def demo_detail_def demo_summary_def upsert_device_summary_def
        can_admit_device_def empty_store_def reg_empty_def Let_def case_prod_unfold)
  note adm = this
  have addr: "ds_address (dd_summary (demo_detail ''D'' [1])) = ''D''" by (simp add: demo_detail_def demo_summary_def)
  have chs: "cs_number ` set (dd_channels (demo_detail ''D'' [1])) = {1}"
    "\<forall>c\<in>set (dd_channels (demo_detail ''D'' [1])). before_colon (cs_address c) = ''D''"
    by (simp_all add: demo_detail_def before_colon_def)
  have "\<forall>n. reg_ref (st_channels (attach_device_detail (demo_detail ''D'' [1]) ?s)) (''D'', n) \<noteq> None \<longleftrightarrow> n = 1"
    using detail_reconciles_channels [OF adm addr [symmetric] chs(2)] unfolding Let_def chs(1) by simp
  then show ?thesis unfolding Let_def by (metis zero_neq_one)
qed

text \<open>The objects after a loop of upserts, for distinct keys.\<close>

lemma fold_upsert_get:
  assumes "reg_ok r" and "distinct (map key ds)"
  shows "reg_get (fold (\<lambda>d. reg_upsert (key d) (new d) (upd d)) ds r) k =
     (case find (\<lambda>d. key d = k) ds of
        None \<Rightarrow> reg_get r k
      | Some d \<Rightarrow> Some (case reg_get r k of None \<Rightarrow> new d | Some x \<Rightarrow> upd d x))"
  using assms
proof (induction ds arbitrary: r)
  case Nil
  then show ?case by simp
next
  case (Cons d ds)
  have IH: "reg_get (fold (\<lambda>d. reg_upsert (key d) (new d) (upd d)) ds (reg_upsert (key d) (new d) (upd d) r)) k =
     (case find (\<lambda>d. key d = k) ds of
        None \<Rightarrow> reg_get (reg_upsert (key d) (new d) (upd d) r) k
      | Some d' \<Rightarrow> Some (case reg_get (reg_upsert (key d) (new d) (upd d) r) k of None \<Rightarrow> new d' | Some x \<Rightarrow> upd d' x))"
    using Cons.prems by (intro Cons.IH) simp_all
  show ?case
  proof (cases "key d = k")
    case True
    then have "find (\<lambda>d. key d = k) ds = None"
      using Cons.prems(2) by (auto simp: find_None_iff image_iff)
    then show ?thesis using IH True Cons.prems(1) by (simp add: reg_get_upsert)
  next
    case False
    then show ?thesis
      using IH Cons.prems(1) by (simp add: reg_get_upsert split: option.splits)
  qed
qed

text \<open>Fact: reading a channel's catalogue reconciles it in place. Afterwards every listed parameter is there
  with the daemon's summary, on the surviving object (any value a consumer wrote over it stays)
  or on a new one; a parameter the daemon no longer lists is gone unless it is a calculated one;
  everything outside the channel is untouched.\<close>

theorem channel_data_points_reconciled:
  assumes "reg_ok (st_dps s)" and "distinct (map dp_parameter ds)"
  shows "let t = attach_channel_data_points addr ch ds s
    in (\<forall>d\<in>set ds. reg_get (st_dps t) (addr, ch, dp_parameter d) =
            Some (case reg_get (st_dps s) (addr, ch, dp_parameter d) of
                    None \<Rightarrow> build_data_point s d addr ch | Some x \<Rightarrow> replace_dp_summary d x))
       \<and> (\<forall>p. p \<notin> dp_parameter ` set ds \<longrightarrow> reg_get (st_dps t) (addr, ch, p) =
            (if (addr, ch, p) \<in> st_calc_keys s then reg_get (st_dps s) (addr, ch, p) else None))
       \<and> (\<forall>k. (fst k, fst (snd k)) \<noteq> (addr, ch) \<longrightarrow> reg_get (st_dps t) k = reg_get (st_dps s) k)"
proof -
  define stale where "stale = (\<lambda>k. fst k = addr \<and> fst (snd k) = ch
      \<and> k \<notin> (\<lambda>d. (addr, ch, dp_parameter d)) ` set ds \<and> k \<notin> st_calc_keys s)"
  define r where "r = reg_delete_where stale (st_dps s)"
  let ?key = "\<lambda>d. (addr, ch, dp_parameter d)"
  have dist: "distinct (map ?key ds)"
    using assms(2) by (simp add: distinct_map inj_on_def)
  have get: "reg_get (st_dps (attach_channel_data_points addr ch ds s)) k =
     (case find (\<lambda>d. ?key d = k) ds of
        None \<Rightarrow> if stale k then None else reg_get (st_dps s) k
      | Some d \<Rightarrow> Some (case reg_get (st_dps s) k of None \<Rightarrow> build_data_point s d addr ch
                                                    | Some x \<Rightarrow> replace_dp_summary d x))" for k
  proof -
    have "st_dps (attach_channel_data_points addr ch ds s) =
        fold (\<lambda>d. reg_upsert (?key d) (build_data_point s d addr ch) (replace_dp_summary d)) ds r"
      by (simp add: attach_channel_data_points_def Let_def stale_def r_def build_data_point_def)
    moreover have "reg_ok r" using assms(1) by (simp add: r_def)
    moreover have "\<not> stale k" if "find (\<lambda>d. ?key d = k) ds = Some d" for d
    proof -
      have "d \<in> set ds \<and> ?key d = k" using that by (auto simp: find_Some_iff)
      then show ?thesis by (auto simp: stale_def)
    qed
    ultimately show ?thesis
      by (simp add: fold_upsert_get [OF _ dist] r_def reg_get_delete split: option.splits)
  qed
  have found: "find (\<lambda>e. ?key e = ?key d) ds = Some d" if "d \<in> set ds" for d
  proof (cases "find (\<lambda>e. ?key e = ?key d) ds")
    case None
    then show ?thesis using that by (auto simp: find_None_iff)
  next
    case (Some e)
    then have "e \<in> set ds" "dp_parameter e = dp_parameter d" by (auto simp: find_Some_iff in_set_conv_nth)
    then show ?thesis using Some that assms(2) by (auto simp: distinct_map inj_on_def)
  qed
  have missing: "find (\<lambda>e. ?key e = k) ds = None"
    if "fst k \<noteq> addr \<or> fst (snd k) \<noteq> ch \<or> snd (snd k) \<notin> dp_parameter ` set ds" for k
    using that by (auto simp: find_None_iff)
  let ?t = "attach_channel_data_points addr ch ds s"
  have 1: "reg_get (st_dps ?t) (addr, ch, dp_parameter d) =
      Some (case reg_get (st_dps s) (addr, ch, dp_parameter d) of
              None \<Rightarrow> build_data_point s d addr ch | Some x \<Rightarrow> replace_dp_summary d x)" if "d \<in> set ds" for d
    using get [of "?key d"] unfolding found [OF that] by simp
  have 2: "reg_get (st_dps ?t) (addr, ch, q) =
      (if (addr, ch, q) \<in> st_calc_keys s then reg_get (st_dps s) (addr, ch, q) else None)"
    if "q \<notin> dp_parameter ` set ds" for q
    using get [of "(addr, ch, q)"] missing [of "(addr, ch, q)"] that by (simp add: stale_def image_iff)
  have 3: "reg_get (st_dps ?t) k = reg_get (st_dps s) k" if "(fst k, fst (snd k)) \<noteq> (addr, ch)" for k
    using get [of k] missing [of k] that by (auto simp: stale_def)
  show ?thesis unfolding Let_def using 1 2 3 by blast
qed

theorem channel_data_points_reconciled_witness:
  "map_option dp_read_value (reg_get (st_dps (attach_channel_data_points ''D'' 1 [demo_dp ''STATE'' 7 6] demo_store))
     (''D'', 1, ''STATE'')) = Some (JInt 7)"
proof -
  have get: "reg_get (st_dps demo_store) (''D'', 1, ''STATE'') = Some (new_data_point (demo_dp ''STATE'' 0 5) ''D'' 1)"
    by (simp add: demo_store_def attach_channel_data_points_def empty_store_def registry_eval build_data_point_def
        demo_dp_def)
  have "store_ok (apply_op (AttachDataPoints ''D'' 1 [demo_dp ''STATE'' 0 5]) (empty_store None 2))"
    by (rule store_ok_op) simp
  then have "reg_ok (st_dps demo_store)" by (simp add: demo_store_def store_ok_def)
  from channel_data_points_reconciled [OF this, of "[demo_dp ''STATE'' 7 6]" "''D''" 1] get
  show ?thesis
    by (simp add: Let_def demo_dp_def replace_dp_summary_def dp_read_value_def)
qed

section \<open>Pushes and reads that cross\<close>

text \<open>Fact: a value push beats an older read when the read is a refresh, and loses to it when the read is a
  catalogue read. After a push, the answer of a \<open>refresh_data_point\<close> that was taken earlier leaves
  the data point as pushed; the same summary arriving through a bootstrap walk's channel read is
  written over the pushed value, because that path compares no timestamps.\<close>

theorem push_against_older_read:
  assumes "reg_ok (st_dps s)" and "reg_get (st_dps s) (a, c, p) = Some d"
    and "vc_address v = a" and "vc_channel v = c" and "vc_parameter v = p"
    and "dp_parameter sm = p" and "dp_modified_at sm = Some old" and "old < vc_modified_at v" and "dp_observed sm"
  shows "map_option dp_read_value (reg_get (st_dps (refresh_dp_end (a, c, p) sm (apply_value_changed v s))) (a, c, p))
       = Some (vc_value v)
    \<and> map_option dp_read_value (reg_get (st_dps (attach_channel_data_points a c [sm] (apply_value_changed v s))) (a, c, p))
       = Some (dp_value sm)"
proof -
  let ?t = "apply_value_changed v s"
  have t: "reg_get (st_dps ?t) (a, c, p)
      = Some (clear_value_override (replace_dp_summary (pushed_summary v (do_summary d)) d))"
    using assms(1-5) by (simp add: apply_value_changed_def reg_get_modify)
  have okt: "reg_ok (st_dps ?t)" using assms(1) by (simp add: apply_value_changed_def)
  have "reg_get (st_dps (refresh_dp_end (a, c, p) sm ?t)) (a, c, p) = reg_get (st_dps ?t) (a, c, p)"
    using t okt assms(7,8)
    by (simp add: refresh_dp_end_def reg_get_modify refresh_is_stale_def clear_value_override_def
        replace_dp_summary_def pushed_summary_def)
  moreover have "reg_get (st_dps (attach_channel_data_points a c [sm] ?t)) (a, c, p)
      = Some (replace_dp_summary sm (clear_value_override (replace_dp_summary (pushed_summary v (do_summary d)) d)))"
    using okt t assms(6)
    by (simp add: attach_channel_data_points_def Let_def reg_get_upsert reg_get_delete)
  ultimately show ?thesis
    using t assms(9) by (simp add: dp_read_value_def clear_value_override_def replace_dp_summary_def pushed_summary_def)
qed

theorem push_against_older_read_witness:
  "let v = \<lparr>vc_address = ''D'', vc_channel = 1, vc_parameter = ''STATE'', vc_value = JInt 9, vc_display_value = None,
            vc_modified_at = 8, vc_available = True\<rparr>
   in map_option dp_read_value (reg_get (st_dps (attach_channel_data_points ''D'' 1 [demo_dp ''STATE'' 0 5]
        (apply_value_changed v demo_store))) (''D'', 1, ''STATE'')) = Some (JInt 0)"
proof -
  have get: "reg_get (st_dps demo_store) (''D'', 1, ''STATE'') = Some (new_data_point (demo_dp ''STATE'' 0 5) ''D'' 1)"
    by (simp add: demo_store_def attach_channel_data_points_def empty_store_def registry_eval build_data_point_def
        demo_dp_def)
  have "store_ok (apply_op (AttachDataPoints ''D'' 1 [demo_dp ''STATE'' 0 5]) (empty_store None 2))"
    by (rule store_ok_op) simp
  then have ok: "reg_ok (st_dps demo_store)" by (simp add: demo_store_def store_ok_def)
  show ?thesis
    using push_against_older_read [OF ok get, of "\<lparr>vc_address = ''D'', vc_channel = 1, vc_parameter = ''STATE'',
        vc_value = JInt 9, vc_display_value = None, vc_modified_at = 8, vc_available = True\<rparr>" "demo_dp ''STATE'' 0 5" 5]
    by (simp add: demo_dp_def Let_def)
qed

text \<open>
  Custom data points carry no timestamp; their generation counter takes its place. While an object
  stays registered its counter never goes down, and a state push raises it.
\<close>

definition generation_at :: "oid \<Rightarrow> store \<Rightarrow> nat" where
  "generation_at i s = co_generation (reg_heap (st_cdps s) ! i)"

definition heap_grows :: "oid \<Rightarrow> store \<Rightarrow> store \<Rightarrow> bool" where
  "heap_grows i s t \<longleftrightarrow> i < length (reg_heap (st_cdps s)) \<longrightarrow>
     i < length (reg_heap (st_cdps t)) \<and> generation_at i s \<le> generation_at i t"

lemma heap_grows_refl [simp]: "heap_grows i s s"
  by (simp add: heap_grows_def)

lemma heap_grows_trans: "heap_grows i s t \<Longrightarrow> heap_grows i t u \<Longrightarrow> heap_grows i s u"
  by (auto simp: heap_grows_def)

lemma heap_grows_same: "st_cdps t = st_cdps s \<Longrightarrow> heap_grows i s t"
  by (simp add: heap_grows_def generation_at_def)

lemma nth_update_if: "i < length xs \<Longrightarrow> xs[j := v] ! i = (if j = i then v else xs ! i)"
  by (cases "j = i") simp_all

lemma heap_grows_modify:
  "(\<And>c. co_generation c \<le> co_generation (f c)) \<Longrightarrow> st_cdps t = reg_modify k f (st_cdps s) \<Longrightarrow> heap_grows i s t"
  by (auto simp: heap_grows_def generation_at_def reg_modify_def mutate_def nth_update_if split: option.splits)

lemma heap_grows_attach_one: "heap_grows i s (attach_one_cdp a c s)"
proof (cases "reg_ref (st_cdps s) (a, cd_name c)")
  case None
  then show ?thesis
    by (auto simp: attach_one_cdp_def register_cdp_def heap_grows_def generation_at_def reg_insert_def nth_append)
next
  case (Some j)
  then show ?thesis
    by (intro heap_grows_modify [where k = "(a, cd_name c)" and f = "\<lambda>x. let c1 = replace_cdp_summary c x
          in case cd_state c of Some st \<Rightarrow> replace_cdp_state st c1 | None \<Rightarrow> c1"])
      (simp_all add: attach_one_cdp_def replace_cdp_state_def replace_cdp_summary_def Let_def split: option.splits)
qed

lemma heap_grows_drop: "heap_grows i s (drop_cdp k s)"
  by (simp add: drop_cdp_def heap_grows_def generation_at_def split: option.splits)

lemma heap_grows_fold: "(\<And>x s. heap_grows i s (f x s)) \<Longrightarrow> heap_grows i s (fold f xs s)"
  by (induction xs arbitrary: s) (auto intro: heap_grows_trans)

lemma heap_grows_op: "heap_grows i s (apply_op p s)"
proof (cases p)
  case (AttachCdps a cs)
  then show ?thesis
    by (auto simp: attach_custom_data_points_def Let_def
        intro!: heap_grows_trans [OF heap_grows_fold heap_grows_fold] heap_grows_attach_one heap_grows_drop)
next
  case (DeviceRemoved a)
  define t where "t = fold drop_channel (filter (\<lambda>k. fst k = a) (reg_keys (st_channels s)))
    (s\<lparr>st_devices := reg_delete a (st_devices s)\<rparr>)"
  have "heap_grows i s t" by (rule heap_grows_same) (simp add: t_def)
  moreover have "heap_grows i t (fold drop_cdp (filter (\<lambda>k. fst k = a) (reg_keys (st_cdps t))) t)" (is "heap_grows i t ?u")
    by (rule heap_grows_fold) (rule heap_grows_drop)
  moreover have "heap_grows i ?u (apply_op p s)"
    by (rule heap_grows_same) (simp add: DeviceRemoved apply_device_removed_def Let_def t_def)
  ultimately show ?thesis by (blast intro: heap_grows_trans)
next
  case (CdpStateChanged a n st)
  then show ?thesis
    by (intro heap_grows_modify [where f = "replace_cdp_state st" and k = "(a, n)"])
      (simp_all add: apply_cdp_state_changed_def replace_cdp_state_def)
next
  case (RefreshCdpEnd a n g so)
  then show ?thesis
    by (auto simp: refresh_cdp_end_def split: option.splits
        intro!: heap_grows_modify [where f = "replace_cdp_state _" and k = "(a, n)"])
      (simp_all add: replace_cdp_state_def)
qed (rule heap_grows_same, simp)+

lemma heap_grows_run: "heap_grows i s (store_run ps s)"
  by (induction ps arbitrary: s) (auto simp: case_prod_unfold intro: heap_grows_trans [OF heap_grows_op])

text \<open>C8: the re-read of a custom data point never overwrites a newer push. If between the moment the
  refresh remembered the object's generation and the arrival of its answer a state push came for
  it, then, whatever other operations came before and after the push, the answer is dropped, as long as
  the object registered at the end is the one the refresh was begun for.\<close>

theorem cdp_push_beats_refresh:
  assumes "store_ok s" and "refresh_cdp_begin a n s = Some g"
    and "reg_ref (st_cdps (store_run (ps @ CdpStateChanged a n st # qs) s)) (a, n) = reg_ref (st_cdps s) (a, n)"
  shows "refresh_cdp_end a n g answer (store_run (ps @ CdpStateChanged a n st # qs) s)
    = store_run (ps @ CdpStateChanged a n st # qs) s"
proof -
  let ?all = "ps @ CdpStateChanged a n st # qs"
  from assms(2) obtain i where i: "reg_ref (st_cdps s) (a, n) = Some i" and g: "g = generation_at i s"
    by (auto simp: refresh_cdp_begin_def reg_get_def generation_at_def split: if_splits)
  have ok: "reg_ok (st_cdps s)" using assms(1) by (simp add: store_ok_def)
  have fin: "reg_ref (st_cdps (store_run ?all s)) (a, n) = Some i" using assms(3) i by simp
  define t where "t = store_run ps s"
  have okt: "reg_ok (st_cdps t)" using store_inv.inv_exec [OF assms(1), of ps] by (simp add: t_def store_ok_def)
  have split: "store_run ?all s = store_run (CdpStateChanged a n st # qs) t"
    by (simp add: exec_append case_prod_unfold t_def)
  have bound: "i < length (reg_heap (st_cdps s))" using reg_ok_bound [OF ok i] .
  then have t: "i < length (reg_heap (st_cdps t))" "generation_at i s \<le> generation_at i t"
    using heap_grows_run [of i s ps] by (simp_all add: heap_grows_def t_def)
  have ti: "reg_ref (st_cdps t) (a, n) = Some i"
    by (rule live_cdps.never_reused [OF okt t(1)]) (rule fin [unfolded split])
  let ?u = "apply_cdp_state_changed a n st t"
  have "generation_at i ?u = generation_at i t + 1" and "i < length (reg_heap (st_cdps ?u))"
    using ti t(1) by (simp_all add: apply_cdp_state_changed_def generation_at_def reg_modify_def replace_cdp_state_def)
  moreover have "store_run ?all s = store_run qs ?u" using split by (simp add: case_prod_unfold)
  ultimately have "g < generation_at i (store_run ?all s)"
    using heap_grows_run [of i ?u qs] t(2) g by (simp add: heap_grows_def)
  then show ?thesis
    using fin by (simp add: refresh_cdp_end_def reg_get_def generation_at_def)
qed

definition demo_cdp_store :: store where
  "demo_cdp_store = attach_custom_data_points ''D'' [\<lparr>cd_name = ''light'', cd_channel_no = 1, cd_state = None, cd_rest = JNull\<rparr>]
     (empty_store (Some \<lparr>tr_connected = True, tr_capabilities = None\<rparr>) 2)"

theorem cdp_push_beats_refresh_witness:
  "refresh_cdp_end ''D'' ''light'' 0 (Some [(''level'', JInt 0)])
     (store_run [CdpStateChanged ''D'' ''light'' [(''level'', JInt 1)]] demo_cdp_store)
   = store_run [CdpStateChanged ''D'' ''light'' [(''level'', JInt 1)]] demo_cdp_store"
proof -
  let ?tr = "Some \<lparr>tr_connected = True, tr_capabilities = None\<rparr>"
  let ?cs = "[\<lparr>cd_name = ''light'', cd_channel_no = 1, cd_state = None, cd_rest = JNull\<rparr>]"
  note eval = demo_cdp_store_def attach_custom_data_points_def attach_one_cdp_def register_cdp_def
    build_custom_data_point_def new_cdp_def empty_store_def registry_eval
  have "store_ok (apply_op (AttachCdps ''D'' ?cs) (empty_store ?tr 2))"
    by (rule store_ok_op) simp
  then have ok: "store_ok demo_cdp_store" by (simp add: demo_cdp_store_def)
  have start: "refresh_cdp_begin ''D'' ''light'' demo_cdp_store = Some 0"
    "reg_ref (st_cdps demo_cdp_store) (''D'', ''light'') = Some 0"
    by (simp_all add: refresh_cdp_begin_def eval)
  have "reg_ref (st_cdps (store_run ([] @ CdpStateChanged ''D'' ''light'' st # []) demo_cdp_store)) (''D'', ''light'')
      = reg_ref (st_cdps demo_cdp_store) (''D'', ''light'')" for st
    by (simp add: start apply_cdp_state_changed_def)
  from cdp_push_beats_refresh [OF ok start(1) this, where answer = "Some [(''level'', JInt 0)]"]
  show ?thesis by simp
qed

text \<open>Fact: the generation starts again at nought with a new object: a data point that is pushed, removed and registered anew
  while it is re-read takes the stale answer.\<close>

theorem stale_answer_after_replacement:
  "let back = \<lparr>cd_name = ''light'', cd_channel_no = 1, cd_state = Some [(''level'', JInt 1)], cd_rest = JNull\<rparr>;
       t = store_run [CdpStateChanged ''D'' ''light'' [(''level'', JInt 1)], AttachCdps ''D'' [], AttachCdps ''D'' [back]] demo_cdp_store
     in refresh_cdp_begin ''D'' ''light'' demo_cdp_store = Some 0
        \<and> map_option co_state (reg_get (st_cdps t) (''D'', ''light'')) = Some [(''level'', JInt 1)]
        \<and> map_option co_state (reg_get (st_cdps (refresh_cdp_end ''D'' ''light'' 0 (Some [(''level'', JInt 0)]) t)) (''D'', ''light''))
            = Some [(''level'', JInt 0)]"
  by (simp add: demo_cdp_store_def attach_custom_data_points_def attach_one_cdp_def register_cdp_def drop_cdp_def
      build_custom_data_point_def new_cdp_def empty_store_def registry_eval refresh_cdp_begin_def refresh_cdp_end_def
      apply_cdp_state_changed_def replace_cdp_state_def Let_def case_prod_unfold)

end
