(* ===== verification/ApiCore.thy ===== *)
theory ApiCore
  imports Http
begin

text \<open>
  What the operation classes (operations/*.py) share: the path of a request as the f-strings build
  it, part by part, percent-encoding (\<open>urllib.parse.quote\<close> with no safe characters), the request
  handed to the transport, and the treatment of the answer (operations/_base.py). Text is given by
  its UTF-8 bytes. A request model is given by its JSON dump.
\<close>

section \<open>Percent-encoding\<close>

definition unreserved :: "char \<Rightarrow> bool" where
  "unreserved c \<longleftrightarrow> (let n = of_char c :: nat
     in 48 \<le> n \<and> n \<le> 57 \<or> 65 \<le> n \<and> n \<le> 90 \<or> 97 \<le> n \<and> n \<le> 122 \<or> c \<in> set ''_.-~'')"

definition hex_digit :: "nat \<Rightarrow> char" where
  "hex_digit n = (if n < 10 then char_of (48 + n) else char_of (55 + n))"

definition hex_value :: "char \<Rightarrow> nat" where
  "hex_value c = (let n = of_char c in if n < 65 then n - 48 else n - 55)"

definition quote_char :: "char \<Rightarrow> string" where
  "quote_char c = (if unreserved c then [c]
     else [CHR ''%'', hex_digit (of_char c div 16), hex_digit (of_char c mod 16)])"

definition quote :: "string \<Rightarrow> string" where
  "quote s = concat (map quote_char s)"

text \<open>The inverse, as a server applies it to each path segment.\<close>

fun unquote :: "string \<Rightarrow> string" where
  "unquote [] = []"
| "unquote (c # cs) =
     (if c = CHR ''%'' then
        (case cs of a # b # ds \<Rightarrow> char_of (hex_value a * 16 + hex_value b) # unquote ds | _ \<Rightarrow> c # unquote cs)
      else c # unquote cs)"

lemma hex_value_digit [simp]: "n < 16 \<Longrightarrow> hex_value (hex_digit n) = n"
  by (simp add: hex_value_def hex_digit_def Let_def)

lemma unreserved_not_percent: "unreserved c \<Longrightarrow> c \<noteq> CHR ''%''"
  by (auto simp: unreserved_def)

lemma unquote_quote_char: "unquote (quote_char c @ cs) = c # unquote cs"
proof (cases "unreserved c")
  case True
  then show ?thesis by (simp add: quote_char_def unreserved_not_percent)
next
  case False
  have "of_char c div 16 < (16 :: nat)" using nat_of_char_less_256 [of c] by linarith
  moreover have "of_char c mod 16 < (16 :: nat)" by simp
  ultimately show ?thesis using False by (simp add: quote_char_def)
qed

lemma unquote_quote [simp]: "unquote (quote s) = s"
  by (induction s) (simp_all add: quote_def unquote_quote_char)

lemma quote_inject [simp]: "quote s = quote t \<longleftrightarrow> s = t"
  by (metis unquote_quote)

text \<open>No encoded text contains a delimiter of the URL.\<close>

definition url_plain :: "char \<Rightarrow> bool" where
  "url_plain c \<longleftrightarrow> c \<notin> set ''/?#''"

lemma hex_digit_plain: "n < 16 \<Longrightarrow> url_plain (hex_digit n)"
  by (auto simp: url_plain_def hex_digit_def char_of_eq_iff take_bit_eq_mod)

lemma quote_plain: "c \<in> set (quote s) \<Longrightarrow> url_plain c"
proof (induction s)
  case (Cons x s)
  have lt: "of_char x div 16 < (16 :: nat)" "of_char x mod 16 < (16 :: nat)"
    using nat_of_char_less_256 [of x] by linarith+
  have "unreserved x \<Longrightarrow> url_plain x" by (auto simp: unreserved_def url_plain_def)
  then have "d \<in> set (quote_char x) \<Longrightarrow> url_plain d" for d
    using hex_digit_plain [OF lt(1)] hex_digit_plain [OF lt(2)]
    by (auto simp: quote_char_def url_plain_def split: if_splits)
  with Cons show ?case by (auto simp: quote_def)
qed (simp add: quote_def)

section \<open>Paths\<close>

text \<open>A part between two slashes: fixed text, text put in as it is, text percent-encoded, a number.\<close>

datatype part = Lit string | Raw string | Quoted string | Num int

fun part_text :: "part \<Rightarrow> string" where
  "part_text (Lit s) = s"
| "part_text (Raw s) = s"
| "part_text (Quoted s) = quote s"
| "part_text (Num i) = show_int i"

definition render :: "part list \<Rightarrow> string" where
  "render ps = concat (map (\<lambda>p. ''/'' @ part_text p) ps)"

text \<open>The segments of a path, and what the text of a part stands for.\<close>

fun split_slash :: "string \<Rightarrow> string list" where
  "split_slash [] = [[]]"
| "split_slash (c # cs) =
     (if c = CHR ''/'' then [] # split_slash cs
      else (case split_slash cs of w # ws \<Rightarrow> (c # w) # ws | [] \<Rightarrow> [[c]]))"

fun meant :: "part \<Rightarrow> string" where
  "meant (Lit s) = s"
| "meant (Raw s) = s"
| "meant (Quoted s) = s"
| "meant (Num i) = show_int i"

text \<open>A part put in unencoded stands for itself when it has no slash and no percent sign.\<close>

fun clean :: "part \<Rightarrow> bool" where
  "clean (Lit s) \<longleftrightarrow> CHR ''/'' \<notin> set s \<and> CHR ''%'' \<notin> set s"
| "clean (Raw s) \<longleftrightarrow> CHR ''/'' \<notin> set s \<and> CHR ''%'' \<notin> set s"
| "clean _ \<longleftrightarrow> True"

lemma split_slash_plain: "CHR ''/'' \<notin> set s \<Longrightarrow> split_slash s = [s]"
  by (induction s) auto

lemma split_slash_append:
  "CHR ''/'' \<notin> set s \<Longrightarrow> split_slash (s @ CHR ''/'' # t) = s # split_slash t"
  by (induction s) auto

lemma unquote_plain: "CHR ''%'' \<notin> set s \<Longrightarrow> unquote s = s"
  by (induction s) auto

lemma show_nat_digits: "c \<in> set (show_nat n) \<Longrightarrow> \<exists>d < 10. c = digit d"
proof (induction n rule: show_nat.induct)
  case (1 n)
  show ?case
  proof (cases "n < 10")
    case True
    with 1 show ?thesis by (auto simp: show_nat.simps [of n])
  next
    case False
    then have "c \<in> set (show_nat (n div 10)) \<or> c = digit (n mod 10)" using "1.prems" by (auto simp: show_nat.simps [of n])
    with 1 False show ?thesis by (metis mod_less_divisor zero_less_numeral)
  qed
qed

lemma digit_clean: "d < 10 \<Longrightarrow> digit d \<noteq> CHR ''/'' \<and> digit d \<noteq> CHR ''%''"
  by (auto simp: digit_def char_of_eq_iff take_bit_eq_mod)

lemma show_int_clean: "CHR ''/'' \<notin> set (show_int i) \<and> CHR ''%'' \<notin> set (show_int i)"
proof -
  have "CHR ''/'' \<notin> set (show_nat n) \<and> CHR ''%'' \<notin> set (show_nat n)" for n
    using show_nat_digits digit_clean by metis
  then show ?thesis by (simp add: show_int_def)
qed

lemma part_text_no_slash: "clean p \<Longrightarrow> CHR ''/'' \<notin> set (part_text p)"
  using quote_plain show_int_clean by (cases p) (auto simp: url_plain_def)

lemma part_text_meant: "clean p \<Longrightarrow> unquote (part_text p) = meant p"
  using show_int_clean by (cases p) (auto simp: unquote_plain)

lemma split_render: "list_all clean ps \<Longrightarrow> split_slash (render ps) = [] # map part_text ps"
proof (induction ps)
  case (Cons p ps)
  show ?case
  proof (cases ps)
    case Nil
    then show ?thesis using Cons.prems by (simp add: render_def split_slash_plain part_text_no_slash)
  next
    case (Cons q qs)
    then have "render ps = CHR ''/'' # tl (render ps)" by (simp add: render_def)
    then have "split_slash (part_text p @ render ps) = part_text p # split_slash (tl (render ps))"
      using split_slash_append [OF part_text_no_slash, of p "tl (render ps)"] Cons.prems by simp
    moreover have "split_slash (render ps) = [] # split_slash (tl (render ps))"
      using Cons by (simp add: render_def)
    ultimately show ?thesis using Cons.IH Cons.prems by (simp add: render_def)
  qed
qed (simp add: render_def)

lemma render_decoded: "list_all clean ps \<Longrightarrow> map unquote (tl (split_slash (render ps))) = map meant ps"
  by (simp add: split_render list_all_iff part_text_meant)

section \<open>Requests and answers\<close>

text \<open>
  How an operation treats the answer: ignored, validated as one model, a list of models
  (\<open>_request_list\<close>), copied as a dictionary (\<open>dict(payload or {})\<close>), handed on, or raw bytes;
  \<open>Uploaded\<close> marks the multipart upload.
\<close>

datatype answer = Ignored | Model | Models | Dict | Handed | Bytes | BytesOrMissing | Uploaded

record api_request =
  rq_method :: string
  rq_path :: "part list"
  rq_params :: "(string \<times> json) list option"
  rq_body :: "json option"
  rq_retry :: "bool option"
  rq_answer :: answer

definition req :: "string \<Rightarrow> part list \<Rightarrow> answer \<Rightarrow> api_request" where
  "req m ps a = \<lparr>rq_method = m, rq_path = ps, rq_params = None, rq_body = None, rq_retry = None, rq_answer = a\<rparr>"

definition params :: "(string \<times> json) list \<Rightarrow> api_request \<Rightarrow> api_request" where
  "params qs r = r\<lparr>rq_params := Some qs\<rparr>"

definition given_params :: "(string \<times> json) list option \<Rightarrow> api_request \<Rightarrow> api_request" where
  "given_params qs r = r\<lparr>rq_params := qs\<rparr>"

text \<open>\<open>params or None\<close>\<close>

definition params_or_none :: "(string \<times> json) list \<Rightarrow> api_request \<Rightarrow> api_request" where
  "params_or_none qs r = r\<lparr>rq_params := (if qs = [] then None else Some qs)\<rparr>"

definition body :: "json \<Rightarrow> api_request \<Rightarrow> api_request" where
  "body j r = r\<lparr>rq_body := Some j\<rparr>"

definition body_or_none :: "(string \<times> json) list \<Rightarrow> api_request \<Rightarrow> api_request" where
  "body_or_none kvs r = r\<lparr>rq_body := (if kvs = [] then None else Some (JObj kvs))\<rparr>"

definition once :: "api_request \<Rightarrow> api_request" where
  "once r = r\<lparr>rq_retry := Some False\<rparr>"

definition retried :: "api_request \<Rightarrow> api_request" where
  "retried r = r\<lparr>rq_retry := Some True\<rparr>"

definition opt :: "string \<Rightarrow> ('a \<Rightarrow> json) \<Rightarrow> 'a option \<Rightarrow> (string \<times> json) list" where
  "opt k f x = (case x of None \<Rightarrow> [] | Some v \<Rightarrow> [(k, f v)])"

text \<open>\<open>if x: params[k] = x\<close>\<close>

definition given_text :: "string \<Rightarrow> string option \<Rightarrow> (string \<times> json) list" where
  "given_text k x = (case x of None \<Rightarrow> [] | Some v \<Rightarrow> if v = '''' then [] else [(k, JStr v)])"

definition flag :: "string \<Rightarrow> bool \<Rightarrow> (string \<times> json) list" where
  "flag k b = (if b then [(k, JStr ''true'')] else [])"

definition strings :: "string list \<Rightarrow> json" where
  "strings xs = JArr (map JStr xs)"

definition opt_null :: "('a \<Rightarrow> json) \<Rightarrow> 'a option \<Rightarrow> json" where
  "opt_null f x = (case x of None \<Rightarrow> JNull | Some v \<Rightarrow> f v)"

lemmas request_defs = req_def params_def given_params_def params_or_none_def body_def body_or_none_def once_def retried_def

lemma req_fields [simp]:
  "rq_method (req m ps a) = m" "rq_path (req m ps a) = ps" "rq_retry (req m ps a) = None"
  "rq_answer (req m ps a) = a"
  by (simp_all add: req_def)

lemma modifier_fields [simp]:
  "rq_method (params qs r) = rq_method r" "rq_path (params qs r) = rq_path r" "rq_retry (params qs r) = rq_retry r"
  "rq_method (given_params p r) = rq_method r" "rq_path (given_params p r) = rq_path r"
  "rq_retry (given_params p r) = rq_retry r" "rq_answer (given_params p r) = rq_answer r"
  "rq_method (params_or_none qs r) = rq_method r" "rq_path (params_or_none qs r) = rq_path r"
  "rq_retry (params_or_none qs r) = rq_retry r"
  "rq_method (body j r) = rq_method r" "rq_path (body j r) = rq_path r" "rq_retry (body j r) = rq_retry r"
  "rq_method (body_or_none kv r) = rq_method r" "rq_path (body_or_none kv r) = rq_path r"
  "rq_retry (body_or_none kv r) = rq_retry r"
  "rq_method (once r) = rq_method r" "rq_path (once r) = rq_path r" "rq_retry (once r) = Some False"
  "rq_method (retried r) = rq_method r" "rq_path (retried r) = rq_path r" "rq_retry (retried r) = Some True"
  "rq_answer (params qs r) = rq_answer r" "rq_answer (params_or_none qs r) = rq_answer r"
  "rq_answer (body j r) = rq_answer r" "rq_answer (body_or_none kv r) = rq_answer r"
  "rq_answer (once r) = rq_answer r" "rq_answer (retried r) = rq_answer r"
  by (simp_all add: request_defs)

text \<open>The validated answer: a validation error of pydantic is \<open>None\<close>.\<close>

definition request_list :: "(json \<Rightarrow> 'm option) \<Rightarrow> json \<Rightarrow> 'm list option" where
  "request_list validate payload =
     (let items = (case payload of JArr xs \<Rightarrow> xs | _ \<Rightarrow> [])
      in if \<forall>x\<in>set items. validate x \<noteq> None then Some (map (the \<circ> validate) items) else None)"

text \<open>How many times the transport may send it: downloads and uploads make one attempt.\<close>

definition single_shot :: "answer \<Rightarrow> bool" where
  "single_shot a \<longleftrightarrow> a \<in> {Bytes, BytesOrMissing, Uploaded}"

definition attempts_of :: "rat list \<Rightarrow> api_request \<Rightarrow> nat" where
  "attempts_of backoff r =
     (if single_shot (rq_answer r) then 1 else length (attempt_delays backoff (rq_method r) (rq_retry r)))"

definition perform ::
  "loom_config \<Rightarrow> problem_validator \<Rightarrow> rat list \<Rightarrow> bool \<Rightarrow> (nat \<Rightarrow> attempt) \<Rightarrow> rat \<Rightarrow> api_request
     \<Rightarrow> (loom_error + json) \<times> (rat \<times> rat) list \<times> rat" where
  "perform c vp backoff conn env now r =
     request c vp backoff conn env now (rq_method r) (render (rq_path r)) (rq_retry r)"

end
