(* ===== verification/Operations.thy ===== *)
theory Operations
  imports ApiCore
begin

text \<open>
  The operation classes (operations/*.py), one section of a class at a time: the calls a caller can
  make, as a datatype with the methods' arguments, and the request each one hands to the
  transport. An id put into a path without encoding is \<open>Raw\<close>. The bodies the classes build as
  request models are written out with their wire names; a model passed in by the caller is its
  JSON dump.
\<close>

section \<open>datapoints.py, custom_data_points.py\<close>

datatype dp_call =
    SetValue string int string json "string option"
  | BatchRead "(string \<times> int \<times> string) list"
  | GetParamset string string
  | PutParamset string string "(string \<times> json) list"

fun dp_request :: "dp_call \<Rightarrow> api_request" where
  "dp_request (SetValue a c p v prio) =
     retried (body (JObj ((''value'', v) # opt ''priority'' JStr prio))
       (req ''PUT'' [Lit ''devices'', Raw a, Lit ''channels'', Num c, Lit ''data-points'', Raw p, Lit ''value''] Ignored))"
| "dp_request (BatchRead qs) =
     retried (body (JObj [(''queries'', JArr (map (\<lambda>(a, c, p). JObj [(''address'', JStr a), (''channel'', JInt c),
         (''parameter'', JStr p)]) qs))])
       (req ''POST'' [Lit ''devices'', Lit ''values:batch''] Handed))"
| "dp_request (GetParamset a k) = req ''GET'' [Lit ''devices'', Raw a, Lit ''paramsets'', Raw k] Dict"
| "dp_request (PutParamset a k vs) =
     retried (body (JObj vs) (req ''PUT'' [Lit ''devices'', Raw a, Lit ''paramsets'', Raw k] Ignored))"

datatype cdp_call =
    ListForDevice string
  | GetCdp string string
  | Invoke string string string "(string \<times> json) list option" "string option"

fun cdp_request :: "cdp_call \<Rightarrow> api_request" where
  "cdp_request (ListForDevice a) = req ''GET'' [Lit ''devices'', Raw a, Lit ''cdps''] Models"
| "cdp_request (GetCdp a n) = req ''GET'' [Lit ''devices'', Raw a, Lit ''cdps'', Quoted n] Model"
| "cdp_request (Invoke a n oper ps prio) =
     once (body (JObj (opt ''params'' JObj ps @ opt ''priority'' JStr prio))
       (req ''POST'' [Lit ''devices'', Raw a, Lit ''cdps'', Quoted n, Quoted oper] Ignored))"

section \<open>hub.py\<close>

datatype program_call = ListPrograms | GetProgram string | ExecuteProgram string | SetProgramEnabled string bool

fun program_request :: "program_call \<Rightarrow> api_request" where
  "program_request ListPrograms = req ''GET'' [Lit ''programs''] Models"
| "program_request (GetProgram i) = req ''GET'' [Lit ''programs'', Quoted i] Model"
| "program_request (ExecuteProgram i) = once (req ''POST'' [Lit ''programs'', Raw i, Lit ''execute''] Ignored)"
| "program_request (SetProgramEnabled i b) =
     retried (body (JObj [(''active'', JBool b)]) (req ''PATCH'' [Lit ''programs'', Raw i] Ignored))"

datatype sysvar_call =
    ListSysvars
  | CreateSysvar string "json option" "string option" "string option" "string option" "string list option"
      "json option" "json option"
  | UpdateSysvarMetadata string "string option" "string option" "string option" "string option" "string list option"
  | GetSysvar string
  | SetSysvar string json
  | DeleteSysvar string
  | FetchSystemVariables "string option"

fun sysvar_request :: "sysvar_call \<Rightarrow> api_request" where
  "sysvar_request ListSysvars = req ''GET'' [Lit ''sysvars''] Models"
| "sysvar_request (CreateSysvar n v ty de un vl mn mx) =
     once (body (JObj ((''name'', JStr n) # opt ''value'' id v @ opt ''value_type'' JStr ty @ opt ''description'' JStr de
         @ opt ''unit'' JStr un @ opt ''value_list'' strings vl @ opt ''min'' id mn @ opt ''max'' id mx))
       (req ''POST'' [Lit ''sysvars''] Ignored))"
| "sysvar_request (UpdateSysvarMetadata n de un mn mx vl) =
     retried (body (JObj (opt ''description'' JStr de @ opt ''unit'' JStr un @ opt ''min'' JStr mn @ opt ''max'' JStr mx
         @ opt ''value_list'' strings vl))
       (req ''PATCH'' [Lit ''sysvars'', Quoted n] Ignored))"
| "sysvar_request (GetSysvar n) = req ''GET'' [Lit ''sysvars'', Quoted n] Model"
| "sysvar_request (SetSysvar n v) =
     retried (body (JObj [(''value'', v)]) (req ''PUT'' [Lit ''sysvars'', Quoted n] Ignored))"
| "sysvar_request (DeleteSysvar n) = req ''DELETE'' [Lit ''sysvars'', Quoted n] Ignored"
| "sysvar_request (FetchSystemVariables c) =
     once (params_or_none (opt ''central'' JStr c) (req ''POST'' [Lit ''sysvars'', Lit ''fetch''] Ignored))"

datatype message_call =
    ListAlarmMessages | AckAlarmMessage string | ListServiceMessages | AckServiceMessage string
  | ListRooms | ListFunctions

fun message_request :: "message_call \<Rightarrow> api_request" where
  "message_request ListAlarmMessages = req ''GET'' [Lit ''alarm-messages''] Models"
| "message_request (AckAlarmMessage i) = retried (req ''POST'' [Lit ''alarm-messages'', Raw i, Lit ''ack''] Ignored)"
| "message_request ListServiceMessages = req ''GET'' [Lit ''service-messages''] Models"
| "message_request (AckServiceMessage i) =
     retried (req ''POST'' [Lit ''service-messages'', Raw i, Lit ''ack''] Ignored)"
| "message_request ListRooms = req ''GET'' [Lit ''rooms''] Models"
| "message_request ListFunctions = req ''GET'' [Lit ''functions''] Models"

datatype area_call =
    ListAreas | CreateArea json | UpdateArea string json | DeleteArea string | ReplaceAreaRooms string "json list"
  | ListInbox | ListInboxDevices

fun area_request :: "area_call \<Rightarrow> api_request" where
  "area_request ListAreas = req ''GET'' [Lit ''areas''] Models"
| "area_request (CreateArea a) = once (body a (req ''POST'' [Lit ''areas''] Model))"
| "area_request (UpdateArea i a) = retried (body a (req ''PUT'' [Lit ''areas'', Quoted i] Ignored))"
| "area_request (DeleteArea i) = req ''DELETE'' [Lit ''areas'', Quoted i] Ignored"
| "area_request (ReplaceAreaRooms i rs) =
     retried (body (JArr rs) (req ''PUT'' [Lit ''areas'', Quoted i, Lit ''rooms''] Ignored))"
| "area_request ListInbox = req ''GET'' [Lit ''inbox''] Handed"
| "area_request ListInboxDevices = req ''GET'' [Lit ''inbox''] Models"

datatype install_call = ListInstallModeInterfaces | SetInstallModeInterface string bool int

fun install_request :: "install_call \<Rightarrow> api_request" where
  "install_request ListInstallModeInterfaces = req ''GET'' [Lit ''install-mode'', Lit ''interfaces''] Models"
| "install_request (SetInstallModeInterface i b n) =
     once (body (JObj [(''interface'', JStr i), (''active'', JBool b), (''seconds'', JInt n)])
       (req ''POST'' [Lit ''install-mode'', Lit ''interfaces''] Ignored))"

section \<open>system.py\<close>

datatype info_call = GetInfo | GetHealth | GetSystemDiagnostics | GetSnapshot "string option" bool "string option"

fun info_request :: "info_call \<Rightarrow> api_request" where
  "info_request GetInfo = req ''GET'' [Lit ''info''] Model"
| "info_request GetHealth = req ''GET'' [Lit ''health''] Model"
| "info_request GetSystemDiagnostics = req ''GET'' [Lit ''diagnostics''] Dict"
| "info_request (GetSnapshot include released central) =
     params_or_none (given_text ''include'' include @ flag ''released_only'' released @ given_text ''central'' central)
       (req ''GET'' [Lit ''snapshot''] Model)"

datatype update_call =
    ListInterfaces | ReconnectInterface string | GetSystemUpdate | InstallSystemUpdate "string option" bool
  | GetAddonUpdateStatus | CheckAddonUpdate | InstallAddonUpdate | GetHubMetrics | GetHubDataPoints

fun update_request :: "update_call \<Rightarrow> api_request" where
  "update_request ListInterfaces = req ''GET'' [Lit ''interfaces''] Models"
| "update_request (ReconnectInterface i) = once (req ''POST'' [Lit ''interfaces'', Raw i, Lit ''reconnect''] Ignored)"
| "update_request GetSystemUpdate = req ''GET'' [Lit ''system'', Lit ''update''] Models"
| "update_request (InstallSystemUpdate c backup) =
     once (params_or_none (given_text ''central'' c)
       (body_or_none (if backup then [(''backup_first'', JBool True)] else [])
         (req ''POST'' [Lit ''system'', Lit ''update'', Lit ''install''] Ignored)))"
| "update_request GetAddonUpdateStatus = req ''GET'' [Lit ''system'', Lit ''addon-update''] Model"
| "update_request CheckAddonUpdate = once (req ''POST'' [Lit ''system'', Lit ''addon-update'', Lit ''check''] Ignored)"
| "update_request InstallAddonUpdate = once (req ''POST'' [Lit ''system'', Lit ''addon-update'', Lit ''install''] Ignored)"
| "update_request GetHubMetrics = req ''GET'' [Lit ''system'', Lit ''metrics''] Models"
| "update_request GetHubDataPoints = req ''GET'' [Lit ''hub'', Lit ''data-points''] Models"

datatype ccu_call =
    ListSystemCcus | RebootCcu string | PoweroffCcu string | RestartCcuSafeMode string
  | RestartCcuRecoveryMode string | SetCcuPosition string rat rat

fun ccu_request :: "ccu_call \<Rightarrow> api_request" where
  "ccu_request ListSystemCcus = req ''GET'' [Lit ''system'', Lit ''ccu''] Handed"
| "ccu_request (RebootCcu c) = once (req ''POST'' [Lit ''system'', Lit ''ccu'', Quoted c, Lit ''reboot''] Ignored)"
| "ccu_request (PoweroffCcu c) = once (req ''POST'' [Lit ''system'', Lit ''ccu'', Quoted c, Lit ''poweroff''] Ignored)"
| "ccu_request (RestartCcuSafeMode c) =
     once (req ''POST'' [Lit ''system'', Lit ''ccu'', Quoted c, Lit ''safe-mode''] Ignored)"
| "ccu_request (RestartCcuRecoveryMode c) =
     once (req ''POST'' [Lit ''system'', Lit ''ccu'', Quoted c, Lit ''recovery-mode''] Ignored)"
| "ccu_request (SetCcuPosition c lon lat) =
     retried (body (JObj [(''longitude'', JFloat lon), (''latitude'', JFloat lat)])
       (req ''PUT'' [Lit ''system'', Lit ''ccu'', Quoted c, Lit ''position''] Ignored))"

datatype lifecycle_call = GetSystemStatus | Restart | GetStartupCapture | SetStartupCapture json

fun lifecycle_request :: "lifecycle_call \<Rightarrow> api_request" where
  "lifecycle_request GetSystemStatus = req ''GET'' [Lit ''system'', Lit ''status''] Dict"
| "lifecycle_request Restart = once (req ''POST'' [Lit ''system'', Lit ''restart''] Dict)"
| "lifecycle_request GetStartupCapture = req ''GET'' [Lit ''system'', Lit ''startup-capture''] Model"
| "lifecycle_request (SetStartupCapture c) =
     retried (body c (req ''PUT'' [Lit ''system'', Lit ''startup-capture''] Model))"

section \<open>devices.py\<close>

datatype device_read_call =
    ListDevices int int "string option" | GetDeviceDetail string | ListChannels string | ListDataPoints string int
  | GetDataPoint string int string | ListCalculated string int | GetCalculated string int string

fun device_read_request :: "device_read_call \<Rightarrow> api_request" where
  "device_read_request (ListDevices page per_page c) =
     params ([(''page'', JInt page), (''per_page'', JInt per_page)] @ given_text ''central'' c)
       (req ''GET'' [Lit ''devices''] Model)"
| "device_read_request (GetDeviceDetail a) = req ''GET'' [Lit ''devices'', Raw a] Model"
| "device_read_request (ListChannels a) = req ''GET'' [Lit ''devices'', Raw a, Lit ''channels''] Models"
| "device_read_request (ListDataPoints a c) =
     req ''GET'' [Lit ''devices'', Raw a, Lit ''channels'', Num c, Lit ''data-points''] Models"
| "device_read_request (GetDataPoint a c p) =
     req ''GET'' [Lit ''devices'', Raw a, Lit ''channels'', Num c, Lit ''data-points'', Raw p] Model"
| "device_read_request (ListCalculated a c) =
     req ''GET'' [Lit ''devices'', Raw a, Lit ''channels'', Num c, Lit ''calc-dps''] Models"
| "device_read_request (GetCalculated a c n) =
     req ''GET'' [Lit ''devices'', Raw a, Lit ''channels'', Num c, Lit ''calc-dps'', Raw n] Model"

datatype device_write_call =
    RefreshAll | ReloadDeviceConfig string | ReloadChannelConfig string int | ExportDeviceDefinition string
  | GetDeviceIcon string | PatchDevice string string | DeleteDevice string | UpdateFirmware string
  | RefreshFirmwareData

fun device_write_request :: "device_write_call \<Rightarrow> api_request" where
  "device_write_request RefreshAll = req ''POST'' [Lit ''devices'', Lit ''refresh''] Ignored"
| "device_write_request (ReloadDeviceConfig a) = req ''POST'' [Lit ''devices'', Raw a, Lit ''reload''] Ignored"
| "device_write_request (ReloadChannelConfig a c) =
     req ''POST'' [Lit ''devices'', Raw a, Lit ''channels'', Num c, Lit ''reload''] Ignored"
| "device_write_request (ExportDeviceDefinition a) =
     req ''GET'' [Lit ''devices'', Raw a, Lit ''export-definition''] Bytes"
| "device_write_request (GetDeviceIcon a) = req ''GET'' [Lit ''devices'', Raw a, Lit ''icon''] BytesOrMissing"
| "device_write_request (PatchDevice a n) =
     once (body (JObj [(''name'', JStr n)]) (req ''PATCH'' [Lit ''devices'', Raw a] Ignored))"
| "device_write_request (DeleteDevice a) = req ''DELETE'' [Lit ''devices'', Raw a] Ignored"
| "device_write_request (UpdateFirmware a) =
     once (req ''POST'' [Lit ''devices'', Raw a, Lit ''firmware'', Lit ''update''] Ignored)"
| "device_write_request RefreshFirmwareData =
     once (req ''POST'' [Lit ''devices'', Lit ''firmware'', Lit ''refresh''] Ignored)"

datatype device_config_call =
    AcceptDevice string "string option" "bool option" "string list option" "string list option"
  | ReleaseDevice string
  | GetUiSchema string int string "string option" string "bool option"
  | ExportChannelConfig string int string
  | ImportChannelConfig string int json

fun device_config_request :: "device_config_call \<Rightarrow> api_request" where
  "device_config_request (AcceptDevice a n inc rs fs) =
     once (body_or_none (opt ''name'' JStr n @ opt ''include_channels'' JBool inc @ opt ''rooms'' strings rs
         @ opt ''functions'' strings fs)
       (req ''POST'' [Lit ''devices'', Raw a, Lit ''accept''] Ignored))"
| "device_config_request (ReleaseDevice a) = once (req ''POST'' [Lit ''devices'', Raw a, Lit ''release''] Ignored)"
| "device_config_request (GetUiSchema a c ps peer loc expert) =
     params ([(''paramset'', JStr ps), (''locale'', JStr loc)] @ opt ''peer'' JStr peer @ opt ''expert'' JBool expert)
       (req ''GET'' [Lit ''devices'', Raw a, Lit ''channels'', Num c, Lit ''ui-schema''] Dict)"
| "device_config_request (ExportChannelConfig a c ps) =
     params [(''paramset'', JStr ps)]
       (req ''GET'' [Lit ''devices'', Raw a, Lit ''channels'', Num c, Lit ''config'', Lit ''export''] Model)"
| "device_config_request (ImportChannelConfig a c j) =
     once (body j (req ''POST'' [Lit ''devices'', Raw a, Lit ''channels'', Num c, Lit ''config'', Lit ''import''] Ignored))"

section \<open>alarm.py\<close>

datatype zone_call =
    GetZoneStatuses | ListPanels | GetZoneReadiness string | ListZones | GetZone string | CreateZone json
  | UpdateZone string json | DeleteZone string | ListZoneSensors string | ReplaceZoneSensors string "json list"
  | ListZoneOutputs string | ReplaceZoneOutputs string "json list"

definition zone_path :: "string \<Rightarrow> string list \<Rightarrow> part list" where
  "zone_path z rest = [Lit ''alarm'', Lit ''zones'', Quoted z] @ map Lit rest"

fun zone_request :: "zone_call \<Rightarrow> api_request" where
  "zone_request GetZoneStatuses = req ''GET'' [Lit ''alarm'', Lit ''state''] Handed"
| "zone_request ListPanels = req ''GET'' [Lit ''alarm'', Lit ''panels''] Models"
| "zone_request (GetZoneReadiness z) = req ''GET'' (zone_path z [''readiness'']) Handed"
| "zone_request ListZones = req ''GET'' [Lit ''alarm'', Lit ''zones''] Models"
| "zone_request (GetZone z) = req ''GET'' (zone_path z []) Model"
| "zone_request (CreateZone j) = once (body j (req ''POST'' [Lit ''alarm'', Lit ''zones''] Model))"
| "zone_request (UpdateZone z j) = retried (body j (req ''PUT'' (zone_path z []) Ignored))"
| "zone_request (DeleteZone z) = req ''DELETE'' (zone_path z []) Ignored"
| "zone_request (ListZoneSensors z) = req ''GET'' (zone_path z [''sensors'']) Models"
| "zone_request (ReplaceZoneSensors z js) =
     retried (body (JArr js) (req ''PUT'' (zone_path z [''sensors'']) Ignored))"
| "zone_request (ListZoneOutputs z) = req ''GET'' (zone_path z [''outputs'']) Models"
| "zone_request (ReplaceZoneOutputs z js) =
     retried (body (JArr js) (req ''PUT'' (zone_path z [''outputs'']) Ignored))"

text \<open>An incident id is a number or text; \<open>str\<close> of it goes into the path.\<close>

datatype candidate_call =
    ListOutputCandidates | ListRemoteKeyCandidates | ListSensorCandidates bool
  | ListAlarmIncidents string "int option" | GetIncident string

fun candidate_request :: "candidate_call \<Rightarrow> api_request" where
  "candidate_request ListOutputCandidates = req ''GET'' [Lit ''alarm'', Lit ''output-candidates''] Models"
| "candidate_request ListRemoteKeyCandidates = req ''GET'' [Lit ''alarm'', Lit ''remote-key-candidates''] Models"
| "candidate_request (ListSensorCandidates unenrolled) =
     params_or_none (if unenrolled then [(''enrolled'', JStr ''false'')] else [])
       (req ''GET'' [Lit ''alarm'', Lit ''sensor-candidates''] Models)"
| "candidate_request (ListAlarmIncidents z n) =
     params ([(''zone_id'', JStr z)] @ opt ''limit'' JInt n) (req ''GET'' [Lit ''alarm'', Lit ''incidents''] Models)"
| "candidate_request (GetIncident i) = req ''GET'' [Lit ''alarm'', Lit ''incidents'', Quoted i] Model"

datatype verb_call =
    ArmZone string string "bool option" "bool option" "string list option" "string option"
  | DisarmZone string "string option" | SilenceZone string "string option" | AcknowledgeZone string "string option"
  | SilenceAll

fun verb_request :: "verb_call \<Rightarrow> api_request" where
  "verb_request (ArmZone z m force skip bypass cd) =
     once (body (JObj ((''mode'', JStr m) # opt ''force'' JBool force @ opt ''skip_delay'' JBool skip
         @ opt ''bypass'' strings bypass @ opt ''code'' JStr cd))
       (req ''POST'' (zone_path z [''arm'']) Model))"
| "verb_request (DisarmZone z cd) =
     once (body (JObj (opt ''code'' JStr cd)) (req ''POST'' (zone_path z [''disarm'']) Ignored))"
| "verb_request (SilenceZone z cd) =
     once (body (JObj (opt ''code'' JStr cd)) (req ''POST'' (zone_path z [''silence'']) Ignored))"
| "verb_request (AcknowledgeZone z cd) =
     once (body (JObj (opt ''code'' JStr cd)) (req ''POST'' (zone_path z [''acknowledge'']) Ignored))"
| "verb_request SilenceAll = once (req ''POST'' [Lit ''alarm'', Lit ''silence-all''] Ignored)"

datatype motion_call =
    ListTriggeredMotion "string option" | ResetZoneMotion string | ResetAllMotion
  | ListJournal "string option" "string option" "string option" "string option" "int option"

text \<open>A time bound of the journal is given as its ISO text.\<close>

fun motion_request :: "motion_call \<Rightarrow> api_request" where
  "motion_request (ListTriggeredMotion z) =
     params_or_none (opt ''zone_id'' JStr z) (req ''GET'' [Lit ''alarm'', Lit ''triggered-motion''] Models)"
| "motion_request (ResetZoneMotion z) = once (req ''POST'' (zone_path z [''reset-motion'']) Model)"
| "motion_request ResetAllMotion = once (req ''POST'' [Lit ''alarm'', Lit ''reset-motion''] Model)"
| "motion_request (ListJournal z c f t n) =
     params_or_none (opt ''zone'' JStr z @ opt ''class'' JStr c @ opt ''from'' JStr f @ opt ''to'' JStr t @ opt ''limit'' JInt n)
       (req ''GET'' [Lit ''alarm'', Lit ''journal''] Models)"

datatype walktest_call =
    StartWalkTest string | StopWalkTest string | GetWalkTestStatus string | TestOutput string "bool option"
  | ListCodes | GetCode string | CreateCode json | UpdateCode string json | DeleteCode string

fun walktest_request :: "walktest_call \<Rightarrow> api_request" where
  "walktest_request (StartWalkTest z) = once (req ''POST'' (zone_path z [''walktest'', ''start'']) Ignored)"
| "walktest_request (StopWalkTest z) = retried (req ''POST'' (zone_path z [''walktest'', ''stop'']) Ignored)"
| "walktest_request (GetWalkTestStatus z) = req ''GET'' (zone_path z [''walktest'']) Model"
| "walktest_request (TestOutput i opti) =
     once (body (JObj (opt ''optical_only'' JBool opti))
       (req ''POST'' [Lit ''alarm'', Lit ''outputs'', Quoted i, Lit ''test''] Ignored))"
| "walktest_request ListCodes = req ''GET'' [Lit ''alarm'', Lit ''codes''] Models"
| "walktest_request (GetCode i) = req ''GET'' [Lit ''alarm'', Lit ''codes'', Quoted i] Model"
| "walktest_request (CreateCode j) = once (body j (req ''POST'' [Lit ''alarm'', Lit ''codes''] Model))"
| "walktest_request (UpdateCode i j) = retried (body j (req ''PUT'' [Lit ''alarm'', Lit ''codes'', Quoted i] Ignored))"
| "walktest_request (DeleteCode i) = req ''DELETE'' [Lit ''alarm'', Lit ''codes'', Quoted i] Ignored"

section \<open>links.py, schedules.py\<close>

text \<open>\<open>PutLinkParamset\<close> carries the edit token of its lock, if one was issued, as a header.\<close>

datatype link_call =
    ListLinks string string | AddLink string string string "string option" "string option" | RemoveLink string string string
  | GetLinkParamset string string | PutLinkParamset string string "(string \<times> json) list"
  | LinkableChannels string int string string string
  | GetCentralLinksStatus string | EnableCentralLinks string | DisableCentralLinks string

fun link_request :: "link_call \<Rightarrow> api_request" where
  "link_request (ListLinks a loc) = params [(''locale'', JStr loc)] (req ''GET'' [Lit ''devices'', Raw a, Lit ''links''] Models)"
| "link_request (AddLink a sndr rcv n de) =
     once (body (JObj ([(''sender_address'', JStr sndr), (''receiver_address'', JStr rcv)] @ opt ''name'' JStr n
         @ opt ''description'' JStr de))
       (req ''POST'' [Lit ''devices'', Raw a, Lit ''links''] Ignored))"
| "link_request (RemoveLink a sndr rcv) =
     retried (params [(''sender'', JStr sndr), (''receiver'', JStr rcv)] (req ''DELETE'' [Lit ''devices'', Raw a, Lit ''links''] Ignored))"
| "link_request (GetLinkParamset a p) = req ''GET'' [Lit ''devices'', Raw a, Lit ''link-ps'', Raw p] Dict"
| "link_request (PutLinkParamset a p vs) =
     retried (body (JObj vs) (req ''PUT'' [Lit ''devices'', Raw a, Lit ''link-ps'', Raw p] Ignored))"
| "link_request (LinkableChannels a c role i loc) =
     params [(''role'', JStr role), (''interface'', JStr i), (''locale'', JStr loc)]
       (req ''GET'' [Lit ''devices'', Raw a, Lit ''channels'', Num c, Lit ''linkable-channels''] Handed)"
| "link_request (GetCentralLinksStatus a) = req ''GET'' [Lit ''devices'', Raw a, Lit ''central-links''] Model"
| "link_request (EnableCentralLinks a) = once (req ''POST'' [Lit ''devices'', Raw a, Lit ''central-links''] Ignored)"
| "link_request (DisableCentralLinks a) = retried (req ''DELETE'' [Lit ''devices'', Raw a, Lit ''central-links''] Ignored)"

datatype channel_schedule_call =
    GetChannelWeekProfile string int | GetChannelSchedule string int | PutChannelSchedule string int json
  | SetChannelActiveProfile string int string | SetChannelLock string int string bool

fun channel_schedule_request :: "channel_schedule_call \<Rightarrow> api_request" where
  "channel_schedule_request (GetChannelWeekProfile a c) =
     req ''GET'' [Lit ''devices'', Raw a, Lit ''channels'', Num c, Lit ''week_profile''] Model"
| "channel_schedule_request (GetChannelSchedule a c) =
     req ''GET'' [Lit ''devices'', Raw a, Lit ''channels'', Num c, Lit ''schedule''] Model"
| "channel_schedule_request (PutChannelSchedule a c j) =
     retried (body j (req ''PUT'' [Lit ''devices'', Raw a, Lit ''channels'', Num c, Lit ''schedule''] Handed))"
| "channel_schedule_request (SetChannelActiveProfile a c p) =
     once (body (JObj [(''profile'', JStr p)])
       (req ''POST'' [Lit ''devices'', Raw a, Lit ''channels'', Num c, Lit ''schedule'', Lit ''active-profile''] Ignored))"
| "channel_schedule_request (SetChannelLock a c k b) =
     retried (body (JObj [(''enabled'', JBool b)])
       (req ''PUT'' [Lit ''devices'', Raw a, Lit ''channels'', Num c, Lit ''week_profile'', Lit ''channel-locks'', Raw k] Ignored))"

text \<open>\<open>address.rpartition(":")\<close>\<close>

definition rpartition_colon :: "string \<Rightarrow> string \<times> string" where
  "rpartition_colon s =
     (if CHR '':'' \<in> set s
      then (rev (tl (dropWhile (\<lambda>c. c \<noteq> CHR '':'') (rev s))), rev (takeWhile (\<lambda>c. c \<noteq> CHR '':'') (rev s)))
      else ('''', s))"

datatype device_schedule_call =
    GetDeviceSchedule string | PutDeviceSchedule string json | SetDeviceActiveProfile string string
  | CopySchedule string string | CopyClimateProfile string int string int

fun device_schedule_request :: "device_schedule_call \<Rightarrow> api_request" where
  "device_schedule_request (GetDeviceSchedule a) = req ''GET'' [Lit ''devices'', Raw a, Lit ''schedule''] Model"
| "device_schedule_request (PutDeviceSchedule a j) =
     retried (body j (req ''PUT'' [Lit ''devices'', Raw a, Lit ''schedule''] Handed))"
| "device_schedule_request (SetDeviceActiveProfile a p) =
     once (body (JObj [(''profile'', JStr p)])
       (req ''POST'' [Lit ''devices'', Raw a, Lit ''schedule'', Lit ''active-profile''] Ignored))"
| "device_schedule_request (CopySchedule src dst) =
     once (body (JObj [(''target_device_address'', JStr dst)])
       (req ''POST'' [Lit ''devices'', Raw src, Lit ''schedules'', Lit ''copy''] Ignored))"
| "device_schedule_request (CopyClimateProfile src sp dst dp) =
     once (body (JObj [(''source_profile'', JInt sp), (''target_channel_address'', JStr dst), (''target_profile'', JInt dp)])
       (req ''POST'' [Lit ''devices'', Raw (fst (rpartition_colon src)), Lit ''channels'', Raw (snd (rpartition_colon src)),
          Lit ''week_profile'', Lit ''copy''] Ignored))"

section \<open>diagnostics.py\<close>

text \<open>\<open>options or None\<close>\<close>

definition options :: "(string \<times> json) list option \<Rightarrow> (string \<times> json) list" where
  "options x = (case x of None \<Rightarrow> [] | Some kvs \<Rightarrow> kvs)"

datatype log_call =
    GetDiagnostics | GetWiring | GetLogLevel | SetLogLevel string | GetLogLevels | SetLogLevelOverride string string
  | RemoveLogLevelOverride string | GetLogs "(string \<times> json) list option"

fun log_request :: "log_call \<Rightarrow> api_request" where
  "log_request GetDiagnostics = req ''GET'' [Lit ''diagnostics''] Dict"
| "log_request GetWiring = req ''GET'' [Lit ''diagnostics'', Lit ''wiring''] Handed"
| "log_request GetLogLevel = req ''GET'' [Lit ''diagnostics'', Lit ''log-level''] Dict"
| "log_request (SetLogLevel l) =
     retried (body (JObj [(''level'', JStr l)]) (req ''PUT'' [Lit ''diagnostics'', Lit ''log-level''] Dict))"
| "log_request GetLogLevels = req ''GET'' [Lit ''diagnostics'', Lit ''log-levels''] Dict"
| "log_request (SetLogLevelOverride p l) =
     retried (body (JObj [(''level'', JStr l)]) (req ''PUT'' [Lit ''diagnostics'', Lit ''log-levels'', Raw p] Ignored))"
| "log_request (RemoveLogLevelOverride p) = req ''DELETE'' [Lit ''diagnostics'', Lit ''log-levels'', Raw p] Ignored"
| "log_request (GetLogs qs) =
     given_params qs (req ''GET'' [Lit ''diagnostics'', Lit ''logs''] Dict)"

datatype capture_call =
    StartCapture "(string \<times> json) list option" | ListCaptures | GetCapture string | StopCapture string
  | DownloadCapture string | StartRpcRecording "(string \<times> json) list option" | ListRpcRecordings
  | StopRpcRecording "(string \<times> json) list option" | DownloadRpcRecording string

fun capture_request :: "capture_call \<Rightarrow> api_request" where
  "capture_request (StartCapture os) =
     once (body_or_none (options os) (req ''POST'' [Lit ''diagnostics'', Lit ''capture''] Dict))"
| "capture_request ListCaptures = req ''GET'' [Lit ''diagnostics'', Lit ''capture''] Dict"
| "capture_request (GetCapture i) = req ''GET'' [Lit ''diagnostics'', Lit ''capture'', Raw i] Dict"
| "capture_request (StopCapture i) = once (req ''POST'' [Lit ''diagnostics'', Lit ''capture'', Raw i, Lit ''stop''] Dict)"
| "capture_request (DownloadCapture i) = req ''GET'' [Lit ''diagnostics'', Lit ''capture'', Raw i, Lit ''download''] Bytes"
| "capture_request (StartRpcRecording os) =
     once (body_or_none (options os) (req ''POST'' [Lit ''diagnostics'', Lit ''rpc-recording''] Handed))"
| "capture_request ListRpcRecordings = req ''GET'' [Lit ''diagnostics'', Lit ''rpc-recording''] Handed"
| "capture_request (StopRpcRecording os) =
     once (body_or_none (options os) (req ''POST'' [Lit ''diagnostics'', Lit ''rpc-recording'', Lit ''stop''] Handed))"
| "capture_request (DownloadRpcRecording c) =
     req ''GET'' [Lit ''diagnostics'', Lit ''rpc-recording'', Raw c, Lit ''download''] Bytes"

datatype cache_call =
    ClearCache string | ClearIncidents | ListIncidents | GetMetrics | GetValuesCacheStats | ResetValuesCache
  | ResetDeviceValuesCache string | ReloadMqtt | ListAudit

fun cache_request :: "cache_call \<Rightarrow> api_request" where
  "cache_request (ClearCache k) =
     once (body (JObj [(''kind'', JStr k)]) (req ''POST'' [Lit ''admin'', Lit ''cache'', Lit ''clear''] Ignored))"
| "cache_request ClearIncidents = retried (req ''DELETE'' [Lit ''incidents''] Ignored)"
| "cache_request ListIncidents = req ''GET'' [Lit ''incidents''] Dict"
| "cache_request GetMetrics = req ''GET'' [Lit ''metrics''] Bytes"
| "cache_request GetValuesCacheStats = req ''GET'' [Lit ''admin'', Lit ''values-cache'', Lit ''stats''] Model"
| "cache_request ResetValuesCache = once (req ''POST'' [Lit ''admin'', Lit ''values-cache'', Lit ''reset''] Ignored)"
| "cache_request (ResetDeviceValuesCache a) =
     once (req ''POST'' [Lit ''devices'', Raw a, Lit ''values-cache'', Lit ''reset''] Ignored)"
| "cache_request ReloadMqtt = once (req ''POST'' [Lit ''admin'', Lit ''mqtt'', Lit ''reload''] Model)"
| "cache_request ListAudit = req ''GET'' [Lit ''audit''] Models"

section \<open>security.py, backup.py, sessions.py, visibility.py, warnings.py, i18n.py\<close>

datatype security_call =
    GetSecuritySnapshot | GetClass string
  | ListSources "string option" "string option" "string option" bool bool
  | SetSourceOverride string json | ListFaults | AcknowledgeFault string

fun security_request :: "security_call \<Rightarrow> api_request" where
  "security_request GetSecuritySnapshot = req ''GET'' [Lit ''security''] Model"
| "security_request (GetClass c) = req ''GET'' [Lit ''security'', Lit ''classes'', Quoted c] Model"
| "security_request (ListSources cl ce z rel act) =
     params_or_none (opt ''class'' JStr cl @ opt ''central'' JStr ce @ opt ''zone_id'' JStr z @ flag ''relevant'' rel
         @ flag ''active'' act)
       (req ''GET'' [Lit ''security'', Lit ''sources''] Models)"
| "security_request (SetSourceOverride r j) =
     retried (body j (req ''PUT'' [Lit ''security'', Lit ''sources'', Quoted r] Ignored))"
| "security_request ListFaults = req ''GET'' [Lit ''security'', Lit ''faults''] Models"
| "security_request (AcknowledgeFault i) =
     once (req ''POST'' [Lit ''security'', Lit ''faults'', Quoted i, Lit ''acknowledge''] Ignored)"

datatype backup_call =
    TriggerBackup | ListBackups | GetStorageInfo | DownloadBackup string | UploadBackup string string
  | DeleteBackup string | RestoreBackup string

fun backup_request :: "backup_call \<Rightarrow> api_request" where
  "backup_request TriggerBackup = once (req ''POST'' [Lit ''backups''] Dict)"
| "backup_request ListBackups = req ''GET'' [Lit ''backups''] Handed"
| "backup_request GetStorageInfo = req ''GET'' [Lit ''backups'', Lit ''storage''] Handed"
| "backup_request (DownloadBackup i) = req ''GET'' [Lit ''backups'', Raw i, Lit ''download''] Bytes"
| "backup_request (UploadBackup content filename) = req ''POST'' [Lit ''backups'', Lit ''upload''] Uploaded"
| "backup_request (DeleteBackup i) = req ''DELETE'' [Lit ''backups'', Raw i] Ignored"
| "backup_request (RestoreBackup i) = once (req ''POST'' [Lit ''backups'', Raw i, Lit ''restore''] Ignored)"

datatype session_call = Acquire string "string option" | Release string string | SessionHeartbeat string string | TakeOver string

fun session_request :: "session_call \<Rightarrow> api_request" where
  "session_request (Acquire k s) =
     once (body (JObj ((''key'', JStr k) # opt ''subject'' JStr s)) (req ''POST'' [Lit ''sessions'', Lit ''edit''] Dict))"
| "session_request (Release k t) =
     body (JObj [(''key'', JStr k), (''token'', JStr t)]) (req ''DELETE'' [Lit ''sessions'', Lit ''edit''] Ignored)"
| "session_request (SessionHeartbeat k t) =
     once (body (JObj [(''key'', JStr k), (''token'', JStr t)])
       (req ''POST'' [Lit ''sessions'', Lit ''edit'', Lit ''heartbeat''] Dict))"
| "session_request (TakeOver k) =
     once (body (JObj [(''key'', JStr k)]) (req ''POST'' [Lit ''sessions'', Lit ''edit'', Lit ''take-over''] Ignored))"

datatype visibility_call = GetUnignore | PutUnignore json | GetUnignoreCandidates

fun visibility_request :: "visibility_call \<Rightarrow> api_request" where
  "visibility_request GetUnignore = req ''GET'' [Lit ''visibility'', Lit ''unignore''] Model"
| "visibility_request (PutUnignore j) = retried (body j (req ''PUT'' [Lit ''visibility'', Lit ''unignore''] Model))"
| "visibility_request GetUnignoreCandidates = req ''GET'' [Lit ''visibility'', Lit ''unignore'', Lit ''candidates''] Model"

datatype warning_call = ListWarnings | SilenceWarning string int | UnsilenceWarning string

fun warning_request :: "warning_call \<Rightarrow> api_request" where
  "warning_request ListWarnings = req ''GET'' [Lit ''warnings''] Handed"
| "warning_request (SilenceWarning i days) =
     retried (body (JObj [(''days'', JInt days)]) (req ''PUT'' [Lit ''warnings'', Quoted i, Lit ''silence''] Ignored))"
| "warning_request (UnsilenceWarning i) = retried (req ''DELETE'' [Lit ''warnings'', Quoted i, Lit ''silence''] Ignored)"

definition i18n_request :: "string option \<Rightarrow> api_request" where
  "i18n_request loc = params_or_none (given_text ''locale'' loc) (req ''GET'' [Lit ''i18n'', Lit ''entities''] Model)"

section \<open>All calls\<close>

datatype api_call =
    Dp dp_call | Cdp cdp_call | Prog program_call | Sysvar sysvar_call | Message message_call | Area area_call
  | Install install_call | Info info_call | Update update_call | Ccu ccu_call | Lifecycle lifecycle_call
  | DeviceRead device_read_call | DeviceWrite device_write_call | DeviceConfig device_config_call | Zone zone_call
  | Candidate candidate_call | Verb verb_call | Motion motion_call | Walktest walktest_call | Link link_call
  | ChannelSchedule channel_schedule_call | DeviceSchedule device_schedule_call | Log log_call | Capture capture_call
  | Cache cache_call | Security security_call | Backup backup_call | Session session_call
  | Visibility visibility_call | Warning warning_call | I18n "string option"

fun request_of :: "api_call \<Rightarrow> api_request" where
  "request_of (Dp c) = dp_request c"
| "request_of (Cdp c) = cdp_request c"
| "request_of (Prog c) = program_request c"
| "request_of (Sysvar c) = sysvar_request c"
| "request_of (Message c) = message_request c"
| "request_of (Area c) = area_request c"
| "request_of (Install c) = install_request c"
| "request_of (Info c) = info_request c"
| "request_of (Update c) = update_request c"
| "request_of (Ccu c) = ccu_request c"
| "request_of (Lifecycle c) = lifecycle_request c"
| "request_of (DeviceRead c) = device_read_request c"
| "request_of (DeviceWrite c) = device_write_request c"
| "request_of (DeviceConfig c) = device_config_request c"
| "request_of (Zone c) = zone_request c"
| "request_of (Candidate c) = candidate_request c"
| "request_of (Verb c) = verb_request c"
| "request_of (Motion c) = motion_request c"
| "request_of (Walktest c) = walktest_request c"
| "request_of (Link c) = link_request c"
| "request_of (ChannelSchedule c) = channel_schedule_request c"
| "request_of (DeviceSchedule c) = device_schedule_request c"
| "request_of (Log c) = log_request c"
| "request_of (Capture c) = capture_request c"
| "request_of (Cache c) = cache_request c"
| "request_of (Security c) = security_request c"
| "request_of (Backup c) = backup_request c"
| "request_of (Session c) = session_request c"
| "request_of (Visibility c) = visibility_request c"
| "request_of (Warning c) = warning_request c"
| "request_of (I18n c) = i18n_request c"

end
