(* ===== verification/OpsProps.thy ===== *)
theory OpsProps
  imports Operations StoreData
begin

text \<open>
  What holds of the requests the operation classes send: which are sent again after a failure, what a
  server reads in their paths, and the operations that are more than one request: the paged
  device listing, the batch read, the locked link write and the correction of a written schedule.
\<close>

section \<open>Re-sending\<close>

text \<open>The POST and PATCH calls whose repetition is harmless and which the classes let the transport re-send.\<close>

fun resend_safe :: "api_call \<Rightarrow> bool" where
  "resend_safe (Dp (BatchRead _)) = True"
| "resend_safe (Prog (SetProgramEnabled _ _)) = True"
| "resend_safe (Sysvar (UpdateSysvarMetadata _ _ _ _ _ _)) = True"
| "resend_safe (Message (AckAlarmMessage _)) = True"
| "resend_safe (Message (AckServiceMessage _)) = True"
| "resend_safe (Walktest (StopWalkTest _)) = True"
| "resend_safe _ = False"

lemma resend_methods:
  "(upper ''GET'' \<in> set retry_safe_methods) = True" "(upper ''PUT'' \<in> set retry_safe_methods) = True"
  "(upper ''DELETE'' \<in> set retry_safe_methods) = True" "(upper ''POST'' \<in> set retry_safe_methods) = False"
  by (simp_all add: upper_def upper_char_def retry_safe_methods_def)

definition method_resent :: "api_request \<Rightarrow> bool" where
  "method_resent r \<longleftrightarrow>
     \<not> single_shot (rq_answer r) \<and> (case rq_retry r of Some b \<Rightarrow> b | None \<Rightarrow> upper (rq_method r) \<in> set retry_safe_methods)"

lemma attempts_of_resent: "attempts_of backoff r = (if method_resent r then Suc (length backoff) else 1)"
  by (simp add: attempts_of_def method_resent_def attempt_delays_def)

definition idempotent_verb :: "api_request \<Rightarrow> bool" where
  "idempotent_verb r \<longleftrightarrow> rq_method r \<in> {''GET'', ''PUT'', ''DELETE''}"

lemmas section_eval = method_resent_def single_shot_def idempotent_verb_def resend_methods zone_path_def i18n_request_def

lemma resent_iff:
  "method_resent (request_of c) \<longleftrightarrow>
     \<not> single_shot (rq_answer (request_of c)) \<and> (idempotent_verb (request_of c) \<or> resend_safe c)"
  by (cases c; simp only: request_of.simps; rename_tac d; case_tac d; simp add: section_eval)

text \<open>Which parts of the paths are put in without encoding.\<close>

fun raw_text :: "part \<Rightarrow> string list" where
  "raw_text (Raw s) = [s]"
| "raw_text _ = []"

definition raw_ids :: "api_call \<Rightarrow> string list" where
  "raw_ids c = concat (map raw_text (rq_path (request_of c)))"

definition plain_id :: "string \<Rightarrow> bool" where
  "plain_id s \<longleftrightarrow> CHR ''/'' \<notin> set s \<and> CHR ''%'' \<notin> set s"

definition literals_clean :: "part list \<Rightarrow> bool" where
  "literals_clean ps \<longleftrightarrow> (\<forall>p\<in>set ps. case p of Lit s \<Rightarrow> plain_id s | _ \<Rightarrow> True)"

lemma literals_clean: "literals_clean (rq_path (request_of c))"
  by (cases c; simp only: request_of.simps; rename_tac d; case_tac d; simp add: zone_path_def i18n_request_def literals_clean_def plain_id_def)

lemma path_clean: "\<forall>s\<in>set (raw_ids c). plain_id s \<Longrightarrow> list_all clean (rq_path (request_of c))"
proof -
  assume raw: "\<forall>s\<in>set (raw_ids c). plain_id s"
  have "clean p" if "p \<in> set (rq_path (request_of c))" for p
    using literals_clean [of c] raw that
    by (cases p) (force simp: literals_clean_def raw_ids_def plain_id_def)+
  then show ?thesis by (simp add: list_all_iff)
qed

text \<open>Fact: what the transport re-sends after a retryable failure. For every call of every operation class:
  downloads and the upload are attempted once; every GET, PUT and DELETE may be sent once more per
  backoff step; of the POST and PATCH calls only those in \<open>resend_safe\<close> are, so arming, running a
  program, invoking a custom data point, a firmware update, a reboot, a restore and the rest are
  sent at most once, whatever the network does.\<close>

theorem call_attempts:
  "attempts_of backoff (request_of c) =
     (if \<not> single_shot (rq_answer (request_of c)) \<and> (idempotent_verb (request_of c) \<or> resend_safe c)
      then Suc (length backoff) else 1)
   \<and> length (fst (snd (perform cfg vp backoff conn env now (request_of c))))
       \<le> length (attempt_delays backoff (rq_method (request_of c)) (rq_retry (request_of c)))"
proof
  show "attempts_of backoff (request_of c) =
     (if \<not> single_shot (rq_answer (request_of c)) \<and> (idempotent_verb (request_of c) \<or> resend_safe c)
      then Suc (length backoff) else 1)"
    by (simp add: attempts_of_resent resent_iff)
  show "length (fst (snd (perform cfg vp backoff conn env now (request_of c))))
       \<le> length (attempt_delays backoff (rq_method (request_of c)) (rq_retry (request_of c)))"
    by (simp add: perform_def request_def attempt_loop_length)
qed

text \<open>Fact: a percent-encoded id stays within its segment of a call's path: the path, cut at its slashes,
  has one segment per part of the call, and each decodes to the part, provided the ids that are put
  in unencoded have neither a slash nor a percent sign.\<close>

theorem call_path_decodes:
  assumes "\<forall>s\<in>set (raw_ids c). plain_id s"
  shows "map unquote (tl (split_slash (render (rq_path (request_of c))))) = map meant (rq_path (request_of c))"
  by (rule render_decoded [OF path_clean [OF assms]])

theorem call_path_decodes_witness:
  "map unquote (tl (split_slash (render (rq_path (request_of (Prog (GetProgram ''a/b 1%''))))))) = [''programs'', ''a/b 1%'']"
  using call_path_decodes [of "Prog (GetProgram ''a/b 1%'')"] by (simp add: raw_ids_def)

text \<open>Fact: a program id is encoded when the program is read and not when it is executed: the id of a read
  is one segment, whatever it is, and an executed id with a slash is two.\<close>

theorem program_id_encoding:
  "split_slash (render (rq_path (request_of (Prog (GetProgram i))))) = ['''', ''programs'', quote i]
   \<and> unquote (quote i) = i
   \<and> split_slash (render (rq_path (request_of (Prog (ExecuteProgram ''a/b''))))) = ['''', ''programs'', ''a'', ''b'', ''execute'']"
proof -
  have "split_slash (render (rq_path (request_of (Prog (GetProgram i))))) = ['''', ''programs'', quote i]"
    using split_render [of "rq_path (request_of (Prog (GetProgram i)))"] by simp
  moreover have "unquote (quote i) = i" using part_text_meant [of "Quoted i"] by simp
  ultimately show ?thesis by (simp add: render_def)
qed

section \<open>Answers\<close>

text \<open>Python's truth of a decoded value, and iteration over one: \<open>None\<close> where it raises.\<close>

fun falsy :: "json \<Rightarrow> bool" where
  "falsy JNull = True"
| "falsy (JBool b) = (\<not> b)"
| "falsy (JInt i) = (i = 0)"
| "falsy (JFloat r) = (r = 0)"
| "falsy (JStr s) = (s = [])"
| "falsy (JArr xs) = (xs = [])"
| "falsy (JObj kvs) = (kvs = [])"

fun iterate :: "json \<Rightarrow> json list option" where
  "iterate (JArr xs) = Some xs"
| "iterate (JStr s) = Some (map (\<lambda>c. JStr [c]) s)"
| "iterate (JObj kvs) = Some (map (JStr \<circ> fst) kvs)"
| "iterate _ = None"

definition iterate_or_empty :: "json \<Rightarrow> json list option" where
  "iterate_or_empty j = (if falsy j then Some [] else iterate j)"

definition zones_of :: "json \<Rightarrow> json list option" where
  "zones_of payload = (case payload of JObj kvs \<Rightarrow> iterate_or_empty (obj_get kvs ''zones'') | _ \<Rightarrow> Some [])"

definition with_features_default :: "json \<Rightarrow> json" where
  "with_features_default e =
     (case e of JObj kvs \<Rightarrow> if dict_get kvs ''features'' = None then JObj (dict_put ''features'' (JObj []) kvs) else e
      | _ \<Rightarrow> e)"

definition ccu_entries :: "json \<Rightarrow> json list option" where
  "ccu_entries payload = map_option (map with_features_default)
     (case payload of
        JObj kvs \<Rightarrow> (case dict_get kvs ''entries'' of None \<Rightarrow> Some [] | Some es \<Rightarrow> iterate es)
      | _ \<Rightarrow> iterate_or_empty payload)"

text \<open>\<open>get_wiring\<close> keeps the objects of a list and drops everything else.\<close>

definition wiring_entries :: "json \<Rightarrow> (string, json) dict list" where
  "wiring_entries payload =
     (case payload of JArr xs \<Rightarrow> concat (map (\<lambda>x. case x of JObj kvs \<Rightarrow> [kvs] | _ \<Rightarrow> []) xs) | _ \<Rightarrow> [])"

text \<open>
  \<open>batch_read\<close>: each usable item of the answer under its identifier triple, an error in place of
  the value where the daemon reports one. An item without a summary object leaves no entry. The
  identifiers are taken to be text and integers, so that they compare as dictionary keys do.
\<close>

type_synonym batch_key = "json \<times> json \<times> json"

definition batch_item :: "json \<Rightarrow> (batch_key, json) dict \<Rightarrow> (batch_key, json) dict" where
  "batch_item item out =
     (case item of
        JObj kvs \<Rightarrow>
          (let a = obj_get kvs ''address''; c = obj_get kvs ''channel''; p = obj_get kvs ''parameter''
           in if a = JNull \<or> c = JNull \<or> p = JNull then out
              else if \<not> falsy (obj_get kvs ''error'') then dict_put (a, c, p) (JObj [(''error'', obj_get kvs ''error'')]) out
              else (case obj_get kvs ''summary'' of
                      JObj sm \<Rightarrow> dict_put (a, c, p) (obj_get sm ''value'') out
                    | _ \<Rightarrow> out))
      | _ \<Rightarrow> out)"

definition batch_results :: "json \<Rightarrow> json list option" where
  "batch_results payload =
     (case payload of
        JObj kvs \<Rightarrow> (case dict_get kvs ''results'' of None \<Rightarrow> Some [] | Some r \<Rightarrow> iterate r)
      | JArr xs \<Rightarrow> Some xs | _ \<Rightarrow> Some [])"

definition batch_read :: "json \<Rightarrow> (batch_key, json) dict option" where
  "batch_read payload = map_option (\<lambda>items. fold batch_item items []) (batch_results payload)"

text \<open>\<open>get_device_icon\<close>: a 404 is the ordinary answer for a model without artwork.\<close>

definition device_icon :: "(loom_error + string) \<Rightarrow> loom_error + string option" where
  "device_icon r =
     (case r of Inr b \<Rightarrow> Inr (Some b)
      | Inl e \<Rightarrow> (case e of HttpError _ d \<Rightarrow> if http_status d = 404 then Inr None else Inl e | _ \<Rightarrow> Inl e))"

section \<open>The paged device listing\<close>

record page =
  pg_items :: "device_summary list"
  pg_total :: int

text \<open>\<open>iter_all_devices\<close>: \<open>chunk n\<close> is the answer to the request for page \<open>n\<close>. The loop may run for ever.\<close>

partial_function (option) iter_pages ::
  "(nat \<Rightarrow> 'e + page) \<Rightarrow> nat \<Rightarrow> device_summary list \<Rightarrow> ('e + device_summary list) option" where
  "iter_pages chunk n out =
     (case chunk n of
        Inl e \<Rightarrow> Some (Inl e)
      | Inr p \<Rightarrow>
          (let out' = out @ pg_items p
           in if pg_total p \<le> int (length out') \<or> pg_items p = [] then Some (Inr out')
              else iter_pages chunk (n + 1) out'))"

definition iter_all_devices :: "(nat \<Rightarrow> 'e + page) \<Rightarrow> ('e + device_summary list) option" where
  "iter_all_devices chunk = iter_pages chunk 1 []"

lemma iter_pages_step:
  "chunk n = Inr p \<Longrightarrow> \<not> (pg_total p \<le> int (length (out @ pg_items p)) \<or> pg_items p = []) \<Longrightarrow>
     iter_pages chunk n out = iter_pages chunk (n + 1) (out @ pg_items p)"
  "chunk n = Inr p \<Longrightarrow> pg_total p \<le> int (length (out @ pg_items p)) \<or> pg_items p = [] \<Longrightarrow>
     iter_pages chunk n out = Some (Inr (out @ pg_items p))"
  "chunk n = Inl e \<Longrightarrow> iter_pages chunk n out = Some (Inl e)"
  by (subst iter_pages.simps; simp)+

lemma iter_pages_returns:
  assumes "\<forall>n p. chunk n = Inr p \<longrightarrow> pg_total p \<le> bound"
  shows "iter_pages chunk n out \<noteq> None"
proof (induction "nat (bound - int (length out))" arbitrary: n out rule: less_induct)
  case less
  show ?case
  proof (cases "chunk n")
    case (Inl e)
    then show ?thesis by (simp add: iter_pages_step(3))
  next
    case (Inr p)
    show ?thesis
    proof (cases "pg_total p \<le> int (length (out @ pg_items p)) \<or> pg_items p = []")
      case True
      with Inr show ?thesis by (simp add: iter_pages_step(2))
    next
      case False
      have "pg_total p \<le> bound" using assms Inr by blast
      moreover have "length out < length (out @ pg_items p)" using False by simp
      ultimately have "nat (bound - int (length (out @ pg_items p))) < nat (bound - int (length out))"
        using False by linarith
      from less [OF this] show ?thesis using Inr False by (simp only: iter_pages_step(1) not_False_eq_True)
    qed
  qed
qed

text \<open>A daemon that serves one listing, \<open>per\<close> devices a page.\<close>

definition serves :: "device_summary list \<Rightarrow> nat \<Rightarrow> (nat \<Rightarrow> 'e + page) \<Rightarrow> bool" where
  "serves xs per chunk \<longleftrightarrow>
     (\<forall>k. chunk (Suc k) = Inr \<lparr>pg_items = take per (drop (k * per) xs), pg_total = int (length xs)\<rparr>)"

lemma iter_pages_serves:
  assumes "serves xs per chunk" and "0 < per"
  shows "iter_pages chunk (Suc k) (take (k * per) xs) = Some (Inr xs)"
proof (induction "length xs - k * per" arbitrary: k rule: less_induct)
  case less
  let ?p = "\<lparr>pg_items = take per (drop (k * per) xs), pg_total = int (length xs)\<rparr>"
  have chunk: "chunk (Suc k) = Inr ?p" using assms(1) by (simp add: serves_def)
  have next_out: "take (k * per) xs @ pg_items ?p = take (Suc k * per) xs"
    by (simp add: take_add [symmetric] add.commute)
  show ?case
  proof (cases "length xs \<le> Suc k * per")
    case True
    then have "take (Suc k * per) xs = xs" by simp
    then show ?thesis using iter_pages_step(2) [of chunk "Suc k" ?p "take (k * per) xs"] chunk next_out by simp
  next
    case False
    then have "length xs - Suc k * per < length xs - k * per" using assms(2) by simp
    moreover have "\<not> (pg_total ?p \<le> int (length (take (k * per) xs @ pg_items ?p)) \<or> pg_items ?p = [])"
    proof -
      have "length (take (Suc k * per) xs) < length xs" using False by simp
      then have "\<not> pg_total ?p \<le> int (length (take (k * per) xs @ pg_items ?p))"
        by (subst next_out) (simp only: page.simps not_le of_nat_less_iff)
      moreover have "k * per < length xs" using False by simp
      then have "pg_items ?p \<noteq> []" using assms(2) by simp
      ultimately show ?thesis by blast
    qed
    ultimately show ?thesis
      using less [of "Suc k"] iter_pages_step(1) [of chunk "Suc k" ?p "take (k * per) xs"] chunk next_out by simp
  qed
qed

text \<open>C19: the paged listing ends and is complete. If the totals the daemon reports stay below some bound, the
  loop returns, whatever the pages hold; and against a daemon that serves one listing in pages of a
  positive size, it returns exactly that listing, in order.\<close>

theorem iter_all_devices_total:
  assumes "\<forall>n p. chunk n = Inr p \<longrightarrow> pg_total p \<le> bound"
  shows "(\<exists>r. iter_all_devices chunk = Some r)
    \<and> (\<forall>xs per. 0 < per \<and> serves xs per chunk \<longrightarrow> iter_all_devices chunk = Some (Inr xs))"
proof (intro conjI allI impI)
  show "\<exists>r. iter_all_devices chunk = Some r"
    using iter_pages_returns [OF assms, of 1 "[]"] by (auto simp: iter_all_devices_def)
  show "iter_all_devices chunk = Some (Inr xs)" if "0 < per \<and> serves xs per chunk" for xs per
    using iter_pages_serves [of xs per chunk 0] that by (simp add: iter_all_devices_def)
qed

theorem iter_all_devices_total_witness:
  "\<forall>d e. iter_all_devices (\<lambda>n. if n = 1 then Inr \<lparr>pg_items = [d], pg_total = 2\<rparr>
     else if n = 2 then Inr \<lparr>pg_items = [e], pg_total = 2\<rparr> else (Inl () :: unit + page)) \<noteq> None"
proof (intro allI)
  fix d e
  let ?chunk = "\<lambda>n. if n = 1 then Inr \<lparr>pg_items = [d], pg_total = 2\<rparr>
     else if n = 2 then Inr \<lparr>pg_items = [e], pg_total = 2\<rparr> else (Inl () :: unit + page)"
  have "\<forall>n p. ?chunk n = Inr p \<longrightarrow> pg_total p \<le> 2" by auto
  from iter_all_devices_total [OF this] show "iter_all_devices ?chunk \<noteq> None" by auto
qed

section \<open>Writing a LINK paramset behind its edit lock\<close>

text \<open>
  How an awaited request ends: with an answer, a library exception, or a task cancellation, which no
  handler for library exceptions stops. A token is text, as the daemon issues it.
\<close>

datatype fault = LoomFault loom_error | Cancelled

definition lock_key :: "string \<Rightarrow> string \<Rightarrow> string" where
  "lock_key addr peer = ''channel:'' @ addr @ '':LINK:'' @ peer"

definition lock_token :: "(string, json) dict \<Rightarrow> string option" where
  "lock_token session = (case obj_get session ''token'' of JStr t \<Rightarrow> if t = '''' then None else Some t | _ \<Rightarrow> None)"

definition put_link_paramset ::
  "string \<Rightarrow> string \<Rightarrow> (string \<times> json) list \<Rightarrow> fault + (string, json) dict \<Rightarrow> fault + unit \<Rightarrow> fault + unit
     \<Rightarrow> (fault + unit) \<times> (api_call \<times> string option) list" where
  "put_link_paramset addr peer vs acquired written released =
     (let acquire = (Session (Acquire (lock_key addr peer) None), None)
      in case acquired of
           Inl e \<Rightarrow> (Inl e, [acquire])
         | Inr session \<Rightarrow>
             (let token = lock_token session; write = (Link (PutLinkParamset addr peer vs), token)
              in case token of
                   None \<Rightarrow> (written, [acquire, write])
                 | Some t \<Rightarrow>
                     (case released of
                        Inl Cancelled \<Rightarrow> Inl Cancelled
                      | _ \<Rightarrow> written,
                      [acquire, write, (Session (Release (lock_key addr peer) t), None)])))"

text \<open>Fact: the edit lock of a LINK write is released once, after the write and with the token that was issued,
  whatever the write did; the write carries that token; and the caller sees the write's own outcome
  unless the task was cancelled during the release. Only an acquisition that fails, or one that
  issues no token, is followed by no release.\<close>

theorem link_lock_released:
  "(case acquired of
      Inl e \<Rightarrow> put_link_paramset addr peer vs acquired written released
        = (Inl e, [(Session (Acquire (lock_key addr peer) None), None)])
    | Inr session \<Rightarrow>
        (\<forall>t. lock_token session = Some t \<longrightarrow>
           map fst (snd (put_link_paramset addr peer vs acquired written released)) =
             [Session (Acquire (lock_key addr peer) None), Link (PutLinkParamset addr peer vs),
              Session (Release (lock_key addr peer) t)]
           \<and> snd (snd (put_link_paramset addr peer vs acquired written released) ! 1) = Some t)
        \<and> (fst (put_link_paramset addr peer vs acquired written released) = written
             \<or> released = Inl Cancelled \<and> fst (put_link_paramset addr peer vs acquired written released) = Inl Cancelled)
        \<and> (lock_token session = None \<longrightarrow>
             (\<forall>k t h. (Session (Release k t), h) \<notin> set (snd (put_link_paramset addr peer vs acquired written released)))))"
  by (auto simp: put_link_paramset_def Let_def split: sum.splits option.splits fault.splits)

theorem link_lock_released_witness:
  "map fst (snd (put_link_paramset ''D'' ''P'' [] (Inr [(''token'', JStr ''t1'')])
       (Inl (LoomFault (PlainError LoomTransportError))) (Inr ())))
     = [Session (Acquire (lock_key ''D'' ''P'') None), Link (PutLinkParamset ''D'' ''P'' []),
        Session (Release (lock_key ''D'' ''P'') ''t1'')]"
  using link_lock_released [where acquired = "Inr [(''token'', JStr ''t1'')]" and addr = "''D''" and peer = "''P''"
      and vs = "[]" and written = "Inl (LoomFault (PlainError LoomTransportError))" and released = "Inr ()"]
  by (simp add: lock_token_def obj_get_def)

section \<open>Corrections of a written schedule\<close>

type_synonym period = "(string, json) dict"

record weekday =
  wd_base_temperature :: rat
  wd_periods :: "period list"

type_synonym profiles = "(string, (string, weekday) dict) dict"

record correction =
  cr_profile :: string
  cr_weekday :: string
  cr_period :: int
  cr_field :: string
  cr_requested :: string
  cr_applied :: string

definition period_fields :: "string list" where
  "period_fields = [''start_time'', ''end_time'', ''temperature'']"

definition weekday_of :: "profiles \<Rightarrow> string \<Rightarrow> string \<Rightarrow> weekday option" where
  "weekday_of ps pk wk = (case dict_get ps pk of None \<Rightarrow> None | Some p \<Rightarrow> dict_get p wk)"

definition set_weekday :: "string \<Rightarrow> string \<Rightarrow> weekday \<Rightarrow> profiles \<Rightarrow> profiles" where
  "set_weekday pk wk w ps = (case dict_get ps pk of None \<Rightarrow> ps | Some p \<Rightarrow> dict_put pk (dict_put wk w p) ps)"

text \<open>The weekday a correction resolves to, if its coordinates do.\<close>

definition target :: "correction \<Rightarrow> profiles \<Rightarrow> weekday option" where
  "target c ps =
     (case weekday_of ps (cr_profile c) (cr_weekday c) of None \<Rightarrow> None
      | Some w \<Rightarrow> if 0 \<le> cr_period c \<and> cr_period c < int (length (wd_periods w)) then Some w else None)"

text \<open>Setting an attribute a period does not have raises.\<close>

definition correct_one :: "correction \<Rightarrow> profiles \<Rightarrow> profiles option" where
  "correct_one c ps =
     (case target c ps of
        None \<Rightarrow> Some ps
      | Some w \<Rightarrow>
          if cr_field c \<notin> set period_fields then None
          else Some (set_weekday (cr_profile c) (cr_weekday c)
                 (w\<lparr>wd_periods := (wd_periods w)[nat (cr_period c) :=
                      dict_put (cr_field c) (JStr (cr_applied c)) (wd_periods w ! nat (cr_period c))]\<rparr>) ps))"

fun correct_all :: "correction list \<Rightarrow> profiles \<Rightarrow> profiles option" where
  "correct_all [] ps = Some ps"
| "correct_all (c # cs) ps = (case correct_one c ps of None \<Rightarrow> None | Some ps' \<Rightarrow> correct_all cs ps')"

record schedule =
  sc_profiles :: "profiles option"
  sc_rest :: json

definition apply_corrections :: "schedule \<Rightarrow> correction list option \<Rightarrow> schedule option" where
  "apply_corrections s cs =
     (case (cs, sc_profiles s) of
        (Some (c # cs), Some ps) \<Rightarrow> map_option (\<lambda>ps'. s\<lparr>sc_profiles := Some ps'\<rparr>) (correct_all (c # cs) ps)
      | _ \<Rightarrow> Some s)"

definition field_at :: "profiles \<Rightarrow> string \<times> string \<times> nat \<times> string \<Rightarrow> json option option" where
  "field_at ps = (\<lambda>(pk, wk, i, f). case weekday_of ps pk wk of None \<Rightarrow> None
     | Some w \<Rightarrow> if i < length (wd_periods w) then Some (dict_get (wd_periods w ! i) f) else None)"

definition addresses :: "string \<times> string \<times> nat \<times> string \<Rightarrow> correction \<Rightarrow> bool" where
  "addresses = (\<lambda>(pk, wk, i, f) c. cr_profile c = pk \<and> cr_weekday c = wk \<and> cr_period c = int i \<and> cr_field c = f)"

lemma weekday_of_set:
  "weekday_of ps pk wk \<noteq> None \<Longrightarrow>
     weekday_of (set_weekday pk wk w ps) pk' wk' = (if pk' = pk \<and> wk' = wk then Some w else weekday_of ps pk' wk')"
  by (auto simp: weekday_of_def set_weekday_def split: option.splits)

lemma field_at_correct_one:
  assumes "correct_one c ps = Some qs"
  shows "field_at qs x = (if addresses x c then map_option (\<lambda>_. Some (JStr (cr_applied c))) (field_at ps x)
     else field_at ps x)"
proof -
  obtain pk wk i f where x: "x = (pk, wk, i, f)" by (cases x)
  show ?thesis
  proof (cases "target c ps")
    case None
    then show ?thesis
      using assms by (auto simp: x correct_one_def target_def field_at_def addresses_def split: option.splits if_splits)
  next
    case (Some w)
    then have w: "weekday_of ps (cr_profile c) (cr_weekday c) = Some w"
      and i: "0 \<le> cr_period c" "nat (cr_period c) < length (wd_periods w)"
      by (auto simp: target_def split: option.splits if_splits)
    show ?thesis
      using assms Some w i
      by (auto simp: x correct_one_def field_at_def addresses_def weekday_of_set nth_list_update split: if_splits)
  qed
qed

lemma find_append: "find P (xs @ ys) = (case find P xs of None \<Rightarrow> find P ys | Some x \<Rightarrow> Some x)"
  by (induction xs) simp_all

text \<open>Fact: reconciling a local copy with what the daemon stored. When the corrections can be applied, every field
  of every period reads as the last correction that names it, if one does, and is unchanged
  otherwise; corrections that name no existing period change nothing. A correction that resolves to
  a period but names a field the period does not have makes the whole call raise.\<close>

theorem corrections_applied:
  "(\<forall>ps qs x. correct_all cs ps = Some qs \<longrightarrow>
      field_at qs x = map_option (\<lambda>old. case find (addresses x) (rev cs) of
          Some c \<Rightarrow> Some (JStr (cr_applied c)) | None \<Rightarrow> old) (field_at ps x))
   \<and> (\<forall>ps c. target c ps \<noteq> None \<and> cr_field c \<notin> set period_fields \<longrightarrow> correct_all (c # cs) ps = None)"
proof (intro conjI allI impI)
  fix ps qs x assume "correct_all cs ps = Some qs"
  then show "field_at qs x = map_option (\<lambda>old. case find (addresses x) (rev cs) of
          Some c \<Rightarrow> Some (JStr (cr_applied c)) | None \<Rightarrow> old) (field_at ps x)"
  proof (induction cs arbitrary: ps)
    case Nil
    then show ?case by (simp add: option.map_ident)
  next
    case (Cons c cs)
    then obtain ps' where one: "correct_one c ps = Some ps'" and rest: "correct_all cs ps' = Some qs"
      by (auto split: option.splits)
    show ?case
      unfolding Cons.IH [OF rest] field_at_correct_one [OF one]
      by (cases "field_at ps x"; cases "find (addresses x) (rev cs)") (simp_all add: find_append)
  qed
next
  fix ps c assume "target c ps \<noteq> None \<and> cr_field c \<notin> set period_fields"
  then show "correct_all (c # cs) ps = None" by (auto simp: correct_one_def)
qed

definition demo_profiles :: profiles where
  "demo_profiles = [(''P1'', [(''MONDAY'', \<lparr>wd_base_temperature = 17,
     wd_periods = [[(''start_time'', JStr ''06:02''), (''end_time'', JStr ''08:00''), (''temperature'', JFloat 21)]]\<rparr>)])]"

definition demo_correction :: "string \<Rightarrow> correction" where
  "demo_correction v = \<lparr>cr_profile = ''P1'', cr_weekday = ''MONDAY'', cr_period = 0, cr_field = ''start_time'',
     cr_requested = ''06:02'', cr_applied = v\<rparr>"

theorem corrections_applied_witness:
  "field_at (the (correct_all [demo_correction ''06:05''] demo_profiles)) (''P1'', ''MONDAY'', 0, ''start_time'')
     = Some (Some (JStr ''06:05''))"
proof -
  have ok: "correct_all [demo_correction ''06:05''] demo_profiles \<noteq> None"
    by (simp add: demo_profiles_def demo_correction_def correct_one_def target_def weekday_of_def period_fields_def)
  moreover have "find (addresses (''P1'', ''MONDAY'', 0, ''start_time'')) (rev [demo_correction ''06:05''])
      = Some (demo_correction ''06:05'')"
    by (simp add: addresses_def demo_correction_def)
  moreover have "field_at demo_profiles (''P1'', ''MONDAY'', 0, ''start_time'') = Some (Some (JStr ''06:02''))"
    by (simp add: field_at_def demo_profiles_def weekday_of_def)
  ultimately show ?thesis
    using corrections_applied [of "[demo_correction ''06:05'']"] by (auto simp: demo_correction_def)
qed

end
