(* ===== verification/Events.thy ===== *)
theory Events
  imports EventBus Ws Store
begin

text \<open>
  The typed events (events/types.py, events/synthetic.py) and the bridge that applies them to the
  store (bridge.py). The event classes are grouped by plane as the file orders them. The payload of
  an event is what pydantic makes of the envelope's payload, an argument; the fields the routing keys
  and the store read are kept, the rest of a payload travels as JSON.
\<close>

section \<open>Event classes\<close>

text \<open>The payload field an event takes its routing key from.\<close>

datatype key_source = NoKey | UniqueId | Central | ZoneId | SecurityClass | FaultId

datatype core_event =
    DataPointValueChangedEvent | CustomDataPointStateChangedEvent | CentralStateChangedEvent
    | CentralFeaturesChangedEvent | CentralReadinessChangedEvent | SystemStatusChangedEvent
    | DaemonStatusChangedEvent | PairingRequestsChangedEvent

fun core_type :: "core_event \<Rightarrow> string" where
  "core_type DataPointValueChangedEvent = ''datapoint.value_changed''"
| "core_type CustomDataPointStateChangedEvent = ''custom_data_point.state_changed''"
| "core_type CentralStateChangedEvent = ''central.state_changed''"
| "core_type CentralFeaturesChangedEvent = ''central.features_changed''"
| "core_type CentralReadinessChangedEvent = ''central.readiness_changed''"
| "core_type SystemStatusChangedEvent = ''system.status_changed''"
| "core_type DaemonStatusChangedEvent = ''daemon_status.changed''"
| "core_type PairingRequestsChangedEvent = ''pairing.requests_changed''"

fun core_key :: "core_event \<Rightarrow> key_source" where
  "core_key DataPointValueChangedEvent = UniqueId"
| "core_key DaemonStatusChangedEvent = NoKey"
| "core_key PairingRequestsChangedEvent = NoKey"
| "core_key _ = Central"

datatype hub_event =
    SysvarChangedEvent | ProgramExecutedEvent | ProgramChangedEvent | InstallModeChangedEvent
    | HubAlarmMessageCountChangedEvent | HubServiceMessageCountChangedEvent | HubInboxChangedEvent
    | HubMetricsChangedEvent | HubConnectivityChangedEvent | HubSystemUpdateChangedEvent
    | AddonUpdateStateChangedEvent

fun hub_type :: "hub_event \<Rightarrow> string" where
  "hub_type SysvarChangedEvent = ''hub.sysvar_changed''"
| "hub_type ProgramExecutedEvent = ''hub.program_executed''"
| "hub_type ProgramChangedEvent = ''hub.program_changed''"
| "hub_type InstallModeChangedEvent = ''hub.install_mode_changed''"
| "hub_type HubAlarmMessageCountChangedEvent = ''hub.alarm_message''"
| "hub_type HubServiceMessageCountChangedEvent = ''hub.service_message''"
| "hub_type HubInboxChangedEvent = ''hub.inbox_changed''"
| "hub_type HubMetricsChangedEvent = ''hub.metrics_changed''"
| "hub_type HubConnectivityChangedEvent = ''connectivity.changed''"
| "hub_type HubSystemUpdateChangedEvent = ''hub.system_update_changed''"
| "hub_type AddonUpdateStateChangedEvent = ''addon_update.state_changed''"

fun hub_key :: "hub_event \<Rightarrow> key_source" where
  "hub_key AddonUpdateStateChangedEvent = NoKey"
| "hub_key _ = Central"

datatype device_event =
    DeviceCreatedEvent | DeviceReleasedEvent | DeviceRemovedEvent | DeviceAvailabilityChangedEvent
    | DeviceRefreshedEvent | DeviceMetadataChangedEvent

fun device_type :: "device_event \<Rightarrow> string" where
  "device_type DeviceCreatedEvent = ''device.created''"
| "device_type DeviceReleasedEvent = ''device.released''"
| "device_type DeviceRemovedEvent = ''device.removed''"
| "device_type DeviceAvailabilityChangedEvent = ''device.availability_changed''"
| "device_type DeviceRefreshedEvent = ''device.refreshed''"
| "device_type DeviceMetadataChangedEvent = ''device.metadata_changed''"

fun device_key :: "device_event \<Rightarrow> key_source" where
  "device_key _ = Central"

datatype activity_event =
    ScheduleChangedEvent | DeviceTriggerEvent | DataPointOptimisticRolledBackEvent

fun activity_type :: "activity_event \<Rightarrow> string" where
  "activity_type ScheduleChangedEvent = ''schedules.changed''"
| "activity_type DeviceTriggerEvent = ''device.trigger''"
| "activity_type DataPointOptimisticRolledBackEvent = ''datapoint.optimistic_rolled_back''"

fun activity_key :: "activity_event \<Rightarrow> key_source" where
  "activity_key ScheduleChangedEvent = Central"
| "activity_key _ = UniqueId"

datatype alarm_event =
    AlarmStateChangedEvent | AlarmCountdownEvent | AlarmReadinessChangedEvent | AlarmTriggeredEvent
    | AlarmJournalAppendedEvent | AlarmWalkTestProgressEvent | AlarmHealthChangedEvent
    | AlarmPanelChangedEvent | AlarmReminderEvent | AlarmNotificationEvent

fun alarm_type :: "alarm_event \<Rightarrow> string" where
  "alarm_type AlarmStateChangedEvent = ''alarm.state_changed''"
| "alarm_type AlarmCountdownEvent = ''alarm.countdown''"
| "alarm_type AlarmReadinessChangedEvent = ''alarm.readiness_changed''"
| "alarm_type AlarmTriggeredEvent = ''alarm.triggered''"
| "alarm_type AlarmJournalAppendedEvent = ''alarm.journal_appended''"
| "alarm_type AlarmWalkTestProgressEvent = ''alarm.walktest_progress''"
| "alarm_type AlarmHealthChangedEvent = ''alarm.health_changed''"
| "alarm_type AlarmPanelChangedEvent = ''alarm.panel_changed''"
| "alarm_type AlarmReminderEvent = ''alarm.reminder''"
| "alarm_type AlarmNotificationEvent = ''alarm.notification''"

fun alarm_key :: "alarm_event \<Rightarrow> key_source" where
  "alarm_key AlarmHealthChangedEvent = NoKey"
| "alarm_key AlarmPanelChangedEvent = UniqueId"
| "alarm_key _ = ZoneId"

datatype security_event =
    SecurityStateChangedEvent | SecurityClassChangedEvent | SecurityZoneChangedEvent
    | SecurityFaultChangedEvent | SecurityNotificationEvent

fun security_type :: "security_event \<Rightarrow> string" where
  "security_type SecurityStateChangedEvent = ''security.state_changed''"
| "security_type SecurityClassChangedEvent = ''security.class_changed''"
| "security_type SecurityZoneChangedEvent = ''security.zone_changed''"
| "security_type SecurityFaultChangedEvent = ''security.fault_changed''"
| "security_type SecurityNotificationEvent = ''security.notification''"

fun security_key :: "security_event \<Rightarrow> key_source" where
  "security_key SecurityStateChangedEvent = NoKey"
| "security_key SecurityZoneChangedEvent = ZoneId"
| "security_key SecurityFaultChangedEvent = FaultId"
| "security_key _ = SecurityClass"

datatype node_event =
    NodeFabricAddedEvent | NodeFabricRemovedEvent | NodeWindowOpenedEvent | NodeWindowClosedEvent
    | NodeEndpointsChangedEvent | NodeExposureChangedEvent | NodeSurfaceChangedEvent

fun node_type :: "node_event \<Rightarrow> string" where
  "node_type NodeFabricAddedEvent = ''node.fabric_added''"
| "node_type NodeFabricRemovedEvent = ''node.fabric_removed''"
| "node_type NodeWindowOpenedEvent = ''node.window_opened''"
| "node_type NodeWindowClosedEvent = ''node.window_closed''"
| "node_type NodeEndpointsChangedEvent = ''node.endpoints_changed''"
| "node_type NodeExposureChangedEvent = ''node.exposure_changed''"
| "node_type NodeSurfaceChangedEvent = ''node.surface_changed''"

fun node_key :: "node_event \<Rightarrow> key_source" where
  "node_key _ = NoKey"

text \<open>Events the client makes itself.\<close>

datatype client_event =
    DataPointsCreatedEvent | OptimisticRollbackEvent | ConnectionStateChangedEvent | AuthFailedEvent
    | DaemonLatencyChangedEvent

fun client_type :: "client_event \<Rightarrow> string" where
  "client_type DataPointsCreatedEvent = ''client.data_points_created''"
| "client_type OptimisticRollbackEvent = ''client.optimistic_rollback''"
| "client_type ConnectionStateChangedEvent = ''client.connection_state_changed''"
| "client_type AuthFailedEvent = ''client.auth_failed''"
| "client_type DaemonLatencyChangedEvent = ''client.daemon_latency_changed''"

datatype event_class =
    CoreEv core_event | HubEv hub_event | DeviceEv device_event | ActivityEv activity_event
  | AlarmEv alarm_event | SecurityEv security_event | NodeEv node_event | UnknownLoomEvent
  | ClientEv client_event

fun type_id :: "event_class \<Rightarrow> string" where
  "type_id (CoreEv c) = core_type c"
| "type_id (HubEv c) = hub_type c"
| "type_id (DeviceEv c) = device_type c"
| "type_id (ActivityEv c) = activity_type c"
| "type_id (AlarmEv c) = alarm_type c"
| "type_id (SecurityEv c) = security_type c"
| "type_id (NodeEv c) = node_type c"
| "type_id UnknownLoomEvent = ''''"
| "type_id (ClientEv c) = client_type c"

fun key_source_of :: "event_class \<Rightarrow> key_source" where
  "key_source_of (CoreEv c) = core_key c"
| "key_source_of (HubEv c) = hub_key c"
| "key_source_of (DeviceEv c) = device_key c"
| "key_source_of (ActivityEv c) = activity_key c"
| "key_source_of (AlarmEv c) = alarm_key c"
| "key_source_of (SecurityEv c) = security_key c"
| "key_source_of (NodeEv c) = node_key c"
| "key_source_of _ = NoKey"

text \<open>The registry, in the order of the code; each class stands under its own \<open>type_id\<close>.\<close>

definition event_registry :: "event_class list" where
  "event_registry =
     [CoreEv DataPointValueChangedEvent, CoreEv CustomDataPointStateChangedEvent,
      CoreEv CentralStateChangedEvent, CoreEv CentralFeaturesChangedEvent,
      CoreEv CentralReadinessChangedEvent, CoreEv SystemStatusChangedEvent,
      CoreEv DaemonStatusChangedEvent, CoreEv PairingRequestsChangedEvent, HubEv SysvarChangedEvent,
      HubEv ProgramExecutedEvent, HubEv ProgramChangedEvent, HubEv InstallModeChangedEvent,
      HubEv HubAlarmMessageCountChangedEvent, HubEv HubServiceMessageCountChangedEvent,
      HubEv HubInboxChangedEvent, HubEv HubMetricsChangedEvent, HubEv HubConnectivityChangedEvent,
      HubEv HubSystemUpdateChangedEvent, HubEv AddonUpdateStateChangedEvent, DeviceEv DeviceCreatedEvent,
      DeviceEv DeviceReleasedEvent, DeviceEv DeviceRemovedEvent, DeviceEv DeviceAvailabilityChangedEvent,
      DeviceEv DeviceMetadataChangedEvent, DeviceEv DeviceRefreshedEvent, ActivityEv ScheduleChangedEvent,
      ActivityEv DeviceTriggerEvent, ActivityEv DataPointOptimisticRolledBackEvent,
      AlarmEv AlarmStateChangedEvent, AlarmEv AlarmCountdownEvent, AlarmEv AlarmReadinessChangedEvent,
      AlarmEv AlarmTriggeredEvent, AlarmEv AlarmJournalAppendedEvent, AlarmEv AlarmWalkTestProgressEvent,
      AlarmEv AlarmHealthChangedEvent, AlarmEv AlarmPanelChangedEvent, AlarmEv AlarmReminderEvent,
      AlarmEv AlarmNotificationEvent, SecurityEv SecurityStateChangedEvent,
      SecurityEv SecurityClassChangedEvent, SecurityEv SecurityZoneChangedEvent,
      SecurityEv SecurityFaultChangedEvent, SecurityEv SecurityNotificationEvent,
      NodeEv NodeFabricAddedEvent, NodeEv NodeFabricRemovedEvent, NodeEv NodeWindowOpenedEvent,
      NodeEv NodeWindowClosedEvent, NodeEv NodeEndpointsChangedEvent, NodeEv NodeExposureChangedEvent,
      NodeEv NodeSurfaceChangedEvent]"

definition binding_of :: "string \<Rightarrow> event_class option" where
  "binding_of t = dict_get (map (\<lambda>c. (type_id c, c)) event_registry) t"

definition known_event_types :: "string set" where
  "known_event_types = type_id ` set event_registry"

section \<open>Payloads and events\<close>

datatype store_payload =
    ValuePayload value_changed
  | CdpPayload string string "cdp_state option"
  | CreatedPayload device_created "string option"
  | ReleasedPayload string
  | RemovedPayload string
  | AvailabilityPayload string bool
  | RefreshedPayload string instant
  | SysvarPayload string json "string option" "string option"
  | ExecutedPayload string "string option" "string option"
  | ProgramPayload string bool bool "string option" "string option"
  | PanelPayload panel_changed
  | StatePayload string "string option" string
  | CountdownPayload string countdown
  | ReadinessPayload string "(string, json) dict"
  | TriggeredPayload string incident
  | HealthPayload bool
  | OtherPayload json

record payload =
  pl_body :: store_payload
  pl_unique_id :: "string option"
  pl_central :: "string option"
  pl_zone_id :: "string option"
  pl_class :: "string option"
  pl_fault_id :: "string option"

fun routing_key :: "key_source \<Rightarrow> payload \<Rightarrow> string option" where
  "routing_key NoKey p = None"
| "routing_key UniqueId p = pl_unique_id p"
| "routing_key Central p = pl_central p"
| "routing_key ZoneId p = pl_zone_id p"
| "routing_key SecurityClass p = pl_class p"
| "routing_key FaultId p = pl_fault_id p"

record loom_event =
  le_class :: event_class
  le_seq :: int
  le_kind :: string
  le_ts :: string
  le_topic :: "string option"
  le_type :: string
  le_key :: "string option"
  le_payload :: "payload option"
  le_raw :: json

type_synonym payload_validator = "event_class \<Rightarrow> json \<Rightarrow> payload option"

definition unknown_event :: "envelope \<Rightarrow> loom_event" where
  "unknown_event e = \<lparr>le_class = UnknownLoomEvent, le_seq = env_seq e, le_kind = env_kind e, le_ts = env_ts e,
     le_topic = env_topic e, le_type = env_type e, le_key = None, le_payload = None, le_raw = env_payload e\<rparr>"

definition event_from_envelope :: "payload_validator \<Rightarrow> envelope \<Rightarrow> loom_event" where
  "event_from_envelope validate e =
     (case binding_of (env_type e) of
        None \<Rightarrow> unknown_event e
      | Some c \<Rightarrow>
          (case validate c (env_payload e) of
             None \<Rightarrow> unknown_event e
           | Some p \<Rightarrow> (unknown_event e)\<lparr>le_class := c, le_key := routing_key (key_source_of c) p,
                          le_payload := Some p, le_raw := JNull\<rparr>))"

text \<open>The type the bus files an event under: its Python class.\<close>

definition bus_type :: "event_class \<Rightarrow> string" where
  "bus_type c = (if c = UnknownLoomEvent then ''UnknownLoomEvent'' else type_id c)"

definition bus_event_of :: "loom_event \<Rightarrow> bus_event" where
  "bus_event_of ev = BusEvent (bus_type (le_class ev)) (le_key ev)"

lemma registry_distinct: "distinct (map type_id event_registry)"
  by code_simp

lemma registry_complete:
  "CoreEv a \<in> set event_registry" "HubEv b \<in> set event_registry" "DeviceEv c \<in> set event_registry"
  "ActivityEv d \<in> set event_registry" "AlarmEv e \<in> set event_registry" "SecurityEv f \<in> set event_registry"
  "NodeEv g \<in> set event_registry"
  by (cases a; simp add: event_registry_def; fail | cases b; simp add: event_registry_def; fail
    | cases c; simp add: event_registry_def; fail | cases d; simp add: event_registry_def; fail
    | cases e; simp add: event_registry_def; fail | cases f; simp add: event_registry_def; fail
    | cases g; simp add: event_registry_def; fail)+

lemma binding_of_type_id: "c \<in> set event_registry \<Longrightarrow> binding_of (type_id c) = Some c"
  unfolding binding_of_def using registry_distinct
  by (intro map_of_is_SomeI) (simp_all add: comp_def)

lemma binding_of_known: "binding_of t = Some c \<Longrightarrow> c \<in> set event_registry \<and> type_id c = t"
  unfolding binding_of_def by (drule map_of_SomeD) auto

lemma binding_of_unknown: "binding_of t = None \<longleftrightarrow> t \<notin> known_event_types"
  by (force simp: binding_of_def known_event_types_def map_of_eq_None_iff)

text \<open>C20: Every envelope becomes an event of exactly one class, and nothing is lost: an envelope whose type is
  registered and whose payload validates is an event of that class under the routing key its payload
  names; any other becomes an \<open>UnknownLoomEvent\<close> with the payload as it came and no key. Sequence
  number, kind, time stamp, topic and type are the envelope's in both cases.\<close>

theorem envelope_typed:
  "event_from_envelope validate e =
     \<lparr>le_class = c, le_seq = env_seq e, le_kind = env_kind e, le_ts = env_ts e, le_topic = env_topic e,
      le_type = env_type e, le_key = k, le_payload = p, le_raw = raw\<rparr> \<longleftrightarrow>
   (if \<exists>d \<in> set event_registry. type_id d = env_type e \<and> validate d (env_payload e) \<noteq> None
    then type_id c = env_type e \<and> c \<in> set event_registry \<and> validate c (env_payload e) = p
      \<and> k = routing_key (key_source_of c) (the p) \<and> raw = JNull
    else c = UnknownLoomEvent \<and> k = None \<and> p = None \<and> raw = env_payload e)"
proof (cases "binding_of (env_type e)")
  case None
  have no: "\<not> (\<exists>d \<in> set event_registry. type_id d = env_type e \<and> validate d (env_payload e) \<noteq> None)"
    using binding_of_type_id None by (metis option.distinct(1))
  have "event_from_envelope validate e = unknown_event e" by (simp add: event_from_envelope_def None)
  then show ?thesis unfolding if_not_P [OF no] by (auto simp only: unknown_event_def loom_event.ext_inject)
next
  case (Some d)
  from binding_of_known [OF Some] have d: "d \<in> set event_registry" "type_id d = env_type e" by blast+
  have uniq: "x = d" if "x \<in> set event_registry" "type_id x = env_type e" for x
    using binding_of_type_id [OF that(1)] that(2) Some by (metis option.inject)
  show ?thesis
  proof (cases "validate d (env_payload e)")
    case None
    have no: "\<not> (\<exists>x \<in> set event_registry. type_id x = env_type e \<and> validate x (env_payload e) \<noteq> None)"
      using uniq None by metis
    have "event_from_envelope validate e = unknown_event e" by (simp add: event_from_envelope_def Some None)
    then show ?thesis unfolding if_not_P [OF no] by (auto simp only: unknown_event_def loom_event.ext_inject)
  next
    case v: (Some q)
    have ex: "\<exists>x \<in> set event_registry. type_id x = env_type e \<and> validate x (env_payload e) \<noteq> None"
      using d v by (metis option.distinct(1))
    have ev: "event_from_envelope validate e = \<lparr>le_class = d, le_seq = env_seq e, le_kind = env_kind e, le_ts = env_ts e,
        le_topic = env_topic e, le_type = env_type e, le_key = routing_key (key_source_of d) q, le_payload = Some q,
        le_raw = JNull\<rparr>"
      by (simp add: event_from_envelope_def Some v unknown_event_def)
    have iff: "d = c \<longleftrightarrow> type_id c = env_type e \<and> c \<in> set event_registry" using uniq d by metis
    show ?thesis unfolding if_P [OF ex] ev loom_event.ext_inject
      using iff v by (cases "d = c") auto
  qed
qed

end
