(* ===== verification/Bridge.thy ===== *)
theory Bridge
  imports Events
begin

text \<open>
  The wiring between bus and store (bridge.py, and the part of client.py's \<open>start_events\<close> that sets it
  up): fifteen handlers on the client's subscription group, one per store-mutating event class, and
  the client's own two. A bridge handler applies one store operation and returns; it leaves the
  bus alone. Handlers are named by numbers: the bridge's are the indices of \<open>bridge_classes\<close>,
  then come the client's two, and every other handler in the process has a larger number.
\<close>

section \<open>Handlers\<close>

definition bridge_classes :: "event_class list" where
  "bridge_classes =
     [CoreEv DataPointValueChangedEvent, CoreEv CustomDataPointStateChangedEvent, DeviceEv DeviceCreatedEvent,
      DeviceEv DeviceRemovedEvent, DeviceEv DeviceAvailabilityChangedEvent, DeviceEv DeviceRefreshedEvent,
      HubEv SysvarChangedEvent, HubEv ProgramExecutedEvent, HubEv ProgramChangedEvent]"

definition alarm_classes :: "event_class list" where
  "alarm_classes =
     [AlarmEv AlarmPanelChangedEvent, AlarmEv AlarmStateChangedEvent, AlarmEv AlarmCountdownEvent,
      AlarmEv AlarmReadinessChangedEvent, AlarmEv AlarmTriggeredEvent, AlarmEv AlarmHealthChangedEvent]"

definition store_classes :: "event_class list" where
  "store_classes = bridge_classes @ alarm_classes"

definition on_device_created_handler :: nat where "on_device_created_handler = 15"
definition on_device_released_handler :: nat where "on_device_released_handler = 16"

definition client_handlers :: "(event_class \<times> nat) list" where
  "client_handlers = zip store_classes [0..<15] @
     [(DeviceEv DeviceCreatedEvent, on_device_created_handler), (DeviceEv DeviceReleasedEvent, on_device_released_handler)]"

text \<open>The store method each payload goes to.\<close>

fun op_of :: "store_payload \<Rightarrow> store_op option" where
  "op_of (ValuePayload p) = Some (ValueChanged p)"
| "op_of (CdpPayload a n st) = Some (CdpStateChanged a n (case st of None \<Rightarrow> [] | Some x \<Rightarrow> x))"
| "op_of (CreatedPayload p src) = Some (DeviceCreated p)"
| "op_of (RemovedPayload a) = Some (DeviceRemoved a)"
| "op_of (AvailabilityPayload a b) = Some (AvailabilityChanged a b)"
| "op_of (RefreshedPayload a t) = Some (DeviceRefreshed a t)"
| "op_of (SysvarPayload n v c d) = Some (SysvarChanged n v c d)"
| "op_of (ExecutedPayload i c d) = Some (ProgramExecuted i c d)"
| "op_of (ProgramPayload i a x c d) = Some (ProgramChanged i a x c d)"
| "op_of (PanelPayload p) = Some (PanelChanged p)"
| "op_of (StatePayload z m n) = Some (AlarmStateChanged z m n)"
| "op_of (CountdownPayload z c) = Some (AlarmCountdown z c)"
| "op_of (ReadinessPayload z r) = Some (AlarmReadiness z r)"
| "op_of (TriggeredPayload z i) = Some (AlarmTriggered z i)"
| "op_of (HealthPayload b) = Some (AlarmHealth b)"
| "op_of (ReleasedPayload a) = None"
| "op_of (OtherPayload j) = None"

definition store_op_of :: "loom_event \<Rightarrow> store_op option" where
  "store_op_of ev = (if le_class ev \<in> set store_classes
     then (case le_payload ev of None \<Rightarrow> None | Some p \<Rightarrow> op_of (pl_body p)) else None)"

definition run_handler :: "nat \<Rightarrow> loom_event \<Rightarrow> store \<Rightarrow> store" where
  "run_handler h ev s =
     (if h < 15 then (case store_op_of ev of None \<Rightarrow> s | Some p \<Rightarrow> apply_op p s) else s)"

section \<open>Binding and delivering\<close>

definition subscribe_all :: "(event_class \<times> nat) list \<Rightarrow> sub_group \<times> bus \<Rightarrow> sub_group \<times> bus" where
  "subscribe_all hs gb = fold (\<lambda>(c, h) gb. snd (group_subscribe (bus_type c) h None gb)) hs gb"

definition bind_ws_events_to_store :: "sub_group \<times> bus \<Rightarrow> sub_group \<times> bus" where
  "bind_ws_events_to_store gb = subscribe_all (zip store_classes [0..<15]) gb"

text \<open>The wiring half of \<open>start_events\<close>: a group left by an earlier call is cancelled first.\<close>

definition wire_events :: "sub_group option \<times> bus \<Rightarrow> sub_group \<times> bus" where
  "wire_events gb =
     (let (old, b) = gb;
          b1 = (case old of None \<Rightarrow> b | Some g \<Rightarrow> snd (group_cancel (g, b)));
          bound = bind_ws_events_to_store (create_subscription_group ''loom-client-wire'', b1)
      in subscribe_all [(DeviceEv DeviceCreatedEvent, on_device_created_handler),
                        (DeviceEv DeviceReleasedEvent, on_device_released_handler)] bound)"

text \<open>One turn of the dispatch loop: the envelope becomes an event, the bus calls the handlers.\<close>

definition deliver :: "loom_event \<Rightarrow> bus \<Rightarrow> (oid \<times> outcome) list \<Rightarrow> store \<Rightarrow> store" where
  "deliver ev b calls s = fold (\<lambda>(i, r). run_handler (sub_handler (bus_heap b ! i)) ev) calls s"

definition dispatch ::
  "payload_validator \<Rightarrow> script \<Rightarrow> envelope \<Rightarrow> bus \<times> store \<Rightarrow> bus \<times> store" where
  "dispatch validate sc e bs =
     (let (b, s) = bs; ev = event_from_envelope validate e; (calls, b') = bus_publish sc (bus_event_of ev) b
      in (b', deliver ev b' calls s))"

section \<open>The wiring invariant\<close>

text \<open>
  The live subscriptions of the client's handlers are exactly the members of its group, one per
  pair of \<open>client_handlers\<close>, in order.
\<close>

definition wired :: "(event_class \<times> nat) list \<Rightarrow> sub_group \<Rightarrow> bus \<Rightarrow> bool" where
  "wired hs g b \<longleftrightarrow> bus_ok b
     \<and> map (\<lambda>i. (sub_event_type (bus_heap b ! i), sub_handler (bus_heap b ! i), sub_event_key (bus_heap b ! i)))
         (group_members g) = map (\<lambda>(c, h). (bus_type c, h, None)) hs
     \<and> (\<forall>i\<in>set (group_members g). live b i) \<and> distinct (group_members g)
     \<and> (\<forall>i. live b i \<and> sub_handler (bus_heap b ! i) < 17 \<longrightarrow> i \<in> set (group_members g))"

lemma wiredD:
  assumes "wired hs g b"
  shows wired_ok: "bus_ok b"
    and wired_members: "map (\<lambda>i. (sub_event_type (bus_heap b ! i), sub_handler (bus_heap b ! i), sub_event_key (bus_heap b ! i)))
         (group_members g) = map (\<lambda>(c, h). (bus_type c, h, None)) hs"
    and wired_live: "i \<in> set (group_members g) \<Longrightarrow> live b i"
    and wired_distinct: "distinct (group_members g)"
    and wired_only: "live b i \<Longrightarrow> sub_handler (bus_heap b ! i) < 17 \<Longrightarrow> i \<in> set (group_members g)"
  using assms unfolding wired_def by blast+

lemma live_bound: "live b i \<Longrightarrow> i < length (bus_heap b)"
  by (simp add: live_def)

lemma wired_subscribe:
  assumes "wired hs g b"
  shows "wired (hs @ [(c, h)]) (fst (snd (group_subscribe (bus_type c) h None (g, b))))
    (snd (snd (group_subscribe (bus_type c) h None (g, b))))"
proof -
  let ?n = "length (bus_heap b)"
  let ?b = "snd (bus_subscribe (bus_type c) h None b)"
  let ?g = "g\<lparr>group_members := group_members g @ [?n]\<rparr>"
  have eq: "snd (group_subscribe (bus_type c) h None (g, b)) = (?g, ?b)"
    by (simp add: group_subscribe_def case_prod_unfold fst_subscribe)
  have below: "i < ?n" if "i \<in> set (group_members g)" for i
    by (rule live_bound [OF wired_live [OF assms that]])
  have old: "bus_heap ?b ! i = bus_heap b ! i" if "i < ?n" for i
    using that by (simp add: heap_subscribe nth_append)
  have new: "bus_heap ?b ! ?n = \<lparr>sub_event_type = bus_type c, sub_event_key = None, sub_handler = h, sub_cancelled = False\<rparr>"
    by (simp add: heap_subscribe)
  have live: "live ?b i \<longleftrightarrow> live b i \<or> i = ?n" for i
    by (cases i ?n rule: linorder_cases) (simp_all add: live_def heap_subscribe nth_append)
  have "map (\<lambda>i. (sub_event_type (bus_heap ?b ! i), sub_handler (bus_heap ?b ! i), sub_event_key (bus_heap ?b ! i)))
      (group_members g) = map (\<lambda>(c, h). (bus_type c, h, None)) hs"
    using wired_members [OF assms] below old by (simp cong: map_cong)
  moreover have "bus_ok ?b" by (rule bus_ok_subscribe [OF wired_ok [OF assms]])
  moreover have "i \<in> set (group_members ?g)" if "live ?b i \<and> sub_handler (bus_heap ?b ! i) < 17" for i
  proof (cases "i = ?n")
    case False
    with that have "live b i" "sub_handler (bus_heap b ! i) < 17" using live [of i] old [of i] by (auto simp: live_def)
    then show ?thesis using wired_only [OF assms] by simp
  qed simp
  moreover have "distinct (group_members ?g)" using wired_distinct [OF assms] below by auto
  moreover have "\<forall>i\<in>set (group_members ?g). live ?b i" using wired_live [OF assms] by (simp add: live)
  ultimately show ?thesis unfolding eq wired_def by (simp add: new)
qed

lemma wired_subscribe_all:
  "wired ks g b \<Longrightarrow> wired (ks @ hs) (fst (subscribe_all hs (g, b))) (snd (subscribe_all hs (g, b)))"
proof (induction hs arbitrary: ks g b)
  case Nil
  then show ?case by (simp add: subscribe_all_def)
next
  case (Cons x hs)
  obtain c h where x: "x = (c, h)" by fastforce
  let ?gb = "snd (group_subscribe (bus_type c) h None (g, b))"
  have "wired ((ks @ [x]) @ hs) (fst (subscribe_all hs (fst ?gb, snd ?gb))) (snd (subscribe_all hs (fst ?gb, snd ?gb)))"
    unfolding x by (rule Cons.IH [OF wired_subscribe [OF Cons.prems]])
  then show ?case by (simp add: subscribe_all_def x)
qed

lemma wired_nothing:
  assumes "bus_ok b" and "set (group_members g) \<subseteq> {..<length (bus_heap b)}"
    and "\<And>i. live b i \<Longrightarrow> sub_handler (bus_heap b ! i) < 17 \<Longrightarrow> i \<in> set (group_members g)"
  shows "wired [] (create_subscription_group n) (snd (group_cancel (g, b)))"
proof -
  let ?b = "fold bus_unsubscribe (group_members g) b"
  note un = unsubscribe_all [OF assms(1,2)]
  have "\<not> (live ?b i \<and> sub_handler (bus_heap ?b ! i) < 17)" for i
  proof
    assume l: "live ?b i \<and> sub_handler (bus_heap ?b ! i) < 17"
    then have "i < length (bus_heap b)" using un by (simp add: live_def)
    with l un have "live b i" "i \<notin> set (group_members g)" "sub_handler (bus_heap b ! i) < 17"
      by (simp_all add: live_def)
    with assms(3) show False by blast
  qed
  then show ?thesis using un by (simp add: wired_def group_cancel_def create_subscription_group_def)
qed

lemma client_handlers_split:
  "subscribe_all client_handlers gb =
     subscribe_all [(DeviceEv DeviceCreatedEvent, on_device_created_handler),
                    (DeviceEv DeviceReleasedEvent, on_device_released_handler)] (bind_ws_events_to_store gb)"
  by (simp add: client_handlers_def bind_ws_events_to_store_def subscribe_all_def)

lemma wired_cancel:
  assumes "wired client_handlers g b"
  shows "wired [] (create_subscription_group n) (snd (group_cancel (g, b)))"
  using live_bound wired_live [OF assms]
  by (intro wired_nothing [OF wired_ok [OF assms]] wired_only [OF assms] subsetI) (simp_all add: subsetI)

lemma wire_events_wired:
  assumes "case old of None \<Rightarrow> wired [] (create_subscription_group ''loom-client-wire'') b | Some g \<Rightarrow> wired client_handlers g b"
  shows "wired client_handlers (fst (wire_events (old, b))) (snd (wire_events (old, b)))"
proof (cases old)
  case None
  with assms have "wired [] (create_subscription_group ''loom-client-wire'') b" by simp
  from wired_subscribe_all [OF this, of client_handlers] show ?thesis
    by (simp add: wire_events_def None client_handlers_split)
next
  case (Some g)
  with assms have "wired client_handlers g b" by simp
  from wired_subscribe_all [OF wired_cancel [OF this], of client_handlers] show ?thesis
    by (simp add: wire_events_def Some client_handlers_split)
qed

section \<open>What a dispatch does to the store\<close>

text \<open>
  What the model assumes of the other handlers: they do not end the fan-out (that is a cancellation of
  the dispatch task), do not hold the client's closures, and register no handler of the client's.
\<close>

definition spares :: "sub_group \<Rightarrow> bus_action \<Rightarrow> bool" where
  "spares g a \<longleftrightarrow> (case a of Subscribe t h k \<Rightarrow> (17 \<le> h) | Unsubscribe i \<Rightarrow> i \<notin> set (group_members g))"

definition well_behaved :: "sub_group \<Rightarrow> script \<Rightarrow> bool" where
  "well_behaved g sc \<longleftrightarrow> (\<forall>h e b. snd (sc h e b) \<noteq> Aborted \<and> list_all (spares g) (fst (sc h e b)))"

lemma live_act: "live b i \<Longrightarrow> a \<noteq> Unsubscribe i \<Longrightarrow> live (bus_act a b) i"
proof (cases a)
  case (Unsubscribe j)
  assume "live b i" "a \<noteq> Unsubscribe i"
  with Unsubscribe show ?thesis
    by (cases "sub_cancelled (bus_heap b ! j)") (auto simp: live_def heap_unsubscribe)
qed (auto simp: live_def heap_subscribe nth_append)

lemma live_acts: "live b i \<Longrightarrow> Unsubscribe i \<notin> set as \<Longrightarrow> live (bus_acts as b) i"
proof (induction as arbitrary: b)
  case (Cons a as)
  then have "live (bus_act a b) i" by (intro live_act) auto
  with Cons show ?case by simp
qed simp

lemma wired_act:
  assumes "wired hs g b" and "spares g a"
  shows "wired hs g (bus_act a b)"
proof -
  have ev: "bus_evolves b (bus_act a b)" by (rule bus_evolves_act)
  have same: "sub_event_type (bus_heap (bus_act a b) ! i) = sub_event_type (bus_heap b ! i)
      \<and> sub_handler (bus_heap (bus_act a b) ! i) = sub_handler (bus_heap b ! i)
      \<and> sub_event_key (bus_heap (bus_act a b) ! i) = sub_event_key (bus_heap b ! i)" if "live b i" for i
    using ev live_bound [OF that] by (simp add: bus_evolves_def)
  have keep: "live (bus_act a b) i" if "i \<in> set (group_members g)" for i
    using assms that by (intro live_act wired_live) (auto simp: spares_def)
  have origin: "live b i" if "live (bus_act a b) i" "sub_handler (bus_heap (bus_act a b) ! i) < 17" for i
  proof (cases a)
    case (Subscribe t h k)
    then have "17 \<le> h" using assms(2) by (simp add: spares_def)
    then show ?thesis
      using that Subscribe by (cases i "length (bus_heap b)" rule: linorder_cases)
        (simp_all add: live_def heap_subscribe nth_append)
  next
    case (Unsubscribe j)
    with that have "i < length (bus_heap b)" using live_bound [OF that(1)] by (simp split: if_splits)
    moreover from this have "\<not> sub_cancelled (bus_heap b ! i)"
      using that(1) ev unfolding live_def bus_evolves_def by blast
    ultimately show ?thesis by (simp add: live_def)
  qed
  have "map (\<lambda>i. (sub_event_type (bus_heap (bus_act a b) ! i), sub_handler (bus_heap (bus_act a b) ! i),
        sub_event_key (bus_heap (bus_act a b) ! i))) (group_members g) = map (\<lambda>(c, h). (bus_type c, h, None)) hs"
    using wired_members [OF assms(1)] same wired_live [OF assms(1)] by (simp cong: map_cong)
  moreover have "i \<in> set (group_members g)"
    if "live (bus_act a b) i \<and> sub_handler (bus_heap (bus_act a b) ! i) < 17" for i
    using that origin [of i] same [of i] wired_only [OF assms(1), of i] by simp
  moreover have "bus_ok (bus_act a b)" by (rule bus_ok_act [OF wired_ok [OF assms(1)]])
  ultimately show ?thesis
    using keep wired_distinct [OF assms(1)] by (simp add: wired_def)
qed

lemma wired_acts: "wired hs g b \<Longrightarrow> list_all (spares g) as \<Longrightarrow> wired hs g (bus_acts as b)"
  by (induction as arbitrary: b) (auto intro: wired_act)

lemma wired_fan_out: "wired hs g b \<Longrightarrow> well_behaved g sc \<Longrightarrow> wired hs g (snd (fan_out sc e ids b))"
proof (induction ids arbitrary: b)
  case (Cons i ids)
  have acts: "wired hs g (bus_acts (fst (sc h e b)) b)" for h
    using Cons.prems by (intro wired_acts) (simp_all add: well_behaved_def)
  show ?case
  proof (cases "wants b e i")
    case True
    with Cons.IH [OF acts Cons.prems(2)] acts show ?thesis
      by (simp add: fan_out_call [OF True surjective_pairing])
  next
    case False
    with Cons show ?thesis by (simp add: fan_out_skip)
  qed
qed simp

lemma fan_out_reaches:
  assumes "well_behaved g sc" and "i \<in> set (group_members g)" and "sub_event_key (bus_heap b ! i) = None"
    and "live b i" and "i \<in> set ids"
  shows "i \<in> fst ` set (fst (fan_out sc e ids b))"
  using assms(3-)
proof (induction ids arbitrary: b)
  case (Cons j ids)
  show ?case
  proof (cases "wants b e j")
    case True
    have sc: "snd (sc (sub_handler (bus_heap b ! j)) e b) \<noteq> Aborted"
      "Unsubscribe i \<notin> set (fst (sc (sub_handler (bus_heap b ! j)) e b))"
      using assms(1,2) by (auto simp: well_behaved_def spares_def list_all_iff split: bus_action.splits)
    let ?b = "bus_acts (fst (sc (sub_handler (bus_heap b ! j)) e b)) b"
    have "live ?b i" using Cons.prems(2) sc(2) by (rule live_acts)
    moreover have "sub_event_key (bus_heap ?b ! i) = None"
      using bus_evolves_acts [of b] Cons.prems(1) live_bound [OF Cons.prems(2)] by (simp add: bus_evolves_def)
    ultimately have "i \<in> set ids \<Longrightarrow> i \<in> fst ` set (fst (fan_out sc e ids ?b))" using Cons.IH by blast
    then show ?thesis
      using Cons.prems(3) sc(1) by (auto simp: fan_out_call [OF True surjective_pairing])
  next
    case False
    then have "i \<noteq> j" using Cons.prems by (auto simp: wants_def live_def)
    with False Cons show ?thesis by (simp add: fan_out_skip)
  qed
qed simp

section \<open>Each event is applied exactly once\<close>

lemma fold_nothing: "(\<And>x. x \<in> set xs \<Longrightarrow> f x = id) \<Longrightarrow> fold f xs s = s"
  by (induction xs) simp_all

lemma fold_single:
  assumes "distinct (map fst xs)" and "y \<in> set xs" and "\<And>x. x \<in> set xs \<Longrightarrow> fst x \<noteq> fst y \<Longrightarrow> f x = id"
  shows "fold f xs s = f y s"
proof -
  obtain us vs where xs: "xs = us @ y # vs" using assms(2) by (meson split_list)
  have d: "fst y \<notin> fst ` set us" "fst y \<notin> fst ` set vs" using assms(1) unfolding xs by auto
  have "f x = id" if "x \<in> set us \<or> x \<in> set vs" for x
  proof (rule assms(3))
    show "x \<in> set xs" using that xs by auto
    show "fst x \<noteq> fst y" using d that by (metis image_eqI)
  qed
  then have "fold f us t = t" "fold f vs t = t" for t by (auto intro: fold_nothing)
  then show ?thesis by (simp add: xs)
qed

lemma client_handlers_facts:
  "length client_handlers = 17" "length store_classes = 15" "map snd client_handlers = [0..<17]"
  "map fst client_handlers = store_classes @ [DeviceEv DeviceCreatedEvent, DeviceEv DeviceReleasedEvent]"
  by (simp_all add: client_handlers_def store_classes_def bridge_classes_def alarm_classes_def
    on_device_created_handler_def on_device_released_handler_def upt_conv_Cons)

lemma store_types_distinct: "distinct (map bus_type store_classes)"
  by code_simp

lemma fan_out_evolves: "bus_evolves b (snd (fan_out sc e ids b))"
proof (induction ids arbitrary: b)
  case (Cons i ids)
  show ?case
    by (cases rule: fan_out_cases [of b e i sc ids])
      (use Cons in \<open>auto intro: bus_evolves_acts bus_evolves_trans\<close>)
qed simp

lemma fan_out_calls:
  assumes "bus_ok b" and "i \<in> fst ` set (fst (fan_out sc e (bucket b (ev_type e)) b))"
  shows "live b i \<and> sub_event_type (bus_heap b ! i) = ev_type e"
proof -
  have "i \<in> set (bucket b (ev_type e))"
    using subseq_set_subset [OF fan_out_subseq [of sc e "bucket b (ev_type e)" b]] assms(2) by auto
  then show ?thesis using bus_ok_mem [OF assms(1)] by blast
qed

lemma dispatch_store:
  assumes w: "wired client_handlers g b" and wb: "well_behaved g sc"
  shows "snd (dispatch validate sc e (b, s)) =
    (case store_op_of (event_from_envelope validate e) of None \<Rightarrow> s | Some p \<Rightarrow> apply_op p s)"
proof -
  let ?ev = "event_from_envelope validate e"
  let ?e = "bus_event_of ?ev"
  let ?calls = "fst (bus_publish sc ?e b)" and ?b = "snd (bus_publish sc ?e b)"
  have eq: "snd (dispatch validate sc e (b, s)) = deliver ?ev ?b ?calls s"
    by (simp add: dispatch_def Let_def case_prod_unfold)
  show ?thesis
  proof (cases "store_op_of ?ev")
    case None
    then have "run_handler h ?ev = id" for h by (simp add: run_handler_def fun_eq_iff)
    then show ?thesis by (simp add: eq deliver_def None case_prod_unfold fold_nothing)
  next
    case (Some p)
    then have "le_class ?ev \<in> set store_classes" by (simp add: store_op_of_def split: if_splits)
    then obtain k where k: "k < 15" "store_classes ! k = le_class ?ev"
      by (auto simp: in_set_conv_nth client_handlers_facts)
    let ?i = "group_members g ! k"
    have len: "length (group_members g) = 17"
      using wired_members [OF w, THEN arg_cong, of length] by (simp add: client_handlers_facts)
    have entry: "sub_event_type (bus_heap b ! (group_members g ! j)) = bus_type (map fst client_handlers ! j)
        \<and> sub_handler (bus_heap b ! (group_members g ! j)) = map snd client_handlers ! j
        \<and> sub_event_key (bus_heap b ! (group_members g ! j)) = None" if "j < 17" for j
      using wired_members [OF w, THEN arg_cong, of "\<lambda>xs. xs ! j"] that len
      by (simp add: client_handlers_facts(1) case_prod_unfold)
    have mem: "?i \<in> set (group_members g)" using len k(1) by simp
    have lv: "live b ?i" by (rule wired_live [OF w mem])
    have ty: "sub_event_type (bus_heap b ! ?i) = ev_type ?e" "sub_handler (bus_heap b ! ?i) = k"
        "sub_event_key (bus_heap b ! ?i) = None"
      using entry [of k] k by (simp_all add: client_handlers_facts nth_append bus_event_of_def)
    have kept: "sub_handler (bus_heap ?b ! i) = sub_handler (bus_heap b ! i)" if "live b i" for i
      using fan_out_evolves [of b sc ?e "bucket b (ev_type ?e)"] live_bound [OF that]
      by (simp add: bus_evolves_def bus_publish_def)
    have "?i \<in> fst ` set ?calls"
      using fan_out_reaches [OF wb mem ty(3) lv] lv ty(1) bus_ok_mem [OF wired_ok [OF w]]
      by (simp add: bus_publish_def)
    then obtain r where r: "(?i, r) \<in> set ?calls" by auto
    have dist: "distinct (map fst ?calls)"
      unfolding bus_publish_def using wired_ok [OF w]
      by (intro subseq_distinct [OF fan_out_subseq]) (simp add: bus_ok_def)
    have other: "run_handler (sub_handler (bus_heap ?b ! fst x)) ?ev = id"
      if x: "x \<in> set ?calls" "fst x \<noteq> ?i" for x
    proof (rule ccontr)
      assume "\<not> ?thesis"
      then have small: "sub_handler (bus_heap ?b ! fst x) < 15" by (auto simp: run_handler_def fun_eq_iff split: if_splits)
      have lx: "live b (fst x)" "sub_event_type (bus_heap b ! fst x) = ev_type ?e"
        using fan_out_calls [OF wired_ok [OF w], of "fst x" sc ?e] x(1) by (simp_all add: bus_publish_def)
      with small have hx: "sub_handler (bus_heap b ! fst x) < 15" by (simp add: kept)
      then have "fst x \<in> set (group_members g)" using wired_only [OF w lx(1)] by simp
      then obtain j where j: "j < 17" "group_members g ! j = fst x" by (auto simp: in_set_conv_nth len)
      with entry [of j] hx have "j < 15" by (simp add: client_handlers_facts)
      with entry [of j] j lx(2) ty(1) k have "map bus_type store_classes ! j = map bus_type store_classes ! k"
        by (simp add: client_handlers_facts nth_append bus_event_of_def)
      then have "j = k"
        using \<open>j < 15\<close> k(1) client_handlers_facts(2) store_types_distinct by (simp only: nth_eq_iff_index_eq length_map)
      with j x show False by simp
    qed
    have "deliver ?ev ?b ?calls s = run_handler (sub_handler (bus_heap ?b ! ?i)) ?ev s"
      unfolding deliver_def case_prod_unfold
      by (rule trans [OF fold_single [OF dist r]]) (use other in simp_all)
    then show ?thesis using k(1) by (simp add: eq kept [OF lv] ty(2) run_handler_def Some)
  qed
qed

lemma dispatch_wired:
  "wired client_handlers g b \<Longrightarrow> well_behaved g sc \<Longrightarrow> wired client_handlers g (fst (dispatch validate sc e (b, s)))"
  by (simp add: dispatch_def Let_def case_prod_unfold bus_publish_def wired_fan_out)

text \<open>The client started \<open>n\<close> further times, and the envelopes it reads afterwards.\<close>

fun rewired :: "nat \<Rightarrow> sub_group \<times> bus" where
  "rewired 0 = wire_events (None, empty_bus)"
| "rewired (Suc n) = (let (g, b) = rewired n in wire_events (Some g, b))"

definition dispatch_loop ::
  "payload_validator \<Rightarrow> script \<Rightarrow> envelope list \<Rightarrow> bus \<times> store \<Rightarrow> bus \<times> store" where
  "dispatch_loop validate sc es bs = fold (dispatch validate sc) es bs"

text \<open>What the stream promises: the operation of each event that has one, once, in order.\<close>

definition applied_ops :: "payload_validator \<Rightarrow> envelope list \<Rightarrow> store_op list" where
  "applied_ops validate es = List.map_filter (store_op_of \<circ> event_from_envelope validate) es"

lemma dispatch_loop_run:
  "wired client_handlers g b \<Longrightarrow> well_behaved g sc \<Longrightarrow>
     snd (dispatch_loop validate sc es (b, s)) = fold apply_op (applied_ops validate es) s"
proof (induction es arbitrary: b s)
  case Nil
  then show ?case by (simp add: dispatch_loop_def applied_ops_def map_filter_simps)
next
  case (Cons e es)
  obtain b' s' where d: "dispatch validate sc e (b, s) = (b', s')" by fastforce
  have "snd (dispatch_loop validate sc es (b', s')) = fold apply_op (applied_ops validate es) s'"
    using Cons.IH [OF dispatch_wired [OF Cons.prems] Cons.prems(2)] d by (metis fst_conv)
  moreover have "s' = (case store_op_of (event_from_envelope validate e) of None \<Rightarrow> s | Some p \<Rightarrow> apply_op p s)"
    using dispatch_store [OF Cons.prems, of validate e s] d by simp
  ultimately show ?case
    by (cases "store_op_of (event_from_envelope validate e)")
      (simp_all add: dispatch_loop_def applied_ops_def map_filter_simps d)
qed

lemma rewired_wired: "wired client_handlers (fst (rewired n)) (snd (rewired n))"
proof (induction n)
  case 0
  have "wired [] (create_subscription_group ''loom-client-wire'') empty_bus"
    using bus_ok_empty by (simp add: wired_def create_subscription_group_def live_def empty_bus_def)
  then show ?case by (simp add: wire_events_wired)
next
  case (Suc n)
  then show ?case by (simp add: wire_events_wired case_prod_unfold Let_def)
qed

text \<open>C6: However often the client is started again on the same bus, every envelope's store operation is
  applied exactly once and in arrival order, whatever the other handlers subscribe, cancel or raise:
  starting again cancels the group of the previous start, so no push is applied twice, and a
  handler that raises costs no push. An envelope of an unknown type or with a payload that does not
  validate is no operation.\<close>

theorem stream_applies_once:
  assumes "well_behaved (fst (rewired n)) sc"
  shows "snd (dispatch_loop validate sc es (snd (rewired n), s)) = fold apply_op (applied_ops validate es) s"
  by (rule dispatch_loop_run [OF rewired_wired assms])

definition raising_script :: script where
  "raising_script h e b =
     (if h < 17 then ([], outcome.Returned) else ([Subscribe (ev_type e) 20 None], outcome.Raised))"

definition health_push :: envelope where
  "health_push = \<lparr>env_seq = 7, env_kind = ''event'', env_topic = Some ''alarm'',
     env_type = ''alarm.health_changed'', env_ts = ''2026-01-01T00:00:00Z'', env_payload = JNull\<rparr>"

definition unhealthy :: payload_validator where
  "unhealthy c j = Some \<lparr>pl_body = HealthPayload False, pl_unique_id = None, pl_central = None,
     pl_zone_id = None, pl_class = None, pl_fault_id = None\<rparr>"

lemma health_binding:
  "binding_of ''alarm.health_changed'' = Some (AlarmEv AlarmHealthChangedEvent)" "binding_of ''alarm.new'' = None"
  by code_simp+

lemma stream_applies_once_witness:
  "applied_ops unhealthy [health_push, health_push\<lparr>env_type := ''alarm.new''\<rparr>] = [AlarmHealth False]
   \<and> \<not> st_alarm_healthy (snd (dispatch_loop unhealthy raising_script
          [health_push, health_push\<lparr>env_type := ''alarm.new''\<rparr>] (snd (rewired 2), empty_store None 5)))"
proof -
  have "well_behaved (fst (rewired 2)) raising_script"
    by (simp add: well_behaved_def raising_script_def spares_def)
  note run = stream_applies_once [OF this]
  have "applied_ops unhealthy [health_push, health_push\<lparr>env_type := ''alarm.new''\<rparr>] = [AlarmHealth False]"
    by (simp add: applied_ops_def map_filter_simps event_from_envelope_def unknown_event_def health_push_def
      health_binding unhealthy_def store_op_of_def store_classes_def alarm_classes_def bridge_classes_def)
  then show ?thesis by (simp add: run apply_alarm_health_changed_def)
qed

end
