(* ===== verification/Coroutine.thy ===== *)
theory Coroutine
  imports StoreLive OpsProps "HOL-Library.Sublist"
begin

text \<open>
  The asynchronous methods that talk to the daemon and change the store, as functions on a world: the
  store, the clock and the calls sent so far. A method runs alone until it awaits; each await is a
  turn, in which time passes, the other tasks apply whatever store operations they like, and the
  daemon's reply arrives, or the task is cancelled. What the turns bring is a parameter, a
  sequence. The world keeps the operations applied, the calls sent and the events announced in
  order, for the statements. A call that fails reports the exception of the transport (Http.thy); a
  reply that is not of the expected model is a validation error.
\<close>

section \<open>The world\<close>

record readiness =
  rd_phase :: string
  rd_ready :: bool
  rd_loaded :: int
  rd_interfaces :: int

record ccu_entry =
  ce_name :: "string option"
  ce_readiness :: "readiness option"

record nested_channel =
  nc_summary :: channel_summary
  nc_data_points :: "dp_summary list option"

record device_channel =
  dc_address :: string
  dc_channels :: "nested_channel list"

record boot_snapshot =
  bs_snapshot :: snapshot
  bs_device_channels :: "device_channel list option"

datatype body =
    CcuBody "ccu_entry list"
  | SnapshotBody boot_snapshot
  | DetailBody device_detail
  | DataPointBody dp_summary
  | DataPointsBody "dp_summary list"
  | CalculatedBody calc_summary
  | CdpBody "cdp_state option"
  | PanelsBody "panel_entity list"
  | ZonesBody "zone_status list"
  | MotionBody "string list"
  | ArmedBody string
  | ResetBody nat nat
  | ProgramBody program_summary
  | HealthBody string
  | NoBody

datatype reply = Answer body | Fails loom_error | CancelHere

record turn =
  tn_elapsed :: nat
  tn_ops :: "store_op list"
  tn_info :: "info option"
  tn_reply :: reply

record batch =
  ba_devices :: "oid list"
  ba_data_points :: "oid list"
  ba_central :: "string option"

record world =
  w_store :: store
  w_env :: "nat \<Rightarrow> turn"
  w_turn :: nat
  w_now :: nat
  w_info :: "info option"
  w_sent :: "api_call list"
  w_ops :: "store_op list"
  w_announced :: "batch list"

datatype exc = Loom loom_error | OtherError | Cancelled

type_synonym 'a co = "world \<Rightarrow> (exc + 'a) \<times> world"

section \<open>Sequencing\<close>

definition ret :: "'a \<Rightarrow> 'a co" where
  "ret x w = (Inr x, w)"

definition bind :: "'a co \<Rightarrow> ('a \<Rightarrow> 'b co) \<Rightarrow> 'b co" where
  "bind m k w = (case m w of (Inl e, w') \<Rightarrow> (Inl e, w') | (Inr x, w') \<Rightarrow> k x w')"

definition andthen :: "unit co \<Rightarrow> 'b co \<Rightarrow> 'b co" where
  "andthen m k = bind m (\<lambda>u. k)"

definition throw :: "exc \<Rightarrow> 'a co" where
  "throw e w = (Inl e, w)"

text \<open>\<open>except\<close> with the class test as a predicate; what it does not match passes through.\<close>

definition catching :: "(exc \<Rightarrow> bool) \<Rightarrow> 'a co \<Rightarrow> (exc \<Rightarrow> 'a co) \<Rightarrow> 'a co" where
  "catching p m h w = (case m w of (Inl e, w') \<Rightarrow> if p e then h e w' else (Inl e, w') | (Inr x, w') \<Rightarrow> (Inr x, w'))"

definition loom_exc :: "exc_class \<Rightarrow> exc \<Rightarrow> bool" where
  "loom_exc c e = (case e of Loom l \<Rightarrow> error_isinstance l c | _ \<Rightarrow> False)"

definition any_exception :: "exc \<Rightarrow> bool" where
  "any_exception e \<longleftrightarrow> e \<noteq> Cancelled"

definition look :: "(world \<Rightarrow> 'a) \<Rightarrow> 'a co" where
  "look f w = (Inr (f w), w)"

definition act :: "store_op \<Rightarrow> unit co" where
  "act p w = (Inr (), w\<lparr>w_store := apply_op p (w_store w), w_ops := w_ops w @ [p]\<rparr>)"

section \<open>Awaiting\<close>

definition pass_turn :: "world \<Rightarrow> reply \<times> world" where
  "pass_turn w = (let t = w_env w (w_turn w) in
     (tn_reply t, w\<lparr>w_turn := Suc (w_turn w), w_now := w_now w + tn_elapsed t, w_info := tn_info t,
        w_store := fold apply_op (tn_ops t) (w_store w), w_ops := w_ops w @ tn_ops t\<rparr>))"

definition ask :: "api_call \<Rightarrow> (body \<Rightarrow> 'a option) \<Rightarrow> 'a co" where
  "ask c f w = (case pass_turn (w\<lparr>w_sent := w_sent w @ [c]\<rparr>) of
       (Answer b, w') \<Rightarrow> (case f b of None \<Rightarrow> Inl OtherError | Some x \<Rightarrow> Inr x, w')
     | (Fails e, w') \<Rightarrow> (Inl (Loom e), w')
     | (CancelHere, w') \<Rightarrow> (Inl Cancelled, w'))"

definition sleep :: "nat \<Rightarrow> unit co" where
  "sleep ms w = (case pass_turn (w\<lparr>w_now := w_now w + ms\<rparr>) of
     (r, w') \<Rightarrow> (if r = CancelHere then Inl Cancelled else Inr (), w'))"

text \<open>Publishing lets the handlers run: whatever they do to the store is in the turn.\<close>

definition announce :: "batch \<Rightarrow> unit co" where
  "announce b w = (case pass_turn (w\<lparr>w_announced := w_announced w @ [b]\<rparr>) of
     (r, w') \<Rightarrow> (if r = CancelHere then Inl Cancelled else Inr (), w'))"

primrec each :: "('a \<Rightarrow> unit co) \<Rightarrow> 'a list \<Rightarrow> unit co" where
  "each f [] = ret ()"
| "each f (x # xs) = andthen (f x) (each f xs)"

lemmas co_defs = ret_def bind_def andthen_def throw_def catching_def look_def act_def ask_def sleep_def announce_def
  pass_turn_def

section \<open>Relations every method keeps\<close>

text \<open>
  A relation between the world before and after, reflexive and transitive, that one turn keeps
  whatever it brings, is kept by every method whose own store operations keep it.
\<close>

definition keeps :: "(world \<Rightarrow> world \<Rightarrow> bool) \<Rightarrow> 'a co \<Rightarrow> bool" where
  "keeps R m \<longleftrightarrow> (\<forall>w. R w (snd (m w)))"

lemma keepsD: "keeps R m \<Longrightarrow> m w = (r, w') \<Longrightarrow> R w w'"
  unfolding keeps_def by (metis snd_conv)

named_theorems keeps_intros

locale world_relation =
  fixes R :: "world \<Rightarrow> world \<Rightarrow> bool"
  assumes refl: "R w w"
    and trans: "R u v \<Longrightarrow> R v w \<Longrightarrow> R u w"
    and turn: "R w (snd (pass_turn w))"
    and note_sent: "R w (w\<lparr>w_sent := w_sent w @ cs\<rparr>)"
    and note_time: "R w (w\<lparr>w_now := w_now w + ms\<rparr>)"
begin

lemma keeps_ret [keeps_intros]: "keeps R (ret x)"
  by (simp add: keeps_def ret_def refl)

lemma keeps_throw [keeps_intros]: "keeps R (throw e)"
  by (simp add: keeps_def throw_def refl)

lemma keeps_look [keeps_intros]: "keeps R (look f)"
  by (simp add: keeps_def look_def refl)

lemma keeps_ask [keeps_intros]: "keeps R (ask c f)"
  unfolding keeps_def
proof
  fix w
  have "snd (ask c f w) = snd (pass_turn (w\<lparr>w_sent := w_sent w @ [c]\<rparr>))"
    by (simp add: ask_def split: prod.splits reply.splits)
  then show "R w (snd (ask c f w))" using trans [OF note_sent turn] by simp
qed

lemma keeps_sleep [keeps_intros]: "keeps R (sleep ms)"
  using trans [OF note_time turn] by (simp add: keeps_def sleep_def split: prod.splits) (metis snd_conv)

lemma keeps_bind [keeps_intros]:
  assumes "keeps R m" and "\<And>x. keeps R (k x)"
  shows "keeps R (bind m k)"
  unfolding keeps_def
proof
  fix w
  obtain r w1 where m: "m w = (r, w1)" by fastforce
  have "R w w1" by (rule keepsD [OF assms(1) m])
  moreover have "R w1 (snd (k x w1))" for x using assms(2) by (simp add: keeps_def)
  ultimately show "R w (snd (bind m k w))"
    by (cases r) (auto simp: bind_def m intro: trans)
qed

lemma keeps_andthen [keeps_intros]: "keeps R m \<Longrightarrow> keeps R k \<Longrightarrow> keeps R (andthen m k)"
  by (simp add: andthen_def keeps_bind)

lemma keeps_catching [keeps_intros]:
  assumes "keeps R m" and "\<And>e. keeps R (h e)"
  shows "keeps R (catching p m h)"
  unfolding keeps_def
proof
  fix w
  obtain r w1 where m: "m w = (r, w1)" by fastforce
  have "R w w1" by (rule keepsD [OF assms(1) m])
  moreover have "R w1 (snd (h e w1))" for e using assms(2) by (simp add: keeps_def)
  ultimately show "R w (snd (catching p m h w))"
    by (cases r) (auto simp: catching_def m intro: trans)
qed

lemma keeps_each [keeps_intros]: "(\<And>x. x \<in> set xs \<Longrightarrow> keeps R (f x)) \<Longrightarrow> keeps R (each f xs)"
  by (induction xs) (auto intro: keeps_ret keeps_andthen)

lemma keeps_if [keeps_intros]: "(b \<Longrightarrow> keeps R m) \<Longrightarrow> (\<not> b \<Longrightarrow> keeps R k) \<Longrightarrow> keeps R (if b then m else k)"
  by simp

lemma keeps_option [keeps_intros]:
  "keeps R m \<Longrightarrow> (\<And>x. keeps R (k x)) \<Longrightarrow> keeps R (case y of None \<Rightarrow> m | Some x \<Rightarrow> k x)"
  by (cases y) auto

end

locale announcing_relation = world_relation +
  assumes note_announced: "R w (w\<lparr>w_announced := w_announced w @ bs\<rparr>)"
begin

lemma keeps_announce [keeps_intros]: "keeps R (announce b)"
  using trans [OF note_announced turn] by (simp add: keeps_def announce_def split: prod.splits) (metis snd_conv)

end

text \<open>
  Time and turns only grow, nothing sent or announced is taken back, and the store is where the
  operations applied since, its own and the others', lead from where it was.
\<close>

definition follows :: "world \<Rightarrow> world \<Rightarrow> bool" where
  "follows w w' \<longleftrightarrow> w_env w' = w_env w \<and> w_turn w \<le> w_turn w' \<and> w_now w \<le> w_now w'
     \<and> prefix (w_sent w) (w_sent w') \<and> prefix (w_announced w) (w_announced w')
     \<and> (\<exists>ps. w_ops w' = w_ops w @ ps \<and> w_store w' = fold apply_op ps (w_store w))"

lemma follows_trans: "follows u v \<Longrightarrow> follows v w \<Longrightarrow> follows u w"
  unfolding follows_def by (auto intro: order_trans prefix_order.trans)

interpretation following: announcing_relation follows
  by unfold_locales (auto simp: follows_def pass_turn_def Let_def intro: order_trans prefix_order.trans)

lemma follows_act [keeps_intros]: "keeps follows (act p)"
  by (simp add: keeps_def act_def follows_def)

text \<open>A store that a method has worked on is the store after a run of store operations.\<close>

lemma fold_store_run: "fold apply_op ps s = store_run ps s"
  by (induction ps arbitrary: s) (simp_all add: case_prod_unfold)

lemma follows_store_run:
  assumes "keeps follows m" and "m w = (r, w')"
  obtains ps where "w_store w' = store_run ps (w_store w)" and "w_ops w' = w_ops w @ ps"
  using keepsD [OF assms] that unfolding follows_def by (auto simp: fold_store_run)

text \<open>A property of the store that every operation but the ones in \<open>bad\<close> keeps.\<close>

definition stays :: "(store_op \<Rightarrow> bool) \<Rightarrow> (store \<Rightarrow> bool) \<Rightarrow> world \<Rightarrow> world \<Rightarrow> bool" where
  "stays bad P w w' \<longleftrightarrow> w_env w' = w_env w
     \<and> ((\<forall>p s. \<not> bad p \<longrightarrow> P s \<longrightarrow> P (apply_op p s)) \<longrightarrow> (\<forall>n. \<forall>p \<in> set (tn_ops (w_env w n)). \<not> bad p) \<longrightarrow>
          P (w_store w) \<longrightarrow> P (w_store w'))"

lemma stays_fold:
  "\<forall>p s. \<not> bad p \<longrightarrow> P s \<longrightarrow> P (apply_op p s) \<Longrightarrow> \<forall>p\<in>set ps. \<not> bad p \<Longrightarrow> P s \<Longrightarrow> P (fold apply_op ps s)"
  by (induction ps arbitrary: s) auto

interpretation staying: announcing_relation "stays bad P" for bad P
proof
  show "stays bad P u w" if "stays bad P u v" "stays bad P v w" for u v w
    using that unfolding stays_def by metis
  show "stays bad P w (snd (pass_turn w))" for w
    unfolding stays_def pass_turn_def Let_def by (simp add: stays_fold)
qed (simp_all add: stays_def)

lemma stays_act [keeps_intros]: "\<not> bad p \<Longrightarrow> keeps (stays bad P) (act p)"
  by (simp add: keeps_def act_def stays_def)

text \<open>A method that announces nothing.\<close>

definition silent :: "world \<Rightarrow> world \<Rightarrow> bool" where
  "silent w w' \<longleftrightarrow> w_announced w' = w_announced w"

interpretation silence: world_relation silent
  by unfold_locales (simp_all add: silent_def pass_turn_def Let_def)

lemma silent_act [keeps_intros]: "keeps silent (act p)"
  by (simp add: keeps_def act_def silent_def)

end
