(* ===== verification/StoreApi.thy ===== *)
theory StoreApi
  imports Coroutine StoreProps
begin

text \<open>
  The rest of the store (store.py): its read access, the methods that re-read one object and apply the
  answer, and the write-backs, which hand a call to the operation facade of their area. A read
  yields the identity of a live object, as the code yields the object itself.
\<close>

section \<open>Read access\<close>

definition devices :: "store \<Rightarrow> oid list" where
  "devices s = dict_values (reg_map (st_devices s))"

definition get_device :: "string \<Rightarrow> store \<Rightarrow> oid option" where
  "get_device addr s = reg_ref (st_devices s) addr"

definition get_channel :: "string \<Rightarrow> int \<Rightarrow> store \<Rightarrow> oid option" where
  "get_channel addr n s = reg_ref (st_channels s) (addr, n)"

definition get_data_point :: "string \<Rightarrow> int \<Rightarrow> string \<Rightarrow> store \<Rightarrow> oid option" where
  "get_data_point addr ch p s = reg_ref (st_dps s) (addr, ch, p)"

definition data_points :: "store \<Rightarrow> oid list" where
  "data_points s = dict_values (reg_map (st_dps s))"

text \<open>\<open>sorted\<close> over the entries of a registry that match, by a key of the object.\<close>

definition select_sorted ::
  "('k \<Rightarrow> bool) \<Rightarrow> ('o \<Rightarrow> 'n::linorder) \<Rightarrow> ('k, 'o) registry \<Rightarrow> oid list" where
  "select_sorted p key r =
     sort_key (\<lambda>i. key (reg_heap r ! i)) (map snd (filter (\<lambda>e. p (fst e)) (reg_map r)))"

definition channels_of :: "string \<Rightarrow> store \<Rightarrow> oid list" where
  "channels_of addr s = select_sorted (\<lambda>k. fst k = addr) (\<lambda>c. cs_number (ch_summary c)) (st_channels s)"

definition data_points_of :: "string \<Rightarrow> int \<Rightarrow> store \<Rightarrow> oid list" where
  "data_points_of addr ch s =
     select_sorted (\<lambda>k. fst k = addr \<and> fst (snd k) = ch) (\<lambda>d. dp_parameter (do_summary d)) (st_dps s)"

definition get_custom_data_point :: "string \<Rightarrow> string \<Rightarrow> store \<Rightarrow> oid option" where
  "get_custom_data_point addr n s = reg_ref (st_cdps s) (addr, n)"

definition custom_data_points :: "store \<Rightarrow> oid list" where
  "custom_data_points s = dict_values (reg_map (st_cdps s))"

definition custom_data_points_of :: "string \<Rightarrow> store \<Rightarrow> oid list" where
  "custom_data_points_of addr s =
     select_sorted (\<lambda>k. fst k = addr) (\<lambda>c. cd_name (co_summary c)) (st_cdps s)"

definition get_week_profile_data_point :: "string \<Rightarrow> bool \<Rightarrow> store \<Rightarrow> oid option" where
  "get_week_profile_data_point addr climate s =
     (case dict_get (st_week_profiles s) addr of None \<Rightarrow> None | Some d \<Rightarrow> dict_get d climate)"

definition programs :: "store \<Rightarrow> oid list" where
  "programs s = dict_values (reg_map (st_programs s))"

definition get_program :: "string \<Rightarrow> store \<Rightarrow> oid option" where
  "get_program pid s = reg_ref (st_programs s) pid"

definition sysvars :: "store \<Rightarrow> oid list" where
  "sysvars s = dict_values (reg_map (st_sysvars s))"

definition get_sysvar :: "string \<Rightarrow> store \<Rightarrow> oid option" where
  "get_sysvar n s = reg_ref (st_sysvars s) n"

definition alarm_panels :: "store \<Rightarrow> oid list" where
  "alarm_panels s = dict_values (reg_map (st_panels s))"

definition get_alarm_panel :: "string \<Rightarrow> store \<Rightarrow> oid option" where
  "get_alarm_panel uid s = reg_ref (st_panels s) uid"

definition get_alarm_panel_by_zone :: "string \<Rightarrow> store \<Rightarrow> oid option" where
  "get_alarm_panel_by_zone zid s = dict_get (st_zone_index s) zid"

text \<open>
  \<open>int(text)\<close> on ASCII text: white space around, an optional sign, digits with single underscores
  between them; anything else is a \<open>ValueError\<close>.
\<close>

definition py_space :: "char \<Rightarrow> bool" where
  "py_space c \<longleftrightarrow> (let n = of_char c :: nat in 9 \<le> n \<and> n \<le> 13 \<or> 28 \<le> n \<and> n \<le> 32)"

definition py_strip :: "string \<Rightarrow> string" where
  "py_strip s = rev (dropWhile py_space (rev (dropWhile py_space s)))"

fun digits_value :: "int \<Rightarrow> bool \<Rightarrow> string \<Rightarrow> int option" where
  "digits_value acc after_digit [] = (if after_digit then Some acc else None)"
| "digits_value acc after_digit (c # cs) =
     (let n = of_char c :: int in
      if 48 \<le> n \<and> n \<le> 57 then digits_value (acc * 10 + (n - 48)) True cs
      else if c = CHR ''_'' \<and> after_digit then digits_value acc False cs
      else None)"

definition python_int :: "string \<Rightarrow> int option" where
  "python_int s =
     (case py_strip s of
        c # cs \<Rightarrow>
          if c = CHR ''-'' then map_option uminus (digits_value 0 False cs)
          else if c = CHR ''+'' then digits_value 0 False cs
          else digits_value 0 False (c # cs)
      | [] \<Rightarrow> None)"

text \<open>\<open>s.partition(":")\<close>\<close>

definition partition_colon :: "string \<Rightarrow> string \<times> bool \<times> string" where
  "partition_colon s = (before_colon s, CHR '':'' \<in> set s, drop (Suc (length (before_colon s))) s)"

definition get_channel_by_address :: "string \<Rightarrow> store \<Rightarrow> oid option" where
  "get_channel_by_address a s =
     (case partition_colon a of (addr, sep, raw) \<Rightarrow>
        if \<not> sep then None
        else (case python_int raw of None \<Rightarrow> None | Some n \<Rightarrow> reg_ref (st_channels s) (addr, n)))"

text \<open>The view a device gives of its channels (model/device.py); \<open>None\<close> of the result is the \<open>ValueError\<close>.\<close>

definition channels_view_get :: "string \<Rightarrow> string \<Rightarrow> store \<Rightarrow> oid option option" where
  "channels_view_get device_address a s =
     (case partition_colon a of (addr, sep, raw) \<Rightarrow>
        if raw = '''' then Some None
        else (case python_int raw of None \<Rightarrow> None | Some n \<Rightarrow> Some (get_channel device_address n s)))"

section \<open>Re-reading one object\<close>

definition transport_bound :: "world \<Rightarrow> bool" where
  "transport_bound w \<longleftrightarrow> st_transport (w_store w) \<noteq> None"

definition when_bound :: "unit co \<Rightarrow> unit co" where
  "when_bound m = bind (look transport_bound) (\<lambda>b. if b then m else ret ())"

definition program_body :: "body \<Rightarrow> program_summary option" where
  "program_body b = (case b of ProgramBody p \<Rightarrow> Some p | _ \<Rightarrow> None)"

definition refresh_program :: "string \<Rightarrow> unit co" where
  "refresh_program pid =
     when_bound (bind (ask (Prog (GetProgram pid)) program_body) (\<lambda>p. act (AttachHub None (Some [p]))))"

definition detail_body :: "body \<Rightarrow> device_detail option" where
  "detail_body b = (case b of DetailBody d \<Rightarrow> Some d | _ \<Rightarrow> None)"

definition refresh_device :: "string \<Rightarrow> unit co" where
  "refresh_device addr =
     when_bound (bind (ask (DeviceRead (GetDeviceDetail addr)) detail_body) (\<lambda>d. act (AttachDetail d)))"

definition data_point_body :: "body \<Rightarrow> dp_summary option" where
  "data_point_body b = (case b of DataPointBody d \<Rightarrow> Some d | _ \<Rightarrow> None)"

definition refresh_data_point :: "string \<Rightarrow> int \<Rightarrow> string \<Rightarrow> unit co" where
  "refresh_data_point addr ch p =
     bind (look (\<lambda>w. refresh_dp_begin (w_store w))) (\<lambda>go. if go
       then bind (ask (DeviceRead (GetDataPoint addr ch p)) data_point_body)
              (\<lambda>sm. act (RefreshDpEnd (addr, ch, p) sm))
       else ret ())"

definition calculated_body :: "body \<Rightarrow> calc_summary option" where
  "calculated_body b = (case b of CalculatedBody c \<Rightarrow> Some c | _ \<Rightarrow> None)"

definition refresh_calculated_data_point :: "string \<Rightarrow> int \<Rightarrow> string \<Rightarrow> unit co" where
  "refresh_calculated_data_point addr ch n =
     when_bound (bind (ask (DeviceRead (GetCalculated addr ch n)) calculated_body)
       (\<lambda>c. act (RefreshCalculatedEnd (addr, ch, n) c)))"

definition cdp_body :: "body \<Rightarrow> cdp_state option option" where
  "cdp_body b = (case b of CdpBody st \<Rightarrow> Some st | _ \<Rightarrow> None)"

definition refresh_custom_data_point :: "string \<Rightarrow> string \<Rightarrow> unit co" where
  "refresh_custom_data_point addr n =
     bind (look (\<lambda>w. refresh_cdp_begin addr n (w_store w))) (\<lambda>g. case g of None \<Rightarrow> ret ()
       | Some generation \<Rightarrow>
           bind (ask (Cdp (GetCdp addr n)) cdp_body) (\<lambda>st. act (RefreshCdpEnd addr n generation st)))"

section \<open>Write-backs\<close>

text \<open>
  The facades are built on first use, on the transport bound then, and kept
  (\<open>cached_property\<close>). Transports are named by numbers.
\<close>

datatype facade = AlarmFacade | HubFacade | DatapointsFacade | DevicesFacade | CdpsFacade

record bindings =
  bd_transport :: "nat option"
  bd_cached :: "(facade, nat) dict"

datatype unbound = RuntimeError

definition require_transport :: "bindings \<Rightarrow> unbound + nat" where
  "require_transport b = (case bd_transport b of None \<Rightarrow> Inl RuntimeError | Some t \<Rightarrow> Inr t)"

definition facade_transport :: "facade \<Rightarrow> bindings \<Rightarrow> (unbound + nat) \<times> bindings" where
  "facade_transport f b =
     (case dict_get (bd_cached b) f of
        Some t \<Rightarrow> (Inr t, b)
      | None \<Rightarrow> (case require_transport b of
            Inl e \<Rightarrow> (Inl e, b)
          | Inr t \<Rightarrow> (Inr t, b\<lparr>bd_cached := dict_put f t (bd_cached b)\<rparr>)))"

definition bind_transport :: "nat \<Rightarrow> bindings \<Rightarrow> bindings" where
  "bind_transport t b = b\<lparr>bd_transport := Some t\<rparr>"

datatype write_back =
    ArmAlarmZone string string "string option" "bool option" "bool option" "string list option"
  | DisarmAlarmZone string "string option"
  | SilenceAlarmZone string "string option"
  | AcknowledgeAlarmZone string "string option"
  | SilenceAllAlarmZones
  | ResetAlarmZoneMotion string
  | ResetAllAlarmMotion
  | WriteValue string int string json "string option"
  | WriteSysvar string json
  | RunProgram string
  | InvokeCustomDataPoint string string string "(string \<times> json) list option" "string option"
  | UpdateDeviceFirmware string

fun facade_of :: "write_back \<Rightarrow> facade" where
  "facade_of (WriteValue a c p v prio) = DatapointsFacade"
| "facade_of (WriteSysvar n v) = HubFacade"
| "facade_of (RunProgram p) = HubFacade"
| "facade_of (InvokeCustomDataPoint a n oper ps prio) = CdpsFacade"
| "facade_of (UpdateDeviceFirmware a) = DevicesFacade"
| "facade_of _ = AlarmFacade"

fun call_of :: "write_back \<Rightarrow> api_call" where
  "call_of (ArmAlarmZone z m cd force skip bypass) = Verb (ArmZone z m force skip bypass cd)"
| "call_of (DisarmAlarmZone z cd) = Verb (DisarmZone z cd)"
| "call_of (SilenceAlarmZone z cd) = Verb (SilenceZone z cd)"
| "call_of (AcknowledgeAlarmZone z cd) = Verb (AcknowledgeZone z cd)"
| "call_of SilenceAllAlarmZones = Verb SilenceAll"
| "call_of (ResetAlarmZoneMotion z) = Motion (ResetZoneMotion z)"
| "call_of ResetAllAlarmMotion = Motion ResetAllMotion"
| "call_of (WriteValue a c p v prio) = Dp (SetValue a c p v prio)"
| "call_of (WriteSysvar n v) = Sysvar (SetSysvar n v)"
| "call_of (RunProgram p) = Prog (ExecuteProgram p)"
| "call_of (InvokeCustomDataPoint a n oper ps prio) = Cdp (Invoke a n oper ps prio)"
| "call_of (UpdateDeviceFirmware a) = DeviceWrite (UpdateFirmware a)"

definition write_back_to :: "write_back \<Rightarrow> bindings \<Rightarrow> (unbound + nat \<times> api_call) \<times> bindings" where
  "write_back_to wb b = (case facade_transport (facade_of wb) b of
       (Inl e, b') \<Rightarrow> (Inl e, b')
     | (Inr t, b') \<Rightarrow> (Inr (t, call_of wb), b'))"

text \<open>The one write that reads back: switch a program, then re-read it.\<close>

definition set_program_enabled :: "string \<Rightarrow> bool \<Rightarrow> unit co" where
  "set_program_enabled pid active =
     bind (look transport_bound) (\<lambda>b. if b
       then andthen (ask (Prog (SetProgramEnabled pid active)) (\<lambda>b. Some ())) (refresh_program pid)
       else throw OtherError)"

section \<open>Addresses read back\<close>

definition is_digit_char :: "char \<Rightarrow> bool" where
  "is_digit_char c \<longleftrightarrow> (let n = of_char c :: int in 48 \<le> n \<and> n \<le> 57)"

lemma of_char_digit: "d < 10 \<Longrightarrow> (of_char (digit d) :: int) = 48 + int d"
  unfolding digit_def of_nat_of_char [where 'a = int, symmetric] by (simp add: of_char_of)

lemma is_digit_digit: "d < 10 \<Longrightarrow> is_digit_char (digit d)"
  by (simp add: is_digit_char_def of_char_digit)

lemma show_nat_is_digit: "c \<in> set (show_nat n) \<Longrightarrow> is_digit_char c"
  using show_nat_digits is_digit_digit by metis

lemma digits_value_digits:
  "list_all is_digit_char xs \<Longrightarrow> digits_value acc b (xs @ ys) =
     digits_value (foldl (\<lambda>a c. a * 10 + (of_char c - 48)) acc xs) (b \<or> xs \<noteq> []) ys"
  by (induction xs arbitrary: acc b) (simp_all add: is_digit_char_def Let_def)

lemma foldl_show_nat: "foldl (\<lambda>a c. a * 10 + (of_char c - 48)) 0 (show_nat n) = int n"
proof (induction n rule: show_nat.induct)
  case (1 n)
  show ?case
  proof (cases "n < 10")
    case True
    then show ?thesis by (simp add: show_nat.simps [of n] of_char_digit)
  next
    case False
    then have "foldl (\<lambda>a c. a * 10 + (of_char c - 48)) 0 (show_nat (n div 10)) = int (n div 10)" using 1 by simp
    moreover have "int (n div 10) * 10 + int (n mod 10) = int n" by presburger
    ultimately show ?thesis using False by (simp add: show_nat.simps [of n] of_char_digit)
  qed
qed

lemma show_nat_nonempty: "show_nat n \<noteq> []"
  by (simp add: show_nat.simps [of n])

lemma digits_value_show: "digits_value 0 False (show_nat n) = Some (int n)"
  using digits_value_digits [of "show_nat n" 0 False "[]"] show_nat_is_digit show_nat_nonempty
  by (simp add: list_all_iff foldl_show_nat)

lemma not_space: "is_digit_char c \<or> c = CHR ''-'' \<Longrightarrow> \<not> py_space c"
  unfolding is_digit_char_def py_space_def of_nat_of_char [where 'a = int, symmetric]
  by (auto simp: Let_def)

lemma py_strip_plain:
  assumes "\<And>c. c \<in> set s \<Longrightarrow> \<not> py_space c"
  shows "py_strip s = s"
proof -
  have "dropWhile py_space t = t" if "set t \<subseteq> set s" for t
    using that assms by (cases t) auto
  then show ?thesis by (simp add: py_strip_def)
qed

lemma digit_no_sign: "is_digit_char c \<Longrightarrow> c \<noteq> CHR ''-'' \<and> c \<noteq> CHR ''+'' \<and> c \<noteq> CHR '':''"
  by (auto simp: is_digit_char_def)

lemma python_int_show_int [simp]: "python_int (show_int i) = Some i"
proof (cases "i < 0")
  case True
  have "py_strip (CHR ''-'' # show_nat (nat (- i))) = CHR ''-'' # show_nat (nat (- i))"
    using show_nat_is_digit not_space by (intro py_strip_plain) auto
  with True show ?thesis by (simp add: python_int_def show_int_def digits_value_show)
next
  case False
  have s: "py_strip (show_nat (nat i)) = show_nat (nat i)"
    using show_nat_is_digit not_space by (intro py_strip_plain) auto
  obtain c cs where c: "show_nat (nat i) = c # cs" using show_nat_nonempty by (cases "show_nat (nat i)") auto
  then have "is_digit_char c" using show_nat_is_digit [of c "nat i"] by simp
  then show ?thesis
    using False s c digits_value_show [of "nat i"] digit_no_sign [of c] by (simp add: python_int_def show_int_def)
qed

lemma partition_colon_address: "CHR '':'' \<notin> set addr \<Longrightarrow> partition_colon (addr @ CHR '':'' # raw) = (addr, True, raw)"
proof -
  assume "CHR '':'' \<notin> set addr"
  then have "before_colon (addr @ CHR '':'' # raw) = addr"
    unfolding before_colon_def by (induction addr) auto
  then show ?thesis by (simp add: partition_colon_def)
qed

section \<open>Selections\<close>

lemma select_sorted_mem:
  "reg_ok r \<Longrightarrow> i \<in> set (select_sorted p key r) \<longleftrightarrow> (\<exists>k. p k \<and> reg_ref r k = Some i)"
  unfolding select_sorted_def reg_ok_def by (force simp: reg_ref_def dict_ok_def image_iff)

lemma select_sorted_sorted: "sorted (map (\<lambda>i. key (reg_heap r ! i)) (select_sorted p key r))"
  by (simp add: select_sorted_def)

lemma select_sorted_distinct:
  assumes "reg_ok r"
  shows "distinct (select_sorted p key r)"
proof -
  have "inj_on snd (set (reg_map r))"
  proof (rule inj_onI)
    fix x y assume xy: "x \<in> set (reg_map r)" "y \<in> set (reg_map r)" "snd x = snd y"
    then have "reg_ref r (fst x) = Some (snd x)" "reg_ref r (fst y) = Some (snd x)"
      using assms unfolding reg_ok_def reg_ref_def by (metis dict_get_iff_mem prod.collapse)+
    then have "fst x = fst y" by (rule reg_ok_inj [OF assms])
    with xy(3) show "x = y" by (simp add: prod_eq_iff)
  qed
  moreover have "distinct (reg_map r)" using assms by (simp add: reg_ok_def dict_ok_def distinct_map)
  ultimately show ?thesis
    by (simp add: select_sorted_def distinct_map inj_on_subset)
qed

section \<open>Properties\<close>

text \<open>Fact: A channel address as the daemon writes it, device, colon, number, finds exactly the channel registered
  under that device and number, and a text that is no such address finds nothing. The view of a
  device's own channels goes by the number alone: it answers with its own channel for an address of
  another device, and raises on a number that is none.\<close>

theorem channel_address_resolved:
  assumes "CHR '':'' \<notin> set addr"
  shows "get_channel_by_address (addr @ '':'' @ show_int n) s = get_channel addr n s
    \<and> channels_view_get dev (addr @ '':'' @ show_int n) s = Some (get_channel dev n s)
    \<and> get_channel_by_address addr s = None \<and> channels_view_get dev addr s = Some None
    \<and> (python_int raw = None \<longrightarrow> get_channel_by_address (addr @ '':'' @ raw) s = None
        \<and> (raw \<noteq> '''' \<longrightarrow> channels_view_get dev (addr @ '':'' @ raw) s = None))"
proof -
  have "show_int n \<noteq> ''''" by (simp add: show_int_def show_nat_nonempty)
  moreover have "before_colon addr = addr"
    using assms by (auto simp: before_colon_def takeWhile_eq_all_conv)
  ultimately show ?thesis
    using assms by (simp add: get_channel_by_address_def channels_view_get_def partition_colon_address get_channel_def)
      (simp add: partition_colon_def)
qed

lemma channel_address_resolved_witness:
  "get_channel_by_address ''VCU0000001:-3'' (empty_store None 5) = get_channel ''VCU0000001'' (- 3) (empty_store None 5)
   \<and> channels_view_get ''VCU0000002'' ''VCU0000001:x'' (empty_store None 5) = None"
proof -
  have i: "show_int (- 3) = ''-3''" by code_simp
  have x: "python_int ''x'' = None" by code_simp
  show ?thesis
    using channel_address_resolved [of "''VCU0000001''" "- 3" "empty_store None 5" "''VCU0000002''" "''x''"]
    by (simp add: i x)
qed

text \<open>Fact: Listing a device's channels or a channel's data points yields each registered object once, all of them
  and no other device's, channels by ascending number and data points by parameter name.\<close>

theorem listings_exact:
  assumes "store_ok s"
  shows "set (channels_of addr s) = {i. \<exists>n. get_channel addr n s = Some i}
    \<and> sorted (map (\<lambda>i. cs_number (ch_summary (reg_heap (st_channels s) ! i))) (channels_of addr s))
    \<and> distinct (channels_of addr s)
    \<and> set (data_points_of addr ch s) = {i. \<exists>p. get_data_point addr ch p s = Some i}
    \<and> sorted (map (\<lambda>i. dp_parameter (do_summary (reg_heap (st_dps s) ! i))) (data_points_of addr ch s))
    \<and> distinct (data_points_of addr ch s)"
proof -
  have ok: "reg_ok (st_channels s)" "reg_ok (st_dps s)" using assms by (simp_all add: store_ok_def)
  have "set (channels_of addr s) = {i. \<exists>n. get_channel addr n s = Some i}"
    unfolding channels_of_def get_channel_def set_eq_iff select_sorted_mem [OF ok(1)] by simp
  moreover have "set (data_points_of addr ch s) = {i. \<exists>p. get_data_point addr ch p s = Some i}"
    unfolding data_points_of_def get_data_point_def set_eq_iff select_sorted_mem [OF ok(2)] by simp
  ultimately show ?thesis
    unfolding channels_of_def data_points_of_def
    by (intro conjI) (assumption | rule select_sorted_sorted select_sorted_distinct [OF ok(1)] select_sorted_distinct [OF ok(2)])+
qed

definition two_channels :: device_detail where
  "two_channels = demo_detail ''A'' [2, 1]"

lemma two_channels_listed:
  "channels_of ''A'' (attach_device_detail two_channels (empty_store None 5)) = [1, 0]"
  by (simp add: channels_of_def select_sorted_def two_channels_def demo_detail_def demo_summary_def attach_device_detail_def
    upsert_device_summary_def upsert_channel_def before_colon_def empty_store_def can_admit_device_def reg_insert_def
    reg_upsert_def reg_ref_def reg_empty_def reg_modify_def reg_keys_def mutate_def Let_def)

lemma listings_exact_witness:
  "{i. \<exists>n. get_channel ''A'' n (attach_device_detail two_channels (empty_store None 5)) = Some i} = {0, 1}"
proof -
  have "store_ok (attach_device_detail two_channels (empty_store None 5))"
    using store_ok_op [OF store_ok_empty, of "AttachDetail two_channels" None 5] by simp
  from listings_exact [OF this, of "''A''", THEN conjunct1] show ?thesis
    unfolding two_channels_listed by auto
qed

text \<open>Fact: Switching a program writes first and reads back second. When the read fails, a program deleted in
  between included, the call raises although the switch was made, and the store keeps what it had.\<close>

theorem program_switch_read_back:
  assumes "transport_bound w" and "tn_reply (w_env w (w_turn w)) = Answer b"
    and "st_transport (fold apply_op (tn_ops (w_env w (w_turn w))) (w_store w)) \<noteq> None"
    and "tn_reply (w_env w (Suc (w_turn w))) = Fails e"
  shows "fst (set_program_enabled pid active w) = Inl (Loom e)
    \<and> w_sent (snd (set_program_enabled pid active w)) =
        w_sent w @ [Prog (SetProgramEnabled pid active), Prog (GetProgram pid)]
    \<and> w_ops (snd (set_program_enabled pid active w)) =
        w_ops w @ tn_ops (w_env w (w_turn w)) @ tn_ops (w_env w (Suc (w_turn w)))"
  using assms by (simp add: set_program_enabled_def refresh_program_def when_bound_def transport_bound_def co_defs Let_def)

definition quiet_turn :: "reply \<Rightarrow> turn" where
  "quiet_turn r = \<lparr>tn_elapsed = 1, tn_ops = [], tn_info = None, tn_reply = r\<rparr>"

definition start_world :: "store \<Rightarrow> (nat \<Rightarrow> turn) \<Rightarrow> world" where
  "start_world s env = \<lparr>w_store = s, w_env = env, w_turn = 0, w_now = 0, w_info = None, w_sent = [], w_ops = [],
     w_announced = []\<rparr>"

definition gone_error :: loom_error where
  "gone_error = PlainError LoomTransportError"

lemma program_switch_read_back_witness:
  "fst (set_program_enabled ''12'' True (start_world (empty_store (Some \<lparr>tr_connected = True, tr_capabilities = None\<rparr>) 5)
     (\<lambda>n. quiet_turn (if n = 0 then Answer NoBody else Fails gone_error)))) = Inl (Loom gone_error)"
  using program_switch_read_back [of "start_world (empty_store (Some \<lparr>tr_connected = True, tr_capabilities = None\<rparr>) 5)
     (\<lambda>n. quiet_turn (if n = 0 then Answer NoBody else Fails gone_error))" NoBody gone_error "''12''" True]
  by (simp add: start_world_def quiet_turn_def transport_bound_def empty_store_def)

text \<open>Fact: A write-back without a transport raises and sends nothing; with one, it goes to the transport that was
  bound when its facade was first used: binding another transport later moves only the facades that
  were never used.\<close>

theorem write_back_transport:
  assumes "write_back_to wb b = (r, b')"
  shows "case r of
      Inl e \<Rightarrow> bd_transport b = None \<and> b' = b
    | Inr (t, c) \<Rightarrow> c = call_of wb \<and> (dict_get (bd_cached b) (facade_of wb) = Some t \<or> bd_transport b = Some t)
        \<and> (\<forall>wb' t'. facade_of wb' = facade_of wb \<longrightarrow>
              fst (write_back_to wb' (bind_transport t' b')) = Inr (t, call_of wb'))"
  using assms by (auto simp: write_back_to_def facade_transport_def require_transport_def bind_transport_def
      split: option.splits sum.splits prod.splits)

lemma write_back_transport_witness:
  "fst (write_back_to (RunProgram ''12'') (bind_transport 2
     (snd (write_back_to (WriteSysvar ''x'' JNull) \<lparr>bd_transport = Some 1, bd_cached = []\<rparr>)))) =
     Inr (1, Prog (ExecuteProgram ''12''))"
proof -
  have "write_back_to (WriteSysvar ''x'' JNull) \<lparr>bd_transport = Some 1, bd_cached = []\<rparr> =
      (Inr (1, call_of (WriteSysvar ''x'' JNull)), \<lparr>bd_transport = Some 1, bd_cached = [(HubFacade, 1)]\<rparr>)"
    by (simp add: write_back_to_def facade_transport_def require_transport_def)
  from write_back_transport [OF this] this show ?thesis by simp
qed

end
