(* ===== verification/Bootstrap.thy ===== *)
theory Bootstrap
  imports StoreApi
begin

text \<open>
  How the client fills the store (client.py): the readiness probe and the wait for it, the pinning of
  the central, the bootstrap walk with its fallback reads, the alarm section, and the reconcile of one
  device. Times are in milliseconds.
\<close>

section \<open>Readiness\<close>

definition ccu_body :: "body \<Rightarrow> ccu_entry list option" where
  "ccu_body b = (case b of CcuBody es \<Rightarrow> Some es | _ \<Rightarrow> None)"

definition health_body :: "body \<Rightarrow> string option" where
  "health_body b = (case b of HealthBody h \<Rightarrow> Some h | _ \<Rightarrow> None)"

definition or_none :: "'a co \<Rightarrow> 'a option co" where
  "or_none m = catching (loom_exc BaseLoomException) (bind m (\<lambda>x. ret (Some x))) (\<lambda>e. ret None)"

definition get_health :: "string option co" where
  "get_health = or_none (ask (Info GetHealth) health_body)"

definition list_system_ccus :: "ccu_entry list option co" where
  "list_system_ccus = or_none (ask (Ccu ListSystemCcus) ccu_body)"

definition readiness_entry :: "string \<Rightarrow> ccu_entry list \<Rightarrow> ccu_entry option" where
  "readiness_entry central es =
     (case (if central = '''' then None else find (\<lambda>e. ce_name e = Some central) es) of
        Some e \<Rightarrow> Some e
      | None \<Rightarrow> (case es of [e] \<Rightarrow> Some e | _ \<Rightarrow> None))"

definition central_of :: "world \<Rightarrow> string" where
  "central_of w = st_central_id (w_store w)"

definition get_readiness :: "readiness option co" where
  "get_readiness =
     bind list_system_ccus (\<lambda>es. case es of None \<Rightarrow> ret None
       | Some es \<Rightarrow> bind (look central_of) (\<lambda>central.
           ret (case readiness_entry central es of None \<Rightarrow> None | Some e \<Rightarrow> ce_readiness e)))"

definition readiness_poll_ms :: nat where "readiness_poll_ms = 3000"

function wait_loop :: "rat \<Rightarrow> bool co" where
  "wait_loop deadline w =
     (case get_readiness w of
        (Inl e, w1) \<Rightarrow> (Inl e, w1)
      | (Inr None, w1) \<Rightarrow> (Inr True, w1)
      | (Inr (Some rd), w1) \<Rightarrow>
          if rd_ready rd then (Inr True, w1)
          else if deadline \<le> of_nat (w_now w1) then (Inr False, w1)
          else (case sleep readiness_poll_ms w1 of
                  (Inl e, w2) \<Rightarrow> (Inl e, w2)
                | (Inr u, w2) \<Rightarrow> wait_loop deadline w2))"
  by pat_completeness auto

definition wait_until_ready :: "loom_config \<Rightarrow> rat option \<Rightarrow> bool co" where
  "wait_until_ready cfg timeout w =
     wait_loop (of_nat (w_now w) + 1000 * (case timeout of None \<Rightarrow> cfg_readiness_wait cfg | Some t \<Rightarrow> t)) w"

section \<open>The central\<close>

definition entry_names :: "ccu_entry list \<Rightarrow> string list" where
  "entry_names es = concat (map (\<lambda>e. case ce_name e of None \<Rightarrow> [] | Some n \<Rightarrow> if n = '''' then [] else [n]) es)"

definition resolve_central :: "string \<Rightarrow> string list \<Rightarrow> string option" where
  "resolve_central configured names =
     (if configured \<noteq> '''' \<and> configured \<in> set names then Some configured
      else (case names of [x] \<Rightarrow> Some x | _ \<Rightarrow> None))"

definition pin_from :: "ccu_entry list \<Rightarrow> unit co" where
  "pin_from es =
     andthen (act (SetCentralCount (int (length (entry_names es)))))
       (bind (look (\<lambda>w. central_name (w_store w))) (\<lambda>configured.
          case resolve_central configured (entry_names es) of None \<Rightarrow> ret ()
          | Some n \<Rightarrow> act (SetCentralId (Some n))))"

definition pin_central_id :: "unit co" where
  "pin_central_id =
     bind (look central_of) (\<lambda>c. if c \<noteq> '''' then ret ()
       else bind list_system_ccus (\<lambda>es. case es of None \<Rightarrow> ret () | Some es \<Rightarrow> pin_from es))"

section \<open>One device\<close>

definition channel_map :: "device_channel list option \<Rightarrow> (string, nested_channel list) dict" where
  "channel_map dcs = fold (\<lambda>d. dict_put (dc_address d) (dc_channels d)) (case dcs of None \<Rightarrow> [] | Some ds \<Rightarrow> ds) []"

definition nested_data_points :: "nested_channel list \<Rightarrow> (int, dp_summary list) dict" where
  "nested_data_points cs =
     fold (\<lambda>c. dict_put (cs_number (nc_summary c)) (case nc_data_points c of None \<Rightarrow> [] | Some ds \<Rightarrow> ds)) cs []"

definition channel_dp_map :: "device_channel list option \<Rightarrow> (string, (int, dp_summary list) dict) dict" where
  "channel_dp_map dcs =
     fold (\<lambda>d. dict_put (dc_address d) (nested_data_points (dc_channels d))) (case dcs of None \<Rightarrow> [] | Some ds \<Rightarrow> ds) []"

definition listed :: "int \<Rightarrow> (int, dp_summary list) dict \<Rightarrow> dp_summary list" where
  "listed n m = (case dict_get m n of None \<Rightarrow> [] | Some ds \<Rightarrow> ds)"

definition attach_device_from_snapshot ::
  "device_summary \<Rightarrow> nested_channel list \<Rightarrow> (int, dp_summary list) dict option \<Rightarrow> unit co" where
  "attach_device_from_snapshot sm cs dps =
     andthen (act (AttachDetail \<lparr>dd_summary = sm, dd_channels = map nc_summary cs\<rparr>))
       (case dps of None \<Rightarrow> ret ()
        | Some m \<Rightarrow> each (\<lambda>c. act (AttachDataPoints (ds_address sm) (cs_number (nc_summary c))
              (listed (cs_number (nc_summary c)) m))) cs)"

definition dps_body :: "body \<Rightarrow> dp_summary list option" where
  "dps_body b = (case b of DataPointsBody ds \<Rightarrow> Some ds | _ \<Rightarrow> None)"

definition fetch_device_into_store ::
  "string \<Rightarrow> bool \<Rightarrow> (int, dp_summary list) dict option \<Rightarrow> unit co" where
  "fetch_device_into_store addr fetch dps =
     bind (ask (DeviceRead (GetDeviceDetail addr)) detail_body) (\<lambda>d.
       andthen (act (AttachDetail d))
         (if \<not> fetch then ret ()
          else each (\<lambda>c. bind (case dps of
                Some m \<Rightarrow> ret (listed (cs_number c) m)
              | None \<Rightarrow> ask (DeviceRead (ListDataPoints addr (cs_number c))) dps_body)
            (\<lambda>ds. act (AttachDataPoints addr (cs_number c) ds))) (dd_channels d)))"

section \<open>Alarm panels\<close>

definition panels_body :: "body \<Rightarrow> panel_entity list option" where
  "panels_body b = (case b of PanelsBody ps \<Rightarrow> Some ps | _ \<Rightarrow> None)"

definition zones_body :: "body \<Rightarrow> zone_status list option" where
  "zones_body b = (case b of ZonesBody zs \<Rightarrow> Some zs | _ \<Rightarrow> None)"

definition motion_body :: "body \<Rightarrow> string list option" where
  "motion_body b = (case b of MotionBody zs \<Rightarrow> Some zs | _ \<Rightarrow> None)"

definition refresh_triggered_motion :: "unit co" where
  "refresh_triggered_motion =
     bind (or_none (ask (Motion (ListTriggeredMotion None)) motion_body))
       (\<lambda>zs. case zs of None \<Rightarrow> ret () | Some zs \<Rightarrow> act (TriggeredMotion zs))"

definition alarm_off :: "world \<Rightarrow> bool" where
  "alarm_off w = (case w_info w of None \<Rightarrow> False | Some i \<Rightarrow> ''alarm.v1'' \<notin> set (info_caps i))"

definition list_panels :: "panel_entity list option co" where
  "list_panels = catching (loom_exc LoomNotFoundError)
     (bind (ask (Zone ListPanels) panels_body) (\<lambda>ps. ret (Some ps))) (\<lambda>e. ret None)"

definition bootstrap_alarm_panels :: "unit co" where
  "bootstrap_alarm_panels =
     bind (look alarm_off) (\<lambda>off. if off then ret () else
       bind list_panels (\<lambda>ps. case ps of None \<Rightarrow> ret ()
         | Some ps \<Rightarrow> andthen (act (AttachPanels ps))
             (if ps = [] then ret ()
              else bind (ask (Zone GetZoneStatuses) zones_body) (\<lambda>zs.
                andthen (act (AttachZoneStatuses zs)) refresh_triggered_motion))))"

section \<open>The walk\<close>

definition text_or_none :: "string \<Rightarrow> string option" where
  "text_or_none c = (if c = '''' then None else Some c)"

definition channel_data_points :: "store \<Rightarrow> oid \<Rightarrow> oid list" where
  "channel_data_points s c =
     (let sm = ch_summary (reg_heap (st_channels s) ! c)
      in data_points_of (before_colon (cs_address sm)) (cs_number sm) s)"

definition device_data_points :: "store \<Rightarrow> oid \<Rightarrow> oid list" where
  "device_data_points s i =
     concat (map (channel_data_points s) (channels_of (ds_address (dv_summary (reg_heap (st_devices s) ! i))) s))"

definition device_batch :: "oid list \<Rightarrow> string option \<Rightarrow> store \<Rightarrow> batch" where
  "device_batch ds central s =
     \<lparr>ba_devices = ds, ba_data_points = concat (map (device_data_points s) ds), ba_central = central\<rparr>"

definition snapshot_body :: "body \<Rightarrow> boot_snapshot option" where
  "snapshot_body b = (case b of SnapshotBody sn \<Rightarrow> Some sn | _ \<Rightarrow> None)"

definition load_device :: "bool \<Rightarrow> device_channel list option \<Rightarrow> device_summary \<Rightarrow> unit co" where
  "load_device fetch dcs sm =
     (let dps = (if fetch then dict_get (channel_dp_map dcs) (ds_address sm) else None)
      in case dict_get (channel_map dcs) (ds_address sm) of
           Some cs \<Rightarrow> attach_device_from_snapshot sm cs dps
         | None \<Rightarrow> fetch_device_into_store (ds_address sm) fetch dps)"

definition get_snapshot :: "bool \<Rightarrow> bool \<Rightarrow> string \<Rightarrow> boot_snapshot co" where
  "get_snapshot released fetch central =
     ask (Info (GetSnapshot (Some (if fetch then ''channels,data_points'' else ''channels'')) released
            (text_or_none central))) snapshot_body"

definition announce_devices :: "string option \<Rightarrow> unit co" where
  "announce_devices central =
     bind (look (\<lambda>w. device_batch (devices (w_store w)) central (w_store w))) announce"

definition fill_store :: "bool \<Rightarrow> boot_snapshot \<Rightarrow> unit co" where
  "fill_store fetch sn =
     andthen (act (LoadSnapshot (bs_snapshot sn)))
       (bind (look central_of) (\<lambda>central.
          andthen (each (load_device fetch (bs_device_channels sn)) (sn_devices (bs_snapshot sn)))
            (andthen bootstrap_alarm_panels (announce_devices (text_or_none central)))))"

definition bootstrap :: "bool \<Rightarrow> bool \<Rightarrow> unit co" where
  "bootstrap released fetch =
     andthen pin_central_id
       (bind (look central_of) (\<lambda>c. bind (get_snapshot released fetch c) (fill_store fetch)))"

text \<open>The walk after a lost replay, with the hook of the layer above; a failure is logged.\<close>

definition run_rebootstrap :: "bool \<Rightarrow> unit co option \<Rightarrow> unit co" where
  "run_rebootstrap released hook =
     catching any_exception
       (andthen (bootstrap released True) (case hook of None \<Rightarrow> ret () | Some h \<Rightarrow> h)) (\<lambda>e. ret ())"

section \<open>Reconciling one device\<close>

text \<open>
  \<open>channel.data_points\<close> is an iterator, and the truth value of an iterator is true whatever it
  would still yield.
\<close>

definition iterator_truth :: "'a list \<Rightarrow> bool" where
  "iterator_truth xs = True"

definition store_holds_complete_device :: "string \<Rightarrow> store \<Rightarrow> bool" where
  "store_holds_complete_device addr s =
     (case get_device addr s of None \<Rightarrow> False
      | Some i \<Rightarrow> let cs = channels_of (ds_address (dv_summary (reg_heap (st_devices s) ! i))) s
                  in cs \<noteq> [] \<and> list_ex (\<lambda>c. iterator_truth (channel_data_points s c)) cs)"

definition reconcile_new_device_now :: "string \<Rightarrow> unit co" where
  "reconcile_new_device_now addr =
     bind (catching any_exception (andthen (fetch_device_into_store addr True None) (ret True)) (\<lambda>e. ret False))
       (\<lambda>ok. if \<not> ok then ret () else
          bind (look (\<lambda>w. get_device addr (w_store w))) (\<lambda>d. case d of None \<Rightarrow> ret ()
            | Some i \<Rightarrow> bind (look (\<lambda>w. device_batch [i] (text_or_none (central_of w)) (w_store w))) announce))"

section \<open>Relations the walk keeps\<close>

text \<open>The store operations the walk and the reconcile apply themselves.\<close>

fun walk_op :: "store_op \<Rightarrow> bool" where
  "walk_op (LoadSnapshot sn) = True"
| "walk_op (AttachDetail d) = True"
| "walk_op (AttachDataPoints a c ds) = True"
| "walk_op (AttachPanels ps) = True"
| "walk_op (AttachZoneStatuses zs) = True"
| "walk_op (TriggeredMotion zs) = True"
| "walk_op (SetCentralId c) = True"
| "walk_op (SetCentralCount n) = True"
| "walk_op p = False"

locale walk_relation = world_relation +
  assumes keeps_act: "walk_op p \<Longrightarrow> keeps R (act p)"
begin

lemma keeps_walk_act [keeps_intros]:
  "keeps R (act (LoadSnapshot sn))" "keeps R (act (AttachDetail d))" "keeps R (act (AttachDataPoints a c ds))"
  "keeps R (act (AttachPanels ps))" "keeps R (act (AttachZoneStatuses zs))" "keeps R (act (TriggeredMotion ms))"
  "keeps R (act (SetCentralId i))" "keeps R (act (SetCentralCount n))"
  by (simp_all add: keeps_act)

lemma keeps_or_none [keeps_intros]: "keeps R m \<Longrightarrow> keeps R (or_none m)"
  unfolding or_none_def by (intro keeps_intros)

lemma keeps_ccus [keeps_intros]: "keeps R list_system_ccus"
  unfolding list_system_ccus_def by (intro keeps_intros)

lemma keeps_readiness [keeps_intros]: "keeps R get_readiness"
  unfolding get_readiness_def by (intro keeps_intros)

lemma keeps_pin [keeps_intros]: "keeps R pin_central_id"
  unfolding pin_central_id_def pin_from_def by (intro keeps_intros)

lemma keeps_attach [keeps_intros]: "keeps R (attach_device_from_snapshot sm cs dps)"
  unfolding attach_device_from_snapshot_def by (intro keeps_intros)

lemma keeps_fetch [keeps_intros]: "keeps R (fetch_device_into_store a f dps)"
  unfolding fetch_device_into_store_def by (intro keeps_intros)

lemma keeps_motion [keeps_intros]: "keeps R refresh_triggered_motion"
  unfolding refresh_triggered_motion_def by (intro keeps_intros)

lemma keeps_panels [keeps_intros]: "keeps R list_panels"
  unfolding list_panels_def by (intro keeps_intros)

lemma keeps_alarm [keeps_intros]: "keeps R bootstrap_alarm_panels"
  unfolding bootstrap_alarm_panels_def by (intro keeps_intros)

lemma keeps_load [keeps_intros]: "keeps R (load_device f dcs sm)"
  unfolding load_device_def Let_def by (intro keeps_intros)

lemma keeps_snapshot [keeps_intros]: "keeps R (get_snapshot r f c)"
  unfolding get_snapshot_def by (intro keeps_intros)

end

locale announcing_walk = walk_relation + announcing_relation
begin

lemma keeps_fill [keeps_intros]: "keeps R (fill_store f sn)"
  unfolding fill_store_def announce_devices_def by (intro keeps_intros)

lemma keeps_bootstrap [keeps_intros]: "keeps R (bootstrap r f)"
  unfolding bootstrap_def by (intro keeps_intros)

lemma keeps_rebootstrap [keeps_intros]:
  assumes "\<And>h. hook = Some h \<Longrightarrow> keeps R h"
  shows "keeps R (run_rebootstrap r hook)"
  unfolding run_rebootstrap_def using assms by (cases hook) (auto intro!: keeps_intros)

lemma keeps_reconcile [keeps_intros]: "keeps R (reconcile_new_device_now a)"
  unfolding reconcile_new_device_now_def by (intro keeps_intros)

end

interpretation following_walk: announcing_walk follows
  by unfold_locales (rule follows_act)

interpretation silent_walk: walk_relation silent
  by unfold_locales (rule silent_act)

interpretation staying_walk: announcing_walk "stays removes_device P" for P
  by unfold_locales (rule stays_act, simp add: removes_device_def split: store_op.splits, force)

section \<open>Waiting for readiness ends\<close>

lemma sleep_passes: "sleep ms w = (Inr u, w') \<Longrightarrow> w_now w + ms \<le> w_now w'"
  by (auto simp: sleep_def pass_turn_def Let_def split: if_splits)

lemma sleep_sends [simp]: "w_sent (snd (sleep ms w)) = w_sent w"
  by (simp add: sleep_def pass_turn_def Let_def)

lemma readiness_passes: "get_readiness w = (r, w') \<Longrightarrow> w_now w \<le> w_now w'"
  using keepsD [OF following_walk.keeps_readiness] by (simp add: follows_def)

lemma waited:
  fixes d :: rat
  assumes "\<not> d \<le> of_nat n" and "n + readiness_poll_ms \<le> n'" and "m \<le> n"
  shows "d - of_nat n' \<le> d - of_nat m - 3000" and "0 < d - of_nat m"
proof -
  have "m + 3000 \<le> n'" using assms(2,3) by (simp add: readiness_poll_ms_def)
  then have "of_nat (m + 3000) \<le> (of_nat n' :: rat)" by (simp only: of_nat_le_iff)
  then show "d - of_nat n' \<le> d - of_nat m - 3000" by simp
  have "of_nat m \<le> (of_nat n :: rat)" using assms(3) by simp
  with assms(1) show "0 < d - of_nat m" by linarith
qed

lemma waited_less: "(0::rat) < x \<Longrightarrow> y \<le> x - 3000 \<Longrightarrow> nat \<lceil>y\<rceil> < nat \<lceil>x\<rceil>"
proof -
  assume x: "0 < x" and y: "y \<le> x - 3000"
  then have "\<lceil>y\<rceil> \<le> \<lceil>x - 3000\<rceil>" by (intro ceiling_mono)
  also have "\<dots> = \<lceil>x\<rceil> - 3000" by simp
  finally have "\<lceil>y\<rceil> < \<lceil>x\<rceil>" by simp
  moreover have "0 < \<lceil>x\<rceil>" using x by simp
  ultimately show "nat \<lceil>y\<rceil> < nat \<lceil>x\<rceil>" by simp
qed

termination wait_loop
  apply (relation "measure (\<lambda>(d, w). nat \<lceil>d - of_nat (w_now w)\<rceil>)")
   apply simp
  subgoal premises prems for d w r w1 rd rd' r2 w2 u
  proof -
    have "w_now w1 + readiness_poll_ms \<le> w_now w2" using prems(6,7) by (intro sleep_passes [of _ _ u]) simp
    moreover have "w_now w \<le> w_now w1" using prems(1) by (intro readiness_passes [of _ r]) simp
    ultimately show ?thesis
      using waited_less [OF waited(2,1), of d "w_now w1" "w_now w2" "w_now w"] prems(5) by simp
  qed
  done

declare wait_loop.simps [simp del]

section \<open>What a method sends\<close>

text \<open>In an environment \<open>e\<close>: at most \<open>n\<close> calls, all from \<open>C\<close>.\<close>

definition sends :: "(nat \<Rightarrow> turn) \<Rightarrow> nat \<Rightarrow> api_call set \<Rightarrow> 'a co \<Rightarrow> bool" where
  "sends e n C m \<longleftrightarrow> (\<forall>w. w_env w = e \<longrightarrow> w_env (snd (m w)) = e
     \<and> (\<exists>cs. w_sent (snd (m w)) = w_sent w @ cs \<and> length cs \<le> n \<and> set cs \<subseteq> C))"

named_theorems sends_intros

lemma sends_ret [sends_intros]: "sends e 0 C (ret x)"
  by (simp add: sends_def ret_def)

lemma sends_look [sends_intros]: "sends e 0 C (look f)"
  by (simp add: sends_def look_def)

lemma sends_act [sends_intros]: "sends e 0 C (act p)"
  by (simp add: sends_def act_def)

lemma sends_announce [sends_intros]: "sends e 0 C (announce b)"
  by (simp add: sends_def announce_def pass_turn_def Let_def)

lemma sends_ask [sends_intros]: "c \<in> C \<Longrightarrow> sends e 1 C (ask c f)"
  by (simp add: sends_def ask_def pass_turn_def Let_def split: reply.splits)

lemma sends_bind_reply:
  assumes m: "sends e n C m" and k: "\<And>w x w'. w_env w = e \<Longrightarrow> m w = (Inr x, w') \<Longrightarrow> sends e k C (f x)"
  shows "sends e (n + k) C (bind m f)"
  unfolding sends_def
proof (intro allI impI)
  fix w :: world assume w: "w_env w = e"
  obtain r w1 where r: "m w = (r, w1)" by fastforce
  with m w obtain cs where 1: "w_env w1 = e" "w_sent w1 = w_sent w @ cs" "length cs \<le> n" "set cs \<subseteq> C"
    unfolding sends_def by (metis snd_conv)
  show "w_env (snd (bind m f w)) = e \<and>
      (\<exists>cs. w_sent (snd (bind m f w)) = w_sent w @ cs \<and> length cs \<le> n + k \<and> set cs \<subseteq> C)"
  proof (cases r)
    case (Inl x)
    with r 1 show ?thesis by (auto simp: bind_def)
  next
    case (Inr x)
    obtain r2 w2 where 2: "f x w1 = (r2, w2)" by fastforce
    with k [OF w] r Inr 1(1) obtain ds where "w_env w2 = e" "w_sent w2 = w_sent w1 @ ds" "length ds \<le> k" "set ds \<subseteq> C"
      unfolding sends_def by (metis snd_conv)
    with r Inr 1 2 show ?thesis by (auto simp: bind_def)
  qed
qed

lemma sends_bind [sends_intros]:
  "sends e n C m \<Longrightarrow> (\<And>x. sends e k C (f x)) \<Longrightarrow> sends e (n + k) C (bind m f)"
  by (rule sends_bind_reply)

lemma sends_andthen [sends_intros]: "sends e n C m \<Longrightarrow> sends e k C m' \<Longrightarrow> sends e (n + k) C (andthen m m')"
  by (simp add: andthen_def sends_bind)

lemma sends_more:
  assumes "sends e n C m" and "n \<le> k" and "C \<subseteq> D"
  shows "sends e k D m"
  unfolding sends_def
proof (intro allI impI conjI)
  fix w :: world assume w: "w_env w = e"
  with assms(1) obtain cs where "w_env (snd (m w)) = e" "w_sent (snd (m w)) = w_sent w @ cs" "length cs \<le> n" "set cs \<subseteq> C"
    unfolding sends_def by blast
  with assms(2,3) show "w_env (snd (m w)) = e"
    "\<exists>cs. w_sent (snd (m w)) = w_sent w @ cs \<and> length cs \<le> k \<and> set cs \<subseteq> D" by auto
qed

lemma sends_catching:
  assumes m: "sends e n C m" and h: "\<And>x. sends e 0 C (h x)"
  shows "sends e n C (catching p m h)"
  unfolding sends_def
proof (intro allI impI)
  fix w :: world assume w: "w_env w = e"
  obtain r w1 where r: "m w = (r, w1)" by fastforce
  with m w obtain cs where 1: "w_env w1 = e" "w_sent w1 = w_sent w @ cs" "length cs \<le> n" "set cs \<subseteq> C"
    unfolding sends_def by (metis snd_conv)
  have "w_env (snd (h x w1)) = e \<and> w_sent (snd (h x w1)) = w_sent w1" for x
    using h [of x] 1(1) by (auto simp: sends_def)
  with r 1 show "w_env (snd (catching p m h w)) = e \<and>
      (\<exists>cs. w_sent (snd (catching p m h w)) = w_sent w @ cs \<and> length cs \<le> n \<and> set cs \<subseteq> C)"
    by (cases r) (auto simp: catching_def)
qed

lemma sends_each: "(\<And>x. x \<in> set xs \<Longrightarrow> sends e 0 C (f x)) \<Longrightarrow> sends e 0 C (each f xs)"
proof (induction xs)
  case (Cons x xs)
  then have "sends e (0 + 0) C (andthen (f x) (each f xs))" by (intro sends_andthen) simp_all
  then show ?case by simp
qed (simp add: sends_ret)

lemma sends_within: "sends e n C m \<Longrightarrow> n \<le> k \<Longrightarrow> sends e k C m"
  by (rule sends_more [OF _ _ subset_refl])

lemma sends_if [sends_intros]: "sends e n C m \<Longrightarrow> sends e n C m' \<Longrightarrow> sends e n C (if b then m else m')"
  by simp

lemma sends_nothing [sends_intros]: "sends e n C (ret x)" "sends e n C (look f)" "sends e n C (act p)" "sends e n C (announce b)"
  by (rule sends_within, rule sends_intros, simp)+

lemma sends_option [sends_intros]:
  "sends e n C m \<Longrightarrow> (\<And>x. sends e n C (f x)) \<Longrightarrow> sends e n C (case y of None \<Rightarrow> m | Some x \<Rightarrow> f x)"
  by (cases y) auto

lemma sends_or_none: "sends e n C m \<Longrightarrow> sends e n C (or_none m)"
  unfolding or_none_def
  by (rule sends_catching) (use sends_bind [of e n C m 0] sends_ret in force)+

lemma sends_ccus: "sends e 1 {Ccu ListSystemCcus} list_system_ccus"
  unfolding list_system_ccus_def by (intro sends_or_none sends_ask) simp

lemma sends_pin: "sends e 1 {Ccu ListSystemCcus} pin_central_id"
proof -
  have "sends e 0 C (pin_from es)" for C es
    unfolding pin_from_def by (rule sends_within, (rule sends_intros)+) simp
  then have "sends e (1 + 0) {Ccu ListSystemCcus} (bind list_system_ccus
      (\<lambda>es. case es of None \<Rightarrow> ret () | Some es \<Rightarrow> pin_from es))"
    by (intro sends_bind sends_ccus sends_option sends_ret)
  then show ?thesis
    unfolding pin_central_id_def by (intro sends_within [OF sends_bind [OF sends_look sends_if]]) (auto intro: sends_nothing)
qed

section \<open>Properties\<close>

subsection \<open>Readiness\<close>

lemma ccus_step:
  "list_system_ccus w = (r, w') \<Longrightarrow> w_sent w' = w_sent w @ [Ccu ListSystemCcus]"
  by (auto simp: list_system_ccus_def or_none_def co_defs Let_def split: reply.splits option.splits prod.splits if_splits)

lemma readiness_sent:
  assumes "get_readiness w = (r, w')"
  shows "w_sent w' = w_sent w @ [Ccu ListSystemCcus]"
proof -
  obtain q w1 where q: "list_system_ccus w = (q, w1)" by fastforce
  have "w_sent w' = w_sent w1"
    using assms by (auto simp: get_readiness_def bind_def q ret_def look_def split: sum.splits option.splits)
  with ccus_step [OF q] show ?thesis by simp
qed

lemma polls_left: "(0::rat) < x \<Longrightarrow> y \<le> x - 3000 \<Longrightarrow> 1 + nat \<lceil>y / 3000\<rceil> \<le> nat \<lceil>x / 3000\<rceil>"
proof -
  assume x: "0 < x" and y: "y \<le> x - 3000"
  then have "y / 3000 \<le> x / 3000 - 1" by simp
  then have "\<lceil>y / 3000\<rceil> \<le> \<lceil>x / 3000 - 1\<rceil>" by (intro ceiling_mono)
  also have "\<dots> = \<lceil>x / 3000\<rceil> - 1" by simp
  finally have "\<lceil>y / 3000\<rceil> \<le> \<lceil>x / 3000\<rceil> - 1" .
  moreover have "0 < \<lceil>x / 3000\<rceil>" using x by simp
  ultimately show ?thesis by linarith
qed

lemma wait_loop_polls:
  "wait_loop d w = (r, w') \<Longrightarrow>
     (\<exists>n. w_sent w' = w_sent w @ replicate n (Ccu ListSystemCcus) \<and> 1 \<le> n
        \<and> n \<le> 1 + nat \<lceil>(d - of_nat (w_now w)) / 3000\<rceil>)
     \<and> (r = Inr False \<longrightarrow> d \<le> of_nat (w_now w'))"
proof (induction d w arbitrary: r w' rule: wait_loop.induct)
  case (1 d w)
  obtain q w1 where q: "get_readiness w = (q, w1)" by fastforce
  note sent = readiness_sent [OF q]
  have once: "\<exists>n. w_sent w1 = w_sent w @ replicate n (Ccu ListSystemCcus) \<and> 1 \<le> n
      \<and> n \<le> 1 + nat \<lceil>(d - of_nat (w_now w)) / 3000\<rceil>"
    by (intro exI [of _ 1]) (simp add: sent)
  show ?case
  proof (cases "\<exists>rd. q = Inr (Some rd) \<and> \<not> rd_ready rd \<and> \<not> d \<le> of_nat (w_now w1)")
    case False
    then have "r \<noteq> Inr False \<or> d \<le> of_nat (w_now w1)" "w' = w1"
      using "1.prems" by (auto simp: wait_loop.simps [of d w] q split: sum.splits option.splits if_splits)
    with once show ?thesis by auto
  next
    case True
    then obtain rd where rd: "q = Inr (Some rd)" "\<not> rd_ready rd" "\<not> d \<le> of_nat (w_now w1)" by blast
    obtain u w2 where s: "sleep readiness_poll_ms w1 = (u, w2)" by fastforce
    then have s2: "w_sent w2 = w_sent w1" using sleep_sends [of readiness_poll_ms w1] by simp
    show ?thesis
    proof (cases u)
      case (Inl e)
      then have "r = Inl e" "w' = w2"
        using "1.prems" rd by (simp_all add: wait_loop.simps [of d w] q s)
      with once s2 show ?thesis by simp
    next
      case (Inr v)
      then have rest: "wait_loop d w2 = (r, w')" using "1.prems" rd by (simp add: wait_loop.simps [of d w] q s)
      have "w_now w1 + readiness_poll_ms \<le> w_now w2" using s Inr by (simp add: sleep_passes)
      note wt = waited [OF rd(3) this readiness_passes [OF q]]
      have IH: "(\<exists>n. w_sent w' = w_sent w2 @ replicate n (Ccu ListSystemCcus) \<and> 1 \<le> n
            \<and> n \<le> 1 + nat \<lceil>(d - of_nat (w_now w2)) / 3000\<rceil>) \<and> (r = Inr False \<longrightarrow> d \<le> of_nat (w_now w'))"
        by (rule "1.IH" [OF q [symmetric] rd(1) refl rd(2,3) s [symmetric] Inr rest])
      then obtain n where n: "w_sent w' = w_sent w2 @ replicate n (Ccu ListSystemCcus)"
        "n \<le> 1 + nat \<lceil>(d - of_nat (w_now w2)) / 3000\<rceil>" by blast
      have "w_sent w' = w_sent w @ replicate (Suc n) (Ccu ListSystemCcus)" using n(1) s2 sent by simp
      moreover have "Suc n \<le> 1 + nat \<lceil>(d - of_nat (w_now w)) / 3000\<rceil>"
        using polls_left [OF wt(2,1)] n(2) by linarith
      ultimately show ?thesis using IH by (metis le_add1 plus_1_eq_Suc)
    qed
  qed
qed

text \<open>Fact: Waiting for readiness always ends: it probes once, and then at most once per started poll interval of
  the allowed time, sends nothing else, and gives up only when that time has passed.\<close>

theorem wait_until_ready_ends:
  "let t = (case timeout of None \<Rightarrow> cfg_readiness_wait cfg | Some x \<Rightarrow> x) in
     case wait_until_ready cfg timeout w of (r, w') \<Rightarrow>
       (\<exists>n. w_sent w' = w_sent w @ replicate n (Ccu ListSystemCcus) \<and> 1 \<le> n \<and> n \<le> 1 + nat \<lceil>t / 3\<rceil>)
       \<and> (r = Inr True \<or> isl r \<or> of_nat (w_now w) + 1000 * t \<le> of_nat (w_now w'))"
proof -
  let ?t = "case timeout of None \<Rightarrow> cfg_readiness_wait cfg | Some x \<Rightarrow> x"
  obtain r w' where r: "wait_loop (of_nat (w_now w) + 1000 * ?t) w = (r, w')" by fastforce
  have cases: "r = Inr True \<or> isl r \<or> r = Inr False" by (cases r) auto
  from wait_loop_polls [OF r] cases show ?thesis
    unfolding wait_until_ready_def r Let_def by auto
qed

text \<open>Fact: A probe that fails ends the wait as if the daemon were ready, on whichever poll it comes: a daemon that
  cannot be reached is not told apart from one that does not report readiness.\<close>

theorem unreadable_counts_as_ready:
  assumes "tn_reply (w_env w (w_turn w)) = Fails e"
  shows "fst (wait_until_ready cfg timeout w) = Inr True
    \<and> w_sent (snd (wait_until_ready cfg timeout w)) = w_sent w @ [Ccu ListSystemCcus]"
  using assms
  by (simp add: wait_until_ready_def wait_loop.simps get_readiness_def list_system_ccus_def or_none_def co_defs Let_def
    loom_exc_def error_isinstance_def)

lemma unreadable_counts_as_ready_witness:
  "fst (wait_until_ready http_cfg (Some 60) (start_world (empty_store None 5) (\<lambda>n. quiet_turn (Fails gone_error)))) = Inr True"
  using unreadable_counts_as_ready
    [of "start_world (empty_store None 5) (\<lambda>n. quiet_turn (Fails gone_error))" gone_error http_cfg "Some 60"]
  by (simp add: start_world_def quiet_turn_def)

subsection \<open>The central\<close>

lemma dedupe_single: "dedupe xs = [x] \<longleftrightarrow> set xs = {x}"
proof (cases xs)
  case (Cons y ys)
  have nil: "dedupe zs = [] \<longleftrightarrow> zs = []" for zs :: "'b list" by (cases zs) simp_all
  show ?thesis unfolding Cons by (auto simp: nil filter_empty_conv)
qed simp

lemma distinct_single: "distinct xs \<Longrightarrow> set xs = {x} \<longleftrightarrow> xs = [x]"
  by (cases xs; cases "tl xs") auto

lemma single_cases: "(case xs of [x] \<Rightarrow> Some x | _ \<Rightarrow> None) = (if \<exists>x. xs = [x] then Some (hd xs) else None)"
  by (auto split: list.splits)

text \<open>Fact: The two rules that name the client's central agree: over the same centrals, what \<open>_pin_central_id\<close> scopes
  the snapshot request to is what \<open>load_snapshot\<close> would infer from the snapshot, so a store
  whose central is pinned first ends with the central it would have inferred.\<close>

theorem pin_agrees_with_snapshot:
  assumes "st_central_id s = ''''" and "distinct (entry_names es)"
    and "set (entry_names es) = set (snapshot_candidates sn)"
  shows "resolve_central (central_name s) (entry_names es) = infer_central_id s sn"
proof -
  let ?names = "entry_names es" and ?cs = "snapshot_candidates sn"
  have "(case ?names of [x] \<Rightarrow> Some x | _ \<Rightarrow> None) = (case dedupe ?cs of [x] \<Rightarrow> Some x | _ \<Rightarrow> None)"
  proof (cases "\<exists>x. set ?cs = {x}")
    case True
    then obtain x where "set ?cs = {x}" by blast
    then have "?names = [x]" "dedupe ?cs = [x]"
      using assms(2,3) by (simp_all add: dedupe_single distinct_single flip: distinct_single)
    then show ?thesis by simp
  next
    case False
    then have "\<not> (\<exists>x. ?names = [x])" "\<not> (\<exists>x. dedupe ?cs = [x])"
      unfolding dedupe_single assms(3) [symmetric] by (metis list.set(1,2))+
    then show ?thesis unfolding single_cases by simp
  qed
  then show ?thesis
    using assms(1,3) by (simp add: resolve_central_def infer_central_id_def central_name_def Let_def)
qed

definition two_centrals :: "ccu_entry list" where
  "two_centrals = [\<lparr>ce_name = Some ''attic'', ce_readiness = None\<rparr>, \<lparr>ce_name = Some ''cellar'', ce_readiness = None\<rparr>]"

lemma pin_agrees_with_snapshot_witness:
  "infer_central_id (set_central_name (Some ''cellar'') (empty_store None 5))
     \<lparr>sn_devices = [], sn_programs = None, sn_sysvars = None, sn_interfaces = Some [Some ''cellar'', None, Some ''attic'', Some ''cellar'']\<rparr>
   = resolve_central ''cellar'' (entry_names two_centrals)"
  using pin_agrees_with_snapshot [of "set_central_name (Some ''cellar'') (empty_store None 5)" two_centrals
      "\<lparr>sn_devices = [], sn_programs = None, sn_sysvars = None, sn_interfaces = Some [Some ''cellar'', None, Some ''attic'', Some ''cellar'']\<rparr>"]
  by (simp add: two_centrals_def entry_names_def snapshot_candidates_def empty_store_def central_name_def insert_commute)

subsection \<open>The calls of a walk\<close>

definition nested :: "boot_snapshot \<Rightarrow> bool" where
  "nested sn \<longleftrightarrow> list_all (\<lambda>d. dict_get (channel_map (bs_device_channels sn)) (ds_address d) \<noteq> None) (sn_devices (bs_snapshot sn))"

definition walk_calls :: "bool \<Rightarrow> api_call set" where
  "walk_calls released = {Ccu ListSystemCcus, Zone ListPanels, Zone GetZoneStatuses, Motion (ListTriggeredMotion None)}
     \<union> {c. \<exists>include central. c = Info (GetSnapshot include released central)}"

lemma ask_answered:
  "ask c f w = (Inr x, w') \<Longrightarrow> \<exists>b. tn_reply (w_env w (w_turn w)) = Answer b \<and> f b = Some x"
  by (auto simp: ask_def pass_turn_def Let_def split: reply.splits option.splits)

lemma sends_attach: "sends e n C (attach_device_from_snapshot sm cs dps)"
  unfolding attach_device_from_snapshot_def
  by (rule sends_within [OF sends_andthen [OF sends_act]])
    (auto intro: sends_option sends_ret sends_each sends_act)

lemma sends_alarm: "sends e 3 (walk_calls r) bootstrap_alarm_panels"
proof -
  let ?C = "walk_calls r"
  let ?zones = "bind (ask (Zone GetZoneStatuses) zones_body) (\<lambda>zs. andthen (act (AttachZoneStatuses zs)) refresh_triggered_motion)"
  let ?attach = "\<lambda>ps. andthen (act (AttachPanels ps)) (if ps = [] then ret () else ?zones)"
  have motion: "sends e (1 + 0) ?C refresh_triggered_motion"
    unfolding refresh_triggered_motion_def
    by (intro sends_bind sends_or_none sends_ask sends_option sends_nothing) (simp add: walk_calls_def)
  have panels: "sends e 1 ?C list_panels"
    unfolding list_panels_def
    by (rule sends_catching [OF sends_within [OF sends_bind [OF sends_ask sends_ret]] sends_ret]) (simp_all add: walk_calls_def)
  have "sends e (1 + (0 + (1 + 0))) ?C ?zones"
    by (intro sends_bind sends_andthen sends_act motion sends_ask) (simp add: walk_calls_def)
  then have zones: "sends e 2 ?C ?zones" by (rule sends_within) simp
  have "sends e (0 + 2) ?C (?attach ps)" for ps
    by (intro sends_andthen sends_act sends_if sends_nothing zones)
  then have attach: "sends e 2 ?C (?attach ps)" for ps by (rule sends_within) simp
  have inner: "sends e (1 + 2) ?C (bind list_panels (\<lambda>ps. case ps of None \<Rightarrow> ret () | Some ps \<Rightarrow> ?attach ps))"
    by (intro sends_bind panels sends_option sends_nothing attach)
  have "sends e (0 + (1 + 2)) ?C bootstrap_alarm_panels"
    unfolding bootstrap_alarm_panels_def by (rule sends_bind [OF sends_look], rule sends_if [OF sends_nothing(1) inner])
  then show ?thesis by (rule sends_within) simp
qed

lemma sends_fill:
  assumes "nested sn"
  shows "sends e 3 (walk_calls r) (fill_store f sn)"
proof -
  let ?C = "walk_calls r"
  have "sends e 0 ?C (load_device f (bs_device_channels sn) d)" if "d \<in> set (sn_devices (bs_snapshot sn))" for d
  proof -
    obtain cs where "dict_get (channel_map (bs_device_channels sn)) (ds_address d) = Some cs"
      using assms \<open>d \<in> _\<close> by (auto simp: nested_def list_all_iff)
    then show ?thesis by (simp add: load_device_def sends_attach)
  qed
  then have devs: "sends e 0 ?C (each (load_device f (bs_device_channels sn)) (sn_devices (bs_snapshot sn)))"
    by (rule sends_each)
  have "sends e (0 + 0) ?C (announce_devices c)" for c
    unfolding announce_devices_def by (rule sends_bind [OF sends_look sends_announce])
  then have "sends e (3 + 0) ?C (andthen bootstrap_alarm_panels (announce_devices c))" for c
    by (intro sends_andthen sends_alarm) simp
  then have "sends e (0 + 3) ?C (andthen (each (load_device f (bs_device_channels sn)) (sn_devices (bs_snapshot sn)))
      (andthen bootstrap_alarm_panels (announce_devices c)))" for c
    by (intro sends_andthen devs) simp
  then have "sends e (0 + 3) ?C (bind (look central_of) (\<lambda>central.
      andthen (each (load_device f (bs_device_channels sn)) (sn_devices (bs_snapshot sn)))
        (andthen bootstrap_alarm_panels (announce_devices (text_or_none central)))))"
    by (intro sends_bind sends_look) simp
  then have "sends e (0 + 3) ?C (fill_store f sn)"
    unfolding fill_store_def by (intro sends_andthen sends_act) simp
  then show ?thesis by simp
qed

lemma sends_bootstrap:
  assumes nest: "\<And>n sn. tn_reply (e n) = Answer (SnapshotBody sn) \<Longrightarrow> nested sn"
  shows "sends e 5 (walk_calls r) (bootstrap r f)"
proof -
  let ?C = "walk_calls r"
  have snap: "sends e (1 + 3) ?C (bind (get_snapshot r f c) (fill_store f))" for c
  proof (rule sends_bind_reply)
    show "sends e 1 ?C (get_snapshot r f c)"
      unfolding get_snapshot_def by (rule sends_ask) (simp add: walk_calls_def)
  next
    fix w sn w' assume w: "w_env w = e" and got: "get_snapshot r f c w = (Inr sn, w')"
    from ask_answered [OF got [unfolded get_snapshot_def]] w
    obtain b where "tn_reply (e (w_turn w)) = Answer b" "snapshot_body b = Some sn" by blast
    then have "nested sn" using nest by (cases b) (auto simp: snapshot_body_def)
    then show "sends e 3 ?C (fill_store f sn)" by (rule sends_fill)
  qed
  have "sends e 1 ?C pin_central_id" by (rule sends_more [OF sends_pin]) (simp_all add: walk_calls_def)
  then have "sends e (1 + (0 + (1 + 3))) ?C (bootstrap r f)"
    unfolding bootstrap_def by (rule sends_andthen) (rule sends_bind [OF sends_look snap])
  then show ?thesis by simp
qed

text \<open>Fact: A walk over a nested snapshot is at most five calls however many devices there are: the central's name
  once, the snapshot, and three for the alarm panels. Only a device without nested channels costs calls
  of its own.\<close>

theorem bootstrap_five_calls:
  assumes "\<And>n sn. tn_reply (w_env w n) = Answer (SnapshotBody sn) \<Longrightarrow> nested sn"
  shows "\<exists>cs. w_sent (snd (bootstrap released fetch w)) = w_sent w @ cs \<and> length cs \<le> 5
    \<and> set cs \<subseteq> walk_calls released"
  using sends_bootstrap [of "w_env w" released fetch] assms unfolding sends_def by blast

definition demo_snapshot :: boot_snapshot where
  "demo_snapshot = \<lparr>bs_snapshot = \<lparr>sn_devices = [demo_summary ''A''], sn_programs = None, sn_sysvars = None, sn_interfaces = None\<rparr>,
     bs_device_channels = Some [\<lparr>dc_address = ''A'', dc_channels = []\<rparr>]\<rparr>"

text \<open>A daemon that names its centrals, serves a nested snapshot and fails everything else.\<close>

definition demo_env :: "nat \<Rightarrow> turn" where
  "demo_env n = quiet_turn (if n = 0 then Answer (CcuBody two_centrals)
     else if n = 1 then Answer (SnapshotBody demo_snapshot) else Fails gone_error)"

lemma demo_nested: "tn_reply (demo_env n) = Answer (SnapshotBody sn) \<Longrightarrow> nested sn"
  by (auto simp: demo_env_def quiet_turn_def nested_def demo_snapshot_def channel_map_def demo_summary_def split: if_splits)

lemma bootstrap_five_calls_witness:
  "length (w_sent (snd (bootstrap True True (start_world (empty_store None 5) demo_env)))) \<le> 5"
  using bootstrap_five_calls [of "start_world (empty_store None 5) demo_env" True True] demo_nested
  by (auto simp: start_world_def)

subsection \<open>What a walk keeps\<close>

text \<open>C4: A walk refreshes and adds devices and drops none: a device the store knows keeps its very object, whatever
  the snapshot lists, whichever call fails or is cancelled, and whatever the other tasks do
  meanwhile short of removing a device.\<close>

theorem walk_keeps_devices:
  assumes "get_device a (w_store w) = Some i"
    and "\<forall>n. \<forall>p \<in> set (tn_ops (w_env w n)). \<not> removes_device p"
  shows "get_device a (w_store (snd (bootstrap released fetch w))) = Some i"
proof -
  have "get_device a (apply_op p s) = Some i" if "\<not> removes_device p" "get_device a s = Some i" for p s
    using devices_grow [OF that(1), of s] that(2) by (simp add: reg_grows_def get_device_def)
  moreover have "stays removes_device (\<lambda>s. get_device a s = Some i) w (snd (bootstrap released fetch w))"
    using staying_walk.keeps_bootstrap by (simp add: keeps_def)
  ultimately show ?thesis using assms unfolding stays_def by blast
qed

lemma walk_keeps_devices_witness:
  "get_device ''B'' (w_store (snd (bootstrap True True
     (start_world (apply_op (AttachDetail (demo_detail ''B'' [])) (empty_store None 5)) demo_env)))) = Some 0"
proof -
  have "get_device ''B'' (apply_op (AttachDetail (demo_detail ''B'' [])) (empty_store None 5)) = Some 0"
    by (simp add: get_device_def demo_detail_def demo_summary_def attach_device_detail_def upsert_device_summary_def
      empty_store_def can_admit_device_def reg_empty_def reg_insert_def reg_ref_def reg_modify_def reg_keys_def Let_def)
  then show ?thesis
    using walk_keeps_devices [of "''B''" "start_world (apply_op (AttachDetail (demo_detail ''B'' [])) (empty_store None 5)) demo_env"]
    by (simp add: start_world_def demo_env_def quiet_turn_def)
qed

subsection \<open>Announcements\<close>

text \<open>
  \<open>published w w'\<close>: from \<open>w\<close> a walk came to some \<open>v\<close> without having announced anything, announced the devices
  \<open>v\<close> holds and their data points, and did nothing after that: \<open>w'\<close> is what the publish itself, one
  turn, makes of \<open>v\<close>.
\<close>

definition published :: "world \<Rightarrow> world \<Rightarrow> bool" where
  "published w w' \<longleftrightarrow> (\<exists>v c. follows w v \<and> w_announced v = w_announced w
     \<and> w' = snd (pass_turn (v\<lparr>w_announced := w_announced w @
           [\<lparr>ba_devices = devices (w_store v),
             ba_data_points = concat (map (device_data_points (w_store v)) (devices (w_store v))), ba_central = c\<rparr>]\<rparr>)))"

definition announces_last :: "unit co \<Rightarrow> bool" where
  "announces_last m \<longleftrightarrow> (\<forall>w r w'. m w = (r, w') \<longrightarrow> (case r of
       Inr u \<Rightarrow> published w w'
     | Inl x \<Rightarrow> w_announced w' = w_announced w \<or> (x = Cancelled \<and> published w w')))"

lemma published_later:
  assumes "follows u w" and "w_announced w = w_announced u" and "published w w'"
  shows "published u w'"
  using assms unfolding published_def by (metis follows_trans)

lemma announces_bind:
  assumes "keeps silent m" and "keeps follows m" and "\<And>x. announces_last (k x)"
  shows "announces_last (bind m k)"
  unfolding announces_last_def
proof (intro allI impI)
  fix w r w' assume run: "bind m k w = (r, w')"
  obtain q w1 where m: "m w = (q, w1)" by fastforce
  have s: "w_announced w1 = w_announced w" using keepsD [OF assms(1) m] by (simp add: silent_def)
  have f: "follows w w1" by (rule keepsD [OF assms(2) m])
  show "case r of Inr u \<Rightarrow> published w w'
     | Inl x \<Rightarrow> w_announced w' = w_announced w \<or> (x = Cancelled \<and> published w w')"
  proof (cases q)
    case (Inl x)
    with run m have "r = Inl x" "w' = w1" by (simp_all add: bind_def)
    with s show ?thesis by simp
  next
    case (Inr x)
    with run m have "k x w1 = (r, w')" by (simp add: bind_def)
    with assms(3) [of x] have "case r of Inr u \<Rightarrow> published w1 w'
     | Inl x \<Rightarrow> w_announced w' = w_announced w1 \<or> (x = Cancelled \<and> published w1 w')"
      unfolding announces_last_def by blast
    then show ?thesis using s published_later [OF f s] by (cases r) auto
  qed
qed

lemma announces_andthen:
  "keeps silent m \<Longrightarrow> keeps follows m \<Longrightarrow> announces_last k \<Longrightarrow> announces_last (andthen m k)"
  by (simp add: andthen_def announces_bind)

lemma announces_devices: "announces_last (announce_devices c)"
  unfolding announces_last_def
proof (intro allI impI)
  fix w r w' assume run: "announce_devices c w = (r, w')"
  let ?v = "w\<lparr>w_announced := w_announced w @ [device_batch (devices (w_store w)) c (w_store w)]\<rparr>"
  have ann: "announce (device_batch (devices (w_store w)) c (w_store w)) w = (r, w')"
    using run by (simp add: announce_devices_def bind_def look_def)
  then have w': "w' = snd (pass_turn ?v)" and r: "r = Inl Cancelled \<or> r = Inr ()"
    by (auto simp: announce_def split: prod.splits if_splits)
  have "published w w'"
    unfolding published_def w' device_batch_def by (intro exI [of _ w] exI [of _ c]) (simp add: following.refl)
  with r show "case r of Inr u \<Rightarrow> published w w'
     | Inl x \<Rightarrow> w_announced w' = w_announced w \<or> (x = Cancelled \<and> published w w')" by auto
qed

lemma announces_bootstrap: "announces_last (bootstrap r f)"
proof -
  have "announces_last (fill_store f sn)" for sn
    unfolding fill_store_def
    by (intro announces_andthen announces_bind announces_devices) (intro keeps_intros)+
  then show ?thesis
    unfolding bootstrap_def by (intro announces_andthen announces_bind) (intro keeps_intros)+
qed

text \<open>C5: A walk that returns has announced once, and announcing was its last act: it came to a world in which it had
  announced nothing, announced exactly the devices the store held there, with all their data points,
  and the world it ends in is that world after the publish's own turn. A walk that fails on the way,
  in its alarm section included, has announced nothing, although the store has already been filled;
  one that is cancelled has announced nothing or was cancelled in that last publish.\<close>

theorem bootstrap_announces:
  assumes "bootstrap released fetch w = (r, w')"
  shows "case r of
      Inr u \<Rightarrow> published w w'
    | Inl x \<Rightarrow> w_announced w' = w_announced w \<or> (x = Cancelled \<and> published w w')"
  using announces_bootstrap assms unfolding announces_last_def by blast

text \<open>Fact: Whether a device counts as complete does not depend on its data points: a device of which any channel is
  registered is skipped by the reconcile, be all its channels empty.\<close>

theorem complete_without_data_points:
  "store_holds_complete_device addr s \<longleftrightarrow>
     (\<exists>i. get_device addr s = Some i \<and> channels_of (ds_address (dv_summary (reg_heap (st_devices s) ! i))) s \<noteq> [])"
  by (auto simp: store_holds_complete_device_def iterator_truth_def Let_def list_ex_iff ex_in_conv split: option.splits)

definition failing_alarm :: "nat \<Rightarrow> turn" where
  "failing_alarm n = quiet_turn (if n = 0 then Answer (SnapshotBody demo_snapshot) else Fails gone_error)"

definition pinned_store :: store where
  "pinned_store = apply_op (SetCentralId (Some ''attic'')) (empty_store None 5)"

lemma gone_is_not_404: "\<not> loom_exc LoomNotFoundError (Loom gone_error)"
  by code_simp

lemma failing_alarm_run:
  "fst (bootstrap True False (start_world pinned_store failing_alarm)) = Inl (Loom gone_error)
   \<and> devices (w_store (snd (bootstrap True False (start_world pinned_store failing_alarm)))) = [0]"
  by (simp add: bootstrap_def fill_store_def pin_central_id_def get_snapshot_def load_device_def channel_map_def
    attach_device_from_snapshot_def bootstrap_alarm_panels_def list_panels_def co_defs central_of_def alarm_off_def
    start_world_def pinned_store_def failing_alarm_def quiet_turn_def snapshot_body_def demo_snapshot_def Let_def
    load_snapshot_def attach_device_detail_def upsert_device_summary_def demo_summary_def empty_store_def
    can_admit_device_def reg_empty_def reg_insert_def reg_ref_def reg_modify_def reg_keys_def devices_def
    gone_is_not_404)

lemma bootstrap_announces_witness:
  "w_announced (snd (bootstrap True False (start_world pinned_store failing_alarm))) = []
   \<and> devices (w_store (snd (bootstrap True False (start_world pinned_store failing_alarm)))) = [0]"
proof -
  have "bootstrap True False (start_world pinned_store failing_alarm) =
      (Inl (Loom gone_error), snd (bootstrap True False (start_world pinned_store failing_alarm)))"
    using failing_alarm_run by (simp add: prod_eq_iff)
  from bootstrap_announces [OF this] failing_alarm_run show ?thesis by (simp add: start_world_def)
qed

end
