(* ===== verification/Client.thy ===== *)
theory Client
  imports Bootstrap Bridge
begin

text \<open>
  The lifecycle of the client (client.py): starting the event stream, the background tasks its
  handlers spawn, the re-bootstrap after a lost replay, and \<open>close\<close>. The machine moves by inputs, one
  per stretch of code between two awaits; the bodies of the tasks are in Bootstrap.thy, here a task
  is there until its end is an input, and its store operations are inputs of their own. Times are in
  milliseconds. An await that the code skips because there is nothing to wait for is kept: it only
  lets more interleavings in.
\<close>

section \<open>State\<close>

datatype loop = NoLoop | LoopAlive | LoopDone

datatype close_phase = AwaitLoop | AwaitTasks | AwaitWs | AwaitHttp | Returned

text \<open>
  A dispatch task whose handle was overwritten is counted in \<open>cl_stray\<close>. The reconcile tasks are
  named by their device; the slots of the semaphore are the entries of \<open>cl_running\<close>. The calls of
  \<open>close\<close>, which may overlap, are named by their place in \<open>cl_closes\<close>.
\<close>

record client =
  cl_store :: store
  cl_bus :: bus
  cl_group :: "sub_group option"
  cl_ws_external :: bool
  cl_ws :: bool
  cl_loop :: loop
  cl_starting :: nat
  cl_stray :: nat
  cl_running :: "string list"
  cl_waiting :: "string list"
  cl_rechecks :: nat
  cl_walk :: bool
  cl_walk_ended :: "nat option"
  cl_now :: nat
  cl_connected :: bool
  cl_closing :: bool
  cl_closes :: "close_phase list"

definition new_client :: "store \<Rightarrow> bus \<Rightarrow> bool \<Rightarrow> client" where
  "new_client s b external =
     \<lparr>cl_store = s, cl_bus = b, cl_group = None, cl_ws_external = external, cl_ws = external, cl_loop = NoLoop,
      cl_starting = 0, cl_stray = 0, cl_running = [], cl_waiting = [], cl_rechecks = 0, cl_walk = False,
      cl_walk_ended = None, cl_now = 0, cl_connected = False, cl_closing = False, cl_closes = []\<rparr>"

definition max_concurrent_reconciles :: nat where "max_concurrent_reconciles = 4"
definition rebootstrap_cooldown_ms :: nat where "rebootstrap_cooldown_ms = 30000"

datatype input =
    Tick nat
  | StartEvents | StartResumes
  | LoopEnds | StrayEnds
  | CreatedPush device_created "string option"
  | ReleasedPush string
  | StoreWork store_op
  | ReconcileEnds nat
  | ReplayLost | WalkEnds
  | ConnectionState bool | RecheckEnds
  | CloseCalled | CloseResumes nat

datatype effect =
    Spawned string | Began string | Discarded string
  | WalkBegan nat | WalkEnded nat | RecheckBegan

type_synonym move = "client \<Rightarrow> client \<times> effect list"

section \<open>Background tasks\<close>

text \<open>A task that finds a free slot and nobody queued takes it; else it queues (\<open>asyncio.Semaphore\<close> is fair).\<close>

definition reconcile_new_device :: "string \<Rightarrow> move" where
  "reconcile_new_device addr c =
     (if length (cl_running c) < max_concurrent_reconciles \<and> cl_waiting c = []
      then (c\<lparr>cl_running := cl_running c @ [addr]\<rparr>, [Spawned addr, Began addr])
      else (c\<lparr>cl_waiting := cl_waiting c @ [addr]\<rparr>, [Spawned addr]))"

definition reconcile_ends :: "nat \<Rightarrow> move" where
  "reconcile_ends i c =
     (if length (cl_running c) \<le> i then (c, [])
      else let left = take i (cl_running c) @ drop (Suc i) (cl_running c) in
        (case cl_waiting c of
           [] \<Rightarrow> (c\<lparr>cl_running := left\<rparr>, [])
         | a # as \<Rightarrow> (c\<lparr>cl_running := left @ [a], cl_waiting := as\<rparr>, [Began a])))"

definition is_cache_restore :: "string option \<Rightarrow> bool" where
  "is_cache_restore source = (case source of None \<Rightarrow> False | Some x \<Rightarrow> upper x = ''CACHE'')"

definition on_device_created :: "string \<Rightarrow> string option \<Rightarrow> move" where
  "on_device_created addr source c =
     (if cl_closing c \<or> is_cache_restore source \<or> store_holds_complete_device addr (cl_store c) then (c, [])
      else reconcile_new_device addr c)"

definition on_device_released :: "string \<Rightarrow> move" where
  "on_device_released addr c =
     (if cl_closing c \<or> store_holds_complete_device addr (cl_store c) then (c, [])
      else reconcile_new_device addr c)"

text \<open>An envelope reaches the handlers when a dispatch loop runs and the client's group is bound.\<close>

definition dispatching :: "client \<Rightarrow> bool" where
  "dispatching c \<longleftrightarrow> (cl_loop c = LoopAlive \<or> 0 < cl_stray c) \<and> cl_group c \<noteq> None"

definition work :: "store_op \<Rightarrow> client \<Rightarrow> client" where
  "work p c = c\<lparr>cl_store := apply_op p (cl_store c)\<rparr>"

definition on_connection_state :: "bool \<Rightarrow> move" where
  "on_connection_state b c =
     (let c1 = c\<lparr>cl_connected := b\<rparr>
      in if b \<and> \<not> cl_closing c then (c1\<lparr>cl_rechecks := Suc (cl_rechecks c)\<rparr>, [RecheckBegan]) else (c1, []))"

section \<open>Re-bootstrap\<close>

definition cooling_down :: "client \<Rightarrow> bool" where
  "cooling_down c = (case cl_walk_ended c of None \<Rightarrow> False | Some t \<Rightarrow> cl_now c < t + rebootstrap_cooldown_ms)"

definition on_replay_lost :: move where
  "on_replay_lost c =
     (if cl_closing c \<or> cl_walk c \<or> cooling_down c then (c, [])
      else (c\<lparr>cl_walk := True\<rparr>, [WalkBegan (cl_now c)]))"

definition walk_ends :: move where
  "walk_ends c =
     (if cl_walk c then (c\<lparr>cl_walk := False, cl_walk_ended := Some (cl_now c)\<rparr>, [WalkEnded (cl_now c)]) else (c, []))"

section \<open>Start and close\<close>

definition start_events_call :: "client \<Rightarrow> client" where
  "start_events_call c =
     (if cl_loop c = LoopAlive then c else c\<lparr>cl_ws := True, cl_starting := Suc (cl_starting c)\<rparr>)"

definition start_events_resume :: "client \<Rightarrow> client" where
  "start_events_resume c =
     (if cl_starting c = 0 then c
      else let (g, b) = wire_events (cl_group c, cl_bus c)
        in c\<lparr>cl_starting := cl_starting c - 1, cl_group := Some g, cl_bus := b,
             cl_stray := (if cl_loop c = LoopAlive then Suc (cl_stray c) else cl_stray c),
             cl_loop := (if cl_ws c then LoopAlive else LoopDone)\<rparr>)"

definition close_call :: "client \<Rightarrow> client" where
  "close_call c = c\<lparr>cl_closing := True, cl_closes := cl_closes c @ [AwaitLoop]\<rparr>"

definition cancel_tasks :: move where
  "cancel_tasks c =
     (let (c1, o1) = walk_ends c
      in (c1\<lparr>cl_running := [], cl_waiting := [], cl_rechecks := 0\<rparr>, o1 @ map Discarded (cl_waiting c)))"

definition release_group :: "client \<Rightarrow> client" where
  "release_group c = (case cl_group c of None \<Rightarrow> c
     | Some g \<Rightarrow> c\<lparr>cl_bus := snd (group_cancel (g, cl_bus c)), cl_group := None\<rparr>)"

definition moves_on :: "nat \<Rightarrow> close_phase \<Rightarrow> client \<Rightarrow> client" where
  "moves_on k p c = c\<lparr>cl_closes := (cl_closes c)[k := p]\<rparr>"

definition close_resume :: "nat \<Rightarrow> move" where
  "close_resume k c =
     (if length (cl_closes c) \<le> k then (c, [])
      else (case cl_closes c ! k of
        AwaitLoop \<Rightarrow> (moves_on k AwaitTasks (c\<lparr>cl_loop := NoLoop\<rparr>), [])
      | AwaitTasks \<Rightarrow> (case cancel_tasks c of (c1, o1) \<Rightarrow> (moves_on k AwaitWs c1, o1))
      | AwaitWs \<Rightarrow> (moves_on k AwaitHttp ((release_group c)\<lparr>cl_ws := cl_ws_external c\<rparr>), [])
      | AwaitHttp \<Rightarrow> (moves_on k Returned c, [])
      | Returned \<Rightarrow> (c, [])))"

section \<open>The machine\<close>

fun client_step :: "input \<Rightarrow> move" where
  "client_step (Tick d) c = (c\<lparr>cl_now := cl_now c + d\<rparr>, [])"
| "client_step StartEvents c = (start_events_call c, [])"
| "client_step StartResumes c = (start_events_resume c, [])"
| "client_step LoopEnds c = (if cl_loop c = LoopAlive then c\<lparr>cl_loop := LoopDone\<rparr> else c, [])"
| "client_step StrayEnds c = (c\<lparr>cl_stray := cl_stray c - 1\<rparr>, [])"
| "client_step (CreatedPush p source) c =
     (if dispatching c then on_device_created (device_created.dc_address p) source (work (DeviceCreated p) c) else (c, []))"
| "client_step (ReleasedPush a) c = (if dispatching c then on_device_released a c else (c, []))"
| "client_step (StoreWork p) c = (work p c, [])"
| "client_step (ReconcileEnds i) c = reconcile_ends i c"
| "client_step ReplayLost c = on_replay_lost c"
| "client_step WalkEnds c = walk_ends c"
| "client_step (ConnectionState b) c = on_connection_state b c"
| "client_step RecheckEnds c = (c\<lparr>cl_rechecks := cl_rechecks c - 1\<rparr>, [])"
| "client_step CloseCalled c = (close_call c, [])"
| "client_step (CloseResumes k) c = close_resume k c"

section \<open>Reconciles are paced and keep their order\<close>

definition spawned :: "effect list \<Rightarrow> string list" where
  "spawned es = concat (map (\<lambda>e. case e of Spawned a \<Rightarrow> [a] | _ \<Rightarrow> []) es)"

definition taken :: "effect list \<Rightarrow> string list" where
  "taken es = concat (map (\<lambda>e. case e of Began a \<Rightarrow> [a] | Discarded a \<Rightarrow> [a] | _ \<Rightarrow> []) es)"

lemma observed_simps [simp]:
  "spawned [] = []" "spawned (es @ fs) = spawned es @ spawned fs" "taken [] = []" "taken (es @ fs) = taken es @ taken fs"
  "spawned (Spawned a # es) = a # spawned es" "spawned (Began a # es) = spawned es" "spawned (WalkBegan t # es) = spawned es"
  "spawned (WalkEnded t # es) = spawned es" "spawned (RecheckBegan # es) = spawned es"
  "taken (Spawned a # es) = taken es" "taken (Began a # es) = a # taken es" "taken (WalkBegan t # es) = taken es"
  "taken (WalkEnded t # es) = taken es" "taken (RecheckBegan # es) = taken es"
  "spawned (map Discarded as) = []" "taken (map Discarded as) = as"
  by (simp_all add: spawned_def taken_def comp_def)

lemmas task_defs = reconcile_new_device_def reconcile_ends_def on_device_created_def on_device_released_def
  on_replay_lost_def walk_ends_def on_connection_state_def Let_def
lemmas close_defs = cancel_tasks_def release_group_def close_resume_def close_call_def moves_on_def
lemmas start_defs = start_events_call_def start_events_resume_def

interpretation reconciles: fifo_flow client_step cl_waiting
  "\<lambda>a c. spawned (snd (client_step a c))" "\<lambda>a c. taken (snd (client_step a c))"
proof
  show "cl_waiting c @ spawned (snd (client_step a c)) = taken (snd (client_step a c)) @ cl_waiting (fst (client_step a c))"
    for a c
    by (cases a) (simp_all add: task_defs close_defs start_defs work_def case_prod_unfold
      split: list.splits option.splits close_phase.splits)
qed

definition slots_ok :: "client \<Rightarrow> bool" where
  "slots_ok c \<longleftrightarrow> length (cl_running c) \<le> max_concurrent_reconciles
     \<and> (cl_waiting c \<noteq> [] \<longrightarrow> length (cl_running c) = max_concurrent_reconciles)"

interpretation slots: invariant client_step slots_ok
proof
  show "slots_ok c \<Longrightarrow> slots_ok (fst (client_step a c))" for c a
    by (cases a) (auto simp: slots_ok_def task_defs close_defs start_defs work_def case_prod_unfold
      split: list.splits option.splits close_phase.splits)
qed

section \<open>Walks are spaced\<close>

fun spaced :: "bool \<Rightarrow> nat option \<Rightarrow> effect list \<Rightarrow> bool" where
  "spaced running ended [] = True"
| "spaced running ended (WalkBegan t # es) \<longleftrightarrow>
     \<not> running \<and> (case ended of None \<Rightarrow> True | Some u \<Rightarrow> u + rebootstrap_cooldown_ms \<le> t) \<and> spaced True ended es"
| "spaced running ended (WalkEnded t # es) \<longleftrightarrow> running \<and> spaced False (Some t) es"
| "spaced running ended (e # es) \<longleftrightarrow> spaced running ended es"

lemma spaced_discarded [simp]: "spaced r l (map Discarded as @ es) = spaced r l es"
  by (induction as) simp_all

lemma spaced_step:
  "spaced (cl_walk (fst (client_step a c))) (cl_walk_ended (fst (client_step a c))) es \<Longrightarrow>
     spaced (cl_walk c) (cl_walk_ended c) (snd (client_step a c) @ es)"
  by (cases a) (auto simp: task_defs close_defs start_defs work_def cooling_down_def case_prod_unfold
    split: list.splits option.splits close_phase.splits if_splits)

lemma spaced_run: "spaced (cl_walk c) (cl_walk_ended c) (snd (exec client_step as c))"
  by (induction as arbitrary: c) (simp_all add: case_prod_unfold spaced_step)

section \<open>Closing\<close>

definition quiet :: "effect \<Rightarrow> bool" where
  "quiet e = (case e of Spawned a \<Rightarrow> False | WalkBegan t \<Rightarrow> False | RecheckBegan \<Rightarrow> False | _ \<Rightarrow> True)"

lemma closing_step:
  "cl_closing c \<Longrightarrow> cl_closing (fst (client_step a c)) \<and> list_all quiet (snd (client_step a c))"
  by (cases a) (auto simp: task_defs close_defs start_defs work_def quiet_def case_prod_unfold list_all_iff
    split: list.splits option.splits close_phase.splits)

lemma closing_run:
  "cl_closing c \<Longrightarrow> cl_closing (fst (exec client_step as c)) \<and> list_all quiet (snd (exec client_step as c))"
proof (induction as arbitrary: c)
  case (Cons a as)
  then show ?case using closing_step [OF Cons.prems, of a] by (simp add: case_prod_unfold)
qed simp

definition wires_ok :: "sub_group option \<Rightarrow> bus \<Rightarrow> bool" where
  "wires_ok mine b = (case mine of
       None \<Rightarrow> wired [] (create_subscription_group ''loom-client-wire'') b
     | Some g \<Rightarrow> wired client_handlers g b)"

definition wiring_ok :: "client \<Rightarrow> bool" where
  "wiring_ok c \<longleftrightarrow> wires_ok (cl_group c) (cl_bus c)"

lemma wiring_start: "wiring_ok c \<Longrightarrow> wiring_ok (start_events_resume c)"
  using wire_events_wired [of "cl_bus c" "cl_group c"]
  by (simp add: wiring_ok_def wires_ok_def start_events_resume_def case_prod_unfold Let_def)

lemma wiring_release: "wiring_ok c \<Longrightarrow> wiring_ok (release_group c)"
  by (cases "cl_group c") (simp_all add: wiring_ok_def wires_ok_def release_group_def wired_cancel)

interpretation wiring: invariant client_step wiring_ok
proof
  fix c a assume ok: "wiring_ok c"
  show "wiring_ok (fst (client_step a c))"
  proof (cases a)
    case StartResumes
    with ok show ?thesis by (simp add: wiring_start)
  next
    case (CloseResumes k)
    with wiring_release [OF ok] ok show ?thesis
      by (simp add: close_resume_def moves_on_def cancel_tasks_def walk_ends_def wiring_ok_def Let_def case_prod_unfold
        split: close_phase.split)
  qed (use ok in \<open>simp_all add: wiring_ok_def task_defs start_events_call_def close_call_def work_def
    split: list.split\<close>)
qed

text \<open>
  What is left of the client at each await of \<open>close\<close>. The tasks are gone once they have been
  cancelled, whatever else happens; the loop, the group and the transport are gone when no
  \<open>start_events\<close> is under way.
\<close>

definition no_tasks :: "client \<Rightarrow> bool" where
  "no_tasks c \<longleftrightarrow> cl_running c = [] \<and> cl_waiting c = [] \<and> cl_rechecks c = 0 \<and> \<not> cl_walk c"

definition draining :: "nat \<Rightarrow> client \<Rightarrow> bool" where
  "draining k c \<longleftrightarrow> cl_closing c \<and> k < length (cl_closes c)
     \<and> (cl_closes c ! k = AwaitLoop \<or> cl_closes c ! k = AwaitTasks \<or> no_tasks c)"

definition stopping :: "nat \<Rightarrow> nat \<Rightarrow> client \<Rightarrow> bool" where
  "stopping strays k c \<longleftrightarrow> cl_starting c = 0 \<and> cl_stray c \<le> strays \<and> k < length (cl_closes c) \<and>
     (case cl_closes c ! k of
        AwaitLoop \<Rightarrow> True
      | AwaitTasks \<Rightarrow> cl_loop c = NoLoop
      | AwaitWs \<Rightarrow> cl_loop c = NoLoop
      | _ \<Rightarrow> cl_loop c = NoLoop \<and> cl_group c = None \<and> cl_ws c = cl_ws_external c)"

definition awaits_left :: "nat \<Rightarrow> client \<Rightarrow> nat" where
  "awaits_left k c = (if length (cl_closes c) \<le> k then 0
     else case cl_closes c ! k of Returned \<Rightarrow> 0 | AwaitHttp \<Rightarrow> 1 | AwaitWs \<Rightarrow> 2 | AwaitTasks \<Rightarrow> 3 | AwaitLoop \<Rightarrow> 4)"

lemma draining_step: "draining k c \<Longrightarrow> draining k (fst (client_step a c))"
proof (cases a)
  case (CloseResumes j)
  then show "draining k c \<Longrightarrow> ?thesis"
    by (cases "j = k") (auto simp: draining_def no_tasks_def close_defs walk_ends_def case_prod_unfold Let_def
      split: option.splits close_phase.splits)
qed (auto simp: draining_def no_tasks_def nth_append task_defs start_defs close_call_def work_def case_prod_unfold
    split: list.splits)

interpretation drain: invariant client_step "draining k" for k
  by unfold_locales (rule draining_step)

lemma stopping_step: "stopping n k c \<Longrightarrow> a \<noteq> StartEvents \<Longrightarrow> stopping n k (fst (client_step a c))"
proof (cases a)
  case (CloseResumes j)
  then show "stopping n k c \<Longrightarrow> ?thesis"
    by (cases "j = k") (auto simp: stopping_def close_defs walk_ends_def case_prod_unfold Let_def
      split: option.splits close_phase.splits)
qed (auto simp: stopping_def nth_append task_defs start_defs close_call_def work_def case_prod_unfold
    split: list.splits close_phase.splits)

lemma stopping_run: "stopping n k c \<Longrightarrow> StartEvents \<notin> set as \<Longrightarrow> stopping n k (fst (exec client_step as c))"
  by (induction as arbitrary: c) (auto simp: case_prod_unfold stopping_step simp del: client_step.simps)

lemma awaits_step:
  "k < length (cl_closes c) \<Longrightarrow> k < length (cl_closes (fst (client_step a c))) \<and>
     awaits_left k (fst (client_step a c)) = (if a = CloseResumes k then awaits_left k c - 1 else awaits_left k c)"
proof (cases a)
  case (CloseResumes j)
  then show "k < length (cl_closes c) \<Longrightarrow> ?thesis"
    by (cases "j = k") (auto simp: awaits_left_def close_defs walk_ends_def case_prod_unfold Let_def
      split: option.splits close_phase.splits)
qed (auto simp: awaits_left_def nth_append task_defs start_defs close_call_def work_def case_prod_unfold
    split: list.splits)

lemma awaits_run:
  "k < length (cl_closes c) \<Longrightarrow> k < length (cl_closes (fst (exec client_step as c))) \<and>
     awaits_left k (fst (exec client_step as c)) = awaits_left k c - count_list as (CloseResumes k)"
  by (induction as arbitrary: c) (auto simp: case_prod_unfold awaits_step simp del: client_step.simps)

lemma awaits_phase:
  "k < length (cl_closes c) \<Longrightarrow> awaits_left k c = 1 \<longleftrightarrow> cl_closes c ! k = AwaitHttp"
  by (simp add: awaits_left_def split: close_phase.split)

section \<open>The properties\<close>

lemma along_observed:
  assumes "f [] = []" and "\<And>xs ys. f (xs @ ys) = f xs @ f ys"
  shows "along step (\<lambda>a s. f (snd (step a s))) as s = f (snd (exec step as s))"
  by (induction as arbitrary: s) (simp_all add: assms case_prod_unfold)

text \<open>C2: Reconciles are paced, not dropped: in every run of a new client at most four of them run at a
  time, one waits only while four run, and the tasks spawned are, in order, those that have taken a
  slot or were cancelled by \<open>close\<close> followed by those still waiting.
\<close>

theorem reconciles_paced:
  "let r = exec client_step as (new_client s b external); c = fst r in
     length (cl_running c) \<le> 4 \<and> (cl_waiting c = [] \<or> length (cl_running c) = 4)
     \<and> spawned (snd r) = taken (snd r) @ cl_waiting c"
proof -
  let ?c = "new_client s b external"
  have ok: "slots_ok (fst (exec client_step as ?c))"
    by (rule slots.inv_exec) (simp add: slots_ok_def new_client_def)
  have start: "cl_waiting ?c = []" by (simp add: new_client_def)
  have "spawned (snd (exec client_step as ?c)) = taken (snd (exec client_step as ?c)) @ cl_waiting (fst (exec client_step as ?c))"
    using reconciles.run_conserves [of ?c as] by (simp add: start along_observed)
  with ok show ?thesis by (auto simp: slots_ok_def max_concurrent_reconciles_def Let_def)
qed

lemma spaced_between:
  "spaced r l (ys @ WalkBegan u # zs) \<Longrightarrow>
     (\<not> r \<and> (\<forall>v. l = Some v \<longrightarrow> v + rebootstrap_cooldown_ms \<le> u)) \<or> (\<exists>v. WalkEnded v \<in> set ys \<and> v + rebootstrap_cooldown_ms \<le> u)"
proof (induction r l ys rule: spaced.induct)
  case (3 running ended t es)
  then show ?case by fastforce
qed (auto split: option.splits)

lemma spaced_suffix: "spaced r l (xs @ es) \<Longrightarrow> \<exists>r' l'. spaced r' l' es"
proof (induction xs arbitrary: r l)
  case (Cons e xs)
  then show ?case by (cases e) auto
qed auto

text \<open>C38: Snapshot walks are spaced: between the beginnings of two re-bootstraps of a run lies the end
  of one, at least thirty seconds before the later one begins.
\<close>

theorem walks_spaced:
  assumes "snd (exec client_step as (new_client s b external)) = xs @ WalkBegan t # ys @ WalkBegan u # zs"
  shows "\<exists>v. WalkEnded v \<in> set ys \<and> v + 30000 \<le> u"
proof -
  have "spaced False None (xs @ WalkBegan t # ys @ WalkBegan u # zs)"
    using spaced_run [of "new_client s b external" as] unfolding assms by (simp add: new_client_def)
  then obtain l where "spaced True l (ys @ WalkBegan u # zs)" using spaced_suffix [of False None xs] by fastforce
  from spaced_between [OF this] show ?thesis by (auto simp: rebootstrap_cooldown_ms_def)
qed

theorem walks_spaced_witness:
  "\<exists>v. WalkEnded v \<in> set [WalkEnded 5] \<and> v + 30000 \<le> (30005::nat)"
  by (rule walks_spaced [where as = "[ReplayLost, Tick 5, WalkEnds, Tick 29999, ReplayLost, Tick 1, ReplayLost]"
        and s = "empty_store None 5" and b = empty_bus and external = False and xs = "[]" and t = 0 and zs = "[]"])
    (simp add: task_defs new_client_def cooling_down_def rebootstrap_cooldown_ms_def)

definition walks_begun :: "effect list \<Rightarrow> nat list" where
  "walks_begun es = concat (map (\<lambda>e. case e of WalkBegan t \<Rightarrow> [t] | _ \<Rightarrow> []) es)"

lemma walks_begun_append [simp]: "walks_begun [] = []" "walks_begun (es @ fs) = walks_begun es @ walks_begun fs"
  by (simp_all add: walks_begun_def)

lemma only_loss_begins:
  "a \<noteq> ReplayLost \<Longrightarrow> walks_begun (snd (client_step a c)) = []"
  by (cases a) (auto simp: walks_begun_def task_defs close_defs work_def case_prod_unfold comp_def
    split: list.splits option.splits close_phase.splits)

lemma no_loss_no_walk: "ReplayLost \<notin> set as \<Longrightarrow> walks_begun (snd (exec client_step as c)) = []"
  by (induction as arbitrary: c) (auto simp: case_prod_unfold only_loss_begins)

text \<open>Fact: A loss that arrives within thirty seconds of a walk's end is dropped for good: it changes
  nothing, and however long the client then runs, no walk begins before another loss is reported.
\<close>

theorem loss_in_cooldown_dropped:
  assumes "cl_walk_ended c = Some t" and "cl_now c < t + 30000" and "ReplayLost \<notin> set as"
  shows "exec client_step (ReplayLost # as) c = exec client_step as c
    \<and> walks_begun (snd (exec client_step (ReplayLost # as) c)) = []"
proof -
  have "client_step ReplayLost c = (c, [])"
    using assms by (auto simp: on_replay_lost_def cooling_down_def rebootstrap_cooldown_ms_def)
  then show ?thesis by (simp add: case_prod_unfold no_loss_no_walk [OF assms(3)])
qed

theorem loss_in_cooldown_dropped_witness:
  "let c = (new_client (empty_store None 5) empty_bus False)\<lparr>cl_walk_ended := Some 5, cl_now := 30004\<rparr>; as = [Tick 86400000] in
     exec client_step (ReplayLost # as) c = exec client_step as c
     \<and> walks_begun (snd (exec client_step (ReplayLost # as) c)) = []"
  unfolding Let_def by (rule loss_in_cooldown_dropped [where t = 5]) simp_all

text \<open>C3: Once \<open>close\<close> has been called nothing is started any more: whatever the client then sees, it spawns
  no reconcile, begins no walk and re-checks no contract. This holds for ever, also after a later
  \<open>start_events\<close>: nothing resets the flag, so a client that is started again applies pushes but
  adopts no device.
\<close>

theorem closed_starts_nothing:
  "list_all quiet (snd (exec client_step (CloseCalled # as) (fst (exec client_step before (new_client s b external)))))"
proof -
  let ?c = "fst (exec client_step before (new_client s b external))"
  have "cl_closing (close_call ?c)" by (simp add: close_call_def)
  from closing_run [OF this, of as] show ?thesis by (simp add: case_prod_unfold)
qed


lemma wires_empty: "wires_ok None empty_bus"
  by (simp add: wires_ok_def wired_def create_subscription_group_def live_def empty_bus_def bus_ok_def bucket_def)


text \<open>Fact: A \<open>start_events\<close> that is called while \<open>close\<close> waits for the HTTP session binds a group that
  \<open>close\<close> no longer takes down: \<open>close\<close> returns and the stream runs.
\<close>

theorem start_during_close:
  "let c' = fst (exec client_step
        [CloseCalled, CloseResumes 0, CloseResumes 0, CloseResumes 0, StartEvents, StartResumes, CloseResumes 0] (new_client s b False)) in
     cl_closes c' = [Returned] \<and> cl_loop c' = LoopAlive \<and> cl_group c' \<noteq> None"
proof -
  have step: "fst (exec client_step (a # as) c) = fst (exec client_step as (fst (client_step a c)))" for a as c
    by (simp add: case_prod_unfold)
  have walk: "walk_ends c = (c, [])" if "\<not> cl_walk c" for c using that by (simp add: walk_ends_def)
  show ?thesis
    by (simp add: step new_client_def start_defs close_call_def close_resume_def moves_on_def cancel_tasks_def walk
      release_group_def case_prod_unfold Let_def del: exec.simps(2))
qed

text \<open>Fact: Starting an already started stream changes nothing, but two calls of \<open>start_events\<close> that overlap
  both pass the guard: they leave two dispatch loops reading the one stream, of which \<open>close\<close> knows
  one. The handlers are still registered once each.
\<close>

theorem start_events_twice:
  assumes "wiring_ok c" and "cl_starting c = 0" and "cl_loop c \<noteq> LoopAlive"
  shows "fst (exec client_step [StartEvents, StartResumes, StartEvents, StartResumes] c) = fst (exec client_step [StartEvents, StartResumes] c)
    \<and> (let c' = fst (exec client_step [StartEvents, StartEvents, StartResumes, StartResumes] c) in
         cl_loop c' = LoopAlive \<and> cl_stray c' = Suc (cl_stray c)
         \<and> (case cl_group c' of None \<Rightarrow> False | Some g \<Rightarrow> wired client_handlers g (cl_bus c')))"
proof
  have "cl_starting (start_events_resume (start_events_call c)) = 0"
    and "cl_loop (start_events_resume (start_events_call c)) = LoopAlive"
    using assms(2,3) by (simp_all add: start_defs case_prod_unfold Let_def)
  then show "fst (exec client_step [StartEvents, StartResumes, StartEvents, StartResumes] c) = fst (exec client_step [StartEvents, StartResumes] c)"
    by (simp add: start_events_call_def [of "start_events_resume _"] start_events_resume_def [of "start_events_resume _"])
next
  let ?c = "fst (exec client_step [StartEvents, StartEvents, StartResumes, StartResumes] c)"
  have "wiring_ok ?c" using assms(1) by (rule wiring.inv_exec)
  moreover have "cl_group ?c \<noteq> None" using assms(2,3) by (simp add: start_defs case_prod_unfold Let_def)
  moreover have "cl_loop ?c = LoopAlive \<and> cl_stray ?c = Suc (cl_stray c)"
    using assms(2,3) by (simp add: start_defs case_prod_unfold Let_def)
  ultimately show "let c' = ?c in cl_loop c' = LoopAlive \<and> cl_stray c' = Suc (cl_stray c)
      \<and> (case cl_group c' of None \<Rightarrow> False | Some g \<Rightarrow> wired client_handlers g (cl_bus c'))"
    unfolding Let_def by (auto simp: wiring_ok_def wires_ok_def)
qed

theorem start_events_twice_witness:
  "cl_stray (fst (exec client_step [StartEvents, StartEvents, StartResumes, StartResumes] (new_client (empty_store None 5) empty_bus False))) = 1"
proof -
  let ?c = "new_client (empty_store None 5) empty_bus False"
  have "wiring_ok ?c" by (simp add: wiring_ok_def new_client_def wires_empty)
  moreover have "cl_starting ?c = 0" "cl_loop ?c \<noteq> LoopAlive" "cl_stray ?c = 0" by (simp_all add: new_client_def)
  ultimately show ?thesis using start_events_twice [of ?c] unfolding Let_def by simp
qed

end
