(* ===== verification/Alarm.thy ===== *)
theory Alarm
  imports StoreApi
begin

text \<open>
  The alarm panels as a consumer uses them (model/alarm_panel.py): what a panel reads, the names of
  its companion entities, and the verbs. A verb of a zone panel is one call of the store's
  write-backs; the verbs of the aggregate master panel go to the daemon's own aggregate route
  (silence, reset of latched detectors) or walk the zone panels one call after the other (arm,
  disarm). Text is a list of bytes, here UTF-8.
\<close>

section \<open>Reading a panel\<close>

definition panel_state :: "panel_obj \<Rightarrow> string" where
  "panel_state p = pe_state (pa_summary p)"

definition panel_readiness :: "panel_obj \<Rightarrow> (string, json) dict" where
  "panel_readiness p = pa_readiness p"

definition reset_motion_name_key :: string where
  "reset_motion_name_key = ''discovery.alarm_reset_motion''"

definition triggered_motion_name_key :: string where
  "triggered_motion_name_key = ''discovery.alarm_triggered_motion''"

definition companion_name_separator :: string where
  "companion_name_separator = [CHR '' '', CHR 0xE2, CHR 0x80, CHR 0x94, CHR '' '']"

definition companion_name :: "string \<Rightarrow> panel_obj \<Rightarrow> store \<Rightarrow> string option" where
  "companion_name key p s = (case dict_get (st_entity_names s) key of
       None \<Rightarrow> None
     | Some label \<Rightarrow> if label = '''' then None else Some (pe_name (pa_summary p) @ companion_name_separator @ label))"

definition reset_motion_name :: "panel_obj \<Rightarrow> store \<Rightarrow> string option" where
  "reset_motion_name = companion_name reset_motion_name_key"

definition triggered_motion_name :: "panel_obj \<Rightarrow> store \<Rightarrow> string option" where
  "triggered_motion_name = companion_name triggered_motion_name_key"

section \<open>Verbs\<close>

text \<open>
  A panel object is known by its place in the heap of panels, where it stays when the panel leaves
  the catalogue. A write-back needs a bound transport; of the replies only the arming and the
  reset are validated.
\<close>

definition panel_at :: "oid \<Rightarrow> world \<Rightarrow> panel_obj" where
  "panel_at i w = reg_heap (st_panels (w_store w)) ! i"

definition zone_of :: "panel_obj \<Rightarrow> string" where
  "zone_of p = pe_zone_id (pa_summary p)"

definition arm_accepted :: "body \<Rightarrow> unit option" where
  "arm_accepted b = (case b of ArmedBody st \<Rightarrow> Some () | _ \<Rightarrow> None)"

definition motion_reset :: "body \<Rightarrow> (nat \<times> nat) option" where
  "motion_reset b = (case b of ResetBody done failed \<Rightarrow> Some (done, failed) | _ \<Rightarrow> None)"

definition verb :: "write_back \<Rightarrow> (body \<Rightarrow> 'a option) \<Rightarrow> 'a co" where
  "verb wb read = bind (look transport_bound) (\<lambda>b. if b then ask (call_of wb) read else throw OtherError)"

record arming =
  ar_mode :: string
  ar_code :: "string option"
  ar_force :: "bool option"
  ar_skip_delay :: "bool option"
  ar_bypass :: "string list option"

definition arm_call :: "arming \<Rightarrow> panel_obj \<Rightarrow> write_back" where
  "arm_call a p = ArmAlarmZone (zone_of p) (ar_mode a) (ar_code a) (ar_force a) (ar_skip_delay a) (ar_bypass a)"

definition disarm_call :: "string option \<Rightarrow> panel_obj \<Rightarrow> write_back" where
  "disarm_call code p = DisarmAlarmZone (zone_of p) code"

text \<open>One turn of a master panel's walk: the panel is looked at when its turn comes.\<close>

definition walk_panel :: "(panel_obj \<Rightarrow> bool) \<Rightarrow> (panel_obj \<Rightarrow> write_back) \<Rightarrow> (body \<Rightarrow> unit option) \<Rightarrow> oid \<Rightarrow> unit co" where
  "walk_panel skip call read i =
     bind (look (panel_at i)) (\<lambda>p. if skip p then ret () else verb (call p) read)"

definition panel_arm :: "arming \<Rightarrow> oid \<Rightarrow> unit co" where
  "panel_arm a i = bind (look (panel_at i)) (\<lambda>p.
     if \<not> is_master p then verb (arm_call a p) arm_accepted
     else bind (look (\<lambda>w. alarm_panels (w_store w)))
            (each (walk_panel (\<lambda>q. is_master q \<or> ar_mode a \<notin> set (supported_modes q)) (arm_call a) arm_accepted)))"

definition panel_disarm :: "string option \<Rightarrow> oid \<Rightarrow> unit co" where
  "panel_disarm code i = bind (look (panel_at i)) (\<lambda>p.
     if \<not> is_master p then verb (disarm_call code p) (\<lambda>b. Some ())
     else bind (look (\<lambda>w. alarm_panels (w_store w))) (each (walk_panel is_master (disarm_call code) (\<lambda>b. Some ()))))"

definition panel_silence :: "string option \<Rightarrow> oid \<Rightarrow> unit co" where
  "panel_silence code i = bind (look (panel_at i)) (\<lambda>p.
     if is_master p then verb SilenceAllAlarmZones (\<lambda>b. Some ())
     else verb (SilenceAlarmZone (zone_of p) code) (\<lambda>b. Some ()))"

definition panel_acknowledge :: "string option \<Rightarrow> oid \<Rightarrow> unit co" where
  "panel_acknowledge code i = bind (look (panel_at i)) (\<lambda>p.
     verb (AcknowledgeAlarmZone (zone_of p) code) (\<lambda>b. Some ()))"

definition panel_reset_motion :: "oid \<Rightarrow> (nat \<times> nat) co" where
  "panel_reset_motion i = bind (look (panel_at i)) (\<lambda>p.
     if is_master p then verb ResetAllAlarmMotion motion_reset
     else verb (ResetAlarmZoneMotion (zone_of p)) motion_reset)"

section \<open>The master's walk\<close>

text \<open>What a reply makes of a verb, and how many of the next replies let a walk go on.\<close>

definition lets_on :: "(body \<Rightarrow> 'a option) \<Rightarrow> reply \<Rightarrow> bool" where
  "lets_on read r = (case r of Answer b \<Rightarrow> read b \<noteq> None | _ \<Rightarrow> False)"

fun served :: "(body \<Rightarrow> 'a option) \<Rightarrow> (nat \<Rightarrow> turn) \<Rightarrow> nat \<Rightarrow> nat \<Rightarrow> nat" where
  "served read env n 0 = 0"
| "served read env n (Suc k) = (if lets_on read (tn_reply (env n)) then Suc (served read env (Suc n) k) else 0)"

lemma served_le: "served read env n k \<le> k"
  by (induction k arbitrary: n) auto

text \<open>Nothing else works on the store meanwhile.\<close>

definition undisturbed :: "world \<Rightarrow> bool" where
  "undisturbed w \<longleftrightarrow> (\<forall>n. tn_ops (w_env w n) = []) \<and> transport_bound w"

lemma verb_undisturbed:
  assumes "undisturbed w"
  shows "w_store (snd (verb wb read w)) = w_store w" and "w_env (snd (verb wb read w)) = w_env w"
    and "w_turn (snd (verb wb read w)) = Suc (w_turn w)" and "w_sent (snd (verb wb read w)) = w_sent w @ [call_of wb]"
    and "(\<exists>x. fst (verb wb read w) = Inr x) \<longleftrightarrow> lets_on read (tn_reply (w_env w (w_turn w)))"
  using assms
  by (simp_all add: verb_def undisturbed_def co_defs lets_on_def Let_def split: reply.split option.split)

lemma walk_undisturbed:
  fixes read :: "body \<Rightarrow> unit option"
  assumes "undisturbed w"
  shows "let ps = filter (\<lambda>p. \<not> skip p) (map (\<lambda>i. panel_at i w) ids);
             k = served read (w_env w) (w_turn w) (length ps);
             r = each (walk_panel skip call read) ids w
         in w_sent (snd r) = w_sent w @ map (call_of \<circ> call) (take (Suc k) ps)
            \<and> (fst r = Inr () \<longleftrightarrow> k = length ps)"
  using assms
proof (induction "ids" arbitrary: w)
  case Nil
  then show ?case by (simp add: ret_def)
next
  case (Cons i js)
  show ?case
  proof (cases "skip (panel_at i w)")
    case True
    then have "each (walk_panel skip call read) (i # js) w = each (walk_panel skip call read) js w"
      by (simp add: walk_panel_def andthen_def bind_def look_def ret_def)
    with True Cons.IH [OF Cons.prems] show ?thesis by simp
  next
    case False
    let ?v = "verb (call (panel_at i w)) read w"
    let ?w = "snd ?v"
    note v = verb_undisturbed [OF Cons.prems, of "call (panel_at i w)" read]
    have und: "undisturbed ?w" using Cons.prems v by (simp add: undisturbed_def transport_bound_def)
    have same: "(\<lambda>j. panel_at j ?w) = (\<lambda>j. panel_at j w)" using v by (simp add: panel_at_def)
    have step: "each (walk_panel skip call read) (i # js) w =
        (case fst ?v of Inl e \<Rightarrow> (Inl e, ?w) | Inr u \<Rightarrow> each (walk_panel skip call read) js ?w)"
      using False by (auto simp: walk_panel_def andthen_def bind_def look_def split: prod.splits sum.splits)
    show ?thesis
    proof (cases "lets_on read (tn_reply (w_env w (w_turn w)))")
      case True
      then obtain u where "fst ?v = Inr u" using v(5) by auto
      then show ?thesis
        using False True step Cons.IH [OF und] v by (simp add: same Let_def)
    next
      case no: False
      then obtain e where "fst ?v = Inl e" using v(5) by (cases "fst ?v") auto
      then show ?thesis using False no step v by (simp add: Let_def)
    qed
  qed
qed

section \<open>Properties\<close>

definition zones_offering :: "string \<Rightarrow> world \<Rightarrow> panel_obj list" where
  "zones_offering mode w = filter (\<lambda>p. \<not> is_master p \<and> mode \<in> set (supported_modes p))
     (map (\<lambda>i. panel_at i w) (alarm_panels (w_store w)))"

definition zone_panels :: "world \<Rightarrow> panel_obj list" where
  "zone_panels w = filter (\<lambda>p. \<not> is_master p) (map (\<lambda>i. panel_at i w) (alarm_panels (w_store w)))"

text \<open>Fact: Arming the master panel arms, in catalogue order and one call each, the zones that offer the mode, and
  no other; disarming it disarms every zone. The walk goes on only while each call is answered as
  expected: the first that fails is the last one sent, and the method raises, so the zones after
  it are left as they were.\<close>

theorem master_walk_stops:
  assumes "undisturbed w" and "is_master (panel_at i w)"
  shows "(let ps = zones_offering (ar_mode a) w; k = served arm_accepted (w_env w) (w_turn w) (length ps); r = panel_arm a i w
         in w_sent (snd r) = w_sent w @ map (call_of \<circ> arm_call a) (take (Suc k) ps) \<and> (fst r = Inr () \<longleftrightarrow> k = length ps))
    \<and> (let ps = zone_panels w; k = served (\<lambda>b. Some ()) (w_env w) (w_turn w) (length ps); r = panel_disarm code i w
         in w_sent (snd r) = w_sent w @ map (call_of \<circ> disarm_call code) (take (Suc k) ps) \<and> (fst r = Inr () \<longleftrightarrow> k = length ps))"
  using assms(2) walk_undisturbed [OF assms(1), of "\<lambda>q. is_master q \<or> ar_mode a \<notin> set (supported_modes q)"
      "alarm_panels (w_store w)" arm_accepted "arm_call a"]
    walk_undisturbed [OF assms(1), of is_master "alarm_panels (w_store w)" "\<lambda>b. Some ()" "disarm_call code"]
  by (simp_all add: panel_arm_def panel_disarm_def bind_def look_def zones_offering_def zone_panels_def)

definition demo_panel :: "string \<Rightarrow> bool \<Rightarrow> panel_entity" where
  "demo_panel z m = \<lparr>pe_unique_id = ''p'' @ z, pe_zone_id = z, pe_name = z, pe_category = '''', pe_state = ''disarmed'',
     pe_supported_modes = Some [''full''], pe_available = True, pe_master = Some m, pe_code_arm_required = False,
     pe_code_disarm_required = False\<rparr>"

definition two_zones :: "reply \<Rightarrow> world" where
  "two_zones r = start_world (attach_alarm_panels [demo_panel ''master'' True, demo_panel ''1'' False, demo_panel ''2'' False]
     (empty_store (Some \<lparr>tr_connected = True, tr_capabilities = None\<rparr>) 5)) (\<lambda>n. quiet_turn r)"

lemma two_zones_panels:
  "undisturbed (two_zones r)" "is_master (panel_at 0 (two_zones r))"
  "map zone_of (zones_offering ''full'' (two_zones r)) = [''1'', ''2'']" "w_sent (two_zones r) = []"
  "tn_reply (w_env (two_zones r) n) = r"
  by (simp_all add: two_zones_def start_world_def quiet_turn_def undisturbed_def transport_bound_def panel_at_def is_master_def
    zones_offering_def zone_of_def supported_modes_def alarm_panels_def attach_alarm_panels_def attach_one_panel_def
    register_alarm_panel_def build_alarm_panel_def new_panel_def demo_panel_def empty_store_def reg_insert_def reg_ref_def
    reg_empty_def reg_keys_def)

lemma master_walk_stops_witness:
  "w_sent (snd (panel_arm \<lparr>ar_mode = ''full'', ar_code = None, ar_force = None, ar_skip_delay = None, ar_bypass = None\<rparr> 0
     (two_zones (Fails gone_error)))) = [Verb (ArmZone ''1'' ''full'' None None None None)]"
proof -
  obtain p q where ps: "zones_offering ''full'' (two_zones (Fails gone_error)) = [p, q]" and z: "zone_of p = ''1''"
    using two_zones_panels(3) [of "Fails gone_error"] by auto
  show ?thesis
    using master_walk_stops [where a = "\<lparr>ar_mode = ''full'', ar_code = None, ar_force = None, ar_skip_delay = None,
        ar_bypass = None\<rparr>", OF two_zones_panels(1,2), THEN conjunct1]
    by (simp add: ps z two_zones_panels(4,5) lets_on_def arm_call_def Let_def)
qed

end
