(* ===== verification/Held.thy ===== *)
theory Held
  imports StoreApi Flow "HOL-Library.Multiset"
begin

text \<open>
  The devices the daemon holds back unbuilt (compat/aiohomematic/central/held_devices.py), announced
  to the consumer one event per interface, and their confirmation (central/adapter.py,
  \<open>add_new_devices_manually\<close>). The announcer is a machine that moves by inputs, one per stretch of
  code between two awaits: calls of \<open>sync\<close>, the inbox's answer, the return of a publish, the timer of
  the delayed re-sync, and the synchronous \<open>decline\<close> and \<open>forget\<close>, which may come at any time, during
  a publish included. The lock serves its waiters in order.
\<close>

section \<open>The inbox\<close>

record inbox_device =
  ib_central :: "string option"
  ib_address :: string
  ib_interface :: "string option"
  ib_pending_creation :: "bool option"

definition wire_interface_id :: "string option \<Rightarrow> string option \<Rightarrow> string" where
  "wire_interface_id central interface = (case interface of
       None \<Rightarrow> ''''
     | Some i \<Rightarrow> if i = '''' then ''''
         else (case central of None \<Rightarrow> i | Some c \<Rightarrow> if c = '''' then i else c @ ''-'' @ i))"

definition is_held :: "inbox_device \<Rightarrow> bool" where
  "is_held e = (ib_pending_creation e = Some True)"

definition matches_central :: "string option \<Rightarrow> store \<Rightarrow> bool" where
  "matches_central central s = (case central of None \<Rightarrow> True | Some c \<Rightarrow> c = '''' \<or> c = central_name s \<or> c = st_central_id s)"

definition note_entry :: "store \<Rightarrow> inbox_device \<Rightarrow> (string, string) dict \<Rightarrow> (string, string) dict" where
  "note_entry s e held =
     (if \<not> is_held e \<or> \<not> matches_central (ib_central e) s then held
      else let i = wire_interface_id (ib_central e) (ib_interface e)
        in if i = '''' then held else dict_put (ib_address e) i held)"

definition held_addresses :: "store \<Rightarrow> inbox_device list \<Rightarrow> (string, string) dict" where
  "held_addresses s es = fold (note_entry s) es []"

section \<open>The announcer\<close>

datatype phase = Reading bool | Publishing "(string \<times> string list) list"

record announcer =
  an_announced :: "string set"
  an_declined :: "string set"
  an_timer :: bool
  an_queue :: "bool list"
  an_sync :: "phase option"

definition new_announcer :: announcer where
  "new_announcer = \<lparr>an_announced = {}, an_declined = {}, an_timer = False, an_queue = [], an_sync = None\<rparr>"

datatype held_input =
    SyncCalled | TimerFires
  | InboxAnswers store "inbox_device list option"
  | PublishReturns | PublishRaises
  | Decline string | Forget string | Closed

datatype held_effect = Announced string "string list"

type_synonym move = "announcer \<Rightarrow> announcer \<times> held_effect list"

definition forget :: "string \<Rightarrow> announcer \<Rightarrow> announcer" where
  "forget x a = a\<lparr>an_announced := an_announced a - {x}\<rparr>"

definition schedule_resync :: "announcer \<Rightarrow> announcer" where
  "schedule_resync a = a\<lparr>an_timer := True\<rparr>"

definition decline :: "string \<Rightarrow> announcer \<Rightarrow> announcer" where
  "decline x a = schedule_resync (a\<lparr>an_announced := an_announced a - {x}, an_declined := insert x (an_declined a)\<rparr>)"

definition aclose :: "announcer \<Rightarrow> announcer" where
  "aclose a = a\<lparr>an_declined := {}, an_timer := False\<rparr>"

definition cancel_resync :: "announcer \<Rightarrow> announcer" where
  "cancel_resync a = a\<lparr>an_timer := False\<rparr>"

text \<open>Taking and releasing the lock.\<close>

definition begin_sync :: "bool \<Rightarrow> announcer \<Rightarrow> announcer" where
  "begin_sync include a =
     (if an_sync a = None \<and> an_queue a = [] then a\<lparr>an_sync := Some (Reading include)\<rparr>
      else a\<lparr>an_queue := an_queue a @ [include]\<rparr>)"

definition end_sync :: "announcer \<Rightarrow> announcer" where
  "end_sync a = (case an_queue a of
       [] \<Rightarrow> a\<lparr>an_sync := None\<rparr>
     | b # bs \<Rightarrow> a\<lparr>an_sync := Some (Reading b), an_queue := bs\<rparr>)"

definition resync_after_delay :: "announcer \<Rightarrow> announcer" where
  "resync_after_delay a = (if an_timer a then begin_sync True (a\<lparr>an_timer := False\<rparr>) else a)"

text \<open>The held addresses not announced yet, by interface; those taken leave the declined set.\<close>

fun new_by_interface ::
  "bool \<Rightarrow> string set \<Rightarrow> (string \<times> string) list \<Rightarrow> string set \<Rightarrow> (string, string list) dict \<Rightarrow>
     string set \<times> (string, string list) dict" where
  "new_by_interface include announced [] declined gs = (declined, gs)"
| "new_by_interface include announced ((x, i) # hs) declined gs =
     (if x \<in> announced \<or> (x \<in> declined \<and> \<not> include) then new_by_interface include announced hs declined gs
      else new_by_interface include announced hs (declined - {x})
             (dict_put i ((case dict_get gs i of None \<Rightarrow> [] | Some xs \<Rightarrow> xs) @ [x]) gs))"

definition publish_next :: "(string \<times> string list) list \<Rightarrow> move" where
  "publish_next gs a = (case gs of
       [] \<Rightarrow> (end_sync (if an_declined a = {} then cancel_resync a else a), [])
     | (i, xs) # gs' \<Rightarrow> (a\<lparr>an_announced := an_announced a \<union> set xs, an_sync := Some (Publishing gs')\<rparr>, [Announced i xs]))"

definition read_inbox :: "bool \<Rightarrow> (string, string) dict option \<Rightarrow> move" where
  "read_inbox include answer a = (case answer of
       None \<Rightarrow> (end_sync (if include \<and> an_declined a \<noteq> {} then schedule_resync a else a), [])
     | Some held \<Rightarrow>
         let announced = an_announced a \<inter> set (dict_keys held);
             (declined, gs) = new_by_interface include announced held (an_declined a \<inter> set (dict_keys held)) []
         in publish_next gs (a\<lparr>an_announced := announced, an_declined := declined\<rparr>))"

fun announcer_step :: "held_input \<Rightarrow> move" where
  "announcer_step SyncCalled a = (begin_sync False a, [])"
| "announcer_step TimerFires a = (resync_after_delay a, [])"
| "announcer_step (InboxAnswers s es) a = (case an_sync a of
     Some (Reading include) \<Rightarrow> read_inbox include (map_option (held_addresses s) es) a | _ \<Rightarrow> (a, []))"
| "announcer_step PublishReturns a = (case an_sync a of Some (Publishing gs) \<Rightarrow> publish_next gs a | _ \<Rightarrow> (a, []))"
| "announcer_step PublishRaises a = (case an_sync a of Some (Publishing gs) \<Rightarrow> (end_sync a, []) | _ \<Rightarrow> (a, []))"
| "announcer_step (Decline x) a = (decline x a, [])"
| "announcer_step (Forget x) a = (forget x a, [])"
| "announcer_step Closed a = (aclose a, [])"

lemmas announcer_defs = begin_sync_def end_sync_def resync_after_delay_def publish_next_def read_inbox_def
  schedule_resync_def cancel_resync_def decline_def forget_def aclose_def

section \<open>The grouping\<close>

definition pairs :: "(string, string list) dict \<Rightarrow> (string \<times> string) list" where
  "pairs gs = concat (map (\<lambda>(i, xs). map (\<lambda>x. (x, i)) xs) gs)"

lemma pairs_simps [simp]:
  "pairs [] = []" "pairs ((i, xs) # gs) = map (\<lambda>x. (x, i)) xs @ pairs gs" "pairs (gs @ hs) = pairs gs @ pairs hs"
  by (simp_all add: pairs_def)

lemma pairs_put:
  "mset (pairs (dict_put i ((case dict_get gs i of None \<Rightarrow> [] | Some xs \<Rightarrow> xs) @ [x]) gs)) = add_mset (x, i) (mset (pairs gs))"
  by (induction gs) auto

definition fresh :: "bool \<Rightarrow> string set \<Rightarrow> string set \<Rightarrow> string \<times> string \<Rightarrow> bool" where
  "fresh include announced declined xi \<longleftrightarrow> fst xi \<notin> announced \<and> (fst xi \<in> declined \<longrightarrow> include)"

lemma new_by_interface_spec:
  assumes "distinct (map fst hs)"
  shows "fst (new_by_interface include announced hs declined gs) =
           declined - {x. x \<in> set (map fst hs) \<and> x \<notin> announced \<and> (x \<in> declined \<longrightarrow> include)}
    \<and> mset (pairs (snd (new_by_interface include announced hs declined gs))) =
           mset (pairs gs) + mset (filter (fresh include announced declined) hs)"
  using assms
proof (induction hs arbitrary: declined gs)
  case Nil
  then show ?case by simp
next
  case (Cons h hs)
  obtain x i where h: "h = (x, i)" by fastforce
  have nx: "x \<notin> set (map fst hs)" using Cons.prems h by simp
  have same: "filter (fresh include announced (declined - {x})) hs = filter (fresh include announced declined) hs"
    using nx by (intro filter_cong) (auto simp: fresh_def image_iff)
  show ?case
    using Cons.IH [of declined gs] Cons.IH [of "declined - {x}"] Cons.prems h nx pairs_put [of i gs x]
    by (auto simp: fresh_def same)
qed

section \<open>One sync\<close>

definition offered :: "held_effect list \<Rightarrow> (string \<times> string) list" where
  "offered es = concat (map (\<lambda>e. case e of Announced i xs \<Rightarrow> map (\<lambda>x. (x, i)) xs) es)"

lemma offered_simps [simp]:
  "offered [] = []" "offered (Announced i xs # es) = map (\<lambda>x. (x, i)) xs @ offered es"
  "offered (es @ fs) = offered es @ offered fs"
  by (simp_all add: offered_def)

lemma idle_run: "an_sync b = None \<Longrightarrow> exec announcer_step (replicate n PublishReturns) b = (b, [])"
  by (induction n) simp_all

lemma publishing_run:
  assumes "an_queue a = []" and "length gs \<le> n"
  shows "exec announcer_step (replicate n PublishReturns) (fst (publish_next gs a)) =
      (a\<lparr>an_announced := an_announced a \<union> fst ` set (pairs gs), an_sync := None,
         an_timer := (an_timer a \<and> an_declined a \<noteq> {})\<rparr>,
       map (\<lambda>(i, xs). Announced i xs) (drop 1 gs))"
  using assms
proof (induction gs arbitrary: a n)
  case Nil
  have "fst (publish_next [] a) = a\<lparr>an_sync := None, an_timer := (an_timer a \<and> an_declined a \<noteq> {})\<rparr>"
    using Nil by (cases a) (simp add: announcer_defs)
  with Nil show ?case by (simp add: idle_run)
next
  case (Cons g gs)
  obtain i xs where g: "g = (i, xs)" by fastforce
  obtain k where n: "n = Suc k" and k: "length gs \<le> k" using Cons.prems by (cases n) auto
  let ?a = "a\<lparr>an_announced := an_announced a \<union> set xs, an_sync := Some (Publishing gs)\<rparr>"
  have start: "fst (publish_next (g # gs) a) = ?a" by (simp add: publish_next_def g)
  have "an_queue ?a = []" using Cons.prems by simp
  note run = Cons.IH [OF this k]
  have emits: "snd (publish_next gs ?a) = map (\<lambda>(i, xs). Announced i xs) (take 1 gs)"
    by (cases gs) (auto simp: publish_next_def)
  have all: "map (\<lambda>(i, xs). Announced i xs) (take 1 gs) @ map (\<lambda>(i, xs). Announced i xs) (drop 1 gs)
      = map (\<lambda>(i, xs). Announced i xs) gs"
    by (simp flip: map_append)
  have "fst ` set (pairs (g # gs)) = set xs \<union> fst ` set (pairs gs)" by (force simp: g)
  then show ?case
    unfolding start n using run emits all by (simp add: case_prod_unfold Un_assoc)
qed

lemma pairs_offered: "offered (map (\<lambda>(i, xs). Announced i xs) gs) = pairs gs"
  by (induction gs) auto

lemma length_note_entry: "length (note_entry s e held) \<le> Suc (length held)"
  by (simp add: note_entry_def Let_def length_dict_put)

lemma held_bounds: "dict_ok (held_addresses s es)" "length (held_addresses s es) \<le> length es"
proof -
  have "dict_ok (fold (note_entry s) es d)" if "dict_ok d" for d
    using that by (induction es arbitrary: d) (simp_all add: note_entry_def Let_def)
  then show "dict_ok (held_addresses s es)" by (simp add: held_addresses_def)
  have "length (fold (note_entry s) es d) \<le> length es + length d" for d
  proof (induction es arbitrary: d)
    case (Cons e es)
    from Cons [of "note_entry s e d"] length_note_entry [of s e d] show ?case by simp
  qed simp
  from this [of "[]"] show "length (held_addresses s es) \<le> length es" by (simp add: held_addresses_def)
qed

lemma groups_le: "length (snd (new_by_interface include announced hs declined gs)) \<le> length hs + length gs"
proof (induction "include" announced hs declined gs rule: new_by_interface.induct)
  case (2 b announced x i hs declined gs)
  have "length (dict_put i v gs) \<le> Suc (length gs)" for v by (simp add: length_dict_put)
  note this [of "(case dict_get gs i of None \<Rightarrow> [] | Some xs \<Rightarrow> xs) @ [x]"]
  with 2 show ?case by (cases "x \<in> announced \<or> (x \<in> declined \<and> \<not> b)") auto
qed simp

lemma fst_filter: "fst ` set (filter (\<lambda>xi. P (fst xi)) held) = {x \<in> fst ` set held. P x}"
  by auto

definition whole_sync :: "store \<Rightarrow> inbox_device list \<Rightarrow> held_input list" where
  "whole_sync s es = SyncCalled # InboxAnswers s (Some es) # replicate (length es) PublishReturns"

lemma whole_sync_run:
  assumes "an_sync a = None" and "an_queue a = []"
    and held_def: "held = held_addresses s es" and left_def: "left = an_declined a \<inter> set (dict_keys held)"
  shows "fst (exec announcer_step (whole_sync s es) a) =
      a\<lparr>an_announced := {x \<in> set (dict_keys held). x \<in> an_announced a \<or> x \<notin> an_declined a}, an_declined := left,
        an_timer := (an_timer a \<and> left \<noteq> {})\<rparr>
    \<and> mset (offered (snd (exec announcer_step (whole_sync s es) a))) =
        mset (filter (\<lambda>xi. fst xi \<notin> an_announced a \<and> fst xi \<notin> an_declined a) held)"
proof -
  let ?ann = "an_announced a \<inter> fst ` set held"
  obtain declined gs where d: "new_by_interface False ?ann held left [] = (declined, gs)" by fastforce
  have ok: "distinct (map fst held)" using held_bounds(1) by (simp add: held_def dict_ok_def)
  have "length gs \<le> length held" using groups_le [of False ?ann held left "[]"] by (simp add: d)
  moreover have "length held \<le> length es" by (simp add: held_def held_bounds)
  ultimately have few: "length gs \<le> length es" by simp
  let ?b = "a\<lparr>an_sync := Some (Reading False), an_announced := ?ann, an_declined := declined\<rparr>"
  have "an_queue ?b = []" using assms(2) by simp
  note run = publishing_run [OF this few]
  have spec: "declined = left" "mset (pairs gs) = mset (filter (fresh False ?ann left) held)"
    using new_by_interface_spec [OF ok, of False ?ann left "[]"] by (auto simp: d)
  have keep: "filter (fresh False ?ann left) held = filter (\<lambda>xi. fst xi \<notin> an_announced a \<and> fst xi \<notin> an_declined a) held"
    by (intro filter_cong) (auto simp: fresh_def left_def)
  have "exec announcer_step (whole_sync s es) a =
      (case publish_next gs ?b of (b, o1) \<Rightarrow> case exec announcer_step (replicate (length es) PublishReturns) b of
         (c, o2) \<Rightarrow> (c, o1 @ o2))"
    using assms(1,2) d unfolding left_def
    by (simp add: whole_sync_def begin_sync_def read_inbox_def held_def [symmetric] case_prod_unfold)
  moreover have "snd (publish_next gs ?b) @ map (\<lambda>(i, xs). Announced i xs) (drop 1 gs) = map (\<lambda>(i, xs). Announced i xs) gs"
    by (cases gs) (auto simp: publish_next_def)
  ultimately have all: "exec announcer_step (whole_sync s es) a =
      (?b\<lparr>an_announced := ?ann \<union> fst ` set (pairs gs), an_sync := None, an_timer := (an_timer a \<and> declined \<noteq> {})\<rparr>,
       map (\<lambda>(i, xs). Announced i xs) gs)"
    using run by (simp add: case_prod_unfold)
  have "set (pairs gs) = set (filter (\<lambda>xi. fst xi \<notin> an_announced a \<and> fst xi \<notin> an_declined a) held)"
    using arg_cong [OF spec(2), of set_mset] unfolding keep set_mset_mset .
  then have "fst ` set (pairs gs) = {x \<in> fst ` set held. x \<notin> an_announced a \<and> x \<notin> an_declined a}"
    using fst_filter [of "\<lambda>x. x \<notin> an_announced a \<and> x \<notin> an_declined a"] by simp
  then have "?ann \<union> fst ` set (pairs gs) = {x \<in> set (dict_keys held). x \<in> an_announced a \<or> x \<notin> an_declined a}"
    by auto
  with all spec keep assms(1) show ?thesis
    by (simp add: pairs_offered)
qed

section \<open>Nothing declined is lost\<close>

text \<open>A delayed re-sync is under way: its timer runs, or it waits for the lock, or for the inbox.\<close>

definition resync_under_way :: "announcer \<Rightarrow> bool" where
  "resync_under_way a \<longleftrightarrow> an_timer a \<or> True \<in> set (an_queue a) \<or> an_sync a = Some (Reading True)"

text \<open>
  Where a declined device can be until it is announced again: declined, always with a re-sync under
  way; in the batch that is being published; or in neither set, from which any sync announces it.
\<close>

definition being_published :: "string \<Rightarrow> announcer \<Rightarrow> bool" where
  "being_published x a \<longleftrightarrow> (case an_sync a of Some (Publishing gs) \<Rightarrow> x \<in> fst ` set (pairs gs) | _ \<Rightarrow> False)"

definition to_be_offered :: "string \<Rightarrow> bool \<Rightarrow> announcer \<Rightarrow> bool" where
  "to_be_offered x broke a \<longleftrightarrow> x \<notin> an_announced a \<and> (x \<in> an_declined a \<longrightarrow> resync_under_way a)
     \<and> (x \<in> an_declined a \<or> being_published x a \<or> broke)"

lemmas waiting_defs = to_be_offered_def being_published_def resync_under_way_def

lemma new_by_interface_spec_set:
  assumes "distinct (map fst hs)"
  shows "fst (new_by_interface include announced hs declined []) =
           declined - {y. y \<in> set (map fst hs) \<and> y \<notin> announced \<and> (y \<in> declined \<longrightarrow> include)}"
    and "fst ` set (pairs (snd (new_by_interface include announced hs declined []))) =
           {y \<in> set (map fst hs). y \<notin> announced \<and> (y \<in> declined \<longrightarrow> include)}"
proof -
  note spec = new_by_interface_spec [OF assms, of "include" announced declined "[]"]
  then show "fst (new_by_interface include announced hs declined []) =
           declined - {y. y \<in> set (map fst hs) \<and> y \<notin> announced \<and> (y \<in> declined \<longrightarrow> include)}" by simp
  have "set (pairs (snd (new_by_interface include announced hs declined []))) = set (filter (fresh include announced declined) hs)"
    using arg_cong [OF spec [THEN conjunct2], of set_mset] by simp
  then show "fst ` set (pairs (snd (new_by_interface include announced hs declined []))) =
           {y \<in> set (map fst hs). y \<notin> announced \<and> (y \<in> declined \<longrightarrow> include)}"
    by (force simp: fresh_def)
qed

text \<open>The next batch is published, or the sync ends: the device stays where it was or is announced.\<close>

lemma publish_next_keeps:
  assumes "x \<notin> an_announced a"
    and "x \<in> an_declined a \<Longrightarrow> an_timer a \<or> True \<in> set (an_queue a)"
    and "x \<in> an_declined a \<or> x \<in> fst ` set (pairs gs) \<or> broke"
  shows "x \<in> fst ` set (offered (snd (publish_next gs a))) \<or> to_be_offered x broke (fst (publish_next gs a))"
proof (cases gs)
  case Nil
  with assms show ?thesis by (auto simp: waiting_defs announcer_defs split: list.split)
next
  case (Cons g gs')
  obtain i xs where "g = (i, xs)" by fastforce
  with Cons assms show ?thesis by (auto simp: waiting_defs announcer_defs image_iff)
qed

lemma read_inbox_keeps:
  assumes "to_be_offered x broke a" and sync: "an_sync a = Some (Reading include)"
    and held: "\<And>h. answer = Some h \<Longrightarrow> distinct (map fst h) \<and> x \<in> set (map fst h)"
  shows "x \<in> fst ` set (offered (snd (read_inbox include answer a))) \<or> to_be_offered x broke (fst (read_inbox include answer a))"
proof (cases answer)
  case None
  with assms(1) sync show ?thesis by (auto simp: waiting_defs announcer_defs split: list.split)
next
  case (Some h)
  let ?ann = "an_announced a \<inter> set (map fst h)" and ?dec = "an_declined a \<inter> set (map fst h)"
  obtain declined gs where n: "new_by_interface include ?ann h ?dec [] = (declined, gs)" by fastforce
  have d: "distinct (map fst h)" and x: "x \<in> set (map fst h)" using held [OF Some] by simp_all
  have "declined = ?dec - {y. y \<in> set (map fst h) \<and> y \<notin> ?ann \<and> (y \<in> ?dec \<longrightarrow> include)}"
    and "fst ` set (pairs gs) = {y \<in> set (map fst h). y \<notin> ?ann \<and> (y \<in> ?dec \<longrightarrow> include)}"
    using new_by_interface_spec_set [OF d, of "include" ?ann ?dec, unfolded n] by (simp_all only: fst_conv snd_conv)
  then have "x \<in> fst ` set (pairs gs) \<and> x \<notin> declined \<or> x \<in> declined \<and> (an_timer a \<or> True \<in> set (an_queue a))"
    using assms(1) sync x by (cases "include"; cases "x \<in> an_declined a") (auto simp: waiting_defs)
  moreover have "x \<notin> ?ann" using assms(1) by (simp add: to_be_offered_def)
  moreover have "read_inbox include answer a = publish_next gs (a\<lparr>an_announced := ?ann, an_declined := declined\<rparr>)"
    using n by (simp add: read_inbox_def Some)
  ultimately show ?thesis
    using publish_next_keeps [of x "a\<lparr>an_announced := ?ann, an_declined := declined\<rparr>" gs broke] by auto
qed

definition cuts_short :: "held_input \<Rightarrow> bool" where
  "cuts_short i \<longleftrightarrow> i = PublishRaises \<or> i = Closed"

definition shows_held :: "string \<Rightarrow> held_input \<Rightarrow> bool" where
  "shows_held x i = (case i of InboxAnswers s (Some es) \<Rightarrow> x \<in> set (dict_keys (held_addresses s es)) | _ \<Rightarrow> True)"

lemma to_be_offered_step:
  assumes "to_be_offered x broke a" and "shows_held x i"
  shows "x \<in> fst ` set (offered (snd (announcer_step i a))) \<or> to_be_offered x (broke \<or> cuts_short i) (fst (announcer_step i a))"
proof (cases i)
  case (InboxAnswers s es)
  show ?thesis
  proof (cases "an_sync a")
    case (Some p)
    show ?thesis
    proof (cases p)
      case (Reading b)
      have "distinct (map fst h) \<and> x \<in> set (map fst h)" if "map_option (held_addresses s) es = Some h" for h
        using that assms(2) held_bounds(1) by (auto simp: InboxAnswers shows_held_def dict_ok_def)
      from read_inbox_keeps [OF assms(1) _ this, of b] show ?thesis
        by (auto simp: InboxAnswers Some Reading cuts_short_def)
    qed (use assms(1) InboxAnswers Some in \<open>simp add: cuts_short_def\<close>)
  qed (use assms(1) InboxAnswers in \<open>simp add: cuts_short_def\<close>)
next
  case PublishReturns
  show ?thesis
  proof (cases "\<exists>gs. an_sync a = Some (Publishing gs)")
    case True
    then obtain gs where gs: "an_sync a = Some (Publishing gs)" ..
    show ?thesis
      using publish_next_keeps [of x a gs broke] assms(1) by (auto simp: PublishReturns gs cuts_short_def waiting_defs)
  next
    case False
    then have "announcer_step i a = (a, [])" by (auto simp: PublishReturns split: option.split phase.split)
    with assms(1) show ?thesis by (simp add: PublishReturns cuts_short_def)
  qed
next
  case PublishRaises
  with assms(1) show ?thesis
    by (cases "an_sync a") (auto simp: waiting_defs announcer_defs cuts_short_def split: phase.splits list.splits)
next
  case Closed
  with assms(1) show ?thesis by (auto simp: waiting_defs announcer_defs cuts_short_def)
next
  case TimerFires
  with assms(1) show ?thesis
    by (cases "an_sync a") (auto simp: waiting_defs announcer_defs cuts_short_def split: phase.splits)
next
  case SyncCalled
  with assms(1) show ?thesis
    by (cases "an_sync a") (auto simp: waiting_defs announcer_defs cuts_short_def split: phase.splits)
next
  case (Decline y)
  with assms(1) show ?thesis by (auto simp: waiting_defs announcer_defs cuts_short_def)
next
  case (Forget y)
  with assms(1) show ?thesis
    by (cases "an_sync a") (auto simp: waiting_defs announcer_defs cuts_short_def split: phase.splits)
qed

lemma to_be_offered_run:
  assumes "to_be_offered x broke a" and "list_all (shows_held x) ids"
  shows "x \<in> fst ` set (offered (snd (exec announcer_step ids a)))
    \<or> to_be_offered x (broke \<or> list_ex cuts_short ids) (fst (exec announcer_step ids a))"
  using assms
proof (induction "ids" arbitrary: broke a)
  case (Cons i "ids")
  from Cons.prems have "shows_held x i" "list_all (shows_held x) ids" by simp_all
  from to_be_offered_step [OF Cons.prems(1) this(1)] Cons.IH [OF _ this(2), of "broke \<or> cuts_short i" "fst (announcer_step i a)"]
  show ?case by (auto simp: case_prod_unfold image_Un)
qed simp

section \<open>Confirming\<close>

text \<open>
  What a confirmation does, in order: a call to the daemon, or a declined address. \<open>replies\<close> gives the
  exception of the n-th call, if it fails.
\<close>

datatype confirm_effect = Sent api_call | Declines string

definition accept_call :: "string \<Rightarrow> string \<Rightarrow> api_call" where
  "accept_call x name = DeviceConfig (AcceptDevice x (Some name) None None None)"

definition release_call :: "string \<Rightarrow> api_call" where
  "release_call x = DeviceConfig (ReleaseDevice x)"

text \<open>A failed release is raised as a plain library error that says the device was accepted.\<close>

definition release_failure :: "exc \<Rightarrow> exc" where
  "release_failure e = (if loom_exc BaseLoomException e then Loom (PlainError BaseLoomException) else e)"

fun confirm_each :: "(string, string) dict \<Rightarrow> (string \<times> string) list \<Rightarrow> (nat \<Rightarrow> exc option) \<Rightarrow> nat \<Rightarrow> confirm_effect list \<times> exc option" where
  "confirm_each held [] replies n = ([], None)"
| "confirm_each held ((x, name) # ns) replies n =
     (if dict_get held x = None then
        (if name = '''' then confirm_each held ns replies n
         else case replies n of
             Some e \<Rightarrow> ([Sent (DeviceWrite (PatchDevice x name))], Some e)
           | None \<Rightarrow> (case confirm_each held ns replies (Suc n) of
               (es, r) \<Rightarrow> (Sent (DeviceWrite (PatchDevice x name)) # es, r)))
      else if py_strip name = '''' then
        (case confirm_each held ns replies n of (es, r) \<Rightarrow> (Declines x # es, r))
      else case replies n of
          Some e \<Rightarrow> ([Sent (accept_call x name)], Some e)
        | None \<Rightarrow> (case replies (Suc n) of
              Some e \<Rightarrow> ([Sent (accept_call x name), Sent (release_call x)], Some (release_failure e))
            | None \<Rightarrow> (case confirm_each held ns replies (Suc (Suc n)) of
                (es, r) \<Rightarrow> (Sent (accept_call x name) # Sent (release_call x) # es, r))))"

definition add_new_devices_manually ::
  "store \<Rightarrow> inbox_device list \<Rightarrow> (string, string) dict option \<Rightarrow> (nat \<Rightarrow> exc option) \<Rightarrow> confirm_effect list \<times> exc option" where
  "add_new_devices_manually s inbox names replies = (case names of
       None \<Rightarrow> ([], None)
     | Some [] \<Rightarrow> ([], None)
     | Some (nm # nms) \<Rightarrow> (case replies 0 of
           Some e \<Rightarrow> ([Sent (Area ListInboxDevices)], Some e)
         | None \<Rightarrow> (case confirm_each (held_addresses s inbox) (nm # nms) replies 1 of
             (es, r) \<Rightarrow> (Sent (Area ListInboxDevices) # es, r))))"

text \<open>The same as a plan that is made first and performed call by call up to the first failure.\<close>

definition plan :: "(string, string) dict \<Rightarrow> string \<times> string \<Rightarrow> confirm_effect list" where
  "plan held = (\<lambda>(x, name).
     if dict_get held x = None then (if name = '''' then [] else [Sent (DeviceWrite (PatchDevice x name))])
     else if py_strip name = '''' then [Declines x]
     else [Sent (accept_call x name), Sent (release_call x)])"

fun perform :: "confirm_effect list \<Rightarrow> (nat \<Rightarrow> exc option) \<Rightarrow> nat \<Rightarrow> confirm_effect list \<times> exc option" where
  "perform [] replies n = ([], None)"
| "perform (Declines x # es) replies n = (case perform es replies n of (fs, r) \<Rightarrow> (Declines x # fs, r))"
| "perform (Sent c # es) replies n = (case replies n of
      Some e \<Rightarrow> ([Sent c], Some (case c of DeviceConfig (ReleaseDevice x) \<Rightarrow> release_failure e | _ \<Rightarrow> e))
    | None \<Rightarrow> (case perform es replies (Suc n) of (fs, r) \<Rightarrow> (Sent c # fs, r)))"

lemma confirm_performs: "confirm_each held names replies n = perform (concat (map (plan held) names)) replies n"
  by (induction held names replies n rule: confirm_each.induct)
    (auto simp: plan_def accept_call_def release_call_def split: option.split prod.split)

definition calls :: "confirm_effect list \<Rightarrow> nat" where
  "calls es = length (filter (\<lambda>e. case e of Sent c \<Rightarrow> True | Declines x \<Rightarrow> False) es)"

lemma calls_simps [simp]:
  "calls [] = 0" "calls (Sent c # es) = Suc (calls es)" "calls (Declines x # es) = calls es"
  "calls (es @ fs) = calls es + calls fs"
  by (simp_all add: calls_def)

text \<open>A part of a plan was performed that ended with the plan's end or with the first call that failed.\<close>

definition ends_rightly :: "confirm_effect list \<Rightarrow> confirm_effect list \<Rightarrow> exc option \<Rightarrow> (nat \<Rightarrow> exc option) \<Rightarrow> nat \<Rightarrow> bool" where
  "ends_rightly es fs r replies n \<longleftrightarrow> (case r of
      None \<Rightarrow> fs = es \<and> (\<forall>k<calls fs. replies (n + k) = None)
    | Some e' \<Rightarrow> (\<exists>hs c gs e. es = hs @ Sent c # gs \<and> fs = hs @ [Sent c] \<and> (\<forall>k<calls hs. replies (n + k) = None)
        \<and> replies (n + calls hs) = Some e
        \<and> e' = (if (\<exists>x. c = release_call x) \<and> loom_exc BaseLoomException e then Loom (PlainError BaseLoomException) else e)))"

lemma ends_rightly_declines: "ends_rightly es fs r replies n \<Longrightarrow> ends_rightly (Declines x # es) (Declines x # fs) r replies n"
  unfolding ends_rightly_def by (cases r) (fastforce intro: Cons_eq_appendI)+

lemma ends_rightly_sent:
  assumes "ends_rightly es fs r replies (Suc n)" and "replies n = None"
  shows "ends_rightly (Sent c # es) (Sent c # fs) r replies n"
proof -
  have shift: "\<forall>k<Suc m. replies (n + k) = None" if "\<forall>k<m. replies (Suc n + k) = None" for m
    using that assms(2) by (auto simp: less_Suc_eq_0_disj)
  show ?thesis
  proof (cases r)
    case None
    with assms(1) shift [of "calls es"] show ?thesis by (simp add: ends_rightly_def)
  next
    case (Some e')
    with assms(1) obtain hs d gs e where d: "es = hs @ Sent d # gs" "fs = hs @ [Sent d]" "\<forall>k<calls hs. replies (Suc n + k) = None"
        "replies (Suc n + calls hs) = Some e"
        "e' = (if (\<exists>x. d = release_call x) \<and> loom_exc BaseLoomException e then Loom (PlainError BaseLoomException) else e)"
      unfolding ends_rightly_def by auto
    from shift [OF d(3)] d(4) have "\<forall>k<calls (Sent c # hs). replies (n + k) = None" "replies (n + calls (Sent c # hs)) = Some e"
      by simp_all
    with d(1,2,5) show ?thesis
      unfolding ends_rightly_def Some option.case
      by (intro exI [of _ "Sent c # hs"] exI [of _ d] exI [of _ gs] exI [of _ e]) (simp del: calls_simps)
  qed
qed

lemma perform_ends:
  "perform es replies n = (fs, r) \<Longrightarrow> ends_rightly es fs r replies n"
proof (induction es replies n arbitrary: fs r rule: perform.induct)
  case (1 replies n)
  then show ?case by (simp add: ends_rightly_def)
next
  case (2 x es replies n)
  obtain hs r' where p: "perform es replies n = (hs, r')" by fastforce
  from 2 p show ?case by (auto intro: ends_rightly_declines)
next
  case (3 c es replies n)
  show ?case
  proof (cases "replies n")
    case None
    obtain hs r' where p: "perform es replies (Suc n) = (hs, r')" by fastforce
    from 3 None p show ?thesis by (auto intro: ends_rightly_sent)
  next
    case (Some e)
    with 3 have fr: "fs = [Sent c]" "r = Some (case c of DeviceConfig (ReleaseDevice x) \<Rightarrow> release_failure e | _ \<Rightarrow> e)" by simp_all
    have "(case c of DeviceConfig (ReleaseDevice x) \<Rightarrow> release_failure e | _ \<Rightarrow> e) =
        (if (\<exists>x. c = release_call x) \<and> loom_exc BaseLoomException e then Loom (PlainError BaseLoomException) else e)"
      by (auto simp: release_call_def release_failure_def split: api_call.split device_config_call.split)
    with fr Some show ?thesis
      unfolding ends_rightly_def fr option.case
      by (intro exI [of _ "[]"] exI [of _ c] exI [of _ es] exI [of _ e]) simp
  qed
qed

lemma plan_accepts:
  "Sent (accept_call x name) \<in> set (plan held p) \<Longrightarrow> dict_get held x \<noteq> None \<and> py_strip name \<noteq> ''''"
  by (cases p) (simp add: plan_def accept_call_def release_call_def split: if_splits)

lemma plans_accept:
  "Sent (accept_call x name) \<in> set (concat (map (plan held) ps)) \<Longrightarrow> dict_get held x \<noteq> None \<and> py_strip name \<noteq> ''''"
  by (induction ps) (auto dest: plan_accepts)

lemma confirmation_performs:
  "add_new_devices_manually s inbox (Some (nm # nms)) replies =
     perform (Sent (Area ListInboxDevices) # concat (map (plan (held_addresses s inbox)) (nm # nms))) replies 0"
  by (cases "replies 0") (simp_all only: add_new_devices_manually_def option.case list.case perform.simps(3) confirm_performs
    api_call.case One_nat_def)

section \<open>Properties\<close>

text \<open>C21: One sync announces exactly the devices that are held for this central, not announced yet and not declined,
  each once and under its own interface; afterwards the announced set is what is held and was
  announced now or before, the declined set what of it is still held, and the delayed re-sync is
  called off when nothing is declined. A second sync on the same inbox announces nothing.\<close>

theorem sync_exact:
  assumes "an_sync a = None" and "an_queue a = []"
  shows "let held = held_addresses s es; r = exec announcer_step (whole_sync s es) a in
     mset (offered (snd r)) = mset (filter (\<lambda>xi. fst xi \<notin> an_announced a \<and> fst xi \<notin> an_declined a) held)
     \<and> distinct (dict_keys held)
     \<and> an_announced (fst r) = {x \<in> set (dict_keys held). x \<in> an_announced a \<or> x \<notin> an_declined a}
     \<and> an_declined (fst r) = an_declined a \<inter> set (dict_keys held)
     \<and> an_timer (fst r) = (an_timer a \<and> an_declined (fst r) \<noteq> {})
     \<and> offered (snd (exec announcer_step (whole_sync s es) (fst r))) = []"
proof -
  let ?held = "held_addresses s es" and ?r = "exec announcer_step (whole_sync s es) a"
  note one = whole_sync_run [OF assms refl [of ?held] refl]
  have "an_sync (fst ?r) = None" "an_queue (fst ?r) = []" using one assms by simp_all
  note two = whole_sync_run [OF this refl [of ?held] refl, THEN conjunct2]
  have "x \<in> an_announced (fst ?r) \<or> x \<in> an_declined (fst ?r)" if "x \<in> set (dict_keys ?held)" for x
    using one that by auto
  then have "filter (\<lambda>xi. fst xi \<notin> an_announced (fst ?r) \<and> fst xi \<notin> an_declined (fst ?r)) ?held = []"
    by (auto simp: filter_empty_conv)
  with two have "offered (snd (exec announcer_step (whole_sync s es) (fst ?r))) = []" by simp
  then show ?thesis using one held_bounds(1) [of s es] by (simp add: Let_def dict_ok_def)
qed

definition inbox_of :: "string list \<Rightarrow> inbox_device list" where
  "inbox_of xs = map (\<lambda>x. \<lparr>ib_central = None, ib_address = x, ib_interface = Some ''HmIP-RF'', ib_pending_creation = Some True\<rparr>) xs"

lemma held_demo: "held_addresses s (inbox_of [''A'', ''B'', ''C'']) = [(''A'', ''HmIP-RF''), (''B'', ''HmIP-RF''), (''C'', ''HmIP-RF'')]"
  by (simp add: inbox_of_def held_addresses_def note_entry_def is_held_def matches_central_def wire_interface_id_def Let_def)

lemma sync_exact_witness:
  "mset (offered (snd (exec announcer_step (whole_sync (empty_store None 5) (inbox_of [''A'', ''B'', ''C'']))
     (new_announcer\<lparr>an_announced := {''A'', ''X''}, an_declined := {''B''}, an_timer := True\<rparr>)))) = {#(''C'', ''HmIP-RF'')#}"
  using sync_exact [of "new_announcer\<lparr>an_announced := {''A'', ''X''}, an_declined := {''B''}, an_timer := True\<rparr>"
      "empty_store None 5" "inbox_of [''A'', ''B'', ''C'']"]
  by (simp add: new_announcer_def held_demo Let_def)

text \<open>C22: A device whose nameless confirmation was declined is not lost, in whatever state the announcer
  was: at every moment of the run that follows in which the inbox, when it can be read, still shows
  it held, the device has been announced again since, or it is declined and a re-sync that takes
  declined devices is under way, or it is in the batch that is being published. Only once a publish
  has raised or the announcer was closed it may instead be in neither set, where the next sync of
  any kind announces it.\<close>

theorem declined_not_lost:
  assumes "\<And>s es. InboxAnswers s (Some es) \<in> set ids \<Longrightarrow> x \<in> set (dict_keys (held_addresses s es))"
    and "exec announcer_step (Decline x # ids) a = (b, effects)"
  shows "x \<in> fst ` set (offered effects)
    \<or> x \<notin> an_announced b
      \<and> (x \<in> an_declined b \<and> (an_timer b \<or> True \<in> set (an_queue b) \<or> an_sync b = Some (Reading True))
         \<or> (\<exists>gs. an_sync b = Some (Publishing gs) \<and> x \<in> fst ` set (pairs gs))
         \<or> (PublishRaises \<in> set ids \<or> Closed \<in> set ids) \<and> x \<notin> an_declined b)"
proof -
  have "list_all (shows_held x) ids"
    using assms(1) by (auto simp: list_all_iff shows_held_def split: held_input.split option.split)
  moreover have "to_be_offered x False (decline x a)" by (simp add: waiting_defs announcer_defs)
  moreover have "exec announcer_step ids (decline x a) = (b, effects)"
    using assms(2) by (simp add: case_prod_unfold prod_eq_iff)
  ultimately have "x \<in> fst ` set (offered effects) \<or> to_be_offered x (list_ex cuts_short ids) b"
    using to_be_offered_run [of x False "decline x a" "ids"] by simp
  then show ?thesis
    by (auto simp: waiting_defs list_ex_iff cuts_short_def split: option.splits phase.splits)
qed

lemma declined_not_lost_witness:
  "let b = fst (exec announcer_step [Decline ''B'', SyncCalled, InboxAnswers (empty_store None 5) (Some (inbox_of [''A'', ''B'', ''C''])),
       PublishReturns, TimerFires, InboxAnswers (empty_store None 5) None] new_announcer) in
     an_declined b = {''B''} \<and> an_announced b = {''A'', ''C''} \<and> an_timer b"
proof -
  let ?s = "empty_store None 5" and ?es = "inbox_of [''A'', ''B'', ''C'']"
  let ?b = "new_announcer\<lparr>an_announced := {''A'', ''C''}, an_declined := {''B''}, an_timer := True\<rparr>"
  have run: "exec announcer_step (Decline ''B'' # [SyncCalled, InboxAnswers ?s (Some ?es), PublishReturns, TimerFires, InboxAnswers ?s None])
      new_announcer = (?b, [Announced ''HmIP-RF'' [''A'', ''C'']])"
    by (simp add: new_announcer_def announcer_defs held_demo Let_def)
  have "''B'' \<in> set (dict_keys (held_addresses s es))"
    if "InboxAnswers s (Some es) \<in> set [SyncCalled, InboxAnswers ?s (Some ?es), PublishReturns, TimerFires, InboxAnswers ?s None]"
    for s es using that by (auto simp: held_demo)
  from declined_not_lost [OF this run] run show ?thesis by (simp add: new_announcer_def Let_def)
qed

text \<open>Fact: the delayed re-sync keeps what it promises: fired on an idle announcer and answered with an inbox that
  shows the declined device held, it announces the device.\<close>

theorem resync_offers_declined:
  assumes "an_sync a = None" and "an_queue a = []" and "an_timer a"
    and "x \<in> an_declined a" and "x \<notin> an_announced a" and "x \<in> set (dict_keys (held_addresses s es))"
  shows "x \<in> fst ` set (offered (snd (exec announcer_step
      (TimerFires # InboxAnswers s (Some es) # replicate (length es) PublishReturns) a)))"
proof -
  let ?held = "held_addresses s es"
  let ?ann = "an_announced a \<inter> fst ` set ?held" and ?dec = "an_declined a \<inter> fst ` set ?held"
  obtain declined gs where d: "new_by_interface True ?ann ?held ?dec [] = (declined, gs)" by fastforce
  have "distinct (map fst ?held)" using held_bounds(1) by (simp add: dict_ok_def)
  from new_by_interface_spec_set(2) [OF this, of True ?ann ?dec] assms(5,6)
  have x: "x \<in> fst ` set (pairs gs)" by (simp add: d)
  have "length gs \<le> length es" using groups_le [of True ?ann ?held ?dec "[]"] held_bounds(2) [of s es] by (simp add: d)
  moreover let ?b = "a\<lparr>an_timer := False, an_sync := Some (Reading True), an_announced := ?ann, an_declined := declined\<rparr>"
  have "an_queue ?b = []" using assms(2) by simp
  ultimately have run: "snd (exec announcer_step (replicate (length es) PublishReturns) (fst (publish_next gs ?b)))
      = map (\<lambda>(i, xs). Announced i xs) (drop 1 gs)"
    using publishing_run [of ?b gs "length es"] by simp
  have "snd (publish_next gs ?b) @ map (\<lambda>(i, xs). Announced i xs) (drop 1 gs) = map (\<lambda>(i, xs). Announced i xs) gs"
    by (cases gs) (auto simp: publish_next_def)
  with run have "snd (exec announcer_step (TimerFires # InboxAnswers s (Some es) # replicate (length es) PublishReturns) a)
      = map (\<lambda>(i, xs). Announced i xs) gs"
    using assms(1-3) d by (simp add: resync_after_delay_def begin_sync_def read_inbox_def case_prod_unfold)
  with x show ?thesis by (simp add: pairs_offered)
qed

theorem resync_offers_declined_witness:
  "''B'' \<in> fst ` set (offered (snd (exec announcer_step
      (TimerFires # InboxAnswers (empty_store None 5) (Some (inbox_of [''A'', ''B'', ''C'']))
        # replicate (length (inbox_of [''A'', ''B'', ''C''])) PublishReturns)
      (new_announcer\<lparr>an_announced := {''A''}, an_declined := {''B''}, an_timer := True\<rparr>))))"
  by (rule resync_offers_declined) (simp_all add: new_announcer_def held_demo)

text \<open>Fact: a re-sync takes the devices out of the declined set before it publishes them: when a publish does not
  return, those of the batches not yet published are left neither declined nor announced, with no
  re-sync scheduled, until something else calls for a sync.\<close>

theorem cut_sync_forgets_decline:
  assumes "held_addresses s es = [(''A'', ''HmIP-RF''), (''B'', ''BidCos-RF'')]"
  shows "fst (exec announcer_step [Decline ''B'', TimerFires, InboxAnswers s (Some es), PublishRaises] new_announcer)
    = new_announcer\<lparr>an_announced := {''A''}\<rparr>"
  using assms by (simp add: new_announcer_def announcer_defs Let_def)

theorem cut_sync_forgets_decline_witness:
  "fst (exec announcer_step [Decline ''B'', TimerFires, InboxAnswers (empty_store None 5) (Some [\<lparr>ib_central = None, ib_address = ''A'', ib_interface = Some ''HmIP-RF'', ib_pending_creation = Some True\<rparr>,
              \<lparr>ib_central = None, ib_address = ''B'', ib_interface = Some ''BidCos-RF'', ib_pending_creation = Some True\<rparr>]),
       PublishRaises] new_announcer) = new_announcer\<lparr>an_announced := {''A''}\<rparr>"
  by (rule cut_sync_forgets_decline)
    (simp add: held_addresses_def note_entry_def is_held_def matches_central_def wire_interface_id_def Let_def)

text \<open>A re-sync whose delay is over is not stopped by \<open>aclose\<close>: it still announces.\<close>

lemma announces_after_close:
  "snd (exec announcer_step [Decline ''A'', TimerFires, Closed, InboxAnswers s (Some (inbox_of [''A'', ''B'', ''C'']))] new_announcer) =
     [Announced ''HmIP-RF'' [''A'', ''B'', ''C'']]"
  by (simp add: new_announcer_def announcer_defs held_demo)

text \<open>C23: Confirming devices reads the inbox and then follows a plan, name by name: a device that is not held is
  renamed, a held one without a name is declined and nothing is sent for it, a held one with a
  name is accepted under it and released at once. When every call of the plan succeeds the whole
  plan is performed and nothing is raised. Otherwise what is performed ends with the first call
  that fails, and its exception is raised, as a plain library error when it is a release that failed
  with an error of the library. No held device is accepted nameless.\<close>

theorem confirmation_follows_plan:
  assumes "add_new_devices_manually s inbox (Some (nm # nms)) replies = (es, r)"
    and "todo = Sent (Area ListInboxDevices) # concat (map (plan (held_addresses s inbox)) (nm # nms))"
  shows "(case r of
      None \<Rightarrow> es = todo \<and> (\<forall>k<calls todo. replies k = None)
    | Some e' \<Rightarrow> (\<exists>hs c gs e. todo = hs @ Sent c # gs \<and> es = hs @ [Sent c] \<and> (\<forall>k<calls hs. replies k = None)
        \<and> replies (calls hs) = Some e
        \<and> e' = (if (\<exists>x. c = release_call x) \<and> loom_exc BaseLoomException e then Loom (PlainError BaseLoomException) else e)))
    \<and> (\<forall>x name. Sent (accept_call x name) \<in> set es \<longrightarrow> dict_get (held_addresses s inbox) x \<noteq> None \<and> py_strip name \<noteq> '''')"
proof
  let ?held = "held_addresses s inbox"
  have "perform todo replies 0 = (es, r)" using assms confirmation_performs by simp
  from perform_ends [OF this] have ends: "ends_rightly todo es r replies 0" .
  then show "case r of
      None \<Rightarrow> es = todo \<and> (\<forall>k<calls todo. replies k = None)
    | Some e' \<Rightarrow> (\<exists>hs c gs e. todo = hs @ Sent c # gs \<and> es = hs @ [Sent c] \<and> (\<forall>k<calls hs. replies k = None)
        \<and> replies (calls hs) = Some e
        \<and> e' = (if (\<exists>x. c = release_call x) \<and> loom_exc BaseLoomException e then Loom (PlainError BaseLoomException) else e))"
    unfolding ends_rightly_def by (cases r) auto
  have "set es \<subseteq> set todo" using ends unfolding ends_rightly_def by (cases r) auto
  moreover have "dict_get ?held x \<noteq> None \<and> py_strip name \<noteq> ''''" if "Sent (accept_call x name) \<in> set todo" for x name
    using that plans_accept [of x name ?held "nm # nms"] by (simp add: assms(2) accept_call_def)
  ultimately show "\<forall>x name. Sent (accept_call x name) \<in> set es \<longrightarrow> dict_get ?held x \<noteq> None \<and> py_strip name \<noteq> ''''" by blast
qed

lemma confirmation_follows_plan_witness:
  "let names = [(''A'', ''Lamp''), (''B'', '' ''), (''C'', ''Door''), (''D'', ''Old'')];
       todo = Sent (Area ListInboxDevices) # concat (map (plan (held_addresses (empty_store None 5) (inbox_of [''A'', ''B'', ''C'']))) names);
       (es, r) = add_new_devices_manually (empty_store None 5) (inbox_of [''A'', ''B'', ''C'']) (Some names)
         (\<lambda>n. if n = 4 then Some (Loom gone_error) else None) in
     r = Some (Loom (PlainError BaseLoomException)) \<and> es \<noteq> todo \<and> (\<exists>hs c gs. todo = hs @ Sent c # gs \<and> es = hs @ [Sent c])"
proof -
  let ?names = "[(''A'', ''Lamp''), (''B'', '' ''), (''C'', ''Door''), (''D'', ''Old'')]"
  let ?es = "[Sent (Area ListInboxDevices), Sent (accept_call ''A'' ''Lamp''), Sent (release_call ''A''), Declines ''B'',
       Sent (accept_call ''C'' ''Door''), Sent (release_call ''C'')]"
  have space: "py_strip '' '' = ''''" "py_strip ''Lamp'' = ''Lamp''" "py_strip ''Door'' = ''Door''" by code_simp+
  have run: "add_new_devices_manually (empty_store None 5) (inbox_of [''A'', ''B'', ''C'']) (Some ?names)
      (\<lambda>n. if n = 4 then Some (Loom gone_error) else None) = (?es, Some (Loom (PlainError BaseLoomException)))"
    by (simp add: add_new_devices_manually_def held_demo space release_failure_def) (code_simp)
  note confirmation_follows_plan [OF run refl]
  then show ?thesis unfolding Let_def run prod.case
    by (auto simp: held_demo plan_def space)
qed

end
