(* ===== verification/Pairing.thy ===== *)
theory Pairing
  imports StoreApi "HOL-Library.Word"
begin

text \<open>
  Pairing for a token, against the daemon (pairing.py) and against an openccu-lite box
  (boxpairing.py): the derivation of the six digits both sides show, the request with its check of
  the certificate, the poll loop, and the withdrawal. SHA-256 is the argument \<open>sha\<close>; pydantic's
  validation of the answers comes as an argument; what each HTTP exchange brings is an input. A loop
  that polls for ever returns \<open>None\<close>.
\<close>

section \<open>Bytes\<close>

type_synonym bytes = "8 word list"

definition lower_hex_digit :: "nat \<Rightarrow> char" where
  "lower_hex_digit n = (if n < 10 then char_of (48 + n) else char_of (87 + n))"

text \<open>\<open>bytes.hex\<close> and \<open>bytes.fromhex\<close>, which skips blanks between two bytes.\<close>

definition to_hex :: "bytes \<Rightarrow> string" where
  "to_hex bs = concat (map (\<lambda>b. [lower_hex_digit (unat b div 16), lower_hex_digit (unat b mod 16)]) bs)"

definition hex_nibble :: "char \<Rightarrow> nat option" where
  "hex_nibble c = (let n = of_char c :: nat in
     if 48 \<le> n \<and> n \<le> 57 then Some (n - 48)
     else if 65 \<le> n \<and> n \<le> 70 then Some (n - 55)
     else if 97 \<le> n \<and> n \<le> 102 then Some (n - 87) else None)"

definition ascii_blank :: "char \<Rightarrow> bool" where
  "ascii_blank c \<longleftrightarrow> (let n = of_char c :: nat in n = 32 \<or> 9 \<le> n \<and> n \<le> 13)"

fun from_hex :: "string \<Rightarrow> bytes option" where
  "from_hex [] = Some []"
| "from_hex [c] = (if ascii_blank c then Some [] else None)"
| "from_hex (c # d # cs) =
     (if ascii_blank c then from_hex (d # cs)
      else (case (hex_nibble c, hex_nibble d) of
          (Some h, Some l) \<Rightarrow> map_option (\<lambda>bs. of_nat (16 * h + l) # bs) (from_hex cs)
        | _ \<Rightarrow> None))"

definition big_endian :: "bytes \<Rightarrow> nat" where
  "big_endian bs = foldl (\<lambda>acc b. acc * 256 + unat b) 0 bs"

definition zero_padded :: "nat \<Rightarrow> nat \<Rightarrow> string" where
  "zero_padded k n = replicate (k - length (show_nat n)) (CHR ''0'') @ show_nat n"

definition derive_pairing_code :: "(bytes \<Rightarrow> bytes) \<Rightarrow> bytes \<Rightarrow> bytes \<Rightarrow> bytes \<Rightarrow> string" where
  "derive_pairing_code sha nonce client_nonce fingerprint =
     zero_padded 6 (big_endian (take 4 (sha (nonce @ client_nonce @ fingerprint))) mod 1000000)"

lemma of_char_lower_hex: "n < 16 \<Longrightarrow> of_char (lower_hex_digit n) = (if n < 10 then 48 + n else 87 + n)"
  by (simp add: lower_hex_digit_def of_char_of)

lemma hex_nibble_digit [simp]: "n < 16 \<Longrightarrow> hex_nibble (lower_hex_digit n) = Some n"
  by (simp add: hex_nibble_def of_char_lower_hex Let_def)

lemma lower_hex_not_blank [simp]: "n < 16 \<Longrightarrow> \<not> ascii_blank (lower_hex_digit n)"
  by (simp add: ascii_blank_def of_char_lower_hex Let_def)

lemma nibbles: "unat (b :: 8 word) div 16 < 16" "unat (b :: 8 word) mod 16 < 16"
    "of_nat (16 * (unat b div 16) + unat b mod 16) = b"
proof -
  have "unat b < 256" using unsigned_less [of b] by simp
  then show "unat b div 16 < 16" by (simp add: less_mult_imp_div_less)
qed simp_all

lemma from_hex_to_hex: "from_hex (to_hex bs) = Some bs"
proof (induction bs)
  case (Cons b bs)
  then show ?case using nibbles [of b] by (simp add: to_hex_def)
qed (simp add: to_hex_def)

section \<open>The daemon's answers\<close>

text \<open>
  An exchange fails in the connection, or brings a status and a body that may not be JSON. The
  certificate the connection saw comes with the answer, empty over plain HTTP.
\<close>

datatype pairing_exchange = Broken | Replied int "json option"

record pairing_answer =
  an_id :: string
  an_poll :: string
  an_nonce :: string
  an_expires_in :: int
  an_interval :: int
  an_fingerprint :: string

record pairing_result =
  pr_state :: string
  pr_token :: "string option"

record models =
  md_problem :: "(string, json) dict \<Rightarrow> problem option"
  md_answer :: "json \<Rightarrow> pairing_answer option"
  md_result :: "json \<Rightarrow> pairing_result option"

record session =
  ss_code :: string
  ss_expires_in :: int
  ss_base :: string
  ss_id :: string
  ss_poll :: string
  ss_client_nonce :: bytes
  ss_interval :: rat
  ss_revealed :: bool

definition transport_failure :: exc where
  "transport_failure = Loom (PlainError LoomTransportError)"

definition refused :: "models \<Rightarrow> int \<Rightarrow> json \<Rightarrow> string \<Rightarrow> string \<Rightarrow> loom_error" where
  "refused md status payload method url = http_error_from_problem status (parse_problem (md_problem md) payload) None method url"

section \<open>Polling\<close>

datatype poll_event = Polled "string option" | Slept rat

definition poll_url :: "session \<Rightarrow> string" where
  "poll_url s = ss_base s @ ''/pairing/'' @ ss_id s"

partial_function (option) poll_loop ::
  "models \<Rightarrow> session \<Rightarrow> (nat \<Rightarrow> pairing_exchange) \<Rightarrow> nat \<Rightarrow> poll_event list \<Rightarrow> bool \<Rightarrow>
     (poll_event list \<times> bool \<times> (exc + pairing_result)) option" where
  "poll_loop md s answers n trail hidden =
     (let trail1 = trail @ [Polled (if hidden then Some (to_hex (ss_client_nonce s)) else None)] in
      case answers n of
        Broken \<Rightarrow> Some (trail1, hidden, Inl transport_failure)
      | Replied status content \<Rightarrow>
          (case content of
             None \<Rightarrow> Some (trail1, hidden, Inl OtherError)
           | Some payload \<Rightarrow>
               (if status \<noteq> 200 then
                  let e = refused md status payload ''GET'' (poll_url s) in
                  if error_isinstance e LoomPairingSlowDownError
                  then poll_loop md s answers (Suc n) (trail1 @ [Slept (ss_interval s)]) hidden
                  else Some (trail1, hidden, Inl (Loom e))
                else (case md_result md payload of
                    None \<Rightarrow> Some (trail1, False, Inl OtherError)
                  | Some r \<Rightarrow>
                      if pr_state r = ''pending'' then poll_loop md s answers (Suc n) trail1 False
                      else Some (trail1, False, Inr r)))))"

definition wait :: "models \<Rightarrow> (nat \<Rightarrow> pairing_exchange) \<Rightarrow> session \<Rightarrow> (session \<times> poll_event list \<times> (exc + pairing_result)) option" where
  "wait md answers s = map_option (\<lambda>(trail, hidden, r). (s\<lparr>ss_revealed := \<not> hidden\<rparr>, trail, r))
     (poll_loop md s answers 0 [] (\<not> ss_revealed s))"

definition withdraw :: "models \<Rightarrow> session \<Rightarrow> pairing_exchange \<Rightarrow> exc option" where
  "withdraw md s x = (case x of
       Broken \<Rightarrow> Some transport_failure
     | Replied status content \<Rightarrow>
         (if status = 204 \<or> status = 404 then None
          else (case content of
              None \<Rightarrow> Some OtherError
            | Some payload \<Rightarrow> Some (Loom (refused md status payload ''DELETE'' (poll_url s))))))"

section \<open>Asking\<close>

record pairing_request =
  rq_host :: string
  rq_app :: string
  rq_role :: string
  rq_port :: "int option"
  rq_tls :: bool
  rq_base_path :: string
  rq_app_version :: string
  rq_instance :: string
  rq_name :: string
  rq_purpose :: string

definition pairing_base :: "pairing_request \<Rightarrow> string" where
  "pairing_base q = (if rq_tls q then ''https'' else ''http'') @ ''://'' @ rq_host q @ '':'' @
     show_int (case rq_port q of Some p \<Rightarrow> p | None \<Rightarrow> if rq_tls q then default_https_port else default_http_port) @ rq_base_path q"

definition ask_body :: "(bytes \<Rightarrow> bytes) \<Rightarrow> bytes \<Rightarrow> pairing_request \<Rightarrow> json" where
  "ask_body sha client_nonce q = JObj [(''app'', JStr (rq_app q)), (''app_version'', JStr (rq_app_version q)),
     (''instance'', JStr (rq_instance q)), (''name'', JStr (rq_name q)), (''role'', JStr (rq_role q)),
     (''purpose'', JStr (rq_purpose q)), (''commit'', JStr (to_hex (sha client_nonce)))]"

datatype pairing_outcome = Session session | FingerprintMismatch | Failure exc

definition new_session :: "string \<Rightarrow> string \<Rightarrow> pairing_answer \<Rightarrow> bytes \<Rightarrow> session" where
  "new_session code base a client_nonce = \<lparr>ss_code = code, ss_expires_in = an_expires_in a, ss_base = base, ss_id = an_id a,
     ss_poll = an_poll a, ss_client_nonce = client_nonce, ss_interval = of_int (an_interval a), ss_revealed = False\<rparr>"

text \<open>The answer of the request and, should it be needed, of the withdrawal are \<open>posted\<close> and \<open>deleted\<close>.\<close>

definition start_pairing ::
  "(bytes \<Rightarrow> bytes) \<Rightarrow> models \<Rightarrow> pairing_request \<Rightarrow> bytes \<Rightarrow> bytes \<Rightarrow> pairing_exchange \<Rightarrow> pairing_exchange \<Rightarrow> pairing_outcome" where
  "start_pairing sha md q client_nonce seen posted deleted =
     (let base = pairing_base q in
      case posted of
        Broken \<Rightarrow> Failure transport_failure
      | Replied status content \<Rightarrow>
          (case content of
             None \<Rightarrow> Failure OtherError
           | Some payload \<Rightarrow>
               (if status \<noteq> 202 then Failure (Loom (refused md status payload ''POST'' (base @ ''/pairing'')))
                else (case md_answer md payload of
                    None \<Rightarrow> Failure OtherError
                  | Some a \<Rightarrow>
                      (case (if an_fingerprint a = '''' then Some [] else from_hex (an_fingerprint a)) of
                         None \<Rightarrow> Failure OtherError
                       | Some reported \<Rightarrow>
                           (if reported \<noteq> [] \<and> seen \<noteq> [] \<and> reported \<noteq> seen
                            then (case withdraw md (new_session '''' base a client_nonce) deleted of
                                Some e \<Rightarrow> Failure e
                              | None \<Rightarrow> FingerprintMismatch)
                            else (case from_hex (an_nonce a) of
                                None \<Rightarrow> Failure OtherError
                              | Some nonce \<Rightarrow>
                                  Session (new_session (derive_pairing_code sha nonce client_nonce reported) base a client_nonce))))))))"

section \<open>The box\<close>

datatype box_error = BoxPairing string "int option" | BoxUnreachable

record box_result =
  bx_state :: string
  bx_token :: string
  bx_name :: string
  bx_scopes :: "string list"

definition error_code_max :: nat where "error_code_max = 64"

definition error_code :: "json option \<Rightarrow> string" where
  "error_code content = (case content of
       Some (JObj d) \<Rightarrow> (case obj_get d ''error'' of JStr s \<Rightarrow> take error_code_max s | _ \<Rightarrow> '''')
     | _ \<Rightarrow> '''')"

definition refusal :: "int \<Rightarrow> json option \<Rightarrow> box_error" where
  "refusal status content = BoxPairing (error_code content) (Some status)"

text \<open>\<open>str\<close> on a decoded value, with the text of floats and containers as an argument.\<close>

definition py_str :: "(json \<Rightarrow> string) \<Rightarrow> json \<Rightarrow> string" where
  "py_str repr j = (case j of JStr s \<Rightarrow> s | JInt i \<Rightarrow> show_int i | JNull \<Rightarrow> ''None''
     | JBool b \<Rightarrow> if b then ''True'' else ''False'' | _ \<Rightarrow> repr j)"

definition json_truth :: "json \<Rightarrow> bool" where
  "json_truth j = (case j of JNull \<Rightarrow> False | JBool b \<Rightarrow> b | JInt i \<Rightarrow> i \<noteq> 0 | JFloat r \<Rightarrow> r \<noteq> 0
     | JStr s \<Rightarrow> s \<noteq> [] | JArr xs \<Rightarrow> xs \<noteq> [] | JObj d \<Rightarrow> d \<noteq> [])"

definition box_result_of :: "(json \<Rightarrow> string) \<Rightarrow> json option \<Rightarrow> box_error + box_result" where
  "box_result_of repr content =
     (let d = (case content of Some (JObj d) \<Rightarrow> d | _ \<Rightarrow> []); state = obj_get d ''state'' in
      if state \<noteq> JStr ''approved'' \<and> state \<noteq> JStr ''rejected'' \<and> state \<noteq> JStr ''expired'' then Inl (BoxPairing '''' None)
      else if state \<noteq> JStr ''approved''
      then Inr \<lparr>bx_state = py_str repr state, bx_token = '''', bx_name = '''', bx_scopes = []\<rparr>
      else (case obj_get d ''token'' of
          JStr token \<Rightarrow>
            (if token = '''' then Inl (BoxPairing '''' None)
             else Inr \<lparr>bx_state = py_str repr state, bx_token = token,
                bx_name = (if json_truth (obj_get d ''name'') then py_str repr (obj_get d ''name'') else ''''),
                bx_scopes = (case obj_get d ''scopes'' of
                    JArr xs \<Rightarrow> concat (map (\<lambda>x. case x of JStr s \<Rightarrow> [s] | _ \<Rightarrow> []) xs) | _ \<Rightarrow> [])\<rparr>)
        | _ \<Rightarrow> Inl (BoxPairing '''' None)))"

definition box_state :: "json option \<Rightarrow> json" where
  "box_state content = (case content of Some (JObj d) \<Rightarrow> obj_get d ''state'' | _ \<Rightarrow> JNull)"

partial_function (option) box_poll_loop ::
  "(json \<Rightarrow> string) \<Rightarrow> session \<Rightarrow> (nat \<Rightarrow> pairing_exchange) \<Rightarrow> nat \<Rightarrow> poll_event list \<Rightarrow> bool \<Rightarrow>
     (poll_event list \<times> bool \<times> (box_error + box_result)) option" where
  "box_poll_loop repr s answers n trail revealed =
     (let trail1 = trail @ [Polled (if revealed then None else Some (to_hex (ss_client_nonce s)))] in
      case answers n of
        Broken \<Rightarrow> Some (trail1, revealed, Inl BoxUnreachable)
      | Replied status content \<Rightarrow>
          (if status = 429 \<and> error_code content = ''slow_down''
           then box_poll_loop repr s answers (Suc n) (trail1 @ [Slept (ss_interval s)]) revealed
           else if status \<noteq> 200 then Some (trail1, revealed, Inl (refusal status content))
           else if box_state content = JStr ''pending'' then box_poll_loop repr s answers (Suc n) trail1 True
           else Some (trail1, True, box_result_of repr content)))"

definition box_wait ::
  "(json \<Rightarrow> string) \<Rightarrow> (nat \<Rightarrow> pairing_exchange) \<Rightarrow> session \<Rightarrow> (session \<times> poll_event list \<times> (box_error + box_result)) option" where
  "box_wait repr answers s = map_option (\<lambda>(trail, revealed, r). (s\<lparr>ss_revealed := revealed\<rparr>, trail, r))
     (box_poll_loop repr s answers 0 [] (ss_revealed s))"

definition box_withdraw :: "pairing_exchange \<Rightarrow> box_error option" where
  "box_withdraw x = (case x of
       Broken \<Rightarrow> Some BoxUnreachable
     | Replied status content \<Rightarrow> if status = 204 \<or> status = 404 then None else Some (refusal status content))"

definition pairing_path :: string where "pairing_path = ''/api/auth/v1/pairing/request''"

record box_request =
  bq_host :: string
  bq_app :: string
  bq_port :: "int option"
  bq_tls :: bool
  bq_addon :: string
  bq_app_version :: string
  bq_instance :: string
  bq_name :: string
  bq_purpose :: "(string, string) dict option"

definition box_base :: "box_request \<Rightarrow> string" where
  "box_base q = (if bq_tls q then ''https'' else ''http'') @ ''://'' @ bq_host q @ '':'' @
     show_int (case bq_port q of Some p \<Rightarrow> p | None \<Rightarrow> if bq_tls q then default_box_https_port else default_box_http_port)"

text \<open>The optional fields go out only when set.\<close>

definition box_ask_body :: "(bytes \<Rightarrow> bytes) \<Rightarrow> bytes \<Rightarrow> box_request \<Rightarrow> json" where
  "box_ask_body sha client_nonce q = JObj
     ([(''app'', JStr (bq_app q)), (''addons'', JArr [JStr (bq_addon q)]), (''commit'', JStr (to_hex (sha client_nonce)))]
      @ map (\<lambda>(k, v). (k, JStr v)) (filter (\<lambda>(k, v). v \<noteq> '''')
          [(''app_version'', bq_app_version q), (''instance'', bq_instance q), (''name'', bq_name q)])
      @ (case bq_purpose q of
           Some (p # ps) \<Rightarrow> [(''purpose'', JObj (map (\<lambda>(k, v). (k, JStr v)) (p # ps)))] | _ \<Rightarrow> []))"

text \<open>\<open>int\<close> and \<open>float\<close> on a decoded value; \<open>None\<close> where they raise. \<open>float\<close> on text is an argument.\<close>

definition py_int :: "json \<Rightarrow> int option" where
  "py_int j = (case j of JInt i \<Rightarrow> Some i | JBool b \<Rightarrow> Some (if b then 1 else 0)
     | JFloat r \<Rightarrow> Some (if r < 0 then \<lceil>r\<rceil> else \<lfloor>r\<rfloor>) | JStr s \<Rightarrow> python_int s | _ \<Rightarrow> None)"

definition py_float :: "(string \<Rightarrow> rat option) \<Rightarrow> json \<Rightarrow> rat option" where
  "py_float text j = (case j of JStr s \<Rightarrow> text s | _ \<Rightarrow> as_float j)"

definition get_or :: "(string, json) dict \<Rightarrow> string \<Rightarrow> json \<Rightarrow> json" where
  "get_or d k v = (case dict_get d k of None \<Rightarrow> v | Some x \<Rightarrow> x)"

datatype box_outcome = BoxSession session | BoxMismatch | BoxFailure box_error

definition box_answer ::
  "(json \<Rightarrow> string) \<Rightarrow> (string \<Rightarrow> rat option) \<Rightarrow> (string, json) dict \<Rightarrow> (pairing_answer \<times> bytes \<times> bytes \<times> rat) option" where
  "box_answer repr text d =
     (case (dict_get d ''id'', dict_get d ''poll'', dict_get d ''nonce'') of
        (Some i, Some p, Some n) \<Rightarrow>
          (let fp = (if json_truth (obj_get d ''fingerprint'') then py_str repr (obj_get d ''fingerprint'') else '''') in
           case (from_hex (py_str repr n), from_hex fp, py_int (get_or d ''expires_in'' (JInt 0)),
                 py_float text (get_or d ''interval'' (JInt 2))) of
             (Some nonce, Some reported, Some expires, Some interval) \<Rightarrow>
               Some (\<lparr>an_id = py_str repr i, an_poll = py_str repr p, an_nonce = py_str repr n, an_expires_in = expires,
                  an_interval = 0, an_fingerprint = fp\<rparr>, nonce, reported, interval)
           | _ \<Rightarrow> None)
      | _ \<Rightarrow> None)"

definition start_box_pairing ::
  "(bytes \<Rightarrow> bytes) \<Rightarrow> (json \<Rightarrow> string) \<Rightarrow> (string \<Rightarrow> rat option) \<Rightarrow> box_request \<Rightarrow> bytes \<Rightarrow> bytes \<Rightarrow> pairing_exchange \<Rightarrow>
     pairing_exchange \<Rightarrow> box_outcome" where
  "start_box_pairing sha repr text q client_nonce seen posted deleted =
     (case posted of
        Broken \<Rightarrow> BoxFailure BoxUnreachable
      | Replied status content \<Rightarrow>
          (if status \<noteq> 202 then BoxFailure (refusal status content)
           else (case content of
               Some (JObj d) \<Rightarrow>
                 (case box_answer repr text d of
                    None \<Rightarrow> BoxFailure (BoxPairing '''' (Some status))
                  | Some (a, nonce, reported, interval) \<Rightarrow>
                      if reported \<noteq> [] \<and> seen \<noteq> [] \<and> reported \<noteq> seen
                      then (case box_withdraw deleted of Some e \<Rightarrow> BoxMismatch | None \<Rightarrow> BoxMismatch)
                      else BoxSession ((new_session (derive_pairing_code sha nonce client_nonce reported) (box_base q) a
                          client_nonce)\<lparr>ss_interval := interval\<rparr>))
             | _ \<Rightarrow> BoxFailure (BoxPairing '''' (Some status)))))"

section \<open>What a poll loop does\<close>

definition slowed :: "models \<Rightarrow> session \<Rightarrow> pairing_exchange \<Rightarrow> bool" where
  "slowed md s x = (case x of Replied status (Some payload) \<Rightarrow>
       status \<noteq> 200 \<and> error_isinstance (refused md status payload ''GET'' (poll_url s)) LoomPairingSlowDownError | _ \<Rightarrow> False)"

definition undecided :: "models \<Rightarrow> pairing_exchange \<Rightarrow> bool" where
  "undecided md x = (case x of Replied status (Some payload) \<Rightarrow>
       status = 200 \<and> (case md_result md payload of Some r \<Rightarrow> pr_state r = ''pending'' | None \<Rightarrow> False) | _ \<Rightarrow> False)"

definition poll_result :: "models \<Rightarrow> session \<Rightarrow> pairing_exchange \<Rightarrow> exc + pairing_result" where
  "poll_result md s x = (case x of
       Replied status (Some payload) \<Rightarrow>
         if status \<noteq> 200 then Inl (Loom (refused md status payload ''GET'' (poll_url s)))
         else (case md_result md payload of None \<Rightarrow> Inl OtherError | Some r \<Rightarrow> Inr r)
     | Replied status None \<Rightarrow> Inl OtherError
     | Broken \<Rightarrow> Inl transport_failure)"

definition polls :: "poll_event list \<Rightarrow> string option list" where
  "polls es = concat (map (\<lambda>e. case e of Polled x \<Rightarrow> [x] | Slept t \<Rightarrow> []) es)"

definition sleeps :: "poll_event list \<Rightarrow> rat list" where
  "sleeps es = concat (map (\<lambda>e. case e of Polled x \<Rightarrow> [] | Slept t \<Rightarrow> [t]) es)"

lemma observed_poll_simps [simp]:
  "polls [] = []" "polls (es @ fs) = polls es @ polls fs" "polls (Polled x # es) = x # polls es" "polls (Slept t # es) = polls es"
  "sleeps [] = []" "sleeps (es @ fs) = sleeps es @ sleeps fs" "sleeps (Polled x # es) = sleeps es" "sleeps (Slept t # es) = t # sleeps es"
  by (simp_all add: polls_def sleeps_def)

lemma poll_loop_slowed:
  "slowed md s (answers n) \<Longrightarrow> poll_loop md s answers n trail hidden =
     poll_loop md s answers (Suc n) (trail @ [Polled (if hidden then Some (to_hex (ss_client_nonce s)) else None), Slept (ss_interval s)]) hidden"
  by (subst poll_loop.simps) (auto simp: slowed_def Let_def split: pairing_exchange.splits option.splits)

lemma poll_loop_undecided:
  "undecided md (answers n) \<Longrightarrow> poll_loop md s answers n trail hidden =
     poll_loop md s answers (Suc n) (trail @ [Polled (if hidden then Some (to_hex (ss_client_nonce s)) else None)]) False"
  by (subst poll_loop.simps) (auto simp: undecided_def Let_def split: pairing_exchange.splits option.splits)

lemma poll_loop_decided:
  "\<not> slowed md s (answers n) \<Longrightarrow> \<not> undecided md (answers n) \<Longrightarrow> \<exists>h. poll_loop md s answers n trail hidden =
     Some (trail @ [Polled (if hidden then Some (to_hex (ss_client_nonce s)) else None)], h, poll_result md s (answers n))"
  by (subst poll_loop.simps)
    (auto simp: slowed_def undecided_def poll_result_def Let_def split: pairing_exchange.splits option.splits)

lemma not_both: "slowed md s x \<Longrightarrow> \<not> undecided md x"
  by (auto simp: slowed_def undecided_def split: pairing_exchange.splits option.splits)

text \<open>What each poll carries, and how often the loop sleeps.\<close>

definition nonce_shown :: "models \<Rightarrow> (nat \<Rightarrow> pairing_exchange) \<Rightarrow> nat \<Rightarrow> nat \<Rightarrow> bool" where
  "nonce_shown md answers n j \<longleftrightarrow> \<not> (\<exists>i<j. undecided md (answers (n + i)))"

lemma poll_loop_run:
  assumes "\<And>j. j < k \<Longrightarrow> slowed md s (answers (n + j)) \<or> undecided md (answers (n + j))"
    and "\<not> slowed md s (answers (n + k))" and "\<not> undecided md (answers (n + k))"
  shows "\<exists>es h. poll_loop md s answers n trail hidden = Some (trail @ es, h, poll_result md s (answers (n + k)))
     \<and> polls es = map (\<lambda>j. if hidden \<and> nonce_shown md answers n j then Some (to_hex (ss_client_nonce s)) else None) [0..<Suc k]
     \<and> sleeps es = replicate (length (filter (\<lambda>j. slowed md s (answers (n + j))) [0..<k])) (ss_interval s)"
  using assms
proof (induction k arbitrary: n trail hidden)
  case 0
  then obtain h where "poll_loop md s answers n trail hidden =
      Some (trail @ [Polled (if hidden then Some (to_hex (ss_client_nonce s)) else None)], h, poll_result md s (answers n))"
    using poll_loop_decided [of md s answers n] by auto
  then show ?case by (intro exI [of _ "[Polled (if hidden then Some (to_hex (ss_client_nonce s)) else None)]"] exI [of _ h])
      (simp add: nonce_shown_def)
next
  case (Suc k)
  let ?p = "Polled (if hidden then Some (to_hex (ss_client_nonce s)) else None)"
  let ?more = "slowed md s (answers n)"
  have step: "poll_loop md s answers n trail hidden =
      poll_loop md s answers (Suc n) (trail @ ?p # (if ?more then [Slept (ss_interval s)] else [])) (hidden \<and> ?more)"
    using Suc.prems(1) [of 0] poll_loop_slowed [of md s answers n] poll_loop_undecided [of md answers n s] by auto
  have later: "j < k \<Longrightarrow> slowed md s (answers (Suc n + j)) \<or> undecided md (answers (Suc n + j))" for j
    using Suc.prems(1) [of "Suc j"] by simp
  obtain es h where es: "poll_loop md s answers (Suc n) (trail @ ?p # (if ?more then [Slept (ss_interval s)] else [])) (hidden \<and> ?more) =
        Some ((trail @ ?p # (if ?more then [Slept (ss_interval s)] else [])) @ es, h, poll_result md s (answers (Suc n + k)))"
      "polls es = map (\<lambda>j. if (hidden \<and> ?more) \<and> nonce_shown md answers (Suc n) j then Some (to_hex (ss_client_nonce s)) else None) [0..<Suc k]"
      "sleeps es = replicate (length (filter (\<lambda>j. slowed md s (answers (Suc n + j))) [0..<k])) (ss_interval s)"
    using Suc.IH [OF later] Suc.prems(2,3) by (metis add_Suc_shift)
  have first: "?more \<longleftrightarrow> \<not> undecided md (answers n)" using Suc.prems(1) [of 0] not_both by auto
  have shown: "nonce_shown md answers n (Suc j) \<longleftrightarrow> ?more \<and> nonce_shown md answers (Suc n) j" for j
    unfolding nonce_shown_def first Ex_less_Suc2 by simp
  have upto: "[0..<Suc m] = 0 # map Suc [0..<m]" for m by (simp add: upt_conv_Cons map_Suc_upt)
  show ?case
  proof (intro exI [of _ "?p # (if ?more then [Slept (ss_interval s)] else []) @ es"] exI [of _ h] conjI)
    show "polls (?p # (if ?more then [Slept (ss_interval s)] else []) @ es) =
        map (\<lambda>j. if hidden \<and> nonce_shown md answers n j then Some (to_hex (ss_client_nonce s)) else None) [0..<Suc (Suc k)]"
      unfolding upto [of "Suc k"] using es(2) by (auto simp: shown nonce_shown_def [of md answers n 0])
    show "sleeps (?p # (if ?more then [Slept (ss_interval s)] else []) @ es) =
        replicate (length (filter (\<lambda>j. slowed md s (answers (n + j))) [0..<Suc k])) (ss_interval s)"
      unfolding upto [of k] using es(3) by (auto simp: filter_map comp_def)
  qed (use step es(1) in simp)
qed

lemma poll_loop_returns:
  "poll_loop md s answers n trail hidden = Some y \<Longrightarrow> \<not> (\<forall>j. slowed md s (answers j) \<or> undecided md (answers j))"
proof (rule poll_loop.raw_induct [where P = "\<lambda>md s answers n trail hidden y. \<not> (\<forall>j. slowed md s (answers j) \<or> undecided md (answers j))"])
  fix loop md s answers n trail hidden and y :: "poll_event list \<times> bool \<times> (exc + pairing_result)"
  assume IH: "\<And>md s answers n trail hidden y. loop md s answers n trail hidden = Some y \<Longrightarrow>
      \<not> (\<forall>j. slowed md s (answers j) \<or> undecided md (answers j))"
    and y: "(let trail1 = trail @ [Polled (if hidden then Some (to_hex (ss_client_nonce s)) else None)] in
      case answers n of
        Broken \<Rightarrow> Some (trail1, hidden, Inl transport_failure)
      | Replied status content \<Rightarrow>
          (case content of
             None \<Rightarrow> Some (trail1, hidden, Inl OtherError)
           | Some payload \<Rightarrow>
               (if status \<noteq> 200 then
                  let e = refused md status payload ''GET'' (poll_url s) in
                  if error_isinstance e LoomPairingSlowDownError
                  then loop md s answers (Suc n) (trail1 @ [Slept (ss_interval s)]) hidden
                  else Some (trail1, hidden, Inl (Loom e))
                else (case md_result md payload of
                    None \<Rightarrow> Some (trail1, False, Inl OtherError)
                  | Some r \<Rightarrow>
                      if pr_state r = ''pending'' then loop md s answers (Suc n) trail1 False
                      else Some (trail1, False, Inr r))))) = Some y"
  show "\<not> (\<forall>j. slowed md s (answers j) \<or> undecided md (answers j))"
  proof
    assume all: "\<forall>j. slowed md s (answers j) \<or> undecided md (answers j)"
    then have "slowed md s (answers n) \<or> undecided md (answers n)" ..
    with y have "\<exists>n' trail' hidden'. loop md s answers n' trail' hidden' = Some y"
      by (auto simp: slowed_def undecided_def Let_def split: pairing_exchange.splits option.splits if_splits)
    with IH all show False by blast
  qed
qed

section \<open>Properties\<close>

lemma show_nat_short: "n < 10 ^ k \<Longrightarrow> 0 < k \<Longrightarrow> length (show_nat n) \<le> k"
proof (induction k arbitrary: n)
  case (Suc k)
  show ?case
  proof (cases "n < 10")
    case False
    then have "n div 10 < 10 ^ k" "0 < k" using Suc.prems by (auto intro!: gr0I)
    from Suc.IH [OF this] show ?thesis using False by (simp add: show_nat.simps [of n])
  qed (simp add: show_nat.simps [of n])
qed simp

text \<open>Fact: The pairing code is six decimal digits, leading zeros kept, and reading it gives the first four bytes of
  the digest, big-endian, modulo a million.\<close>

theorem pairing_code_six_digits:
  "let code = derive_pairing_code sha nonce client_nonce fingerprint in
     length code = 6 \<and> list_all is_digit_char code
     \<and> digits_value 0 False code = Some (int (big_endian (take 4 (sha (nonce @ client_nonce @ fingerprint))) mod 1000000))"
proof -
  let ?n = "big_endian (take 4 (sha (nonce @ client_nonce @ fingerprint))) mod 1000000"
  have len: "length (show_nat ?n) \<le> 6" by (rule show_nat_short) simp_all
  have zeros: "list_all is_digit_char (replicate k (CHR ''0''))" for k
    by (induction k) (simp_all add: is_digit_char_def)
  have lead: "foldl (\<lambda>a c. a * 10 + (of_char c - 48)) 0 (replicate k (CHR ''0'') @ xs) = foldl (\<lambda>a c. a * 10 + (of_char c - 48 :: int)) 0 xs" for k xs
    by (induction k) simp_all
  have "list_all is_digit_char (show_nat m)" for m using show_nat_is_digit by (auto simp: list_all_iff)
  with zeros have digits: "list_all is_digit_char (replicate (6 - length (show_nat ?n)) (CHR ''0'') @ show_nat ?n)"
    unfolding list_all_append by blast
  have "digits_value 0 False ((replicate (6 - length (show_nat ?n)) (CHR ''0'') @ show_nat ?n) @ []) = Some (int ?n)"
    unfolding digits_value_digits [OF digits] lead foldl_show_nat by (simp add: show_nat_nonempty)
  with digits len show ?thesis by (simp add: derive_pairing_code_def zero_padded_def Let_def)
qed

lemma daemon_session:
  assumes "start_pairing sha md q client_nonce seen posted deleted = Session s"
  shows "\<exists>payload a reported nonce. posted = Replied 202 (Some payload) \<and> md_answer md payload = Some a
    \<and> (if an_fingerprint a = '''' then Some [] else from_hex (an_fingerprint a)) = Some reported
    \<and> from_hex (an_nonce a) = Some nonce \<and> \<not> (reported \<noteq> [] \<and> seen \<noteq> [] \<and> reported \<noteq> seen)
    \<and> s = new_session (derive_pairing_code sha nonce client_nonce reported) (pairing_base q) a client_nonce"
proof (cases posted)
  case (Replied status content)
  with assms obtain payload where p: "content = Some payload" "status = 202"
    by (cases content) (auto simp: start_pairing_def Let_def split: if_splits)
  with assms Replied obtain a where a: "md_answer md payload = Some a"
    by (cases "md_answer md payload") (auto simp: start_pairing_def Let_def)
  with assms Replied p obtain reported where r: "(if an_fingerprint a = '''' then Some [] else from_hex (an_fingerprint a)) = Some reported"
    by (cases "if an_fingerprint a = '''' then Some [] else from_hex (an_fingerprint a)") (simp_all add: start_pairing_def Let_def)
  have same: "\<not> (reported \<noteq> [] \<and> seen \<noteq> [] \<and> reported \<noteq> seen)"
  proof
    assume "reported \<noteq> [] \<and> seen \<noteq> [] \<and> reported \<noteq> seen"
    with assms Replied p a r show False
      by (cases "withdraw md (new_session '''' (pairing_base q) a client_nonce) deleted") (simp_all add: start_pairing_def Let_def)
  qed
  with assms Replied p a r show ?thesis
    by (cases "from_hex (an_nonce a)") (simp_all add: start_pairing_def Let_def)
qed (use assms in \<open>simp add: start_pairing_def Let_def\<close>)

lemma box_session:
  assumes "start_box_pairing sha repr text q client_nonce seen posted deleted = BoxSession s"
  shows "\<exists>d a reported nonce interval. posted = Replied 202 (Some (JObj d)) \<and> box_answer repr text d = Some (a, nonce, reported, interval)
    \<and> \<not> (reported \<noteq> [] \<and> seen \<noteq> [] \<and> reported \<noteq> seen)
    \<and> s = (new_session (derive_pairing_code sha nonce client_nonce reported) (box_base q) a client_nonce)\<lparr>ss_interval := interval\<rparr>"
proof (cases posted)
  case (Replied status content)
  with assms obtain d where p: "content = Some (JObj d)" "status = 202"
    by (auto simp: start_box_pairing_def split: if_splits option.splits json.splits)
  with assms Replied obtain a nonce reported interval where a: "box_answer repr text d = Some (a, nonce, reported, interval)"
    by (cases "box_answer repr text d") (auto simp: start_box_pairing_def)
  with assms Replied p show ?thesis
    by (cases "reported \<noteq> [] \<and> seen \<noteq> [] \<and> reported \<noteq> seen") (auto simp: start_box_pairing_def split: option.splits)
qed (use assms in \<open>simp add: start_box_pairing_def\<close>)

text \<open>C24: A session comes out of a pairing only when the peer accepted the request with status 202 and a
  readable answer, and the certificate it names does not contradict the one this connection saw;
  and the session's code is then the six digits of the answer's nonce, the client's nonce and the
  certificate named. So when both are known, the code is bound to the certificate that was seen,
  and no answer of any other kind, whatever becomes of a withdrawal, ends in a session. This holds
  of the daemon's pairing and of the box's. An answer that names no certificate passes on any
  connection, and its code is bound to none.\<close>

theorem pairing_certificate_check:
  "(start_pairing sha md q client_nonce seen posted deleted = Session s \<longrightarrow>
     (\<exists>payload a reported nonce. posted = Replied 202 (Some payload) \<and> md_answer md payload = Some a
        \<and> (an_fingerprint a = '''' \<and> reported = [] \<or> from_hex (an_fingerprint a) = Some reported)
        \<and> from_hex (an_nonce a) = Some nonce \<and> (reported = [] \<or> seen = [] \<or> reported = seen)
        \<and> length (ss_code s) = 6
        \<and> digits_value 0 False (ss_code s) = Some (int (big_endian (take 4 (sha (nonce @ client_nonce @ reported))) mod 1000000))
        \<and> ss_id s = an_id a \<and> ss_poll s = an_poll a \<and> ss_client_nonce s = client_nonce \<and> \<not> ss_revealed s))
   \<and> (start_box_pairing sha repr text bq client_nonce seen posted deleted = BoxSession s \<longrightarrow>
     (\<exists>d a reported nonce interval. posted = Replied 202 (Some (JObj d)) \<and> box_answer repr text d = Some (a, nonce, reported, interval)
        \<and> (reported = [] \<or> seen = [] \<or> reported = seen)
        \<and> length (ss_code s) = 6
        \<and> digits_value 0 False (ss_code s) = Some (int (big_endian (take 4 (sha (nonce @ client_nonce @ reported))) mod 1000000))
        \<and> ss_id s = an_id a \<and> ss_poll s = an_poll a \<and> ss_client_nonce s = client_nonce \<and> \<not> ss_revealed s))"
proof -
  have code: "length (derive_pairing_code sha nonce client_nonce reported) = 6
      \<and> digits_value 0 False (derive_pairing_code sha nonce client_nonce reported)
          = Some (int (big_endian (take 4 (sha (nonce @ client_nonce @ reported))) mod 1000000))" for nonce reported
    using pairing_code_six_digits [of sha nonce client_nonce reported] by (simp add: Let_def)
  show ?thesis
  proof (intro conjI impI)
    assume "start_pairing sha md q client_nonce seen posted deleted = Session s"
    from daemon_session [OF this] show "\<exists>payload a reported nonce. posted = Replied 202 (Some payload) \<and> md_answer md payload = Some a
        \<and> (an_fingerprint a = '''' \<and> reported = [] \<or> from_hex (an_fingerprint a) = Some reported)
        \<and> from_hex (an_nonce a) = Some nonce \<and> (reported = [] \<or> seen = [] \<or> reported = seen)
        \<and> length (ss_code s) = 6
        \<and> digits_value 0 False (ss_code s) = Some (int (big_endian (take 4 (sha (nonce @ client_nonce @ reported))) mod 1000000))
        \<and> ss_id s = an_id a \<and> ss_poll s = an_poll a \<and> ss_client_nonce s = client_nonce \<and> \<not> ss_revealed s"
      by (elim exE conjE) (intro exI conjI, auto simp: new_session_def code split: if_splits)
  next
    assume "start_box_pairing sha repr text bq client_nonce seen posted deleted = BoxSession s"
    from box_session [OF this] show "\<exists>d a reported nonce interval. posted = Replied 202 (Some (JObj d))
        \<and> box_answer repr text d = Some (a, nonce, reported, interval)
        \<and> (reported = [] \<or> seen = [] \<or> reported = seen)
        \<and> length (ss_code s) = 6
        \<and> digits_value 0 False (ss_code s) = Some (int (big_endian (take 4 (sha (nonce @ client_nonce @ reported))) mod 1000000))
        \<and> ss_id s = an_id a \<and> ss_poll s = an_poll a \<and> ss_client_nonce s = client_nonce \<and> \<not> ss_revealed s"
      by (elim exE conjE) (intro exI conjI, auto simp: new_session_def code)
  qed
qed

definition demo_answer :: pairing_answer where
  "demo_answer = \<lparr>an_id = ''7'', an_poll = ''p'', an_nonce = ''00'', an_expires_in = 300, an_interval = 5, an_fingerprint = ''ab''\<rparr>"

definition demo_models :: models where
  "demo_models = \<lparr>md_problem = (\<lambda>d. None), md_answer = (\<lambda>j. Some demo_answer),
     md_result = (\<lambda>j. Some \<lparr>pr_state = (if j = JNull then ''pending'' else ''rejected''), pr_token = None\<rparr>)\<rparr>"

definition demo_request :: pairing_request where
  "demo_request = \<lparr>rq_host = ''h'', rq_app = ''a'', rq_role = ''viewer'', rq_port = None, rq_tls = True, rq_base_path = ''/api/v1'',
     rq_app_version = '''', rq_instance = '''', rq_name = '''', rq_purpose = ''''\<rparr>"

lemma pairing_certificate_check_witness:
  "\<exists>s. start_pairing (\<lambda>bs. [0, 0, 0, 7]) demo_models demo_request [] [0xAB] (Replied 202 (Some JNull)) Broken = Session s
     \<and> length (ss_code s) = 6 \<and> digits_value 0 False (ss_code s) = Some 7 \<and> ss_id s = ''7''"
proof -
  have hex: "from_hex ''ab'' = Some [0xAB]" "from_hex ''00'' = Some [0]" by (simp_all add: hex_nibble_def ascii_blank_def Let_def)
  let ?s = "new_session (derive_pairing_code (\<lambda>bs. [0, 0, 0, 7]) [0] [] [0xAB]) (pairing_base demo_request) demo_answer []"
  have run: "start_pairing (\<lambda>bs. [0, 0, 0, 7]) demo_models demo_request [] [0xAB] (Replied 202 (Some JNull)) Broken = Session ?s"
    using hex by (simp add: start_pairing_def demo_models_def demo_answer_def Let_def)
  from pairing_certificate_check [THEN conjunct1, THEN mp, OF run] hex run show ?thesis
    by (auto simp: demo_models_def demo_answer_def big_endian_def)
qed

text \<open>Fact: A contradiction between the certificate the daemon names and the one the connection saw always
  withdraws the request, but is reported as such only when the withdrawal succeeds: the exception of
  a failed withdrawal is raised instead, and hides it.\<close>

theorem mismatch_hidden_by_withdrawal:
  assumes "md_answer md payload = Some a" and "from_hex (an_fingerprint a) = Some reported"
    and "reported \<noteq> []" and "seen \<noteq> []" and "reported \<noteq> seen"
  shows "start_pairing sha md q client_nonce seen (Replied 202 (Some payload)) Broken = Failure transport_failure"
  using assms by (cases "an_fingerprint a = ''''") (auto simp: start_pairing_def withdraw_def Let_def)

lemma mismatch_hidden_by_withdrawal_witness:
  "start_pairing (\<lambda>bs. bs) demo_models demo_request [] [0xAC] (Replied 202 (Some JNull)) Broken = Failure transport_failure"
proof -
  have "from_hex (an_fingerprint demo_answer) = Some [0xAB]" by (simp add: demo_answer_def hex_nibble_def ascii_blank_def Let_def)
  then show ?thesis using mismatch_hidden_by_withdrawal [of demo_models JNull demo_answer "[0xAB]" "[0xAC]"] by (simp add: demo_models_def)
qed

text \<open>C25: Waiting for the decision returns exactly when some poll is answered otherwise than with \<open>pending\<close> or a
  request to slow down, and then its answer is the result, errors included. Until then it polls
  again, after a pause exactly when it was told to slow down; the client's half of the code is in
  every poll up to the first that is answered, and in none after it.\<close>

theorem wait_until_decided:
  "(\<forall>j. slowed md s (answers j) \<or> undecided md (answers j)) \<and> wait md answers s = None
   \<or> (\<exists>k s' es. list_all (\<lambda>j. slowed md s (answers j) \<or> undecided md (answers j)) [0..<k]
        \<and> \<not> slowed md s (answers k) \<and> \<not> undecided md (answers k)
        \<and> wait md answers s = Some (s', es, poll_result md s (answers k))
        \<and> polls es = map (\<lambda>j. if ss_revealed s \<or> (\<exists>i<j. undecided md (answers i)) then None
                               else Some (to_hex (ss_client_nonce s))) [0..<Suc k]
        \<and> sleeps es = replicate (length (filter (\<lambda>j. slowed md s (answers j)) [0..<k])) (ss_interval s))"
proof (cases "\<forall>j. slowed md s (answers j) \<or> undecided md (answers j)")
  case True
  then have "poll_loop md s answers 0 [] (\<not> ss_revealed s) = None"
    using poll_loop_returns [of md s answers 0 "[]" "\<not> ss_revealed s"]
    by (cases "poll_loop md s answers 0 [] (\<not> ss_revealed s)") blast+
  then have "wait md answers s = None" by (simp add: wait_def)
  with True show ?thesis by (intro disjI1 conjI)
next
  case False
  define k where "k = (LEAST j. \<not> (slowed md s (answers j) \<or> undecided md (answers j)))"
  have here: "\<not> (slowed md s (answers k) \<or> undecided md (answers k))"
    using False unfolding k_def by (metis (mono_tags, lifting) LeastI_ex)
  have before: "slowed md s (answers j) \<or> undecided md (answers j)" if "j < k" for j
    using not_less_Least [OF that [unfolded k_def]] by simp
  obtain es h where run: "poll_loop md s answers 0 [] (\<not> ss_revealed s) = Some (es, h, poll_result md s (answers k))"
      "polls es = map (\<lambda>j. if \<not> ss_revealed s \<and> nonce_shown md answers 0 j then Some (to_hex (ss_client_nonce s)) else None) [0..<Suc k]"
      "sleeps es = replicate (length (filter (\<lambda>j. slowed md s (answers j)) [0..<k])) (ss_interval s)"
    using poll_loop_run [of k md s answers 0 "[]" "\<not> ss_revealed s"] here before by auto
  have same: "(if \<not> ss_revealed s \<and> nonce_shown md answers 0 j then Some (to_hex (ss_client_nonce s)) else None) =
      (if ss_revealed s \<or> (\<exists>i<j. undecided md (answers i)) then None else Some (to_hex (ss_client_nonce s)))" for j
    by (auto simp: nonce_shown_def)
  show ?thesis
    using here before run(1,3) run(2) [unfolded same]
    by (intro disjI2 exI [of _ k] exI [of _ "s\<lparr>ss_revealed := \<not> h\<rparr>"] exI [of _ es] conjI) (simp_all add: wait_def list_all_iff)
qed

text \<open>Fact: A contradiction between the certificate the box names and the one the connection saw is reported as such
  whatever becomes of the withdrawal, and otherwise an accepted and readable answer is a session
  whose code is the one the daemon's pairing would show for it.\<close>

theorem box_mismatch_reported:
  assumes "box_answer repr text d = Some (a, nonce, reported, interval)"
  shows "start_box_pairing sha repr text q client_nonce seen (Replied 202 (Some (JObj d))) deleted =
     (if reported \<noteq> [] \<and> seen \<noteq> [] \<and> reported \<noteq> seen then BoxMismatch
      else BoxSession ((new_session (derive_pairing_code sha nonce client_nonce reported) (box_base q) a client_nonce)\<lparr>ss_interval := interval\<rparr>))"
  using assms by (auto simp: start_box_pairing_def split: option.split)

lemma box_mismatch_reported_witness:
  "start_box_pairing (\<lambda>bs. bs) (\<lambda>j. []) (\<lambda>s. None) \<lparr>bq_host = ''h'', bq_app = ''a'', bq_port = None, bq_tls = True, bq_addon = ''x'', bq_app_version = '''',
     bq_instance = '''', bq_name = '''', bq_purpose = None\<rparr> [] [0xAC] (Replied 202 (Some (JObj [(''id'', JInt 7), (''poll'', JStr ''p''),
     (''nonce'', JStr ''00''), (''fingerprint'', JStr ''ab'')]))) Broken = BoxMismatch"
proof -
  have "from_hex ''ab'' = Some [0xAB]" "from_hex ''00'' = Some [0]" by (simp_all add: hex_nibble_def ascii_blank_def Let_def)
  then have "box_answer (\<lambda>j. []) (\<lambda>s. None) [(''id'', JInt 7), (''poll'', JStr ''p''), (''nonce'', JStr ''00''), (''fingerprint'', JStr ''ab'')] =
      Some (\<lparr>an_id = show_int 7, an_poll = ''p'', an_nonce = ''00'', an_expires_in = 0, an_interval = 0, an_fingerprint = ''ab''\<rparr>,
        [0], [0xAB], 2)"
    by (simp add: box_answer_def py_str_def json_truth_def obj_get_def get_or_def py_int_def py_float_def)
  from box_mismatch_reported [OF this] show ?thesis by simp
qed

end
