(* ===== verification/Discovery.thy ===== *)
theory Discovery
  imports StoreApi
begin

text \<open>
  What a client learns of a daemon before any login: the login paths among its capability tokens
  (capabilities.py), its mDNS TXT record (discovery.py) and the unauthenticated probe of \<open>/info\<close>
  (probe.py). UTF-8 decoding and JSON parsing come as arguments.
\<close>

section \<open>Login paths\<close>

definition login_path_prefix :: string where "login_path_prefix = ''auth.''"
definition login_path_suffix :: string where "login_path_suffix = ''.v1''"

definition login_path_of :: "string \<Rightarrow> string option" where
  "login_path_of token =
     (if \<not> starts_with login_path_prefix token then None
      else let rest = drop (length login_path_prefix) token in
        if ends_with login_path_suffix rest \<and> take (length rest - length login_path_suffix) rest \<noteq> ''''
        then Some (take (length rest - length login_path_suffix) rest) else None)"

definition login_paths :: "string list \<Rightarrow> string set" where
  "login_paths capabilities = set (List.map_filter login_path_of capabilities)"

section \<open>The TXT record\<close>

datatype txt_value = Text string | Octets string | NoValue

definition text_of :: "(string \<Rightarrow> string option) \<Rightarrow> txt_value \<Rightarrow> string option" where
  "text_of utf8 v = (case v of
       Text s \<Rightarrow> if s = '''' then None else Some s
     | Octets b \<Rightarrow> (case utf8 b of None \<Rightarrow> None | Some s \<Rightarrow> if s = '''' then None else Some s)
     | NoValue \<Rightarrow> None)"

fun normalise_from :: "(string \<Rightarrow> string option) \<Rightarrow> string list \<Rightarrow> (string, string) dict \<Rightarrow> (string \<times> txt_value) list \<Rightarrow> (string, string) dict" where
  "normalise_from utf8 seen out [] = out"
| "normalise_from utf8 seen out ((key, raw) # ps) =
     (let folded = map lower_char key in
      if folded \<in> set seen then normalise_from utf8 seen out ps
      else normalise_from utf8 (folded # seen)
             (case text_of utf8 raw of None \<Rightarrow> out | Some s \<Rightarrow> dict_put folded s out) ps)"

definition normalise :: "(string \<Rightarrow> string option) \<Rightarrow> (string \<times> txt_value) list \<Rightarrow> (string, string) dict" where
  "normalise utf8 ps = normalise_from utf8 [] [] ps"

text \<open>
  \<open>int\<close> on a string of decimal digits; more than 4300 of them it refuses with a \<open>ValueError\<close>, which
  is the left case.
\<close>

definition int_max_str_digits :: nat where "int_max_str_digits = 4300"

definition decimal :: "string option \<Rightarrow> unit + int option" where
  "decimal v = (case v of
       None \<Rightarrow> Inr None
     | Some s \<Rightarrow> if s = '''' \<or> \<not> list_all is_digit_char s then Inr None
         else if int_max_str_digits < length s then Inl ()
         else Inr (digits_value 0 False s))"

definition txt_flag :: "string option \<Rightarrow> bool option" where
  "txt_flag v = (if v = Some ''1'' then Some True else if v = Some ''0'' then Some False else None)"

fun split_comma :: "string \<Rightarrow> string list" where
  "split_comma [] = [[]]"
| "split_comma (c # cs) =
     (if c = CHR '','' then [] # split_comma cs
      else (case split_comma cs of w # ws \<Rightarrow> (c # w) # ws | [] \<Rightarrow> [[c]]))"

definition items :: "string option \<Rightarrow> string list" where
  "items v = (case v of None \<Rightarrow> [] | Some s \<Rightarrow> filter (\<lambda>x. x \<noteq> '''') (map py_strip (split_comma s)))"

record discovered_daemon =
  dd_txtvers :: "int option"
  dd_path :: "string option"
  dd_api_version :: "string option"
  dd_tls :: "bool option"
  dd_instance :: "string option"
  dd_centrals :: "int option"
  dd_ccus :: "string list"
  dd_deploy :: "string option"
  dd_ingress :: "string option"
  dd_login_paths :: "string set"

definition parse_txt_record :: "(string \<Rightarrow> string option) \<Rightarrow> (string \<times> txt_value) list \<Rightarrow> unit + discovered_daemon" where
  "parse_txt_record utf8 ps = (let values = normalise utf8 ps in
     case (decimal (dict_get values ''txtvers''), decimal (dict_get values ''centrals'')) of
       (Inr v, Inr c) \<Rightarrow> Inr \<lparr>dd_txtvers = v, dd_path = dict_get values ''path'', dd_api_version = dict_get values ''api_version'',
          dd_tls = txt_flag (dict_get values ''tls''), dd_instance = dict_get values ''instance'', dd_centrals = c,
          dd_ccus = items (dict_get values ''ccus''), dd_deploy = dict_get values ''deploy'',
          dd_ingress = dict_get values ''ingress'', dd_login_paths = set (items (dict_get values ''auth''))\<rparr>
     | _ \<Rightarrow> Inl ())"

section \<open>The probe\<close>

datatype probe_outcome = Daemon | BoxGate

record daemon_probe =
  dp_reached :: probe_outcome
  dp_api_version :: string
  dp_version :: string
  dp_capabilities :: "string list"
  dp_login_paths :: "string set"
  dp_deployment_kind :: "string option"
  dp_ingress_path :: "string option"

datatype probe_answer = Unreachable | Answered int string "json option" string

definition nonempty_text :: "json \<Rightarrow> string option" where
  "nonempty_text j = (case j of JStr s \<Rightarrow> if s = '''' then None else Some s | _ \<Rightarrow> None)"

definition from_info :: "json option \<Rightarrow> loom_error + daemon_probe" where
  "from_info payload = (case payload of
       Some (JObj d) \<Rightarrow>
         (case nonempty_text (obj_get d ''api_version'') of
            None \<Rightarrow> Inl (PlainError LoomTransportError)
          | Some api \<Rightarrow>
              let caps = (case obj_get d ''capabilities'' of
                    JArr xs \<Rightarrow> List.map_filter (\<lambda>x. case x of JStr s \<Rightarrow> Some s | _ \<Rightarrow> None) xs | _ \<Rightarrow> []);
                  deployment = (case obj_get d ''deployment'' of JObj e \<Rightarrow> e | _ \<Rightarrow> [])
              in Inr \<lparr>dp_reached = Daemon, dp_api_version = api,
                   dp_version = (case obj_get d ''version'' of JStr s \<Rightarrow> s | _ \<Rightarrow> ''''),
                   dp_capabilities = caps, dp_login_paths = login_paths caps,
                   dp_deployment_kind = nonempty_text (obj_get deployment ''kind''),
                   dp_ingress_path = nonempty_text (obj_get deployment ''ingress_path'')\<rparr>)
     | _ \<Rightarrow> Inl (PlainError LoomTransportError))"

definition box_gate_probe :: daemon_probe where
  "box_gate_probe = \<lparr>dp_reached = BoxGate, dp_api_version = '''', dp_version = '''', dp_capabilities = [], dp_login_paths = {},
     dp_deployment_kind = None, dp_ingress_path = None\<rparr>"

definition probe_url :: "string \<Rightarrow> int option \<Rightarrow> bool \<Rightarrow> string \<Rightarrow> string" where
  "probe_url host port tls base_path = (if tls then ''https'' else ''http'') @ ''://'' @ host @ '':'' @
     show_int (case port of Some p \<Rightarrow> p | None \<Rightarrow> if tls then default_https_port else default_http_port) @ base_path @ ''/info''"

definition probe_daemon :: "((string, json) dict \<Rightarrow> problem option) \<Rightarrow> string \<Rightarrow> probe_answer \<Rightarrow> loom_error + daemon_probe" where
  "probe_daemon validate url answer = (case answer of
       Unreachable \<Rightarrow> Inl (PlainError LoomTransportError)
     | Answered status content_type payload raw \<Rightarrow>
         (if gate_refusal status content_type \<noteq> None then Inr box_gate_probe
          else if status \<noteq> 200 then
            let problem = (case payload of None \<Rightarrow> None | Some j \<Rightarrow> parse_problem validate j)
            in Inl (http_error_from_problem status problem (if problem = None then Some raw else None) ''GET'' url)
          else from_info payload))"

section \<open>Properties\<close>

lemma login_path_of_iff: "login_path_of token = Some n \<longleftrightarrow> n \<noteq> '''' \<and> token = login_path_prefix @ n @ login_path_suffix"
proof
  assume *: "login_path_of token = Some n"
  then have "starts_with login_path_prefix token" by (simp add: login_path_of_def split: if_splits)
  then obtain r where r: "token = login_path_prefix @ r" unfolding starts_with_iff by blast
  with * have "ends_with login_path_suffix r" by (simp add: login_path_of_def Let_def split: if_splits)
  then obtain m where "r = m @ login_path_suffix" unfolding ends_with_iff by blast
  with * r show "n \<noteq> '''' \<and> token = login_path_prefix @ n @ login_path_suffix"
    by (simp add: login_path_of_def Let_def split: if_splits)
next
  assume "n \<noteq> '''' \<and> token = login_path_prefix @ n @ login_path_suffix"
  moreover from this have "ends_with login_path_suffix (n @ login_path_suffix)" unfolding ends_with_iff by blast
  ultimately show "login_path_of token = Some n" by (simp add: login_path_of_def Let_def)
qed

lemma mem_map_filter: "y \<in> set (List.map_filter f xs) \<longleftrightarrow> (\<exists>x\<in>set xs. f x = Some y)"
  by (force simp: map_filter_def)

lemma login_paths_iff: "n \<in> login_paths caps \<longleftrightarrow> n \<noteq> '''' \<and> ''auth.'' @ n @ ''.v1'' \<in> set caps"
  unfolding login_paths_def mem_map_filter login_path_of_iff login_path_prefix_def login_path_suffix_def by blast

lemma normalise_from_get:
  "dict_get (normalise_from utf8 seen out ps) k =
     (if k \<in> set seen then dict_get out k
      else case List.find (\<lambda>p. map lower_char (fst p) = k) ps of
          None \<Rightarrow> dict_get out k
        | Some p \<Rightarrow> (case text_of utf8 (snd p) of None \<Rightarrow> dict_get out k | Some s \<Rightarrow> Some s))"
  by (induction utf8 seen out ps rule: normalise_from.induct) (auto simp: Let_def split: option.splits)

lemma split_comma_plain: "CHR '','' \<notin> set s \<Longrightarrow> split_comma s = [s]"
  by (induction s) auto

lemma split_comma_append: "CHR '','' \<notin> set s \<Longrightarrow> split_comma (s @ CHR '','' # t) = s # split_comma t"
  by (induction s) auto

definition comma_joined :: "string list \<Rightarrow> string" where
  "comma_joined xs = concat (case xs of [] \<Rightarrow> [] | y # ys \<Rightarrow> y # map (\<lambda>x. CHR '','' # x) ys)"

definition listable :: "string \<Rightarrow> bool" where
  "listable x \<longleftrightarrow> x \<noteq> '''' \<and> CHR '','' \<notin> set x \<and> list_all (\<lambda>c. \<not> py_space c) x"

lemma split_comma_joined: "list_all listable (x # xs) \<Longrightarrow> split_comma (comma_joined (x # xs)) = x # xs"
proof (induction xs arbitrary: x)
  case Nil
  then show ?case by (simp add: comma_joined_def listable_def split_comma_plain)
next
  case (Cons y ys)
  have "comma_joined (x # y # ys) = x @ CHR '','' # comma_joined (y # ys)" by (simp add: comma_joined_def)
  with Cons show ?case by (simp add: split_comma_append listable_def)
qed

lemma items_joined: "list_all listable (x # xs) \<Longrightarrow> items (Some (comma_joined (x # xs))) = x # xs"
proof -
  assume l: "list_all listable (x # xs)"
  have "py_strip y = y \<and> y \<noteq> ''''" if "y \<in> set (x # xs)" for y
    using l that by (auto simp: list_all_iff listable_def intro!: py_strip_plain)
  then have "map py_strip (x # xs) = x # xs" "filter (\<lambda>y. y \<noteq> '''') (x # xs) = x # xs"
    by (auto simp: map_idI filter_id_conv)
  then show ?thesis unfolding items_def option.case split_comma_joined [OF l] by simp
qed

text \<open>Fact: In a TXT record the first key that folds to a name decides its value, in whatever spelling it comes and even
  when its value cannot be read; later spellings never replace it.\<close>

theorem first_spelling_decides:
  "dict_get (normalise utf8 ps) k = (case List.find (\<lambda>p. map lower_char (fst p) = k) ps of
     None \<Rightarrow> None | Some p \<Rightarrow> text_of utf8 (snd p))"
  by (simp add: normalise_def normalise_from_get split: option.split)

text \<open>Fact: The login paths a client reads from the mDNS record are those it reads from \<open>/info\<close>: a daemon that joins
  its path names by commas into the record and spells each as a capability token announces the same
  set both ways, for names without commas and blanks.\<close>

theorem login_paths_agree:
  assumes "list_all listable ns" and "ns \<noteq> []"
  shows "case parse_txt_record utf8 [(''auth'', Text (comma_joined ns))] of
      Inl u \<Rightarrow> False
    | Inr d \<Rightarrow> dd_login_paths d = set ns \<and> login_paths (map (\<lambda>n. ''auth.'' @ n @ ''.v1'') ns) = dd_login_paths d"
proof -
  obtain x xs where ns: "ns = x # xs" using assms(2) by (cases ns) auto
  have "comma_joined ns \<noteq> ''''" using assms(1) by (auto simp: ns comma_joined_def listable_def)
  moreover have "items (Some (comma_joined ns)) = ns" using items_joined assms(1) unfolding ns by blast
  moreover have "login_paths (map (\<lambda>n. ''auth.'' @ n @ ''.v1'') ns) = set ns"
    using assms(1) by (auto simp: login_paths_iff list_all_iff listable_def)
  ultimately show ?thesis
    by (simp add: parse_txt_record_def normalise_def text_of_def lower_char_def decimal_def Let_def)
qed

lemma login_paths_agree_witness:
  "login_paths [''auth.oidc.v1'', ''auth.basic.v1''] = {''oidc'', ''basic''}"
  using login_paths_agree [of "[''oidc'', ''basic'']" "\<lambda>b. None"]
  by (simp add: listable_def py_space_def Let_def split: sum.splits)

text \<open>A number of more than 4300 digits makes the parser raise, which its documentation rules out.\<close>

lemma long_number_raises:
  assumes "list_all is_digit_char s" and "4300 < length s"
  shows "parse_txt_record utf8 [(''txtvers'', Text s)] = Inl ()"
  using assms by (auto simp: parse_txt_record_def normalise_def text_of_def lower_char_def decimal_def int_max_str_digits_def Let_def)

lemma from_info_spec:
  "case from_info payload of Inl e \<Rightarrow> e = PlainError LoomTransportError
    | Inr p \<Rightarrow> dp_reached p = Daemon \<and> dp_login_paths p = login_paths (dp_capabilities p)"
  by (auto simp: from_info_def Let_def split: option.split json.split)

text \<open>Fact: The probe takes an answer for the box gate's exactly when it is attributed to the gate, and then reports
  nothing else and raises nothing; any other answer is the daemon's: a description comes only out of
  a 200, with the login paths its capability tokens spell, a 200 without an \<open>/info\<close> object is a
  transport error and any other status an HTTP error.\<close>

theorem probe_tells_gate_from_daemon:
  "case probe_daemon validate url (Answered status content_type payload raw) of
     Inr p \<Rightarrow> (if dp_reached p = BoxGate then gate_refusal status content_type \<noteq> None \<and> p = box_gate_probe
               else gate_refusal status content_type = None \<and> status = 200
                 \<and> dp_login_paths p = {n. n \<noteq> '''' \<and> ''auth.'' @ n @ ''.v1'' \<in> set (dp_capabilities p)})
   | Inl e \<Rightarrow> gate_refusal status content_type = None
       \<and> (if status = 200 then e = PlainError LoomTransportError else error_isinstance e LoomHttpError)"
proof (cases "gate_refusal status content_type = None")
  case gate: True
  show ?thesis
  proof (cases "status = 200")
    case True
    then have "probe_daemon validate url (Answered status content_type payload raw) = from_info payload"
      using gate by (simp add: probe_daemon_def)
    moreover have "login_paths caps = {n. n \<noteq> [] \<and> ''auth.'' @ n @ ''.v1'' \<in> set caps}" for caps
      by (auto simp: login_paths_iff)
    ultimately show ?thesis
      using True gate from_info_spec [of payload] by (cases "from_info payload") simp_all
  next
    case False
    with gate show ?thesis
      by (simp add: probe_daemon_def Let_def error_isinstance_def http_error_class_http)
  qed
qed (simp add: probe_daemon_def box_gate_probe_def)

end
