(* ===== verification/WeekProfile.thy ===== *)
theory WeekProfile
  imports StoreApi
begin

text \<open>
  The week-profile data points of the compatibility layer (compat/aiohomematic/model/week_profile.py):
  the translation between the daemon's schedules and the dictionaries the cards read, the cached
  schedule, and its reads and writes. A write is two stretches of code around the await of the PUT:
  the first builds the new schedule from the cache, the second takes over what the daemon stored.
  Pydantic's validation comes as an argument; a key that is missing, and a value it rejects, raise.
\<close>

section \<open>Climate schedules for the cards\<close>

definition period_start :: string where "period_start = ''starttime''"
definition period_end :: string where "period_end = ''endtime''"
definition period_temp :: string where "period_temp = ''temperature''"
definition weekday_base_temp :: string where "weekday_base_temp = ''base_temperature''"
definition weekday_periods :: string where "weekday_periods = ''periods''"

definition period_to_frontend :: "period \<Rightarrow> json" where
  "period_to_frontend p = JObj [(period_start, obj_get p ''start_time''), (period_end, obj_get p ''end_time''),
     (period_temp, obj_get p ''temperature'')]"

definition weekday_to_frontend :: "weekday \<Rightarrow> json" where
  "weekday_to_frontend w = JObj [(weekday_base_temp, JFloat (wd_base_temperature w)),
     (weekday_periods, JArr (map period_to_frontend (wd_periods w)))]"

definition profile_to_frontend :: "(string, weekday) dict \<Rightarrow> json" where
  "profile_to_frontend p = JObj (map (\<lambda>(k, w). (k, weekday_to_frontend w)) p)"

text \<open>All the elements, or nothing when one raises.\<close>

fun all_of :: "('a \<Rightarrow> 'b option) \<Rightarrow> 'a list \<Rightarrow> 'b list option" where
  "all_of f [] = Some []"
| "all_of f (x # xs) = (case f x of None \<Rightarrow> None | Some y \<Rightarrow> map_option (\<lambda>ys. y # ys) (all_of f xs))"

text \<open>The constructors of the wire models: what they make of their arguments, if they accept them.\<close>

record wire_models =
  wm_period :: "json \<Rightarrow> json \<Rightarrow> json \<Rightarrow> period option"
  wm_base :: "json \<Rightarrow> rat option"
  wm_entry :: "(string, json) dict \<Rightarrow> bool"

definition period_from_frontend :: "wire_models \<Rightarrow> json \<Rightarrow> period option" where
  "period_from_frontend wm j = (case j of
       JObj d \<Rightarrow> (case (dict_get d period_start, dict_get d period_end, dict_get d period_temp) of
           (Some a, Some b, Some t) \<Rightarrow> wm_period wm a b t
         | _ \<Rightarrow> None)
     | _ \<Rightarrow> None)"

definition weekday_from_frontend :: "wire_models \<Rightarrow> json \<Rightarrow> weekday option" where
  "weekday_from_frontend wm j = (case j of
       JObj d \<Rightarrow>
         (case dict_get d weekday_base_temp of
            None \<Rightarrow> None
          | Some b \<Rightarrow>
              (case (case dict_get d weekday_periods of None \<Rightarrow> Some [] | Some (JArr ps) \<Rightarrow> all_of (period_from_frontend wm) ps
                       | Some other \<Rightarrow> None) of
                 None \<Rightarrow> None
               | Some ps \<Rightarrow> map_option (\<lambda>base. \<lparr>wd_base_temperature = base, wd_periods = ps\<rparr>) (wm_base wm b)))
     | _ \<Rightarrow> None)"

definition profile_from_frontend :: "wire_models \<Rightarrow> json \<Rightarrow> (string, weekday) dict option" where
  "profile_from_frontend wm j = (case j of
       JObj d \<Rightarrow> all_of (\<lambda>(k, w). map_option (Pair k) (weekday_from_frontend wm w)) d
     | _ \<Rightarrow> None)"

section \<open>The data point\<close>

record simple_entry =
  se_slot_no :: int
  se_fields :: "(string, json) dict"

record week_schedule =
  ws_base :: schedule
  ws_kind :: string
  ws_active_profile :: "string option"
  ws_active_profile_index :: "int option"
  ws_simple_entries :: "simple_entry list option"

record target_channel =
  tc_name :: string
  tc_unique_id :: string

record descriptor =
  de_unique_id :: string
  de_schedule_type :: string
  de_min_temp :: rat
  de_max_temp :: rat
  de_profile_count :: int
  de_current_profile :: "string option"
  de_available_profiles :: "string list option"
  de_schedule_enabled :: "(string, bool) dict option"
  de_target_channels :: "(string, target_channel) dict option"

record week_profile =
  wp_address :: string
  wp_channel_no :: int
  wp_descriptor :: descriptor
  wp_schedule :: "week_schedule option"
  wp_enabled :: "(string, bool) dict option"
  wp_value :: "int option"
  wp_current_profile :: string

definition profile_names :: "string list" where
  "profile_names = [''P1'', ''P2'', ''P3'', ''P4'', ''P5'', ''P6'']"

definition to_schedule_profile :: "string option \<Rightarrow> string option \<Rightarrow> string option" where
  "to_schedule_profile v fallback = (case v of None \<Rightarrow> fallback | Some s \<Rightarrow> if s \<in> set profile_names then Some s else fallback)"

definition new_week_profile :: "string \<Rightarrow> int \<Rightarrow> descriptor \<Rightarrow> week_profile" where
  "new_week_profile addr channel d = \<lparr>wp_address = addr, wp_channel_no = channel, wp_descriptor = d, wp_schedule = None,
     wp_enabled = (case de_schedule_enabled d of None \<Rightarrow> None | Some [] \<Rightarrow> None | Some es \<Rightarrow> Some es), wp_value = None,
     wp_current_profile = (case to_schedule_profile (de_current_profile d) None of None \<Rightarrow> ''P1'' | Some p \<Rightarrow> p)\<rparr>"

definition schedule_profiles :: "week_schedule \<Rightarrow> profiles" where
  "schedule_profiles s = (case sc_profiles (ws_base s) of None \<Rightarrow> [] | Some ps \<Rightarrow> ps)"

definition schedule_kind_climate :: string where "schedule_kind_climate = ''climate''"

definition counted_profiles :: "week_schedule \<Rightarrow> profiles" where
  "counted_profiles s = (let ps = schedule_profiles s in
     case ws_active_profile s of
       None \<Rightarrow> ps
     | Some a \<Rightarrow> (if a = '''' then ps else case dict_get ps a of None \<Rightarrow> ps | Some p \<Rightarrow> [(a, p)]))"

definition count_entries :: "week_schedule \<Rightarrow> int" where
  "count_entries s =
     (if ws_kind s = schedule_kind_climate
      then int (sum_list (map (\<lambda>w. length (wd_periods w)) (concat (map dict_values (dict_values (counted_profiles s))))))
      else (case ws_simple_entries s of None \<Rightarrow> 0 | Some es \<Rightarrow> int (length es)))"

definition update_from :: "week_schedule \<Rightarrow> week_profile \<Rightarrow> week_profile" where
  "update_from s w = w\<lparr>wp_schedule := Some s, wp_value := Some (count_entries s)\<rparr>"

definition max_climate_entries :: int where "max_climate_entries = 13 * 7 * 6"
definition max_simple_entries :: int where "max_simple_entries = 24"

definition is_climate :: "week_profile \<Rightarrow> bool" where
  "is_climate w \<longleftrightarrow> de_schedule_type (wp_descriptor w) = schedule_kind_climate"

definition max_entries :: "week_profile \<Rightarrow> int" where
  "max_entries w = (if is_climate w then max_climate_entries else max_simple_entries)"

definition min_temp :: "week_profile \<Rightarrow> rat option" where
  "min_temp w = (if is_climate w then Some (de_min_temp (wp_descriptor w)) else None)"

definition max_temp :: "week_profile \<Rightarrow> rat option" where
  "max_temp w = (if is_climate w then Some (de_max_temp (wp_descriptor w)) else None)"

definition available_profiles :: "week_profile \<Rightarrow> string list" where
  "available_profiles w = List.map_filter (\<lambda>n. to_schedule_profile (Some n) None)
     (case de_available_profiles (wp_descriptor w) of None \<Rightarrow> [] | Some ns \<Rightarrow> ns)"

definition schedule_profile_nos :: "week_profile \<Rightarrow> int" where
  "schedule_profile_nos w = (if de_profile_count (wp_descriptor w) \<noteq> 0 then de_profile_count (wp_descriptor w)
     else int (length (available_profiles w)))"

definition device_active_profile_index :: "week_profile \<Rightarrow> int option" where
  "device_active_profile_index w = (case wp_schedule w of None \<Rightarrow> None
     | Some s \<Rightarrow> (case ws_active_profile_index s of None \<Rightarrow> None | Some i \<Rightarrow> Some (i + 1)))"

definition current_profile_schedule :: "week_profile \<Rightarrow> json option" where
  "current_profile_schedule w = (case wp_schedule w of None \<Rightarrow> None
     | Some s \<Rightarrow> map_option profile_to_frontend (dict_get (schedule_profiles s) (wp_current_profile w)))"

definition set_current_schedule_profile :: "string \<Rightarrow> week_profile \<Rightarrow> week_profile" where
  "set_current_schedule_profile p w = w\<lparr>wp_current_profile := p\<rparr>"

definition target_channel_name :: "string \<Rightarrow> week_profile \<Rightarrow> string option" where
  "target_channel_name key w = (case de_target_channels (wp_descriptor w) of None \<Rightarrow> None
     | Some ts \<Rightarrow> map_option tc_name (dict_get ts key))"

text \<open>The canonical key is the reference algorithm's, an argument.\<close>

definition target_channel_unique_id :: "(string \<Rightarrow> string \<Rightarrow> string \<Rightarrow> string) \<Rightarrow> string \<Rightarrow> week_profile \<Rightarrow> string" where
  "target_channel_unique_id canonical key w =
     (case dict_get (case de_target_channels (wp_descriptor w) of None \<Rightarrow> [] | Some ts \<Rightarrow> ts) key of
        Some t \<Rightarrow> tc_unique_id t
      | None \<Rightarrow> canonical (wp_address w) (''SCHEDULE_CHANNEL_LOCK_'' @ key) ''schedule_channel_switch'')"

definition profile_index :: "string \<Rightarrow> int option" where
  "profile_index p = python_int (drop 1 p)"

section \<open>Reading and writing\<close>

datatype 'a reply_of = Got 'a | Fault exc

datatype schedule_call =
    GetSchedule | PutSchedule week_schedule | LockChannel string bool
  | CopySchedule string | CopyProfile string int string int

type_synonym 'a performed = "schedule_call list \<times> (exc + 'a) \<times> week_profile"

definition reload_schedule :: "bool \<Rightarrow> week_schedule reply_of \<Rightarrow> week_profile \<Rightarrow> week_schedule performed" where
  "reload_schedule force got w =
     (case (force, wp_schedule w) of
        (False, Some s) \<Rightarrow> ([], Inr s, w)
      | _ \<Rightarrow> (case got of Got s \<Rightarrow> ([GetSchedule], Inr s, update_from s w) | Fault e \<Rightarrow> ([GetSchedule], Inl e, w)))"

definition reading :: "(week_schedule \<Rightarrow> json) \<Rightarrow> bool \<Rightarrow> week_schedule reply_of \<Rightarrow> week_profile \<Rightarrow> json performed" where
  "reading view force got w = (case reload_schedule force got w of
     (cs, Inl e, w') \<Rightarrow> (cs, Inl e, w') | (cs, Inr s, w') \<Rightarrow> (cs, Inr (view s), w'))"

definition get_schedule :: "bool \<Rightarrow> week_schedule reply_of \<Rightarrow> week_profile \<Rightarrow> json performed" where
  "get_schedule = reading (\<lambda>s. JObj (map (\<lambda>(k, p). (k, profile_to_frontend p)) (schedule_profiles s)))"

definition get_schedule_profile :: "string \<Rightarrow> bool \<Rightarrow> week_schedule reply_of \<Rightarrow> week_profile \<Rightarrow> json performed" where
  "get_schedule_profile p = reading (\<lambda>s. case dict_get (schedule_profiles s) p of None \<Rightarrow> JObj [] | Some d \<Rightarrow> profile_to_frontend d)"

definition get_schedule_weekday :: "string \<Rightarrow> string \<Rightarrow> bool \<Rightarrow> week_schedule reply_of \<Rightarrow> week_profile \<Rightarrow> json performed" where
  "get_schedule_weekday p wk = reading (\<lambda>s. case weekday_of (schedule_profiles s) p wk of
     None \<Rightarrow> JObj [] | Some d \<Rightarrow> weekday_to_frontend d)"

text \<open>What is sent, from the schedule it is built on.\<close>

definition with_profiles :: "profiles \<Rightarrow> week_schedule \<Rightarrow> week_schedule" where
  "with_profiles ps s = s\<lparr>ws_base := (ws_base s)\<lparr>sc_profiles := Some ps\<rparr>\<rparr>"

definition weekday_write :: "wire_models \<Rightarrow> string \<Rightarrow> string \<Rightarrow> json \<Rightarrow> week_schedule \<Rightarrow> week_schedule option" where
  "weekday_write wm p wk data s =
     (let ps = schedule_profiles s; weekdays = (case dict_get ps p of None \<Rightarrow> [] | Some d \<Rightarrow> d) in
      map_option (\<lambda>day. with_profiles (dict_put p (dict_put wk day weekdays) ps) s) (weekday_from_frontend wm data))"

definition profile_write :: "wire_models \<Rightarrow> string \<Rightarrow> json \<Rightarrow> week_schedule \<Rightarrow> week_schedule option" where
  "profile_write wm p data s =
     map_option (\<lambda>d. with_profiles (dict_put p d (schedule_profiles s)) s) (profile_from_frontend wm data)"

definition schedule_write :: "wire_models \<Rightarrow> (string, json) dict \<Rightarrow> week_schedule \<Rightarrow> week_schedule option" where
  "schedule_write wm data s =
     map_option (\<lambda>ps. with_profiles ps s) (all_of (\<lambda>(k, j). map_option (Pair k) (profile_from_frontend wm j)) data)"

definition taken_over :: "week_schedule \<Rightarrow> correction list option \<Rightarrow> week_profile \<Rightarrow> week_profile option" where
  "taken_over new result w = map_option (\<lambda>b. update_from (new\<lparr>ws_base := b\<rparr>) w) (apply_corrections (ws_base new) result)"

definition perform_write ::
  "(week_schedule \<Rightarrow> week_schedule option) \<Rightarrow> week_schedule reply_of \<Rightarrow> correction list option reply_of \<Rightarrow> week_profile \<Rightarrow> unit performed" where
  "perform_write write got answer w = (case reload_schedule False got w of
       (cs, Inl e, w') \<Rightarrow> (cs, Inl e, w')
     | (cs, Inr s, w') \<Rightarrow>
         (case write s of
            None \<Rightarrow> (cs, Inl OtherError, w')
          | Some new \<Rightarrow>
              (case answer of
                 Fault e \<Rightarrow> (cs @ [PutSchedule new], Inl e, w')
               | Got result \<Rightarrow>
                   (case taken_over new result w' of
                      None \<Rightarrow> (cs @ [PutSchedule new], Inl OtherError, w')
                    | Some w'' \<Rightarrow> (cs @ [PutSchedule new], Inr (), w'')))))"

definition set_schedule_weekday where
  "set_schedule_weekday wm p wk data = perform_write (weekday_write wm p wk data)"

definition set_schedule_profile where
  "set_schedule_profile wm p data = perform_write (profile_write wm p data)"

definition set_schedule where
  "set_schedule wm data = perform_write (schedule_write wm data)"

section \<open>Simple schedules\<close>

definition entries_to_frontend :: "simple_entry list \<Rightarrow> (string, json) dict" where
  "entries_to_frontend es = fold (\<lambda>e. dict_put (show_int (se_slot_no e)) (JObj (se_fields e))) es []"

definition get_simple_schedule :: "bool \<Rightarrow> week_schedule reply_of \<Rightarrow> week_profile \<Rightarrow> json performed" where
  "get_simple_schedule = reading (\<lambda>s. JObj [(''entries'', JObj (entries_to_frontend
     (case ws_simple_entries s of None \<Rightarrow> [] | Some es \<Rightarrow> es)))])"

definition entry_from_frontend :: "wire_models \<Rightarrow> string \<times> json \<Rightarrow> simple_entry option" where
  "entry_from_frontend wm = (\<lambda>(slot, j). case (python_int slot, j) of
       (Some n, JObj d) \<Rightarrow>
         (let fields = dict_del ''slot_no'' d in
          if wm_entry wm ((''slot_no'', JInt n) # fields) then Some \<lparr>se_slot_no = n, se_fields = fields\<rparr> else None)
     | _ \<Rightarrow> None)"

definition entries_from_frontend :: "wire_models \<Rightarrow> (string, json) dict \<Rightarrow> simple_entry list option" where
  "entries_from_frontend wm data = (case dict_get data ''entries'' of
       None \<Rightarrow> all_of (entry_from_frontend wm) data
     | Some (JObj d) \<Rightarrow> all_of (entry_from_frontend wm) d
     | Some other \<Rightarrow> None)"

definition set_simple_schedule ::
  "wire_models \<Rightarrow> (string, json) dict \<Rightarrow> week_schedule reply_of \<Rightarrow> correction list option reply_of \<Rightarrow> week_profile \<Rightarrow> unit performed" where
  "set_simple_schedule wm data got answer w = (case entries_from_frontend wm data of
       None \<Rightarrow> ([], Inl OtherError, w)
     | Some es \<Rightarrow> perform_write (\<lambda>s. Some (s\<lparr>ws_simple_entries := Some es\<rparr>)) got answer w)"

section \<open>Channel locks and copies\<close>

definition set_channel_enabled :: "string \<Rightarrow> bool \<Rightarrow> week_profile \<Rightarrow> week_profile" where
  "set_channel_enabled key b w = w\<lparr>wp_enabled := Some (dict_put key b (case wp_enabled w of None \<Rightarrow> [] | Some es \<Rightarrow> es))\<rparr>"

fun lock_each :: "bool \<Rightarrow> string list \<Rightarrow> (nat \<Rightarrow> exc option) \<Rightarrow> nat \<Rightarrow> week_profile \<Rightarrow> unit performed" where
  "lock_each b [] replies n w = ([], Inr (), w)"
| "lock_each b (k # ks) replies n w = (case replies n of
       Some e \<Rightarrow> ([LockChannel k b], Inl e, w)
     | None \<Rightarrow> (case lock_each b ks replies (Suc n) (set_channel_enabled k b w) of
         (cs, r, w') \<Rightarrow> (LockChannel k b # cs, r, w')))"

definition set_schedule_enabled :: "bool \<Rightarrow> string option \<Rightarrow> (nat \<Rightarrow> exc option) \<Rightarrow> week_profile \<Rightarrow> unit performed" where
  "set_schedule_enabled b key replies w =
     lock_each b (case key of Some k \<Rightarrow> [k] | None \<Rightarrow> (case wp_enabled w of None \<Rightarrow> [] | Some es \<Rightarrow> dict_keys es)) replies 0 w"

definition switch_value :: "string \<Rightarrow> week_profile \<Rightarrow> bool option" where
  "switch_value key w = (case wp_enabled w of None \<Rightarrow> None | Some es \<Rightarrow> dict_get es key)"

definition switch_set_enabled :: "string \<Rightarrow> bool \<Rightarrow> exc option \<Rightarrow> week_profile \<Rightarrow> unit performed" where
  "switch_set_enabled key b reply w = (case reply of
       Some e \<Rightarrow> ([LockChannel key b], Inl e, w)
     | None \<Rightarrow> ([LockChannel key b], Inr (), set_channel_enabled key b w))"

definition schedule_channel_address :: "week_profile \<Rightarrow> string" where
  "schedule_channel_address w = wp_address w @ '':'' @ show_int (wp_channel_no w)"

definition copy_schedule :: "week_profile \<Rightarrow> week_profile \<Rightarrow> schedule_call" where
  "copy_schedule goal w = CopySchedule (wp_address goal)"

definition copy_schedule_profile :: "string \<Rightarrow> string \<Rightarrow> week_profile option \<Rightarrow> week_profile \<Rightarrow> schedule_call option" where
  "copy_schedule_profile from_profile to_profile goal w =
     (let g = (case goal of None \<Rightarrow> w | Some x \<Rightarrow> x) in
      case (profile_index from_profile, profile_index to_profile) of
        (Some i, Some j) \<Rightarrow> Some (CopyProfile (schedule_channel_address w) i (schedule_channel_address g) j)
      | _ \<Rightarrow> None)"

section \<open>Translations\<close>

text \<open>A period as the wire model holds it, and models that accept what they already hold.\<close>

definition wire_period :: "period \<Rightarrow> bool" where
  "wire_period p \<longleftrightarrow> map fst p = [''start_time'', ''end_time'', ''temperature'']"

definition accepts_weekday :: "wire_models \<Rightarrow> weekday \<Rightarrow> bool" where
  "accepts_weekday wm w \<longleftrightarrow> wm_base wm (JFloat (wd_base_temperature w)) = Some (wd_base_temperature w)
     \<and> list_all (\<lambda>p. wire_period p \<and>
          wm_period wm (obj_get p ''start_time'') (obj_get p ''end_time'') (obj_get p ''temperature'') = Some p) (wd_periods w)"

lemma all_of_map: "(\<And>x. x \<in> set xs \<Longrightarrow> f (g x) = Some (h x)) \<Longrightarrow> all_of f (map g xs) = Some (map h xs)"
  by (induction xs) simp_all

lemma frontend_keys: "period_start \<noteq> period_end" "period_start \<noteq> period_temp" "period_end \<noteq> period_temp"
    "weekday_base_temp \<noteq> weekday_periods"
  by (simp_all add: period_start_def period_end_def period_temp_def weekday_base_temp_def weekday_periods_def)

lemma weekday_round_trip: "accepts_weekday wm w \<Longrightarrow> weekday_from_frontend wm (weekday_to_frontend w) = Some w"
proof -
  assume ok: "accepts_weekday wm w"
  have "all_of (period_from_frontend wm) (map period_to_frontend (wd_periods w)) = Some (map (\<lambda>p. p) (wd_periods w))"
    by (rule all_of_map) (use ok frontend_keys in \<open>auto simp: accepts_weekday_def list_all_iff period_from_frontend_def period_to_frontend_def\<close>)
  then show ?thesis
    using ok frontend_keys by (simp add: weekday_from_frontend_def weekday_to_frontend_def accepts_weekday_def)
qed

lemma profile_round_trip:
  "list_all (accepts_weekday wm) (dict_values p) \<Longrightarrow> profile_from_frontend wm (profile_to_frontend p) = Some p"
proof -
  assume ok: "list_all (accepts_weekday wm) (dict_values p)"
  have "all_of (\<lambda>(k, w). map_option (Pair k) (weekday_from_frontend wm w)) (map (\<lambda>(k, w). (k, weekday_to_frontend w)) p)
      = Some (map (\<lambda>x. x) p)"
    by (rule all_of_map) (use ok in \<open>auto simp: list_all_iff weekday_round_trip\<close>)
  then show ?thesis by (simp add: profile_from_frontend_def profile_to_frontend_def)
qed

lemma dict_put_new: "k \<notin> set (dict_keys d) \<Longrightarrow> dict_put k v d = d @ [(k, v)]"
  by (induction d) auto

lemma entries_to_frontend_map:
  assumes "distinct (map se_slot_no es)"
  shows "entries_to_frontend es = map (\<lambda>e. (show_int (se_slot_no e), JObj (se_fields e))) es"
proof -
  have inj: "show_int i = show_int j \<longleftrightarrow> i = j" for i j by (metis option.sel python_int_show_int)
  have "fold (\<lambda>e. dict_put (show_int (se_slot_no e)) (JObj (se_fields e))) es d =
      d @ map (\<lambda>e. (show_int (se_slot_no e), JObj (se_fields e))) es"
    if "distinct (map se_slot_no es)" "\<forall>e\<in>set es. show_int (se_slot_no e) \<notin> set (dict_keys d)" for d
    using that
  proof (induction es arbitrary: d)
    case (Cons e es)
    then have "dict_put (show_int (se_slot_no e)) (JObj (se_fields e)) d = d @ [(show_int (se_slot_no e), JObj (se_fields e))]"
      by (intro dict_put_new) simp
    moreover have "\<forall>f\<in>set es. show_int (se_slot_no f) \<notin> set (dict_keys (d @ [(show_int (se_slot_no e), JObj (se_fields e))]))"
      using Cons.prems by (auto simp: inj image_iff)
    ultimately show ?case using Cons.IH Cons.prems(1) by simp
  qed simp
  from this [OF assms, of "[]"] show ?thesis by (simp add: entries_to_frontend_def)
qed

lemma dict_del_absent: "k \<notin> set (dict_keys d) \<Longrightarrow> dict_del k d = d"
  by (induction d) auto

lemma simple_round_trip:
  assumes "distinct (map se_slot_no es)"
    and "list_all (\<lambda>e. ''slot_no'' \<notin> set (dict_keys (se_fields e)) \<and> wm_entry wm ((''slot_no'', JInt (se_slot_no e)) # se_fields e)) es"
  shows "entries_from_frontend wm [(''entries'', JObj (entries_to_frontend es))] = Some es"
proof -
  have "all_of (entry_from_frontend wm) (map (\<lambda>e. (show_int (se_slot_no e), JObj (se_fields e))) es) = Some (map (\<lambda>e. e) es)"
    by (rule all_of_map) (use assms(2) in \<open>auto simp: list_all_iff entry_from_frontend_def dict_del_absent Let_def\<close>)
  then show ?thesis by (simp add: entries_from_frontend_def entries_to_frontend_map [OF assms(1)])
qed

section \<open>Properties\<close>

text \<open>C26: What the cards read they can write back: translating a climate profile, or a simple schedule with
  distinct slots, for the cards and back gives it again, for models that accept what they hold.\<close>

theorem frontend_round_trip:
  assumes "list_all (accepts_weekday wm) (dict_values p)" and "distinct (map se_slot_no es)"
    and "list_all (\<lambda>e. ''slot_no'' \<notin> set (dict_keys (se_fields e)) \<and> wm_entry wm ((''slot_no'', JInt (se_slot_no e)) # se_fields e)) es"
  shows "profile_from_frontend wm (profile_to_frontend p) = Some p
    \<and> entries_from_frontend wm [(''entries'', JObj (entries_to_frontend es))] = Some es"
  using profile_round_trip [OF assms(1)] simple_round_trip [OF assms(2,3)] by simp

definition demo_wm :: wire_models where
  "demo_wm = \<lparr>wm_period = (\<lambda>a b t. Some [(''start_time'', a), (''end_time'', b), (''temperature'', t)]),
     wm_base = as_float, wm_entry = (\<lambda>d. True)\<rparr>"

definition demo_day :: weekday where
  "demo_day = \<lparr>wd_base_temperature = 18, wd_periods = [[(''start_time'', JStr ''06:00''), (''end_time'', JStr ''09:00''), (''temperature'', JFloat 21)]]\<rparr>"

lemma demo_day_accepted: "accepts_weekday demo_wm demo_day"
  by (simp add: accepts_weekday_def demo_wm_def demo_day_def wire_period_def obj_get_def)

lemma frontend_round_trip_witness:
  "profile_from_frontend demo_wm (profile_to_frontend [(''MONDAY'', demo_day)]) = Some [(''MONDAY'', demo_day)]"
  using frontend_round_trip [of demo_wm "[(''MONDAY'', demo_day)]" "[]"] by (simp add: demo_day_accepted)

lemma weekday_of_put:
  "weekday_of (dict_put p (dict_put wk day (case dict_get ps p of None \<Rightarrow> [] | Some d \<Rightarrow> d)) ps) p' wk' =
     (if p' = p \<and> wk' = wk then Some day else weekday_of ps p' wk')"
  by (auto simp: weekday_of_def split: option.split)

lemma weekday_write_of:
  assumes "weekday_from_frontend wm data = Some day" and "weekday_write wm p wk data s = Some new"
  shows "weekday_of (schedule_profiles new) p' wk' = (if p' = p \<and> wk' = wk then Some day else weekday_of (schedule_profiles s) p' wk')"
  using assms by (auto simp: weekday_write_def with_profiles_def schedule_profiles_def [of "s\<lparr>ws_base := _\<rparr>"] weekday_of_put Let_def)

text \<open>Fact: Writing one weekday sends the whole schedule with that weekday replaced and every other weekday of every
  profile as the cache had it; when the daemon takes it uncorrected, reading the weekday back gives
  what was written, from the cache, and the count is that of the new schedule. A write the daemon
  refuses leaves the cache as it was.\<close>

theorem weekday_write_exact:
  assumes "wp_schedule w = Some s" and "weekday_from_frontend wm data = Some day"
  shows "\<exists>new. weekday_write wm p wk data s = Some new
    \<and> (weekday_of (schedule_profiles new) p wk = Some day)
    \<and> list_all (\<lambda>(p', wk'). weekday_of (schedule_profiles new) p' wk' = weekday_of (schedule_profiles s) p' wk')
        (filter (\<lambda>x. x \<noteq> (p, wk)) others)
    \<and> (case set_schedule_weekday wm p wk data got (Got None) w of (cs, r, w') \<Rightarrow>
         cs = [PutSchedule new] \<and> r = Inr () \<and> wp_value w' = Some (count_entries new)
         \<and> get_schedule_weekday p wk False got w' = ([], Inr (weekday_to_frontend day), w'))
    \<and> set_schedule_weekday wm p wk data got (Fault e) w = ([PutSchedule new], Inl e, w)"
proof -
  obtain new where new: "weekday_write wm p wk data s = Some new" using assms(2) by (simp add: weekday_write_def Let_def)
  note days = weekday_write_of [OF assms(2) new]
  have "set_schedule_weekday wm p wk data got (Got None) w = ([PutSchedule new], Inr (), update_from new w)"
    using assms(1) new
    by (simp add: set_schedule_weekday_def perform_write_def reload_schedule_def taken_over_def apply_corrections_def)
  moreover have "get_schedule_weekday p wk False got (update_from new w) = ([], Inr (weekday_to_frontend day), update_from new w)"
    using days [of p wk] by (simp add: get_schedule_weekday_def reading_def reload_schedule_def update_from_def)
  moreover have "set_schedule_weekday wm p wk data got (Fault e) w = ([PutSchedule new], Inl e, w)"
    using assms(1) new by (simp add: set_schedule_weekday_def perform_write_def reload_schedule_def)
  ultimately show ?thesis
    using new days by (intro exI [of _ new]) (auto simp: update_from_def list_all_iff)
qed

definition demo_schedule :: week_schedule where
  "demo_schedule = \<lparr>ws_base = \<lparr>sc_profiles = Some [(''P1'', [(''MONDAY'', demo_day)])], sc_rest = JNull\<rparr>, ws_kind = ''climate'',
     ws_active_profile = Some ''P1'', ws_active_profile_index = Some 0, ws_simple_entries = None\<rparr>"

definition demo_descriptor :: descriptor where
  "demo_descriptor = \<lparr>de_unique_id = ''u'', de_schedule_type = ''climate'', de_min_temp = 5, de_max_temp = 30, de_profile_count = 6,
     de_current_profile = Some ''P1'', de_available_profiles = None, de_schedule_enabled = None, de_target_channels = None\<rparr>"

definition demo_profile :: week_profile where
  "demo_profile = (new_week_profile ''A'' 1 demo_descriptor)\<lparr>wp_schedule := Some demo_schedule\<rparr>"

lemma weekday_write_exact_witness:
  "\<exists>new. weekday_write demo_wm ''P1'' ''TUESDAY'' (weekday_to_frontend demo_day) demo_schedule = Some new
     \<and> weekday_of (schedule_profiles new) ''P1'' ''MONDAY'' = weekday_of (schedule_profiles demo_schedule) ''P1'' ''MONDAY''"
  using weekday_write_exact [of demo_profile demo_schedule demo_wm "weekday_to_frontend demo_day" demo_day "''P1''" "''TUESDAY''"
      "[(''P1'', ''MONDAY'')]"]
  by (auto simp: demo_profile_def weekday_round_trip [OF demo_day_accepted])

text \<open>Fact: Two weekday writes of which the second begins before the first has returned are both built on the same
  cached schedule: the daemon ends up with the second schedule, in which the first weekday is as it
  was before, although both writes succeed.\<close>

theorem overlapping_writes_lose:
  assumes "wp_schedule w = Some s" and "weekday_from_frontend wm data1 = Some day1" and "weekday_from_frontend wm data2 = Some day2"
    and "(p1, wk1) \<noteq> (p2, wk2)"
  shows "\<exists>new1 new2 w1 w2. weekday_write wm p1 wk1 data1 s = Some new1 \<and> weekday_write wm p2 wk2 data2 s = Some new2
    \<and> taken_over new1 None w = Some w1 \<and> taken_over new2 None w1 = Some w2
    \<and> weekday_of (schedule_profiles new2) p1 wk1 = weekday_of (schedule_profiles s) p1 wk1
    \<and> wp_schedule w2 = Some new2"
proof -
  obtain new1 new2 where new: "weekday_write wm p1 wk1 data1 s = Some new1" "weekday_write wm p2 wk2 data2 s = Some new2"
    using assms(2,3) by (simp add: weekday_write_def Let_def)
  have "taken_over x None v = Some (update_from x v)" for x v by (simp add: taken_over_def apply_corrections_def)
  then show ?thesis
    using new weekday_write_of [OF assms(3) new(2), of p1 wk1] assms(4)
    by (intro exI [of _ new1] exI [of _ new2] exI [of _ "update_from new1 w"] exI [of _ "update_from new2 (update_from new1 w)"])
      (auto simp: update_from_def)
qed

lemma overlapping_writes_lose_witness:
  "\<exists>new2. weekday_write demo_wm ''P1'' ''TUESDAY'' (weekday_to_frontend demo_day) demo_schedule = Some new2
     \<and> weekday_of (schedule_profiles new2) ''P1'' ''SUNDAY'' = None"
  using overlapping_writes_lose [of demo_profile demo_schedule demo_wm "weekday_to_frontend demo_day" demo_day
      "weekday_to_frontend demo_day" demo_day "''P1''" "''SUNDAY''" "''P1''" "''TUESDAY''"]
  by (auto simp: demo_profile_def weekday_round_trip [OF demo_day_accepted])
    (auto simp: demo_schedule_def schedule_profiles_def weekday_of_def)

end
