(* ===== verification/Hub.thy ===== *)
theory Hub
  imports ApiCore
begin

text \<open>
  The hub singletons of the Home Assistant layer (compat/aiohomematic/model/hub/singletons.py): one
  record per object with its identity, value and attributes, the fields the update and severity
  classes add as a facet, and the operations that apply what the daemon reports. An operation
  answers whether anything moved. The times of the last change and refresh are not modelled; enum
  members and times are their wire texts.
\<close>

section \<open>Equality of decoded values\<close>

text \<open>\<open>==\<close>: numbers compare across \<open>bool\<close>, \<open>int\<close> and \<open>float\<close>, objects whatever the order of their keys.\<close>

fun py_equal :: "json \<Rightarrow> json \<Rightarrow> bool" where
  "py_equal (JArr xs) j = (case j of JArr ys \<Rightarrow> list_all2 py_equal xs ys | _ \<Rightarrow> False)"
| "py_equal (JObj a) j = (case j of
       JObj b \<Rightarrow> length a = length b \<and> list_all (\<lambda>(k, v). list_ex (\<lambda>(k', v'). k = k' \<and> py_equal v v') b) a
     | _ \<Rightarrow> False)"
| "py_equal (JStr s) j = (j = JStr s)"
| "py_equal JNull j = (j = JNull)"
| "py_equal x j = (as_float x = as_float j)"

lemma py_equal_refl [simp]: "py_equal x x"
proof (induction x)
  case (JArr xs)
  then show ?case by (simp add: list_all2_same)
next
  case (JObj a)
  then show ?case by (fastforce simp: list_all_iff list_ex_iff)
qed simp_all

section \<open>The singletons\<close>

text \<open>The two address classes; their texts and the routing key are aiohomematic's.\<close>

datatype hub_root = HubRoot | InstallModeRoot

record upstream =
  up_address :: "hub_root \<Rightarrow> string"
  up_canonical :: "string \<Rightarrow> string \<Rightarrow> string \<Rightarrow> string"

datatype facet =
    Plain
  | CcuUpdate string string bool bool
  | AddonUpdate string string bool string "string option" "string option"
  | IndexHealth "bool option"
  | SecurityClass string
  | Report bool

record singleton =
  sg_root :: hub_root
  sg_slug :: string
  sg_name :: string
  sg_name_key :: "string option"
  sg_name_args :: "(string, string) dict"
  sg_resolved_name :: "string option"
  sg_value :: json
  sg_attributes :: "(string, json) dict"
  sg_facet :: facet

definition new_singleton :: "string \<Rightarrow> string \<Rightarrow> string \<Rightarrow> singleton" where
  "new_singleton nm slug key = \<lparr>sg_root = HubRoot, sg_slug = slug, sg_name = nm, sg_name_key = Some key,
     sg_name_args = [], sg_resolved_name = None, sg_value = JNull, sg_attributes = [], sg_facet = Plain\<rparr>"

definition unique_id_of :: "upstream \<Rightarrow> string \<Rightarrow> singleton \<Rightarrow> string" where
  "unique_id_of up serial_suffix sg = up_canonical up serial_suffix (up_address up (sg_root sg)) (sg_slug sg)"

text \<open>\<open>replace\<close> of a placeholder: every occurrence, from the left, without overlaps.\<close>

fun replace_from :: "nat \<Rightarrow> string \<Rightarrow> string \<Rightarrow> string \<Rightarrow> string" where
  "replace_from skip old new [] = []"
| "replace_from (Suc n) old new (c # s) = replace_from n old new s"
| "replace_from 0 old new (c # s) =
     (if starts_with old (c # s) then new @ replace_from (length old - 1) old new s else c # replace_from 0 old new s)"

definition replaced :: "string \<Rightarrow> string \<Rightarrow> string \<Rightarrow> string" where
  "replaced old new s = replace_from 0 old new s"

definition apply_entity_names :: "(string, string) dict \<Rightarrow> singleton \<Rightarrow> bool \<times> singleton" where
  "apply_entity_names entries sg = (case sg_name_key sg of
       None \<Rightarrow> (False, sg)
     | Some key \<Rightarrow>
         (case dict_get entries key of
            None \<Rightarrow> (False, sg)
          | Some template \<Rightarrow>
              (if template = '''' then (False, sg)
               else (let rendered = fold (\<lambda>(p, v). replaced (''{'' @ p @ ''}'') v) (sg_name_args sg) template in
                 if Some rendered = sg_resolved_name sg then (False, sg)
                 else (True, sg\<lparr>sg_resolved_name := Some rendered\<rparr>)))))"

definition update_value :: "json \<Rightarrow> (string, json) dict \<Rightarrow> singleton \<Rightarrow> bool \<times> singleton" where
  "update_value v attrs sg =
     (if \<not> py_equal v (sg_value sg) \<or> \<not> py_equal (JObj attrs) (JObj (sg_attributes sg))
      then (True, sg\<lparr>sg_value := v, sg_attributes := attrs\<rparr>) else (False, sg))"

section \<open>Messages and inbox\<close>

record alarm_message =
  am_central :: "string option"
  am_name :: string
  am_display_name :: "string option"
  am_timestamp :: "string option"

record service_message =
  sm_central :: "string option"
  sm_name :: string
  sm_device_name :: "string option"

definition alarm_attribute :: "alarm_message \<Rightarrow> string" where
  "alarm_attribute m =
     (let label = (case am_display_name m of None \<Rightarrow> am_name m | Some d \<Rightarrow> if d = '''' then am_name m else d) in
      case am_timestamp m of None \<Rightarrow> label | Some t \<Rightarrow> label @ '' ('' @ t @ '')'')"

definition service_attribute :: "service_message \<Rightarrow> string" where
  "service_attribute m = (case sm_device_name m of
       None \<Rightarrow> sm_name m | Some d \<Rightarrow> if d = '''' then sm_name m else d @ '': '' @ sm_name m)"

definition numbered :: "string \<Rightarrow> string list \<Rightarrow> (string, json) dict" where
  "numbered prefix xs = map (\<lambda>(i, x). (prefix @ show_int (int (Suc i)), JStr x)) (enumerate 0 xs)"

definition update_alarm_messages :: "alarm_message list \<Rightarrow> singleton \<Rightarrow> bool \<times> singleton" where
  "update_alarm_messages ms = update_value (JInt (int (length ms))) (numbered ''alarm_'' (map alarm_attribute ms))"

definition update_service_messages :: "service_message list \<Rightarrow> singleton \<Rightarrow> bool \<times> singleton" where
  "update_service_messages ms = update_value (JInt (int (length ms))) (numbered ''message_'' (map service_attribute ms))"

definition alarm_messages_sensor :: singleton where
  "alarm_messages_sensor = new_singleton ''alarm_messages'' ''alarm-messages'' ''discovery.alarm_messages''"

definition service_messages_sensor :: singleton where
  "service_messages_sensor = new_singleton ''service_messages'' ''service-messages'' ''discovery.service_messages''"

definition inbox_sensor :: singleton where
  "inbox_sensor = new_singleton ''inbox'' ''inbox'' ''discovery.inbox''"

definition system_health_sensor :: singleton where
  "system_health_sensor = new_singleton ''system_health'' ''system-health'' ''discovery.system_health''"

definition connection_latency_sensor :: singleton where
  "connection_latency_sensor = new_singleton ''connection_latency'' ''connection-latency'' ''discovery.connection_latency''"

definition daemon_latency_sensor :: singleton where
  "daemon_latency_sensor = new_singleton ''daemon_latency'' ''daemon-latency'' ''discovery.daemon_latency''"

definition last_event_age_sensor :: singleton where
  "last_event_age_sensor = new_singleton ''last_event_age'' ''last-event-age'' ''discovery.last_event_age''"

definition daemon_connection_dp :: singleton where
  "daemon_connection_dp = new_singleton ''daemon_connection'' ''daemon-connection'' ''discovery.daemon_status''"

text \<open>\<open>slugify\<close> is a third-party function and an argument.\<close>

definition interface_connectivity_dp :: "(string \<Rightarrow> string) \<Rightarrow> string \<Rightarrow> string \<Rightarrow> singleton" where
  "interface_connectivity_dp slugify interface_id interface =
     (let display = (if interface = '''' then interface_id else interface) in
      (new_singleton (''Connectivity '' @ display) (''connectivity-'' @ slugify interface_id) ''discovery.connectivity'')
        \<lparr>sg_name_args := [(''iface'', display)]\<rparr>)"

definition install_mode_token_by_interface :: "(string, string) dict" where
  "install_mode_token_by_interface = [(''HmIP-RF'', ''hmip''), (''BidCos-RF'', ''bidcos'')]"

definition install_mode_sensor :: "string \<Rightarrow> string \<Rightarrow> singleton" where
  "install_mode_sensor interface token =
     (new_singleton (''install_mode_'' @ token) token ''discovery.install_mode_duration'')
       \<lparr>sg_root := InstallModeRoot, sg_name_args := [(''iface'', interface)]\<rparr>"

definition install_mode_button :: "string \<Rightarrow> string \<Rightarrow> singleton" where
  "install_mode_button interface token =
     (new_singleton (''install_mode_'' @ token @ ''_button'') (token @ ''-button'') ''discovery.install_mode_activate'')
       \<lparr>sg_root := InstallModeRoot, sg_name_args := [(''iface'', interface)]\<rparr>"

definition install_mode_active :: "singleton \<Rightarrow> bool" where
  "install_mode_active sg = (case as_int (sg_value sg) of Some i \<Rightarrow> i > 0 | None \<Rightarrow> False)"

section \<open>Updates\<close>

record system_update_entry =
  su_central :: "string option"
  su_current :: "string option"
  su_available :: "string option"
  su_update_available :: bool
  su_in_progress :: bool

record addon_status =
  as_supported :: bool
  as_current :: string
  as_latest :: "string option"
  as_update_available :: "bool option"
  as_state :: string
  as_release_url :: "string option"
  as_error :: "string option"

definition or_empty :: "string option \<Rightarrow> string" where
  "or_empty v = (case v of None \<Rightarrow> '''' | Some s \<Rightarrow> s)"

definition system_update_dp :: singleton where
  "system_update_dp = (new_singleton ''System Update'' ''system-update'' ''discovery.system_update'')
     \<lparr>sg_facet := CcuUpdate '''' '''' False False\<rparr>"

definition addon_update_dp :: singleton where
  "addon_update_dp = (new_singleton ''Add-on Update'' ''addon-update'' ''discovery.addon_update'')
     \<lparr>sg_facet := AddonUpdate '''' '''' False ''idle'' None None\<rparr>"

definition set_facet :: "facet \<Rightarrow> singleton \<Rightarrow> bool \<times> singleton" where
  "set_facet new sg = (if new \<noteq> sg_facet sg then (True, sg\<lparr>sg_facet := new\<rparr>) else (False, sg))"

definition update_data :: "system_update_entry \<Rightarrow> singleton \<Rightarrow> bool \<times> singleton" where
  "update_data e = set_facet (CcuUpdate (or_empty (su_current e)) (or_empty (su_available e)) (su_update_available e) (su_in_progress e))"

definition update_status :: "addon_status \<Rightarrow> singleton \<Rightarrow> bool \<times> singleton" where
  "update_status st = set_facet (AddonUpdate (as_current st) (or_empty (as_latest st)) (as_update_available st = Some True)
     (as_state st) (as_release_url st) (as_error st))"

definition latest_firmware :: "singleton \<Rightarrow> string" where
  "latest_firmware sg = (case sg_facet sg of
       CcuUpdate current available _ _ \<Rightarrow> if available = '''' then current else available
     | AddonUpdate current available _ _ _ _ \<Rightarrow> if available = '''' then current else available
     | _ \<Rightarrow> '''')"

definition in_progress :: "singleton \<Rightarrow> bool" where
  "in_progress sg = (case sg_facet sg of
       CcuUpdate _ _ _ busy \<Rightarrow> busy
     | AddonUpdate _ _ _ state _ _ \<Rightarrow> state = ''downloading'' \<or> state = ''installing''
     | _ \<Rightarrow> False)"

text \<open>What a successful install call leaves: the flag is set at once and nothing is announced.\<close>

definition installing :: "singleton \<Rightarrow> singleton" where
  "installing sg = (case sg_facet sg of
       CcuUpdate current available upd _ \<Rightarrow> sg\<lparr>sg_facet := CcuUpdate current available upd True\<rparr>
     | AddonUpdate current available upd _ url err \<Rightarrow> sg\<lparr>sg_facet := AddonUpdate current available upd ''installing'' url err\<rparr>
     | _ \<Rightarrow> sg)"

section \<open>Security and safety\<close>

record alarm_source =
  so_ref :: string
  so_central :: "string option"
  so_interface_id :: "string option"
  so_channel_address :: "string option"
  so_device_address :: "string option"
  so_parameter :: "string option"
  so_source_name :: "string option"
  so_sensor_type :: "string option"
  so_hazard_class :: "string option"
  so_at :: string

text \<open>The entries whose value is set and not empty.\<close>

definition set_entries :: "(string \<times> string option) list \<Rightarrow> (string, json) dict" where
  "set_entries fs = concat (map (\<lambda>(k, v). case v of Some s \<Rightarrow> if s = '''' then [] else [(k, JStr s)] | None \<Rightarrow> []) fs)"

definition source_payload :: "alarm_source \<Rightarrow> json" where
  "source_payload src = JObj (set_entries
     [(''ref'', Some (so_ref src)), (''central'', so_central src), (''interface_id'', so_interface_id src),
      (''channel_address'', so_channel_address src), (''device_address'', so_device_address src),
      (''parameter'', so_parameter src), (''name'', so_source_name src), (''sensor_type'', so_sensor_type src),
      (''class'', so_hazard_class src), (''at'', Some (so_at src))])"

definition source_name :: "alarm_source \<Rightarrow> string" where
  "source_name src =
     (if or_empty (so_source_name src) \<noteq> '''' then or_empty (so_source_name src)
      else if or_empty (so_channel_address src) \<noteq> '''' then or_empty (so_channel_address src)
      else so_ref src)"

definition max_attribute_sources :: nat where "max_attribute_sources = 20"

definition sources_attribute :: "alarm_source list \<Rightarrow> (string, json) dict" where
  "sources_attribute sources =
     (let shown = take max_attribute_sources sources in
      [(''sources'', JArr (map source_payload shown)),
       (''source_names'', JArr (map JStr (filter (\<lambda>s. s \<noteq> '''') (map source_name shown)))),
       (''count'', JInt (int (length shown))),
       (''total'', JInt (int (length sources))),
       (''truncated'', JBool (length sources > length shown))])"

record security_class_state =
  cs_class :: string
  cs_active :: bool
  cs_severity :: string
  cs_sources :: "alarm_source list option"

record security_fault =
  ft_reason :: string
  ft_source :: alarm_source

record security_report =
  rp_class :: string
  rp_severity :: string
  rp_verb :: string
  rp_subject :: string
  rp_message :: string
  rp_i18n_key :: string
  rp_args :: "(string, string) dict option"
  rp_sources :: "alarm_source list option"
  rp_zone_name :: "string option"
  rp_at :: string

record security_snapshot =
  sn_severity :: string
  sn_classes :: "security_class_state list"
  sn_faults :: "security_fault list option"
  sn_index_healthy :: "bool option"
  sn_last_alarm :: "security_report option"
  sn_last_fault :: "security_report option"

definition or_no_entries :: "'a list option \<Rightarrow> 'a list" where
  "or_no_entries v = (case v of None \<Rightarrow> [] | Some xs \<Rightarrow> xs)"

definition active_hazard_sources :: "security_snapshot \<Rightarrow> alarm_source list" where
  "active_hazard_sources sn = concat (map (\<lambda>c. or_no_entries (cs_sources c)) (filter cs_active (sn_classes sn)))"

definition security_severities :: "string list" where
  "security_severities = [''ok'', ''info'', ''warning'', ''alarm'', ''critical'']"

definition security_severity_sensor :: singleton where
  "security_severity_sensor = (new_singleton ''security_severity'' ''security-severity'' ''security.entity.state'')
     \<lparr>sg_facet := IndexHealth None\<rparr>"

definition shown_attributes :: "singleton \<Rightarrow> (string, json) dict" where
  "shown_attributes sg = (if sg_facet sg = IndexHealth (Some False)
     then dict_put ''index_healthy'' (JBool False) (sg_attributes sg) else sg_attributes sg)"

definition update_severity :: "string \<Rightarrow> alarm_source list \<Rightarrow> bool option \<Rightarrow> singleton \<Rightarrow> bool \<times> singleton" where
  "update_severity severity sources index_healthy sg =
     (let (moved, sg1) = (if index_healthy \<noteq> None then set_facet (IndexHealth index_healthy) sg else (False, sg));
          (changed, sg2) = update_value (JStr severity) (sources_attribute sources) sg1
      in (changed \<or> moved, sg2))"

definition fault_attribute :: "security_fault \<Rightarrow> string" where
  "fault_attribute f =
     (let reason = (if ft_reason f = '''' then ''fault'' else ft_reason f);
          nm = (if or_empty (so_source_name (ft_source f)) \<noteq> '''' then or_empty (so_source_name (ft_source f))
                else or_empty (so_channel_address (ft_source f)))
      in if nm = '''' then reason else nm @ '': '' @ reason)"

definition security_faults_sensor :: singleton where
  "security_faults_sensor = new_singleton ''security_faults'' ''security-faults'' ''security.entity.problem''"

definition update_faults :: "security_fault list \<Rightarrow> singleton \<Rightarrow> bool \<times> singleton" where
  "update_faults fs = update_value (JInt (int (length fs)))
     (numbered ''fault_'' (map fault_attribute fs) @ sources_attribute (map ft_source fs))"

definition security_class_device_class :: "(string, string) dict" where
  "security_class_device_class = [(''smoke'', ''smoke''), (''water'', ''moisture''), (''gas'', ''gas''),
     (''co'', ''carbon_monoxide''), (''tamper'', ''tamper''), (''battery'', ''battery''), (''technical'', ''problem''),
     (''intrusion'', ''safety''), (''panic'', ''safety'')]"

definition security_class_dp :: "(string \<Rightarrow> string) \<Rightarrow> string \<Rightarrow> singleton" where
  "security_class_dp slugify c =
     (new_singleton (''security_'' @ c) (''security-'' @ slugify c) (''security.entity.class.'' @ c))\<lparr>sg_facet := SecurityClass c\<rparr>"

definition update_class :: "bool \<Rightarrow> string option \<Rightarrow> alarm_source list \<Rightarrow> singleton \<Rightarrow> bool \<times> singleton" where
  "update_class active severity sources sg =
     (let c = (case sg_facet sg of SecurityClass c \<Rightarrow> c | _ \<Rightarrow> '''');
          grade = (case severity of
              Some s \<Rightarrow> [(''severity'', JStr s)]
            | None \<Rightarrow> (case obj_get (sg_attributes sg) ''severity'' of JNull \<Rightarrow> [] | v \<Rightarrow> [(''severity'', v)]))
      in update_value (JBool active) ((''security_class'', JStr c) # grade @ sources_attribute sources) sg)"

definition security_report_sensor :: "bool \<Rightarrow> singleton" where
  "security_report_sensor fault =
     (if fault then (new_singleton ''security_last_fault'' ''security-last-fault'' ''security.entity.last_fault'')\<lparr>sg_facet := Report True\<rparr>
      else (new_singleton ''security_last_alarm'' ''security-last-alarm'' ''security.entity.last_alarm'')\<lparr>sg_facet := Report False\<rparr>)"

definition report_attributes :: "security_report \<Rightarrow> (string, json) dict" where
  "report_attributes r =
     set_entries [(''message'', Some (rp_message r)), (''security_class'', Some (rp_class r)), (''severity'', Some (rp_severity r)),
       (''verb'', Some (rp_verb r)), (''i18n_key'', Some (rp_i18n_key r))]
     @ (case rp_args r of Some (a # as) \<Rightarrow> [(''args'', JObj (map (\<lambda>(k, v). (k, JStr v)) (a # as)))] | _ \<Rightarrow> [])
     @ set_entries [(''zone_name'', rp_zone_name r), (''at'', Some (rp_at r))]
     @ sources_attribute (or_no_entries (rp_sources r))"

definition update_report :: "security_report option \<Rightarrow> singleton \<Rightarrow> bool \<times> singleton" where
  "update_report report = (case report of
       None \<Rightarrow> update_value JNull []
     | Some r \<Rightarrow> update_value (JStr (rp_subject r)) (report_attributes r))"

end
