(* ===== verification/HubCoordinator.thy ===== *)
theory HubCoordinator
  imports Hub Held Pairing
begin

text \<open>
  The hub coordinator (compat/aiohomematic/central/hub_coordinator.py): it builds the singletons of
  Hub.thy once, refreshes them from the aggregate call, routes the daemon's pushes onto them and
  announces what moved. Singletons are objects on a heap, reached through named slots, so a list of
  changed objects keeps its meaning while other tasks run. As in Coroutine.thy a method runs alone
  until it awaits; each await is a turn in which the other tasks do to the coordinator what the turn
  says, and the reply arrives or the task is cancelled. All failures of a call look alike, since the
  code catches \<open>Exception\<close>; an uncaught one ends the method, as a cancellation does. Home Assistant's bus
  is third-party: a publish is an event in the log and a turn.
\<close>

section \<open>The coordinator\<close>

datatype singleton_key =
    KAlarmMessages | KServiceMessages | KInbox | KSystemUpdate | KAddonUpdate | KDaemonConnection
  | KSeverity | KFaults | KAlarmReport | KFaultReport
  | KSystemHealth | KConnectionLatency | KLastEventAge | KDaemonLatency
  | KClass string | KConnectivity string | KInstallSensor string | KInstallButton string

record coordinator =
  hc_store :: store
  hc_built :: bool
  hc_heap :: "singleton heap"
  hc_slots :: "(singleton_key, oid) dict"
  hc_token_by_id :: "(string, string) dict"
  hc_entity_names :: "(string, string) dict"
  hc_locks :: "oid list"

definition new_coordinator :: "store \<Rightarrow> coordinator" where
  "new_coordinator s = \<lparr>hc_store = s, hc_built = False, hc_heap = [], hc_slots = [], hc_token_by_id = [],
     hc_entity_names = [], hc_locks = []\<rparr>"

definition slot :: "singleton_key \<Rightarrow> coordinator \<Rightarrow> oid option" where
  "slot k c = dict_get (hc_slots c) k"

definition install :: "singleton_key \<Rightarrow> singleton \<Rightarrow> coordinator \<Rightarrow> coordinator" where
  "install k sg c = (let (i, h) = alloc sg (hc_heap c) in c\<lparr>hc_heap := h, hc_slots := dict_put k i (hc_slots c)\<rparr>)"

definition apply_at :: "oid \<Rightarrow> (singleton \<Rightarrow> bool \<times> singleton) \<Rightarrow> coordinator \<Rightarrow> oid list \<times> coordinator" where
  "apply_at i f c = (let (moved, sg) = f (hc_heap c ! i) in
     (if moved then [i] else [], c\<lparr>hc_heap := mutate i (\<lambda>_. sg) (hc_heap c)\<rparr>))"

text \<open>Applied to the object of a slot, when there is one.\<close>

definition apply_to :: "singleton_key \<Rightarrow> (singleton \<Rightarrow> bool \<times> singleton) \<Rightarrow> coordinator \<Rightarrow> oid list \<times> coordinator" where
  "apply_to k f c = (case slot k c of None \<Rightarrow> ([], c) | Some i \<Rightarrow> apply_at i f c)"

fun apply_all :: "(coordinator \<Rightarrow> oid list \<times> coordinator) list \<Rightarrow> coordinator \<Rightarrow> oid list \<times> coordinator" where
  "apply_all [] c = ([], c)"
| "apply_all (m # ms) c = (let (xs, c1) = m c; (ys, c2) = apply_all ms c1 in (xs @ ys, c2))"

definition is_local :: "string option \<Rightarrow> coordinator \<Rightarrow> bool" where
  "is_local central c = matches_central central (hc_store c)"

section \<open>The listing\<close>

definition fixed_keys :: "singleton_key list" where
  "fixed_keys = [KAlarmMessages, KServiceMessages, KInbox, KSystemUpdate, KAddonUpdate, KDaemonConnection,
     KSeverity, KFaults, KAlarmReport, KFaultReport]"

definition metric_keys :: "singleton_key list" where
  "metric_keys = [KSystemHealth, KConnectionLatency, KLastEventAge, KDaemonLatency]"

definition slots_of :: "singleton_key list \<Rightarrow> coordinator \<Rightarrow> oid list" where
  "slots_of ks c = concat (map (\<lambda>k. case slot k c of None \<Rightarrow> [] | Some i \<Rightarrow> [i]) ks)"

definition class_keys :: "coordinator \<Rightarrow> singleton_key list" where
  "class_keys c = filter (\<lambda>k. case k of KClass _ \<Rightarrow> True | _ \<Rightarrow> False) (dict_keys (hc_slots c))"

definition connectivity_keys :: "coordinator \<Rightarrow> singleton_key list" where
  "connectivity_keys c = filter (\<lambda>k. case k of KConnectivity _ \<Rightarrow> True | _ \<Rightarrow> False) (dict_keys (hc_slots c))"

definition install_keys :: "coordinator \<Rightarrow> singleton_key list" where
  "install_keys c = concat (map (\<lambda>k. case k of KInstallSensor t \<Rightarrow> [KInstallSensor t, KInstallButton t] | _ \<Rightarrow> [])
     (dict_keys (hc_slots c)))"

definition hub_singletons_unfiltered :: "coordinator \<Rightarrow> oid list" where
  "hub_singletons_unfiltered c =
     slots_of (fixed_keys @ metric_keys @ class_keys c @ connectivity_keys c @ install_keys c) c"

definition hub_singletons :: "coordinator \<Rightarrow> oid list" where
  "hub_singletons c = (if hc_built c then hub_singletons_unfiltered c else [])"

text \<open>Which variables and programs become entities.\<close>

definition rest_value :: "json \<Rightarrow> string \<Rightarrow> json" where
  "rest_value j k = (case j of JObj d \<Rightarrow> obj_get d k | _ \<Rightarrow> JNull)"

definition rest_central :: "json \<Rightarrow> string option" where
  "rest_central j = (case rest_value j ''central'' of JStr s \<Rightarrow> Some s | _ \<Rightarrow> None)"

fun occurs_in :: "string \<Rightarrow> string \<Rightarrow> bool" where
  "occurs_in p [] = (p = [])"
| "occurs_in p (c # s) = (starts_with p (c # s) \<or> occurs_in p s)"

definition is_excluded_sysvar :: "sysvar_summary \<Rightarrow> bool" where
  "is_excluded_sysvar sv =
     (starts_with ''${'' (sv_name sv) \<or> occurs_in ''OldVal'' (sv_name sv) \<or> occurs_in ''pcCCUID'' (sv_name sv)
      \<or> py_equal (rest_value (sv_rest sv) ''vid'') (JInt 40) \<or> py_equal (rest_value (sv_rest sv) ''vid'') (JInt 41))"

datatype hub_entity = SysvarEntity oid | ProgramEntity oid | SingletonEntity oid

definition all_hub_data_points :: "coordinator \<Rightarrow> hub_entity list" where
  "all_hub_data_points c =
     (let s = hc_store c in
      map SysvarEntity (filter (\<lambda>i. let sv = so_summary (reg_heap (st_sysvars s) ! i) in
         is_local (rest_central (sv_rest sv)) c \<and> \<not> is_excluded_sysvar sv) (sysvars s))
      @ concat (map (\<lambda>i. let pg = po_summary (reg_heap (st_programs s) ! i) in
         if is_local (rest_central (pg_rest pg)) c then map ProgramEntity (program_data_points (pg_id pg) s) else []) (programs s))
      @ map SingletonEntity (hub_singletons c))"

section \<open>Awaiting\<close>

record interface_state =
  is_id :: string
  is_interface :: string
  is_central_id :: "string option"

record hub_data =
  hd_central :: "string option"
  hd_alarm_count :: int
  hd_service_count :: int
  hd_inbox :: int
  hd_daemon_connected :: bool
  hd_metrics :: "(string \<times> rat) list option"
  hd_connectivity :: "(string \<times> bool) list option"
  hd_install_mode :: "(string \<times> bool \<times> int) list option"

datatype hub_body =
    AddonBody addon_status | SecurityBody security_snapshot | FaultsBody "security_fault list"
  | InterfacesBody "interface_state list" | NamesBody "(string, string) dict option" | AggregateBody "hub_data list"
  | AlarmsBody "alarm_message list" | ServicesBody "service_message list" | UpdatesBody "system_update_entry list"
  | SysvarsBody "sysvar_summary list" | ProgramsBody "program_summary list" | DoneBody

datatype hub_reply = HubAnswer hub_body | HubFails | HubCancelled

record hub_turn =
  ht_others :: "coordinator \<Rightarrow> coordinator"
  ht_reply :: hub_reply

record state_event =
  he_unique_id :: string
  he_value :: json

record hub_world =
  hw_hub :: coordinator
  hw_env :: "nat \<Rightarrow> hub_turn"
  hw_turn :: nat
  hw_sent :: "api_call list"
  hw_events :: "state_event list"
  hw_upstream :: upstream
  hw_slugify :: "string \<Rightarrow> string"

text \<open>\<open>None\<close> is a method that was cancelled or has raised.\<close>

type_synonym 'a hub_co = "hub_world \<Rightarrow> 'a option \<times> hub_world"

definition finish :: "'a \<Rightarrow> 'a hub_co" where
  "finish x w = (Some x, w)"

definition follow :: "'a hub_co \<Rightarrow> ('a \<Rightarrow> 'b hub_co) \<Rightarrow> 'b hub_co" where
  "follow m k w = (case m w of (None, w1) \<Rightarrow> (None, w1) | (Some x, w1) \<Rightarrow> k x w1)"

definition observe :: "(coordinator \<Rightarrow> 'a) \<Rightarrow> 'a hub_co" where
  "observe f w = (Some (f (hw_hub w)), w)"

definition change :: "(coordinator \<Rightarrow> 'a \<times> coordinator) \<Rightarrow> 'a hub_co" where
  "change f w = (let (x, c) = f (hw_hub w) in (Some x, w\<lparr>hw_hub := c\<rparr>))"

definition set_hub :: "(coordinator \<Rightarrow> coordinator) \<Rightarrow> unit hub_co" where
  "set_hub f = change (\<lambda>c. ((), f c))"

definition await_turn :: "hub_world \<Rightarrow> hub_reply \<times> hub_world" where
  "await_turn w = (let t = hw_env w (hw_turn w) in
     (ht_reply t, w\<lparr>hw_turn := Suc (hw_turn w), hw_hub := ht_others t (hw_hub w)\<rparr>))"

definition hub_ask :: "api_call \<Rightarrow> (hub_body \<Rightarrow> 'a option) \<Rightarrow> 'a option hub_co" where
  "hub_ask c f w = (case await_turn (w\<lparr>hw_sent := hw_sent w @ [c]\<rparr>) of
       (HubAnswer b, w1) \<Rightarrow> (Some (f b), w1)
     | (HubFails, w1) \<Rightarrow> (Some None, w1)
     | (HubCancelled, w1) \<Rightarrow> (None, w1))"

definition needed :: "'a option hub_co \<Rightarrow> 'a hub_co" where
  "needed m = follow m (\<lambda>x w. (x, w))"

definition hub_publish :: "string \<Rightarrow> json \<Rightarrow> unit hub_co" where
  "hub_publish uid v w =
     (case await_turn (w\<lparr>hw_events := hw_events w @ [\<lparr>he_unique_id = uid, he_value = v\<rparr>]\<rparr>) of
        (r, w1) \<Rightarrow> (if r = HubCancelled then None else Some (), w1))"

definition publish_one :: "oid \<Rightarrow> unit hub_co" where
  "publish_one i w = (let sg = hc_heap (hw_hub w) ! i in
     hub_publish (unique_id_of (hw_upstream w) (st_serial_suffix (hc_store (hw_hub w))) sg) (sg_value sg) w)"

fun publish_each :: "oid list \<Rightarrow> unit hub_co" where
  "publish_each [] = finish ()"
| "publish_each (i # rest) = follow (publish_one i) (\<lambda>_. publish_each rest)"

section \<open>Building\<close>

definition build_fixed :: "coordinator \<Rightarrow> coordinator" where
  "build_fixed c =
     install KDaemonConnection (snd (update_value (JBool True) [] daemon_connection_dp))
       (install KSystemUpdate system_update_dp
         (install KInbox inbox_sensor (install KServiceMessages service_messages_sensor
           (install KAlarmMessages alarm_messages_sensor c))))"

definition build_addon :: "addon_status option \<Rightarrow> coordinator \<Rightarrow> coordinator" where
  "build_addon status c = (case status of
       None \<Rightarrow> c
     | Some st \<Rightarrow> if as_supported st then install KAddonUpdate (snd (update_status st addon_update_dp)) c else c)"

definition build_metrics :: "coordinator \<Rightarrow> coordinator" where
  "build_metrics c =
     install KDaemonLatency daemon_latency_sensor (install KLastEventAge last_event_age_sensor
       (install KConnectionLatency connection_latency_sensor (install KSystemHealth system_health_sensor c)))"

definition build_class :: "(string \<Rightarrow> string) \<Rightarrow> security_class_state \<Rightarrow> coordinator \<Rightarrow> coordinator" where
  "build_class slugify st c = install (KClass (cs_class st))
     (snd (update_class (cs_active st) (Some (cs_severity st)) (or_no_entries (cs_sources st)) (security_class_dp slugify (cs_class st)))) c"

definition build_security :: "(string \<Rightarrow> string) \<Rightarrow> security_snapshot option \<Rightarrow> coordinator \<Rightarrow> coordinator" where
  "build_security slugify snapshot c = (case snapshot of
       None \<Rightarrow> c
     | Some sn \<Rightarrow>
         fold (build_class slugify) (sn_classes sn)
           (install KFaultReport (snd (update_report (sn_last_fault sn) (security_report_sensor True)))
             (install KAlarmReport (snd (update_report (sn_last_alarm sn) (security_report_sensor False)))
               (install KFaults (snd (update_faults (or_no_entries (sn_faults sn)) security_faults_sensor))
                 (install KSeverity (snd (update_severity (sn_severity sn) (active_hazard_sources sn) (sn_index_healthy sn)
                    security_severity_sensor)) c)))))"

definition build_interface :: "(string \<Rightarrow> string) \<Rightarrow> interface_state \<Rightarrow> coordinator \<Rightarrow> coordinator" where
  "build_interface slugify st c =
     (if \<not> is_local (is_central_id st) c then c
      else (let c1 = install (KConnectivity (is_id st)) (interface_connectivity_dp slugify (is_id st) (is_interface st)) c in
        case dict_get install_mode_token_by_interface (is_interface st) of
          None \<Rightarrow> c1
        | Some token \<Rightarrow>
            (let c2 = install (KInstallButton (is_interface st)) (install_mode_button (is_interface st) token)
                (install (KInstallSensor (is_interface st)) (install_mode_sensor (is_interface st) token) c1)
             in c2\<lparr>hc_token_by_id := dict_put (is_id st) (is_interface st) (hc_token_by_id c2)\<rparr>)))"

definition adopt_names :: "(string, string) dict option \<Rightarrow> coordinator \<Rightarrow> coordinator" where
  "adopt_names catalogue c = (case catalogue of
       None \<Rightarrow> c
     | Some [] \<Rightarrow> c
     | Some entries \<Rightarrow>
         (let c1 = c\<lparr>hc_entity_names := entries, hc_store := set_entity_names entries (hc_store c)\<rparr> in
          c1\<lparr>hc_heap := fold (\<lambda>i. mutate i (\<lambda>sg. snd (apply_entity_names entries sg))) (hub_singletons_unfiltered c1) (hc_heap c1)\<rparr>))"

text \<open>
  \<open>_ensure_singletons\<close>: the flag is read once and set at the end; between the two lie the awaits of
  the add-on status, the security snapshot, the interfaces and the catalogue.
\<close>

definition addon_body :: "hub_body \<Rightarrow> addon_status option" where
  "addon_body b = (case b of AddonBody x \<Rightarrow> Some x | _ \<Rightarrow> None)"

definition security_body :: "hub_body \<Rightarrow> security_snapshot option" where
  "security_body b = (case b of SecurityBody x \<Rightarrow> Some x | _ \<Rightarrow> None)"

definition interfaces_body :: "hub_body \<Rightarrow> interface_state list option" where
  "interfaces_body b = (case b of InterfacesBody x \<Rightarrow> Some x | _ \<Rightarrow> None)"

definition names_body :: "hub_body \<Rightarrow> (string, string) dict option option" where
  "names_body b = (case b of NamesBody x \<Rightarrow> Some x | _ \<Rightarrow> None)"

definition ask_security :: "security_snapshot option hub_co" where
  "ask_security = hub_ask (Security GetSecuritySnapshot) security_body"

definition slugified :: "(string \<Rightarrow> string) hub_co" where
  "slugified w = (Some (hw_slugify w), w)"

definition build_singletons :: "unit hub_co" where
  "build_singletons =
     follow (set_hub build_fixed) (\<lambda>_.
     follow (hub_ask (Update GetAddonUpdateStatus) addon_body) (\<lambda>addon.
     follow (set_hub (\<lambda>c. build_metrics (build_addon addon c))) (\<lambda>_.
     follow ask_security (\<lambda>snapshot.
     follow slugified (\<lambda>slugify.
     follow (set_hub (build_security slugify snapshot)) (\<lambda>_.
     follow (hub_ask (Update ListInterfaces) interfaces_body) (\<lambda>interfaces.
     follow (set_hub (fold (build_interface slugify) (or_no_entries interfaces))) (\<lambda>_.
     follow (observe (\<lambda>c. st_locale (hc_store c))) (\<lambda>loc.
     follow (hub_ask (I18n (Some loc)) names_body) (\<lambda>catalogue.
     set_hub (\<lambda>c. (adopt_names (case catalogue of None \<Rightarrow> None | Some es \<Rightarrow> es) c)\<lparr>hc_built := True\<rparr>)))))))))))"

definition ensure_singletons :: "unit hub_co" where
  "ensure_singletons = follow (observe hc_built) (\<lambda>built. if built then finish () else build_singletons)"

section \<open>Refreshing\<close>

definition metric_key :: "string \<Rightarrow> singleton_key option" where
  "metric_key metric = dict_get [(''system_health'', KSystemHealth), (''connection_latency'', KConnectionLatency),
     (''connection_latency_ms'', KConnectionLatency), (''last_event_age'', KLastEventAge),
     (''last_event_age_seconds'', KLastEventAge)] metric"

definition apply_inbox_count :: "int \<Rightarrow> coordinator \<Rightarrow> oid list \<times> coordinator" where
  "apply_inbox_count n = apply_to KInbox (update_value (JInt n) [])"

definition apply_daemon_connection :: "bool \<Rightarrow> coordinator \<Rightarrow> oid list \<times> coordinator" where
  "apply_daemon_connection b = apply_to KDaemonConnection (update_value (JBool b) [])"

definition apply_metric :: "string \<times> rat \<Rightarrow> coordinator \<Rightarrow> oid list \<times> coordinator" where
  "apply_metric m c = (case metric_key (fst m) of None \<Rightarrow> ([], c) | Some k \<Rightarrow> apply_to k (update_value (JFloat (snd m)) []) c)"

definition apply_reachable :: "string \<times> bool \<Rightarrow> coordinator \<Rightarrow> oid list \<times> coordinator" where
  "apply_reachable e = apply_to (KConnectivity (fst e)) (update_value (JBool (snd e)) [])"

definition apply_install_mode :: "string \<times> bool \<times> int \<Rightarrow> coordinator \<Rightarrow> oid list \<times> coordinator" where
  "apply_install_mode e c = (case e of (interface_id, enabled, remaining) \<Rightarrow>
     (case dict_get (hc_token_by_id c) interface_id of
        None \<Rightarrow> ([], c)
      | Some t \<Rightarrow> apply_to (KInstallSensor t) (update_value (JInt (if enabled then remaining else 0)) []) c))"

definition apply_aggregate :: "hub_data \<Rightarrow> coordinator \<Rightarrow> oid list \<times> coordinator" where
  "apply_aggregate d = apply_all
     ([apply_inbox_count (hd_inbox d), apply_daemon_connection (hd_daemon_connected d)]
      @ map apply_metric (or_no_entries (hd_metrics d)) @ map apply_reachable (or_no_entries (hd_connectivity d))
      @ map apply_install_mode (or_no_entries (hd_install_mode d)))"

text \<open>
  The lock of one message list. A task that finds it held waits, a turn at whose end the lock is its
  own; leaving the block releases it, cancelled or not.
\<close>

definition with_lock :: "oid \<Rightarrow> 'a hub_co \<Rightarrow> 'a hub_co" where
  "with_lock i m w =
     (let (r, w1) = (if i \<in> set (hc_locks (hw_hub w)) then await_turn w else (HubFails, w)) in
      if r = HubCancelled then (None, w1)
      else (let (x, w2) = m (w1\<lparr>hw_hub := (hw_hub w1)\<lparr>hc_locks := i # removeAll i (hc_locks (hw_hub w1))\<rparr>\<rparr>) in
        (x, w2\<lparr>hw_hub := (hw_hub w2)\<lparr>hc_locks := removeAll i (hc_locks (hw_hub w2))\<rparr>\<rparr>)))"

definition shows_count :: "int \<Rightarrow> oid \<Rightarrow> coordinator \<Rightarrow> bool" where
  "shows_count n i c = py_equal (JInt n) (sg_value (hc_heap c ! i))"

definition read_list ::
  "oid \<Rightarrow> api_call \<Rightarrow> (hub_body \<Rightarrow> 'm list option) \<Rightarrow> ('m \<Rightarrow> string option) \<Rightarrow> ('m list \<Rightarrow> singleton \<Rightarrow> bool \<times> singleton) \<Rightarrow> oid list hub_co" where
  "read_list i call read central upd =
     follow (hub_ask call read) (\<lambda>answer.
       case answer of
         None \<Rightarrow> finish []
       | Some ms \<Rightarrow> change (\<lambda>c. apply_at i (upd (filter (\<lambda>m. is_local (central m) c) ms)) c))"

definition refresh_message_list ::
  "singleton_key \<Rightarrow> int \<Rightarrow> api_call \<Rightarrow> (hub_body \<Rightarrow> 'm list option) \<Rightarrow> ('m \<Rightarrow> string option) \<Rightarrow> ('m list \<Rightarrow> singleton \<Rightarrow> bool \<times> singleton) \<Rightarrow> oid list hub_co" where
  "refresh_message_list k n call read central upd =
     follow (observe (slot k)) (\<lambda>dp.
       case dp of
         None \<Rightarrow> finish []
       | Some i \<Rightarrow>
           follow (observe (shows_count n i)) (\<lambda>same.
             if same then finish []
             else with_lock i (follow (observe (shows_count n i)) (\<lambda>same.
                if same then finish [] else read_list i call read central upd))))"

definition alarms_body :: "hub_body \<Rightarrow> alarm_message list option" where
  "alarms_body b = (case b of AlarmsBody x \<Rightarrow> Some x | _ \<Rightarrow> None)"

definition services_body :: "hub_body \<Rightarrow> service_message list option" where
  "services_body b = (case b of ServicesBody x \<Rightarrow> Some x | _ \<Rightarrow> None)"

definition refresh_alarm_messages :: "int \<Rightarrow> oid list hub_co" where
  "refresh_alarm_messages n =
     refresh_message_list KAlarmMessages n (Message ListAlarmMessages) alarms_body am_central update_alarm_messages"

definition refresh_service_messages :: "int \<Rightarrow> oid list hub_co" where
  "refresh_service_messages n =
     refresh_message_list KServiceMessages n (Message ListServiceMessages) services_body sm_central update_service_messages"

definition updates_body :: "hub_body \<Rightarrow> system_update_entry list option" where
  "updates_body b = (case b of UpdatesBody x \<Rightarrow> Some x | _ \<Rightarrow> None)"

definition on_slot :: "singleton_key \<Rightarrow> (oid \<Rightarrow> oid list hub_co) \<Rightarrow> oid list hub_co" where
  "on_slot k m = follow (observe (slot k)) (\<lambda>dp. case dp of None \<Rightarrow> finish [] | Some i \<Rightarrow> m i)"

definition fetch_system_update :: "oid list hub_co" where
  "fetch_system_update = on_slot KSystemUpdate (\<lambda>i.
     follow (hub_ask (Update GetSystemUpdate) updates_body) (\<lambda>answer.
        case answer of
          None \<Rightarrow> finish []
        | Some es \<Rightarrow> change (\<lambda>c. case filter (\<lambda>e. is_local (su_central e) c) es of
              [] \<Rightarrow> ([], c) | e # _ \<Rightarrow> apply_at i (update_data e) c)))"

definition fetch_addon_update :: "oid list hub_co" where
  "fetch_addon_update = on_slot KAddonUpdate (\<lambda>i.
     follow (hub_ask (Update GetAddonUpdateStatus) addon_body) (\<lambda>answer.
        case answer of None \<Rightarrow> finish [] | Some st \<Rightarrow> change (apply_at i (update_status st))))"

text \<open>The class sensor, built the first time its class appears; none without the domain.\<close>

definition ensure_class :: "(string \<Rightarrow> string) \<Rightarrow> string \<Rightarrow> coordinator \<Rightarrow> coordinator" where
  "ensure_class slugify cl c =
     (if slot (KClass cl) c \<noteq> None \<or> slot KSeverity c = None then c
      else install (KClass cl) (snd (apply_entity_names (hc_entity_names c) (security_class_dp slugify cl))) c)"

definition apply_class :: "(string \<Rightarrow> string) \<Rightarrow> string \<Rightarrow> bool \<Rightarrow> string option \<Rightarrow> alarm_source list \<Rightarrow> coordinator \<Rightarrow> oid list \<times> coordinator" where
  "apply_class slugify cl active severity sources c = apply_to (KClass cl) (update_class active severity sources) (ensure_class slugify cl c)"

definition apply_security :: "(string \<Rightarrow> string) \<Rightarrow> security_snapshot \<Rightarrow> coordinator \<Rightarrow> oid list \<times> coordinator" where
  "apply_security slugify sn = apply_all
     ([apply_to KSeverity (update_severity (sn_severity sn) (active_hazard_sources sn) (sn_index_healthy sn)),
       apply_to KFaults (update_faults (or_no_entries (sn_faults sn))),
       apply_to KAlarmReport (update_report (sn_last_alarm sn)),
       apply_to KFaultReport (update_report (sn_last_fault sn))]
      @ map (\<lambda>st. apply_class slugify (cs_class st) (cs_active st) (Some (cs_severity st)) (or_no_entries (cs_sources st))) (sn_classes sn))"

definition refresh_security :: "oid list hub_co" where
  "refresh_security = on_slot KSeverity (\<lambda>_.
     follow ask_security (\<lambda>snapshot. follow slugified (\<lambda>slugify.
        case snapshot of None \<Rightarrow> finish [] | Some sn \<Rightarrow> change (apply_security slugify sn))))"

definition aggregate_body :: "hub_body \<Rightarrow> hub_data list option" where
  "aggregate_body b = (case b of AggregateBody x \<Rightarrow> Some x | _ \<Rightarrow> None)"

definition refresh_all :: "hub_data \<Rightarrow> oid list hub_co" where
  "refresh_all d =
     follow (change (apply_aggregate d)) (\<lambda>a.
     follow (refresh_alarm_messages (hd_alarm_count d)) (\<lambda>b.
     follow (refresh_service_messages (hd_service_count d)) (\<lambda>c.
     follow fetch_system_update (\<lambda>d.
     follow fetch_addon_update (\<lambda>e.
     follow refresh_security (\<lambda>f. finish (a @ b @ c @ d @ e @ f)))))))"

definition fetch_hub_singleton_data :: "unit hub_co" where
  "fetch_hub_singleton_data =
     follow ensure_singletons (\<lambda>_.
     follow (hub_ask (Update GetHubDataPoints) aggregate_body) (\<lambda>aggregate.
     case aggregate of
       None \<Rightarrow> finish ()
     | Some ds \<Rightarrow>
         follow (observe (\<lambda>c. filter (\<lambda>d. is_local (hd_central d) c) ds)) (\<lambda>mine.
           case mine of [] \<Rightarrow> finish () | d # _ \<Rightarrow> follow (refresh_all d) publish_each)))"

section \<open>Pushes\<close>

datatype hub_push =
    InboxPush string int
  | MetricsPush string string rat
  | ConnectivityPush string string bool
  | AlarmCountPush string int
  | ServiceCountPush string int
  | SystemUpdatePush system_update_entry
  | AddonPush addon_status
  | InstallModePush string bool int
  | DaemonStatusPush string
  | DaemonLatencyPush rat
  | SecurityStatePush string
  | SecurityClassPush string bool "alarm_source list option"
  | SecurityFaultPush int
  | SecurityNotificationPush bool security_report

definition faults_body :: "hub_body \<Rightarrow> security_fault list option" where
  "faults_body b = (case b of FaultsBody x \<Rightarrow> Some x | _ \<Rightarrow> None)"

definition apply_and_publish :: "(coordinator \<Rightarrow> oid list \<times> coordinator) \<Rightarrow> unit hub_co" where
  "apply_and_publish f = follow (change f) publish_each"

definition if_local :: "string \<Rightarrow> unit hub_co \<Rightarrow> unit hub_co" where
  "if_local central m = follow (observe (is_local (Some central))) (\<lambda>mine. if mine then m else finish ())"

definition install_sensors :: "coordinator \<Rightarrow> singleton_key list" where
  "install_sensors c = filter (\<lambda>k. case k of KInstallSensor _ \<Rightarrow> True | _ \<Rightarrow> False) (dict_keys (hc_slots c))"

definition on_security_fault :: "int \<Rightarrow> unit hub_co" where
  "on_security_fault open_count = follow (observe (slot KFaults)) (\<lambda>dp.
     case dp of
       None \<Rightarrow> finish ()
     | Some i \<Rightarrow>
         follow (hub_ask (Security ListFaults) faults_body) (\<lambda>answer.
           case answer of
             None \<Rightarrow> apply_and_publish (\<lambda>c. apply_at i (update_value (JInt open_count) (sg_attributes (hc_heap c ! i))) c)
           | Some fs \<Rightarrow> apply_and_publish (apply_at i (update_faults fs))))"

fun on_push :: "hub_push \<Rightarrow> unit hub_co" where
  "on_push (InboxPush central n) = if_local central (apply_and_publish (apply_inbox_count n))"
| "on_push (MetricsPush central metric v) = if_local central (apply_and_publish (apply_metric (metric, v)))"
| "on_push (ConnectivityPush central i reachable) = if_local central (apply_and_publish (apply_reachable (i, reachable)))"
| "on_push (AlarmCountPush central n) = if_local central (follow (refresh_alarm_messages n) publish_each)"
| "on_push (ServiceCountPush central n) = if_local central (follow (refresh_service_messages n) publish_each)"
| "on_push (SystemUpdatePush e) = follow (observe (is_local (su_central e))) (\<lambda>mine.
     if mine then apply_and_publish (apply_to KSystemUpdate (update_data e)) else finish ())"
| "on_push (AddonPush st) = apply_and_publish (apply_to KAddonUpdate (update_status st))"
| "on_push (InstallModePush central enabled remaining) = if_local central (apply_and_publish (\<lambda>c.
     apply_all (map (\<lambda>k. apply_to k (update_value (JInt (if enabled then remaining else 0)) [])) (install_sensors c)) c))"
| "on_push (DaemonStatusPush status) = apply_and_publish (apply_daemon_connection (status = ''online''))"
| "on_push (DaemonLatencyPush ms) = apply_and_publish (apply_to KDaemonLatency (update_value (JFloat ms) []))"
| "on_push (SecurityStatePush severity) = apply_and_publish (apply_to KSeverity (update_severity severity [] None))"
| "on_push (SecurityClassPush cl active sources) = follow slugified (\<lambda>slugify.
     apply_and_publish (apply_class slugify cl active None (or_no_entries sources)))"
| "on_push (SecurityFaultPush n) = on_security_fault n"
| "on_push (SecurityNotificationPush fault r) =
     apply_and_publish (apply_to (if fault then KFaultReport else KAlarmReport) (update_report (Some r)))"

section \<open>The buttons\<close>

definition activate :: "string \<Rightarrow> int \<Rightarrow> bool hub_co" where
  "activate interface seconds =
     follow (needed (hub_ask (Install (SetInstallModeInterface interface True seconds)) Some)) (\<lambda>_.
     follow (change (apply_to (KInstallSensor interface) (update_value (JInt seconds) []))) (\<lambda>_. finish True))"

definition deactivate :: "string \<Rightarrow> bool hub_co" where
  "deactivate interface =
     follow (needed (hub_ask (Install (SetInstallModeInterface interface False 0)) Some)) (\<lambda>_.
     follow (change (apply_to (KInstallSensor interface) (update_value (JInt 0) []))) (\<lambda>_. finish True))"

definition install_ccu_update :: "bool hub_co" where
  "install_ccu_update = follow (observe (\<lambda>c. central_name (hc_store c))) (\<lambda>central.
     follow (needed (hub_ask (Update (InstallSystemUpdate (if central = '''' then None else Some central) False)) Some)) (\<lambda>_.
     follow (change (apply_to KSystemUpdate (\<lambda>sg. (True, installing sg)))) (\<lambda>_. finish True)))"

definition install_addon_update :: "bool hub_co" where
  "install_addon_update =
     follow (needed (hub_ask (Update InstallAddonUpdate) Some)) (\<lambda>_.
     follow (change (apply_to KAddonUpdate (\<lambda>sg. (True, installing sg)))) (\<lambda>_. finish True))"

section \<open>Variables and programs\<close>

definition sysvars_body :: "hub_body \<Rightarrow> sysvar_summary list option" where
  "sysvars_body b = (case b of SysvarsBody x \<Rightarrow> Some x | _ \<Rightarrow> None)"

definition programs_body :: "hub_body \<Rightarrow> program_summary list option" where
  "programs_body b = (case b of ProgramsBody x \<Rightarrow> Some x | _ \<Rightarrow> None)"

text \<open>The value of a categorised variable: an index into the value list becomes its option.\<close>

definition value_list_of :: "sysvar_summary \<Rightarrow> json list" where
  "value_list_of sm = (case rest_value (sv_rest sm) ''value_list'' of JArr xs \<Rightarrow> xs | _ \<Rightarrow> [])"

definition sysvar_value :: "sysvar_obj \<Rightarrow> json" where
  "sysvar_value v =
     (let raw = sv_value (so_summary v); options = value_list_of (so_summary v) in
      if so_plain v \<or> options = [] \<or> raw = JNull then raw
      else (case py_int raw of
          None \<Rightarrow> raw
        | Some i \<Rightarrow> if 0 \<le> i \<and> i < int (length options) then options ! nat i else raw))"

definition shown_sysvar :: "string \<Rightarrow> store \<Rightarrow> json option" where
  "shown_sysvar name s = map_option sysvar_value (reg_get (st_sysvars s) name)"

definition upsert_and_compare :: "sysvar_summary \<Rightarrow> coordinator \<Rightarrow> oid list \<times> coordinator" where
  "upsert_and_compare sm c =
     (let previous = shown_sysvar (sv_name sm) (hc_store c);
          s = upsert_sysvar sm (hc_store c);
          moved = (case (previous, shown_sysvar (sv_name sm) s) of
              (_, None) \<Rightarrow> False | (None, Some _) \<Rightarrow> True | (Some p, Some v) \<Rightarrow> \<not> py_equal v p)
      in (if moved then (case reg_ref (st_sysvars s) (sv_name sm) of None \<Rightarrow> [] | Some i \<Rightarrow> [i]) else [],
          c\<lparr>hc_store := s\<rparr>))"

definition rest_unique_id :: "json \<Rightarrow> string" where
  "rest_unique_id j = (case rest_value j ''unique_id'' of JStr s \<Rightarrow> s | _ \<Rightarrow> '''')"

definition publish_sysvar :: "oid \<Rightarrow> unit hub_co" where
  "publish_sysvar i w = (let v = reg_heap (st_sysvars (hc_store (hw_hub w))) ! i in
     hub_publish (rest_unique_id (sv_rest (so_summary v))) (sysvar_value v) w)"

fun publish_sysvars :: "oid list \<Rightarrow> unit hub_co" where
  "publish_sysvars [] = finish ()"
| "publish_sysvars (i # rest) = follow (publish_sysvar i) (\<lambda>_. publish_sysvars rest)"

definition fetch_sysvar_data :: "unit hub_co" where
  "fetch_sysvar_data =
     follow (needed (hub_ask (Sysvar ListSysvars) sysvars_body)) (\<lambda>sms.
     follow (change (apply_all (map upsert_and_compare sms))) publish_sysvars)"

definition json_of_flag :: "bool option \<Rightarrow> json" where
  "json_of_flag b = (case b of None \<Rightarrow> JNull | Some x \<Rightarrow> JBool x)"

definition upsert_program_here :: "program_summary \<Rightarrow> coordinator \<Rightarrow> bool \<times> coordinator" where
  "upsert_program_here sm c =
     (let previous = map_option (\<lambda>p. pg_active (po_summary p)) (reg_get (st_programs (hc_store c)) (pg_id sm)) in
      (Some (pg_active sm) \<noteq> previous \<and> rest_unique_id (pg_rest sm) \<noteq> '''',
       c\<lparr>hc_store := upsert_program sm (hc_store c)\<rparr>))"

fun read_programs :: "program_summary list \<Rightarrow> unit hub_co" where
  "read_programs [] = finish ()"
| "read_programs (sm # sms) =
     follow (change (upsert_program_here sm)) (\<lambda>moved.
     follow (if moved then hub_publish (rest_unique_id (pg_rest sm)) (json_of_flag (pg_active sm)) else finish ())
       (\<lambda>_. read_programs sms))"

definition fetch_program_data :: "unit hub_co" where
  "fetch_program_data = follow (needed (hub_ask (Prog ListPrograms) programs_body)) read_programs"

text \<open>The entity class of a variable.\<close>

datatype sysvar_class = SysvarSwitch | SysvarBinarySensor | SysvarNumber | SysvarSensor | SysvarText | SysvarSelect

definition resolve_sysvar_class :: "string \<Rightarrow> bool \<Rightarrow> sysvar_class" where
  "resolve_sysvar_class token extended =
     (if token = ''ALARM'' \<or> token = ''LOGIC'' then if extended then SysvarSwitch else SysvarBinarySensor
      else if extended \<and> token = ''LIST'' then SysvarSelect
      else if extended \<and> (token = ''FLOAT'' \<or> token = ''INTEGER'') then SysvarNumber
      else if extended \<and> token = ''STRING'' then SysvarText
      else SysvarSensor)"

end
