(* ===== verification/HubProps.thy ===== *)
theory HubProps
  imports HubCoordinator
begin

text \<open>What the hub coordinator of HubCoordinator.thy guarantees.\<close>

section \<open>Objects keep their identity\<close>

definition identity :: "singleton \<Rightarrow> hub_root \<times> string" where
  "identity sg = (sg_root sg, sg_slug sg)"

lemma update_value_shows:
  "py_equal v (sg_value (snd (update_value v a sg))) \<and> py_equal (JObj a) (JObj (sg_attributes (snd (update_value v a sg))))"
  by (simp add: update_value_def del: py_equal.simps)

text \<open>An operation that answers truly whether it changed its object, and keeps the object's identity.\<close>

definition honest :: "(singleton \<Rightarrow> bool \<times> singleton) \<Rightarrow> bool" where
  "honest f \<longleftrightarrow> (\<forall>sg. (\<not> fst (f sg) \<longrightarrow> snd (f sg) = sg) \<and> identity (snd (f sg)) = identity sg)"

named_theorems honest_intros

lemma honest_update_value [honest_intros, simp]: "honest (update_value v a)"
  by (simp add: honest_def update_value_def identity_def)

lemma honest_set_facet [honest_intros, simp]: "honest (set_facet f)"
  by (simp add: honest_def set_facet_def identity_def)

lemma honest_update_data [honest_intros, simp]: "honest (update_data e)"
  unfolding update_data_def by simp

lemma honest_update_status [honest_intros, simp]: "honest (update_status st)"
  unfolding update_status_def by simp

lemma honest_alarms [honest_intros, simp]: "honest (update_alarm_messages ms)"
  unfolding update_alarm_messages_def by simp

lemma honest_services [honest_intros, simp]: "honest (update_service_messages ms)"
  unfolding update_service_messages_def by simp

lemma honest_faults [honest_intros, simp]: "honest (update_faults fs)"
  unfolding update_faults_def by simp

lemma honest_report [honest_intros, simp]: "honest (update_report r)"
  unfolding update_report_def by (cases r) simp_all

lemma honest_class [honest_intros, simp]: "honest (update_class b s srcs)"
  by (simp add: honest_def update_class_def update_value_def identity_def Let_def)

lemma honest_severity [honest_intros, simp]: "honest (update_severity s srcs h)"
  by (auto simp: honest_def update_severity_def update_value_def set_facet_def identity_def Let_def split: prod.splits)

section \<open>Well-formed coordinators\<close>

definition hub_ok :: "coordinator \<Rightarrow> bool" where
  "hub_ok c \<longleftrightarrow> list_all (\<lambda>(k, i). i < length (hc_heap c)) (hc_slots c)"

lemma slot_in_heap: "hub_ok c \<Longrightarrow> slot k c = Some i \<Longrightarrow> i < length (hc_heap c)"
  unfolding hub_ok_def slot_def by (auto simp: list_all_iff dest: map_of_SomeD)

text \<open>From one coordinator to the next, with the objects reported: nothing that was there has moved unreported.\<close>

definition reported :: "coordinator \<Rightarrow> oid list \<Rightarrow> coordinator \<Rightarrow> bool" where
  "reported c xs c' \<longleftrightarrow> length (hc_heap c) \<le> length (hc_heap c') \<and> (hub_ok c \<longrightarrow> hub_ok c')
     \<and> hc_built c' = hc_built c \<and> hc_store c' = hc_store c
     \<and> (\<forall>i < length (hc_heap c). identity (hc_heap c' ! i) = identity (hc_heap c ! i)
          \<and> (i \<notin> set xs \<longrightarrow> hc_heap c' ! i = hc_heap c ! i))"

lemma reported_refl [simp]: "reported c [] c"
  by (simp add: reported_def)

lemma reported_trans: "reported c xs d \<Longrightarrow> reported d ys e \<Longrightarrow> reported c (xs @ ys) e"
  unfolding reported_def by auto

lemma apply_at_nth:
  assumes "j < length (hc_heap c)"
  shows "hc_heap (snd (apply_at i f c)) ! j = (if j = i then snd (f (hc_heap c ! i)) else hc_heap c ! j)"
  using assms by (simp add: apply_at_def mutate_def nth_list_update Let_def split: prod.splits)

lemma apply_at_rest:
  "length (hc_heap (snd (apply_at i f c))) = length (hc_heap c)" "hc_built (snd (apply_at i f c)) = hc_built c"
  "hc_store (snd (apply_at i f c)) = hc_store c" "hc_slots (snd (apply_at i f c)) = hc_slots c"
  "fst (apply_at i f c) = (if fst (f (hc_heap c ! i)) then [i] else [])"
  by (simp_all add: apply_at_def Let_def split: prod.splits)

lemma reported_apply_at:
  assumes "honest f"
  shows "reported c (fst (apply_at i f c)) (snd (apply_at i f c))"
proof -
  have keep: "identity (snd (f sg)) = identity sg" "\<not> fst (f sg) \<Longrightarrow> snd (f sg) = sg" for sg
    using assms by (simp_all add: honest_def)
  have "identity (hc_heap (snd (apply_at i f c)) ! j) = identity (hc_heap c ! j)
      \<and> (j \<notin> set (fst (apply_at i f c)) \<longrightarrow> hc_heap (snd (apply_at i f c)) ! j = hc_heap c ! j)"
    if "j < length (hc_heap c)" for j
    by (simp add: apply_at_nth [OF that] apply_at_rest keep)
  then show ?thesis by (simp add: reported_def hub_ok_def apply_at_rest)
qed

lemma reported_apply_to: "honest f \<Longrightarrow> reported c (fst (apply_to k f c)) (snd (apply_to k f c))"
  by (simp add: apply_to_def reported_apply_at split: option.splits)

lemma set_dict_put: "p \<in> set (dict_put k v d) \<Longrightarrow> p = (k, v) \<or> p \<in> set d"
  by (induction d) (auto split: if_splits)

lemma hub_ok_install:
  assumes "hub_ok c"
  shows "hub_ok (install k sg c)"
proof -
  have "i < Suc (length (hc_heap c))" if "(k', i) \<in> set (dict_put k (length (hc_heap c)) (hc_slots c))" for k' i
    using set_dict_put [OF that] assms unfolding hub_ok_def list_all_iff by fastforce
  then show ?thesis by (auto simp: hub_ok_def install_def alloc_def list_all_iff)
qed

lemma reported_install [simp]: "reported c [] (install k sg c)"
  using hub_ok_install [of c k sg] by (simp add: reported_def install_def alloc_def nth_append)

lemma reported_fields [simp]:
  "reported c xs (d\<lparr>hc_locks := ls\<rparr>) = reported c xs d" "reported (c\<lparr>hc_locks := ls\<rparr>) xs d = reported c xs d"
  by (simp_all add: reported_def hub_ok_def)

lemma reported_apply_all:
  "list_all (\<lambda>m. \<forall>c. reported c (fst (m c)) (snd (m c))) ms \<Longrightarrow> reported c (fst (apply_all ms c)) (snd (apply_all ms c))"
proof (induction ms arbitrary: c)
  case Nil
  then show ?case by simp
next
  case (Cons m ms)
  have "reported c (fst (m c)) (snd (m c))" using Cons.prems by simp
  moreover have "reported (snd (m c)) (fst (apply_all ms (snd (m c)))) (snd (apply_all ms (snd (m c))))"
    using Cons.IH Cons.prems by simp
  ultimately have "reported c (fst (m c) @ fst (apply_all ms (snd (m c)))) (snd (apply_all ms (snd (m c))))"
    by (rule reported_trans)
  then show ?case by (simp add: Let_def case_prod_unfold)
qed

lemma reported_aggregate: "reported c (fst (apply_aggregate d c)) (snd (apply_aggregate d c))"
  unfolding apply_aggregate_def
  by (rule reported_apply_all)
    (auto simp: list_all_iff apply_inbox_count_def apply_daemon_connection_def apply_metric_def apply_reachable_def
      apply_install_mode_def reported_apply_to split: option.splits)

lemma reported_class:
  "reported c (fst (apply_class slugify cl active sev srcs c)) (snd (apply_class slugify cl active sev srcs c))"
proof -
  let ?d = "ensure_class slugify cl c"
  have "reported c [] ?d" by (simp add: ensure_class_def)
  moreover have "reported ?d (fst (apply_to (KClass cl) (update_class active sev srcs) ?d))
      (snd (apply_to (KClass cl) (update_class active sev srcs) ?d))"
    by (rule reported_apply_to) simp
  ultimately show ?thesis unfolding apply_class_def using reported_trans by fastforce
qed

lemma reported_security: "reported c (fst (apply_security slugify sn c)) (snd (apply_security slugify sn c))"
  unfolding apply_security_def
  by (rule reported_apply_all) (auto simp: list_all_iff reported_apply_to reported_class)

section \<open>Methods that report what they move\<close>

definition calm :: "hub_world \<Rightarrow> bool" where
  "calm w \<longleftrightarrow> (\<forall>n. ht_others (hw_env w n) = id)"

definition reports :: "hub_world \<Rightarrow> oid list \<Rightarrow> hub_world \<Rightarrow> bool" where
  "reports w xs w' \<longleftrightarrow> reported (hw_hub w) xs (hw_hub w') \<and> hw_events w' = hw_events w \<and> hw_env w' = hw_env w
     \<and> hw_upstream w' = hw_upstream w"

definition reporting :: "('a \<Rightarrow> oid list) \<Rightarrow> 'a hub_co \<Rightarrow> bool" where
  "reporting f m \<longleftrightarrow> (\<forall>w x w'. calm w \<longrightarrow> m w = (Some x, w') \<longrightarrow> reports w (f x) w')"

named_theorems reporting_intros

lemma reporting_finish [reporting_intros]: "f x = [] \<Longrightarrow> reporting f (finish x)"
  by (simp add: reporting_def finish_def reports_def)

lemma reporting_observe [reporting_intros]: "reporting (\<lambda>_. []) (observe g)"
  by (simp add: reporting_def observe_def reports_def)

lemma reporting_slugified [reporting_intros]: "reporting (\<lambda>_. []) slugified"
  by (simp add: reporting_def slugified_def reports_def)

lemma reporting_ask [reporting_intros]: "reporting (\<lambda>_. []) (hub_ask c f)"
  by (auto simp: reporting_def hub_ask_def reports_def await_turn_def calm_def Let_def split: hub_reply.splits)

lemma reporting_change [reporting_intros]:
  "(\<And>c. reported c (fst (m c)) (snd (m c))) \<Longrightarrow> reporting id (change m)"
  by (auto simp: reporting_def change_def reports_def Let_def split: prod.splits) (metis fst_conv snd_conv)

lemma reports_trans: "reports u xs v \<Longrightarrow> reports v ys w \<Longrightarrow> reports u (xs @ ys) w"
  unfolding reports_def using reported_trans by auto

lemma reports_calm: "reports w xs w' \<Longrightarrow> calm w \<Longrightarrow> calm w'"
  by (simp add: reports_def calm_def)

lemma follow_Some:
  assumes "follow m k w = (Some y, w')"
  obtains x w1 where "m w = (Some x, w1)" and "k x w1 = (Some y, w')"
proof (cases "m w")
  case (Pair r w1)
  then show ?thesis using assms that by (cases r) (auto simp: follow_def)
qed

lemma reporting_quiet:
  assumes "reporting (\<lambda>_. []) m" and "\<And>x. reporting f (k x)"
  shows "reporting f (follow m k)"
  unfolding reporting_def
proof (intro allI impI)
  fix w y w' assume w: "calm w" and run: "follow m k w = (Some y, w')"
  obtain x w1 where m: "m w = (Some x, w1)" and k: "k x w1 = (Some y, w')" using run by (rule follow_Some)
  have a: "reports w [] w1" using assms(1) w m by (auto simp: reporting_def)
  have "reports w1 (f y) w'" using assms(2) reports_calm [OF a w] k by (auto simp: reporting_def)
  then show "reports w (f y) w'" using reports_trans [OF a] by fastforce
qed

lemma reporting_option:
  "reporting f m \<Longrightarrow> (\<And>x. reporting f (k x)) \<Longrightarrow> reporting f (case y of None \<Rightarrow> m | Some x \<Rightarrow> k x)"
  by (cases y) auto

lemma reporting_if: "reporting f m \<Longrightarrow> reporting f k \<Longrightarrow> reporting f (if b then m else k)"
  by simp

lemma reporting_with_lock:
  assumes "reporting f m"
  shows "reporting f (with_lock i m)"
  unfolding reporting_def
proof (intro allI impI)
  fix w x w' assume w: "calm w" and run: "with_lock i m w = (Some x, w')"
  obtain r w1 where start: "(if i \<in> set (hc_locks (hw_hub w)) then await_turn w else (HubFails, w)) = (r, w1)"
    by fastforce
  define w2 where "w2 = w1\<lparr>hw_hub := (hw_hub w1)\<lparr>hc_locks := i # removeAll i (hc_locks (hw_hub w1))\<rparr>\<rparr>"
  have one: "reports w [] w2"
    using start w by (auto simp: w2_def reports_def await_turn_def calm_def Let_def split: if_splits)
  obtain w3 where m: "m w2 = (Some x, w3)"
    and w': "w' = w3\<lparr>hw_hub := (hw_hub w3)\<lparr>hc_locks := removeAll i (hc_locks (hw_hub w3))\<rparr>\<rparr>"
    using run start by (auto simp: with_lock_def w2_def split: prod.splits if_splits)
  have "reports w2 (f x) w3" using assms reports_calm [OF one w] m by (simp add: reporting_def)
  then have "reports w2 (f x) w'" by (simp add: w' reports_def)
  then show "reports w (f x) w'" using reports_trans [OF one] by fastforce
qed

lemma reporting_read_list: "(\<And>ms. honest (upd ms)) \<Longrightarrow> reporting id (read_list i call read central upd)"
  unfolding read_list_def
  by (intro reporting_quiet reporting_ask reporting_option reporting_finish reporting_change reported_apply_at) simp_all

lemma reporting_message_list:
  "(\<And>ms. honest (upd ms)) \<Longrightarrow> reporting id (refresh_message_list k n call read central upd)"
  unfolding refresh_message_list_def
  by (intro reporting_quiet reporting_observe reporting_option reporting_if reporting_with_lock reporting_finish
      reporting_read_list) simp_all

lemma reporting_on_slot: "(\<And>i. reporting id (m i)) \<Longrightarrow> reporting id (on_slot k m)"
  unfolding on_slot_def by (intro reporting_quiet reporting_observe reporting_option reporting_finish) simp_all

lemma reporting_system_update: "reporting id fetch_system_update"
  unfolding fetch_system_update_def
  by (intro reporting_on_slot reporting_quiet reporting_ask reporting_option reporting_finish reporting_change)
    (auto simp: reported_apply_at split: list.splits)

lemma reporting_addon_update: "reporting id fetch_addon_update"
  unfolding fetch_addon_update_def
  by (intro reporting_on_slot reporting_quiet reporting_ask reporting_option reporting_finish reporting_change
      reported_apply_at) simp_all

lemma reporting_security: "reporting id refresh_security"
  unfolding refresh_security_def ask_security_def
  by (intro reporting_on_slot reporting_quiet reporting_ask reporting_slugified reporting_option reporting_finish
      reporting_change reported_security) simp_all

lemma reportingD: "reporting id m \<Longrightarrow> calm w \<Longrightarrow> m w = (Some x, w') \<Longrightarrow> reports w x w'"
  by (simp add: reporting_def)

lemma reporting_alarms: "reporting id (refresh_alarm_messages n)"
  unfolding refresh_alarm_messages_def by (rule reporting_message_list) simp

lemma reporting_services: "reporting id (refresh_service_messages n)"
  unfolding refresh_service_messages_def by (rule reporting_message_list) simp

lemma reporting_aggregate: "reporting id (change (apply_aggregate d))"
  by (rule reporting_change) (rule reported_aggregate)

lemma refresh_all_reports:
  assumes "calm w" and "refresh_all d w = (Some xs, w')"
  shows "reports w xs w'"
proof -
  obtain a w1 where a: "change (apply_aggregate d) w = (Some a, w1)"
    and r1: "follow (refresh_alarm_messages (hd_alarm_count d)) (\<lambda>b. follow (refresh_service_messages (hd_service_count d)) (\<lambda>c.
     follow fetch_system_update (\<lambda>d. follow fetch_addon_update (\<lambda>e. follow refresh_security (\<lambda>f.
       finish (a @ b @ c @ d @ e @ f)))))) w1 = (Some xs, w')"
    using assms(2) unfolding refresh_all_def by (rule follow_Some)
  obtain b w2 where b: "refresh_alarm_messages (hd_alarm_count d) w1 = (Some b, w2)"
    and r2: "follow (refresh_service_messages (hd_service_count d)) (\<lambda>c.
     follow fetch_system_update (\<lambda>d. follow fetch_addon_update (\<lambda>e. follow refresh_security (\<lambda>f.
       finish (a @ b @ c @ d @ e @ f))))) w2 = (Some xs, w')"
    using r1 by (rule follow_Some)
  obtain c w3 where c: "refresh_service_messages (hd_service_count d) w2 = (Some c, w3)"
    and r3: "follow fetch_system_update (\<lambda>d. follow fetch_addon_update (\<lambda>e. follow refresh_security (\<lambda>f.
       finish (a @ b @ c @ d @ e @ f)))) w3 = (Some xs, w')"
    using r2 by (rule follow_Some)
  obtain e w4 where e: "fetch_system_update w3 = (Some e, w4)"
    and r4: "follow fetch_addon_update (\<lambda>g. follow refresh_security (\<lambda>f. finish (a @ b @ c @ e @ g @ f))) w4 = (Some xs, w')"
    using r3 by (rule follow_Some)
  obtain g w5 where g: "fetch_addon_update w4 = (Some g, w5)"
    and r5: "follow refresh_security (\<lambda>f. finish (a @ b @ c @ e @ g @ f)) w5 = (Some xs, w')"
    using r4 by (rule follow_Some)
  obtain h w6 where h: "refresh_security w5 = (Some h, w6)"
    and r6: "finish (a @ b @ c @ e @ g @ h) w6 = (Some xs, w')"
    using r5 by (rule follow_Some)
  note s1 = reportingD [OF reporting_aggregate assms(1) a]
  note s2 = reportingD [OF reporting_alarms reports_calm [OF s1 assms(1)] b]
  note t2 = reports_trans [OF s1 s2]
  note s3 = reportingD [OF reporting_services reports_calm [OF t2 assms(1)] c]
  note t3 = reports_trans [OF t2 s3]
  note s4 = reportingD [OF reporting_system_update reports_calm [OF t3 assms(1)] e]
  note t4 = reports_trans [OF t3 s4]
  note s5 = reportingD [OF reporting_addon_update reports_calm [OF t4 assms(1)] g]
  note t5 = reports_trans [OF t4 s5]
  note s6 = reportingD [OF reporting_security reports_calm [OF t5 assms(1)] h]
  show ?thesis using reports_trans [OF t5 s6] r6 by (simp add: finish_def)
qed

section \<open>Announcing\<close>

definition announcement :: "hub_world \<Rightarrow> oid \<Rightarrow> state_event" where
  "announcement w i = (let sg = hc_heap (hw_hub w) ! i in
     \<lparr>he_unique_id = unique_id_of (hw_upstream w) (st_serial_suffix (hc_store (hw_hub w))) sg, he_value = sg_value sg\<rparr>)"

lemma publish_one_calm:
  assumes "calm w" and "publish_one i w = (Some u, w')"
  shows "hw_events w' = hw_events w @ [announcement w i] \<and> hw_hub w' = hw_hub w \<and> hw_upstream w' = hw_upstream w
    \<and> hw_env w' = hw_env w"
  using assms
  by (auto simp: publish_one_def hub_publish_def announcement_def await_turn_def calm_def Let_def split: if_splits)

lemma publish_each_calm:
  "calm w \<Longrightarrow> publish_each xs w = (Some u, w') \<Longrightarrow>
     hw_events w' = hw_events w @ map (announcement w) xs \<and> hw_hub w' = hw_hub w \<and> hw_upstream w' = hw_upstream w"
proof (induction xs arbitrary: w)
  case Nil
  then show ?case by (simp add: finish_def)
next
  case (Cons i xs)
  obtain v w1 where one: "publish_one i w = (Some v, w1)" and rest: "publish_each xs w1 = (Some u, w')"
    using Cons.prems(2) by (auto elim: follow_Some)
  note first = publish_one_calm [OF Cons.prems(1) one]
  have "calm w1" using Cons.prems(1) first by (simp add: calm_def)
  moreover have "announcement w1 = announcement w" using first by (simp add: announcement_def fun_eq_iff)
  ultimately show ?case using Cons.IH [OF _ rest] first by simp
qed

text \<open>C27: When nothing else runs, a refresh of built singletons announces every object that has moved, with
  the value it shows in the end, whatever the calls answer or fail; its events are the announcements
  of the objects it reports, and an object that moved is among them.
\<close>

theorem fetch_announces_moves:
  assumes "hc_built (hw_hub w)" and "hub_ok (hw_hub w)" and "calm w"
    and "fetch_hub_singleton_data w = (Some (), w')"
  shows "\<exists>xs. hw_events w' = hw_events w @ map (announcement w') xs
    \<and> list_all (\<lambda>i. hc_heap (hw_hub w') ! i = hc_heap (hw_hub w) ! i \<or> i \<in> set xs) [0..<length (hc_heap (hw_hub w))]"
proof -
  have ready: "ensure_singletons w = (Some (), w)"
    using assms(1) by (simp add: ensure_singletons_def follow_def observe_def finish_def)
  obtain answer w1 where ask: "hub_ask (Update GetHubDataPoints) aggregate_body w = (Some answer, w1)"
    and run: "(case answer of None \<Rightarrow> finish ()
     | Some ds \<Rightarrow> follow (observe (\<lambda>c. filter (\<lambda>d. is_local (hd_central d) c) ds)) (\<lambda>mine.
           case mine of [] \<Rightarrow> finish () | d # _ \<Rightarrow> follow (refresh_all d) publish_each)) w1 = (Some (), w')"
    using assms(4) ready unfolding fetch_hub_singleton_data_def by (auto simp: follow_def split: prod.splits option.splits)
  have first: "reports w [] w1"
    using reporting_ask [of "Update GetHubDataPoints" aggregate_body] assms(3) ask by (simp add: reporting_def)
  show ?thesis
  proof (cases "w1 = w'")
    case True
    then show ?thesis using first by (intro exI [of _ "[]"]) (auto simp: reports_def reported_def list_all_iff)
  next
    case False
    then obtain d xs w2 where refresh: "refresh_all d w1 = (Some xs, w2)" and publish: "publish_each xs w2 = (Some (), w')"
      using run by (auto simp: finish_def observe_def follow_def split: option.splits list.splits prod.splits)
    have calm: "calm w1" using reports_calm [OF first assms(3)] .
    have moved: "reports w xs w2" using reports_trans [OF first refresh_all_reports [OF calm refresh]] by simp
    note events = publish_each_calm [OF reports_calm [OF moved assms(3)] publish]
    have "announcement w' = announcement w2" using events by (simp add: announcement_def fun_eq_iff)
    then show ?thesis using moved events
      by (intro exI [of _ xs]) (auto simp: reports_def reported_def list_all_iff)
  qed
qed

definition demo_hub :: coordinator where
  "demo_hub = (install KInbox inbox_sensor (new_coordinator (empty_store None 10)))\<lparr>hc_built := True\<rparr>"

definition demo_data :: hub_data where
  "demo_data = \<lparr>hd_central = None, hd_alarm_count = 0, hd_service_count = 0, hd_inbox = 2, hd_daemon_connected = True,
     hd_metrics = None, hd_connectivity = None, hd_install_mode = None\<rparr>"

definition demo_world :: "coordinator \<Rightarrow> hub_reply \<Rightarrow> hub_world" where
  "demo_world c r = \<lparr>hw_hub = c, hw_env = (\<lambda>n. \<lparr>ht_others = id, ht_reply = r\<rparr>), hw_turn = 0, hw_sent = [], hw_events = [],
     hw_upstream = \<lparr>up_address = (\<lambda>_. ''hub''), up_canonical = (\<lambda>s a p. a @ p)\<rparr>, hw_slugify = id\<rparr>"

lemma demo_fetch:
  "fst (fetch_hub_singleton_data (demo_world demo_hub (HubAnswer (AggregateBody [demo_data])))) = Some ()"
  by (simp add: demo_world_def demo_hub_def demo_data_def fetch_hub_singleton_data_def ensure_singletons_def follow_def
      observe_def finish_def hub_ask_def await_turn_def aggregate_body_def is_local_def matches_central_def
      refresh_all_def change_def apply_aggregate_def apply_inbox_count_def apply_daemon_connection_def apply_to_def
      apply_at_def slot_def install_def alloc_def new_coordinator_def or_no_entries_def refresh_alarm_messages_def
      refresh_service_messages_def refresh_message_list_def fetch_system_update_def fetch_addon_update_def
      refresh_security_def on_slot_def update_value_def inbox_sensor_def new_singleton_def publish_one_def
      hub_publish_def Let_def)

lemma demo_hub_facts: "hc_built demo_hub" "hub_ok demo_hub" "slot KInbox demo_hub = Some 0" "slot KSeverity demo_hub = None"
  "hc_heap demo_hub = [inbox_sensor]" "hc_slots demo_hub = [(KInbox, 0)]"
  by (simp_all add: demo_hub_def new_coordinator_def install_def alloc_def hub_ok_def slot_def)

lemma demo_calm: "calm (demo_world c r)"
  by (simp add: calm_def demo_world_def)

theorem fetch_announces_moves_witness:
  "\<exists>w' xs. fetch_hub_singleton_data (demo_world demo_hub (HubAnswer (AggregateBody [demo_data]))) = (Some (), w')
     \<and> hw_events w' = map (announcement w') xs
     \<and> list_all (\<lambda>i. hc_heap (hw_hub w') ! i = [inbox_sensor] ! i \<or> i \<in> set xs) [0..<1]"
proof -
  let ?w = "demo_world demo_hub (HubAnswer (AggregateBody [demo_data]))"
  obtain w' where run: "fetch_hub_singleton_data ?w = (Some (), w')"
    using demo_fetch by (metis prod.collapse)
  have hub: "hw_hub ?w = demo_hub" "hw_events ?w = []" by (simp_all add: demo_world_def)
  show ?thesis
    using fetch_announces_moves [OF _ _ demo_calm run] run by (simp add: hub demo_hub_facts)
qed

section \<open>Value pushes\<close>

text \<open>What a push says of one value, if it is for this central: the slot and the value.\<close>

definition pushed_value :: "hub_push \<Rightarrow> coordinator \<Rightarrow> (singleton_key \<times> json) option" where
  "pushed_value p c = (case p of
       InboxPush central n \<Rightarrow> if is_local (Some central) c then Some (KInbox, JInt n) else None
     | MetricsPush central metric v \<Rightarrow>
         if is_local (Some central) c then map_option (\<lambda>k. (k, JFloat v)) (metric_key metric) else None
     | ConnectivityPush central i b \<Rightarrow> if is_local (Some central) c then Some (KConnectivity i, JBool b) else None
     | DaemonStatusPush status \<Rightarrow> Some (KDaemonConnection, JBool (status = ''online''))
     | DaemonLatencyPush ms \<Rightarrow> Some (KDaemonLatency, JFloat ms)
     | _ \<Rightarrow> None)"

definition shows_already :: "json \<Rightarrow> singleton \<Rightarrow> bool" where
  "shows_already v sg \<longleftrightarrow> py_equal v (sg_value sg) \<and> py_equal (JObj []) (JObj (sg_attributes sg))"

definition showing :: "json \<Rightarrow> oid \<Rightarrow> hub_world \<Rightarrow> hub_world" where
  "showing v i w = w\<lparr>hw_hub := (hw_hub w)\<lparr>hc_heap := mutate i (sg_attributes_update (\<lambda>_. []) \<circ> sg_value_update (\<lambda>_. v)) (hc_heap (hw_hub w))\<rparr>\<rparr>"

lemma publish_value:
  assumes "slot k (hw_hub w) = Some i" and "i < length (hc_heap (hw_hub w))"
  shows "apply_and_publish (apply_to k (update_value v [])) w =
    (if shows_already v (hc_heap (hw_hub w) ! i) then (Some (), w) else publish_one i (showing v i w))"
proof -
  have alone: "follow (publish_one i) (\<lambda>_. finish ()) w1 = publish_one i w1" for w1
    by (cases "publish_one i w1") (auto simp: follow_def finish_def split: option.splits)
  have same: "mutate i (\<lambda>_. hc_heap (hw_hub w) ! i) (hc_heap (hw_hub w)) = hc_heap (hw_hub w)"
    by (simp add: mutate_def)
  show ?thesis
  proof (cases "shows_already v (hc_heap (hw_hub w) ! i)")
    case True
    then have "apply_to k (update_value v []) (hw_hub w) = ([], hw_hub w)"
      using assms(1) same by (simp add: apply_to_def apply_at_def update_value_def shows_already_def)
    with True show ?thesis by (simp add: apply_and_publish_def follow_def change_def finish_def)
  next
    case False
    then have "apply_to k (update_value v []) (hw_hub w) = ([i], hw_hub (showing v i w))"
      using assms(1) by (simp add: apply_to_def apply_at_def update_value_def shows_already_def showing_def mutate_def)
    moreover have "w\<lparr>hw_hub := hw_hub (showing v i w)\<rparr> = showing v i w" by (simp add: showing_def)
    ultimately show ?thesis using False alone
      by (simp add: apply_and_publish_def follow_def [of "change f" for f] change_def)
  qed
qed

lemma publish_nothing: "slot k (hw_hub w) = None \<Longrightarrow> apply_and_publish (apply_to k f) w = (Some (), w)"
  by (simp add: apply_and_publish_def follow_def change_def apply_to_def finish_def)

lemma if_local_cases: "if_local central m w = (if is_local (Some central) (hw_hub w) then m w else (Some (), w))"
  by (simp add: if_local_def follow_def observe_def finish_def)

lemma on_push_value: "pushed_value p (hw_hub w) = Some (k, v) \<Longrightarrow> on_push p w = apply_and_publish (apply_to k (update_value v [])) w"
proof -
  have metric: "apply_and_publish (apply_metric (m, x)) w = apply_and_publish (apply_to k' (update_value (JFloat x) [])) w"
    if "metric_key m = Some k'" for m x k'
    using that by (simp add: apply_and_publish_def apply_metric_def follow_def change_def)
  show "pushed_value p (hw_hub w) = Some (k, v) \<Longrightarrow> ?thesis"
    by (cases p) (auto simp: pushed_value_def if_local_cases apply_inbox_count_def apply_reachable_def
        apply_daemon_connection_def metric split: if_splits)
qed

text \<open>Fact: A push that says one value announces exactly the change: nothing without its object or when the
  object shows that value already (as Python compares), otherwise the one event, under the
  object's unique id, with the new value, after the object has it.
\<close>

theorem value_push_exact:
  assumes "hub_ok (hw_hub w)" and "pushed_value p (hw_hub w) = Some (k, v)"
  shows "on_push p w = (case slot k (hw_hub w) of
       None \<Rightarrow> (Some (), w)
     | Some i \<Rightarrow> if shows_already v (hc_heap (hw_hub w) ! i) then (Some (), w)
         else hub_publish (he_unique_id (announcement w i)) v (showing v i w))"
proof (cases "slot k (hw_hub w)")
  case None
  then show ?thesis by (simp add: on_push_value [OF assms(2)] publish_nothing)
next
  case (Some i)
  note inside = slot_in_heap [OF assms(1) Some]
  have "publish_one i (showing v i w) = hub_publish (he_unique_id (announcement w i)) v (showing v i w)"
    using inside by (simp add: publish_one_def announcement_def showing_def unique_id_of_def Let_def)
  then show ?thesis using Some inside by (simp add: on_push_value [OF assms(2)] publish_value)
qed

theorem value_push_exact_witness:
  "hw_events (snd (on_push (InboxPush '''' 3) (demo_world demo_hub HubFails)))
     = [\<lparr>he_unique_id = ''hubinbox'', he_value = JInt 3\<rparr>]"
proof -
  let ?w = "demo_world demo_hub HubFails"
  have hub: "hw_hub ?w = demo_hub" by (simp add: demo_world_def)
  have push: "pushed_value (InboxPush '''' 3) (hw_hub ?w) = Some (KInbox, JInt 3)"
    by (simp add: pushed_value_def is_local_def matches_central_def)
  show ?thesis
    using value_push_exact [OF _ push] by (simp add: hub demo_hub_facts shows_already_def inbox_sensor_def new_singleton_def
        announcement_def unique_id_of_def hub_publish_def await_turn_def showing_def demo_world_def)
qed

section \<open>What every method keeps once the singletons are built\<close>

definition others_keep :: "(coordinator \<Rightarrow> bool) \<Rightarrow> hub_world \<Rightarrow> bool" where
  "others_keep P w \<longleftrightarrow> (\<forall>n c. P c \<longrightarrow> P (ht_others (hw_env w n) c))"

definition hub_keeps :: "(coordinator \<Rightarrow> bool) \<Rightarrow> 'a hub_co \<Rightarrow> bool" where
  "hub_keeps P m \<longleftrightarrow> (\<forall>w. others_keep P w \<longrightarrow> P (hw_hub w) \<longrightarrow> P (hw_hub (snd (m w))) \<and> hw_env (snd (m w)) = hw_env w)"

lemma hub_keepsD:
  "hub_keeps P m \<Longrightarrow> m w = (r, w') \<Longrightarrow> others_keep P w \<Longrightarrow> P (hw_hub w) \<Longrightarrow> P (hw_hub w') \<and> others_keep P w' \<and> hw_env w' = hw_env w"
  unfolding hub_keeps_def others_keep_def by (metis snd_conv)

named_theorems hub_keeps_intros

lemma hub_keeps_finish [hub_keeps_intros]: "hub_keeps P (finish x)"
  by (simp add: hub_keeps_def finish_def)

lemma hub_keeps_observe [hub_keeps_intros]: "hub_keeps P (observe f)"
  by (simp add: hub_keeps_def observe_def)

lemma hub_keeps_slugified [hub_keeps_intros]: "hub_keeps P slugified"
  by (simp add: hub_keeps_def slugified_def)

lemma hub_keeps_follow [hub_keeps_intros]:
  assumes "hub_keeps P m" and "\<And>x. hub_keeps P (k x)"
  shows "hub_keeps P (follow m k)"
  unfolding hub_keeps_def
proof (intro allI impI)
  fix w assume w: "others_keep P w" "P (hw_hub w)"
  obtain r w1 where m: "m w = (r, w1)" by fastforce
  note first = hub_keepsD [OF assms(1) m w]
  show "P (hw_hub (snd (follow m k w))) \<and> hw_env (snd (follow m k w)) = hw_env w"
  proof (cases r)
    case None
    then show ?thesis using first by (simp add: follow_def m)
  next
    case (Some x)
    have "P (hw_hub (snd (k x w1))) \<and> hw_env (snd (k x w1)) = hw_env w1"
      using assms(2) [of x] first by (simp add: hub_keeps_def)
    then show ?thesis using first Some by (simp add: follow_def m)
  qed
qed

lemma hub_keeps_ask [hub_keeps_intros]: "hub_keeps P (hub_ask c f)"
  by (auto simp: hub_keeps_def hub_ask_def await_turn_def others_keep_def Let_def split: hub_reply.splits)

lemma hub_keeps_publish [hub_keeps_intros]: "hub_keeps P (hub_publish u v)"
  by (auto simp: hub_keeps_def hub_publish_def await_turn_def others_keep_def Let_def)

lemma hub_keeps_publish_one [hub_keeps_intros]: "hub_keeps P (publish_one i)"
  using hub_keeps_publish [of P] by (simp add: hub_keeps_def publish_one_def Let_def)

lemma hub_keeps_publish_sysvar [hub_keeps_intros]: "hub_keeps P (publish_sysvar i)"
  using hub_keeps_publish [of P] by (simp add: hub_keeps_def publish_sysvar_def Let_def)

lemma hub_keeps_publish_each [hub_keeps_intros]: "hub_keeps P (publish_each xs)"
  by (induction xs) (auto intro: hub_keeps_intros)

lemma hub_keeps_publish_sysvars [hub_keeps_intros]: "hub_keeps P (publish_sysvars xs)"
  by (induction xs) (auto intro: hub_keeps_intros)

lemma hub_keeps_needed [hub_keeps_intros]: "hub_keeps P m \<Longrightarrow> hub_keeps P (needed m)"
  unfolding needed_def by (rule hub_keeps_follow) (simp_all add: hub_keeps_def)

lemma hub_keeps_change [hub_keeps_intros]: "(\<And>c. P c \<Longrightarrow> P (snd (f c))) \<Longrightarrow> hub_keeps P (change f)"
  by (auto simp: hub_keeps_def change_def Let_def split: prod.splits) (metis snd_conv)

lemma hub_keeps_option [hub_keeps_intros]:
  "hub_keeps P m \<Longrightarrow> (\<And>x. hub_keeps P (k x)) \<Longrightarrow> hub_keeps P (case y of None \<Rightarrow> m | Some x \<Rightarrow> k x)"
  by (cases y) auto

lemma hub_keeps_list [hub_keeps_intros]:
  "hub_keeps P m \<Longrightarrow> (\<And>x xs. hub_keeps P (k x xs)) \<Longrightarrow> hub_keeps P (case ys of [] \<Rightarrow> m | x # xs \<Rightarrow> k x xs)"
  by (cases ys) auto

lemma hub_keeps_if [hub_keeps_intros]: "hub_keeps P m \<Longrightarrow> hub_keeps P k \<Longrightarrow> hub_keeps P (if b then m else k)"
  by simp

text \<open>The methods Home Assistant and the stream call, and a run of them, each begun when the one before has ended.\<close>

datatype hub_method =
    FetchSingletons | Pushed hub_push | Activate string int | Deactivate string | InstallCcu | InstallAddon
  | FetchSysvars | FetchPrograms

fun run_method :: "hub_method \<Rightarrow> hub_world \<Rightarrow> hub_world" where
  "run_method FetchSingletons w = snd (fetch_hub_singleton_data w)"
| "run_method (Pushed p) w = snd (on_push p w)"
| "run_method (Activate i n) w = snd (activate i n w)"
| "run_method (Deactivate i) w = snd (deactivate i w)"
| "run_method InstallCcu w = snd (install_ccu_update w)"
| "run_method InstallAddon w = snd (install_addon_update w)"
| "run_method FetchSysvars w = snd (fetch_sysvar_data w)"
| "run_method FetchPrograms w = snd (fetch_program_data w)"

definition run_methods :: "hub_method list \<Rightarrow> hub_world \<Rightarrow> hub_world" where
  "run_methods ms w = fold run_method ms w"

text \<open>
  An invariant of the slots of a built coordinator that the lazily built class sensors respect is kept by
  every method.
\<close>

locale hub_invariant =
  fixes P :: "coordinator \<Rightarrow> bool"
  assumes frame: "hc_slots c' = hc_slots c \<Longrightarrow> hc_built c' = hc_built c \<Longrightarrow> P c \<Longrightarrow> P c'"
    and is_built: "P c \<Longrightarrow> hc_built c"
    and new_class: "P c \<Longrightarrow> P (ensure_class slugify cl c)"
begin

lemma keeps_apply_at: "P c \<Longrightarrow> P (snd (apply_at i f c))"
  by (rule frame [of _ c]) (simp_all add: apply_at_rest)

lemma keeps_apply_to: "P c \<Longrightarrow> P (snd (apply_to k f c))"
  by (simp add: apply_to_def keeps_apply_at split: option.splits)

lemma keeps_apply_all: "(\<And>m c. m \<in> set ms \<Longrightarrow> P c \<Longrightarrow> P (snd (m c))) \<Longrightarrow> P c \<Longrightarrow> P (snd (apply_all ms c))"
proof (induction ms arbitrary: c)
  case (Cons m ms)
  have "P (snd (apply_all ms (snd (m c))))"
  proof (rule Cons.IH)
    show "P (snd (m' d))" if "m' \<in> set ms" "P d" for m' d using Cons.prems(1) that by simp
    show "P (snd (m c))" using Cons.prems by simp
  qed
  then show ?case by (simp add: case_prod_unfold Let_def)
qed simp

lemma keeps_apply_metric: "P c \<Longrightarrow> P (snd (apply_metric m c))"
  by (simp add: apply_metric_def keeps_apply_to split: option.splits)

lemma keeps_apply_install_mode: "P c \<Longrightarrow> P (snd (apply_install_mode e c))"
  by (simp add: apply_install_mode_def keeps_apply_to split: option.splits prod.splits)

lemma keeps_apply_class: "P c \<Longrightarrow> P (snd (apply_class slugify cl b s xs c))"
  by (simp add: apply_class_def keeps_apply_to new_class)

lemma keeps_aggregate: "P c \<Longrightarrow> P (snd (apply_aggregate d c))"
  unfolding apply_aggregate_def
  by (rule keeps_apply_all)
    (auto simp: apply_inbox_count_def apply_daemon_connection_def apply_reachable_def keeps_apply_to keeps_apply_metric
      keeps_apply_install_mode)

lemma keeps_security: "P c \<Longrightarrow> P (snd (apply_security slugify sn c))"
  unfolding apply_security_def by (rule keeps_apply_all) (auto simp: keeps_apply_to keeps_apply_class)

lemma keeps_upsert_sysvars: "P c \<Longrightarrow> P (snd (apply_all (map upsert_and_compare sms) c))"
  by (rule keeps_apply_all) (auto simp: upsert_and_compare_def Let_def intro: frame)

lemma keeps_ensure: "P (hw_hub w) \<Longrightarrow> ensure_singletons w = (Some (), w)"
  using is_built by (simp add: ensure_singletons_def follow_def observe_def finish_def)

lemma keeps_with_lock:
  assumes "hub_keeps P m"
  shows "hub_keeps P (with_lock i m)"
  unfolding hub_keeps_def
proof (intro allI impI)
  fix w assume w: "others_keep P w" "P (hw_hub w)"
  obtain r w1 where start: "(if i \<in> set (hc_locks (hw_hub w)) then await_turn w else (HubFails, w)) = (r, w1)"
    by fastforce
  have first: "P (hw_hub w1) \<and> hw_env w1 = hw_env w"
    using start w by (auto simp: await_turn_def others_keep_def Let_def split: if_splits)
  define w2 where "w2 = w1\<lparr>hw_hub := (hw_hub w1)\<lparr>hc_locks := i # removeAll i (hc_locks (hw_hub w1))\<rparr>\<rparr>"
  have "P (hw_hub w2)" using frame [of "hw_hub w2" "hw_hub w1"] first by (simp add: w2_def)
  moreover have "hw_env w2 = hw_env w" "others_keep P w2" using first w by (simp_all add: w2_def others_keep_def)
  moreover obtain x w3 where m: "m w2 = (x, w3)" by fastforce
  ultimately have inner: "P (hw_hub w3) \<and> hw_env w3 = hw_env w" using hub_keepsD [OF assms m] by simp
  have "P ((hw_hub w3)\<lparr>hc_locks := removeAll i (hc_locks (hw_hub w3))\<rparr>)"
    by (rule frame [of _ "hw_hub w3"]) (simp_all add: inner)
  then show "P (hw_hub (snd (with_lock i m w))) \<and> hw_env (snd (with_lock i m w)) = hw_env w"
    using start m first inner by (simp add: with_lock_def w2_def)
qed

lemma keeps_message_list: "hub_keeps P (refresh_message_list k n call read central upd)"
  unfolding refresh_message_list_def read_list_def
  by (intro hub_keeps_intros keeps_with_lock keeps_apply_at)

lemma keeps_refresh: "hub_keeps P (refresh_all d)"
  unfolding refresh_all_def refresh_alarm_messages_def refresh_service_messages_def fetch_system_update_def
    fetch_addon_update_def refresh_security_def ask_security_def on_slot_def
  by (intro hub_keeps_intros keeps_message_list keeps_aggregate keeps_security keeps_apply_at)
    (auto simp: keeps_apply_at split: list.splits)

lemma keeps_fetch: "hub_keeps P fetch_hub_singleton_data"
proof -
  have "hub_keeps P (follow (hub_ask (Update GetHubDataPoints) aggregate_body) (\<lambda>aggregate.
     case aggregate of
       None \<Rightarrow> finish ()
     | Some ds \<Rightarrow>
         follow (observe (\<lambda>c. filter (\<lambda>d. is_local (hd_central d) c) ds)) (\<lambda>mine.
           case mine of [] \<Rightarrow> finish () | d # _ \<Rightarrow> follow (refresh_all d) publish_each)))"
    by (intro hub_keeps_intros keeps_refresh)
  then show ?thesis
    by (simp add: hub_keeps_def fetch_hub_singleton_data_def follow_def [of ensure_singletons] keeps_ensure)
qed

end

context hub_invariant
begin

lemma keeps_and_publish: "(\<And>c. P c \<Longrightarrow> P (snd (f c))) \<Longrightarrow> hub_keeps P (apply_and_publish f)"
  unfolding apply_and_publish_def by (intro hub_keeps_intros)

lemma keeps_if_local: "hub_keeps P m \<Longrightarrow> hub_keeps P (if_local central m)"
  unfolding if_local_def by (intro hub_keeps_intros)

lemma keeps_apply_each: "P c \<Longrightarrow> P (snd (apply_all (map (\<lambda>k. apply_to k (f k)) ks) c))"
  by (rule keeps_apply_all) (auto simp: keeps_apply_to)

lemma keeps_publish_to: "hub_keeps P (apply_and_publish (apply_to k f))"
  by (intro keeps_and_publish keeps_apply_to)

lemma keeps_publish_each_to: "hub_keeps P (apply_and_publish (\<lambda>c. apply_all (map (\<lambda>k. apply_to k f) (ks c)) c))"
  by (intro keeps_and_publish keeps_apply_each)

lemma keeps_publish_metric: "hub_keeps P (apply_and_publish (apply_metric m))"
  by (intro keeps_and_publish keeps_apply_metric)

lemma keeps_publish_class: "hub_keeps P (follow slugified (\<lambda>slugify. apply_and_publish (apply_class slugify cl b s xs)))"
  by (intro hub_keeps_intros keeps_and_publish keeps_apply_class)

lemma keeps_publish_list: "hub_keeps P (follow (refresh_message_list k n call read central upd) publish_each)"
  by (intro hub_keeps_intros keeps_message_list)

lemma keeps_security_fault: "hub_keeps P (on_security_fault n)"
  unfolding on_security_fault_def by (intro hub_keeps_intros keeps_and_publish keeps_apply_at)

lemma keeps_publish_if: "hub_keeps P m \<Longrightarrow> hub_keeps P (follow (observe f) (\<lambda>mine. if mine then m else finish ()))"
  by (intro hub_keeps_intros)

lemma keeps_push: "hub_keeps P (on_push p)"
  by (cases p)
    (simp_all add: apply_inbox_count_def apply_reachable_def apply_daemon_connection_def refresh_alarm_messages_def
       refresh_service_messages_def keeps_if_local keeps_publish_to keeps_publish_each_to keeps_publish_metric
       keeps_publish_class keeps_publish_list keeps_security_fault keeps_publish_if)

lemma keeps_read_programs: "hub_keeps P (read_programs sms)"
proof (induction sms)
  case Nil
  then show ?case by (simp add: hub_keeps_finish)
next
  case (Cons sm sms)
  have "hub_keeps P (change (upsert_program_here sm))"
    by (rule hub_keeps_change) (auto simp: upsert_program_here_def Let_def intro: frame)
  then show ?case using Cons.IH by (auto intro!: hub_keeps_intros)
qed

lemma keeps_method:
  assumes "others_keep P w" and "P (hw_hub w)"
  shows "P (hw_hub (run_method m w)) \<and> others_keep P (run_method m w)"
proof -
  have step: "P (hw_hub (snd (k w))) \<and> others_keep P (snd (k w))" if "hub_keeps P k" for k :: "'b hub_co"
    using that assms by (simp add: hub_keeps_def others_keep_def)
  have buttons: "hub_keeps P (activate i n)" "hub_keeps P (deactivate i)" "hub_keeps P install_ccu_update"
    "hub_keeps P install_addon_update" for i n
    unfolding activate_def deactivate_def install_ccu_update_def install_addon_update_def
    by (intro hub_keeps_intros keeps_apply_to; assumption)+
  have reads: "hub_keeps P fetch_sysvar_data" "hub_keeps P fetch_program_data"
    unfolding fetch_sysvar_data_def fetch_program_data_def
    by (intro hub_keeps_intros keeps_upsert_sysvars keeps_read_programs; assumption?)+
  show ?thesis
    by (cases m) (simp_all add: step keeps_fetch keeps_push buttons reads)
qed

lemma keeps_methods:
  "others_keep P w \<Longrightarrow> P (hw_hub w) \<Longrightarrow> P (hw_hub (run_methods ms w)) \<and> others_keep P (run_methods ms w)"
  unfolding run_methods_def
proof (induction ms arbitrary: w)
  case (Cons m ms)
  then show ?case using keeps_method [OF Cons.prems] by simp
qed simp

end

text \<open>
  What another task of the coordinator does between two awaits, the build of the singletons apart: it
  applies something to the object of a slot, or to an object it looked up before; it builds the
  sensor of a class; it takes or gives back a message list's lock; or the store moves on.
\<close>

datatype stretch =
    AppliesTo singleton_key "singleton \<Rightarrow> bool \<times> singleton" | AppliesAt oid "singleton \<Rightarrow> bool \<times> singleton"
  | SeesClass string | SetsLocks "oid list" | StoreIs store

fun stretch_run :: "(string \<Rightarrow> string) \<Rightarrow> stretch \<Rightarrow> coordinator \<Rightarrow> coordinator" where
  "stretch_run slugify (AppliesTo k f) c = snd (apply_to k f c)"
| "stretch_run slugify (AppliesAt i f) c = snd (apply_at i f c)"
| "stretch_run slugify (SeesClass cl) c = ensure_class slugify cl c"
| "stretch_run slugify (SetsLocks ls) c = c\<lparr>hc_locks := ls\<rparr>"
| "stretch_run slugify (StoreIs s) c = c\<lparr>hc_store := s\<rparr>"

definition no_build_between :: "hub_world \<Rightarrow> bool" where
  "no_build_between w \<longleftrightarrow> (\<forall>n. \<exists>ps. ht_others (hw_env w n) = fold (stretch_run (hw_slugify w)) ps)"

context hub_invariant
begin

lemma keeps_stretch: "P c \<Longrightarrow> P (stretch_run slugify p c)"
  by (cases p) (auto simp: keeps_apply_to keeps_apply_at new_class intro: frame)

lemma keeps_stretches: "P c \<Longrightarrow> P (fold (stretch_run slugify) ps c)"
  by (induction ps arbitrary: c) (simp_all add: keeps_stretch)

lemma others_keep_stretches: "no_build_between w \<Longrightarrow> others_keep P w"
  unfolding others_keep_def no_build_between_def by (metis keeps_stretches)

end

section \<open>Singletons are stable\<close>

lemma slot_install [simp]: "slot k' (install k sg c) = (if k' = k then Some (length (hc_heap c)) else slot k' c)"
  by (simp add: slot_def install_def alloc_def)

lemma built_install [simp]: "hc_built (install k sg c) = hc_built c"
  by (simp add: install_def alloc_def)

interpretation stable_slot: hub_invariant "\<lambda>c. hc_built c \<and> slot k c = Some i" for k i
proof
  show "hc_built c' \<and> slot k c' = Some i"
    if "hc_slots c' = hc_slots c" "hc_built c' = hc_built c" "hc_built c \<and> slot k c = Some i" for c' c
    using that by (simp add: slot_def)
qed (auto simp: ensure_class_def)

text \<open>C28: Once the singletons are built and no second build is under way, whatever methods run one after the
  other, whatever the calls bring or fail and whatever the coordinator's other tasks do at every
  await (applying values, building class sensors, taking locks, changing the store), a slot keeps
  the very object it holds: an entity that Home Assistant has adopted is never replaced.
\<close>

theorem singletons_stable:
  assumes "hc_built (hw_hub w)" and "slot k (hw_hub w) = Some i" and "no_build_between w"
  shows "slot k (hw_hub (run_methods ms w)) = Some i"
  using stable_slot.keeps_methods [OF stable_slot.others_keep_stretches [OF assms(3)]] assms(1,2) by blast

theorem singletons_stable_witness:
  "slot KInbox (hw_hub (run_methods [FetchSingletons, Pushed (InboxPush '''' 3)]
     ((demo_world demo_hub HubFails)\<lparr>hw_env := \<lambda>n. \<lparr>ht_others = fold (stretch_run id)
        [AppliesTo KInbox (update_value (JInt (int n)) []), SeesClass ''FIRE'', SetsLocks [n]], ht_reply = HubFails\<rparr>\<rparr>))) = Some 0"
proof -
  let ?w = "(demo_world demo_hub HubFails)\<lparr>hw_env := \<lambda>n. \<lparr>ht_others = fold (stretch_run id)
        [AppliesTo KInbox (update_value (JInt (int n)) []), SeesClass ''FIRE'', SetsLocks [n]], ht_reply = HubFails\<rparr>\<rparr>"
  have "no_build_between ?w"
    unfolding no_build_between_def demo_world_def hub_world.select_convs hub_world.update_convs hub_turn.select_convs
    by (intro allI exI) (rule refl)
  moreover have "hc_built (hw_hub ?w)" "slot KInbox (hw_hub ?w) = Some 0" by (simp_all add: demo_world_def demo_hub_facts)
  ultimately show ?thesis by (intro singletons_stable)
qed

text \<open>Fact: two builds that overlap do replace objects: when a second task finishes the build while a first one
  still waits for the add-on's status, the first goes on and puts new metric sensors in the place of
  those that are built and listed by then.\<close>

theorem overlapping_build_replaces:
  assumes "\<not> hc_built (hw_hub w)" and "hc_built d" and "slot KSystemHealth d = Some i" and "hub_ok d"
    and "hw_env w = (\<lambda>n. \<lparr>ht_others = (if n = hw_turn w then (\<lambda>_. d) else id), ht_reply = HubFails\<rparr>)"
  shows "\<exists>j. slot KSystemHealth (hw_hub (snd (ensure_singletons w))) = Some j \<and> j \<noteq> i"
proof -
  have "i < length (hc_heap d)" using slot_in_heap [OF assms(4,3)] .
  moreover have "slot KSystemHealth (hw_hub (snd (ensure_singletons w))) = Some (length (hc_heap d))"
    using assms(1,5)
    by (simp add: ensure_singletons_def build_singletons_def follow_def observe_def set_hub_def change_def hub_ask_def ask_security_def
      slugified_def await_turn_def build_addon_def build_metrics_def build_security_def or_no_entries_def adopt_names_def
      slot_def [of _ "_\<lparr>hc_built := _\<rparr>"] Let_def flip: slot_def)
  ultimately show ?thesis by blast
qed

section \<open>A security domain that was not there\<close>

definition security_slot :: "singleton_key \<Rightarrow> bool" where
  "security_slot k = (case k of KSeverity \<Rightarrow> True | KFaults \<Rightarrow> True | KAlarmReport \<Rightarrow> True | KFaultReport \<Rightarrow> True
     | KClass _ \<Rightarrow> True | _ \<Rightarrow> False)"

definition security_free :: "coordinator \<Rightarrow> bool" where
  "security_free c \<longleftrightarrow> list_all (\<lambda>(k, i). \<not> security_slot k) (hc_slots c)"

lemma security_free_slot: "security_free c \<Longrightarrow> security_slot k \<Longrightarrow> slot k c = None"
  by (cases "slot k c") (auto simp: security_free_def slot_def list_all_iff dest!: map_of_SomeD)

lemma security_free_install: "\<not> security_slot k \<Longrightarrow> security_free c \<Longrightarrow> security_free (install k sg c)"
  by (auto simp: security_free_def install_def alloc_def list_all_iff dest!: set_dict_put)

interpretation no_security: hub_invariant "\<lambda>c. hc_built c \<and> security_free c"
proof
  show "hc_built c' \<and> security_free c'"
    if "hc_slots c' = hc_slots c" "hc_built c' = hc_built c" "hc_built c \<and> security_free c" for c' c
    using that by (simp add: security_free_def)
qed (auto simp: ensure_class_def security_free_slot security_slot_def)

text \<open>The build without a snapshot puts no security object into a slot.\<close>

lemma security_free_fixed: "security_free c \<Longrightarrow> security_free (build_fixed c)"
  unfolding build_fixed_def by (intro security_free_install) (simp_all add: security_slot_def)

lemma security_free_metrics: "security_free c \<Longrightarrow> security_free (build_metrics (build_addon a c))"
  by (auto simp: build_metrics_def build_addon_def security_slot_def intro!: security_free_install split: option.splits)

lemma security_free_frame: "hc_slots c' = hc_slots c \<Longrightarrow> security_free c' = security_free c"
  by (simp add: security_free_def)

lemma security_free_interface: "security_free c \<Longrightarrow> security_free (build_interface slugify st c)"
proof -
  assume c: "security_free c"
  have one: "security_free (install (KConnectivity x) sg c)" for x sg
    by (rule security_free_install) (simp_all add: security_slot_def c)
  have "security_free (install (KInstallButton y) b (install (KInstallSensor y) s (install (KConnectivity x) sg c)))"
    for x y sg s b
    by (intro security_free_install) (simp_all add: security_slot_def c)
  then show ?thesis using c one
    by (auto simp: build_interface_def Let_def security_free_def split: option.splits)
qed

lemma security_free_interfaces: "security_free c \<Longrightarrow> security_free (fold (build_interface slugify) sts c)"
  by (induction sts arbitrary: c) (simp_all add: security_free_interface)

lemma security_free_names: "security_free c \<Longrightarrow> security_free ((adopt_names es c)\<lparr>hc_built := b\<rparr>)"
  by (auto simp: adopt_names_def Let_def security_free_def split: option.splits list.splits)

lemma awaited:
  assumes "hub_ask c f w = (Some x, w')" and "others_keep P w" and "P (hw_hub w)"
  shows "P (hw_hub w') \<and> others_keep P w' \<and> hw_turn w' = Suc (hw_turn w) \<and> hw_env w' = hw_env w
    \<and> (ht_reply (hw_env w (hw_turn w)) = HubFails \<longrightarrow> x = None)"
  using assms by (auto simp: hub_ask_def await_turn_def others_keep_def Let_def split: hub_reply.splits)

lemma set_hub_Some: "set_hub f w = (Some x, w') \<longleftrightarrow> w' = w\<lparr>hw_hub := f (hw_hub w)\<rparr>"
  by (auto simp: set_hub_def change_def)

lemma build_without_security:
  assumes "security_free (hw_hub w)" and "others_keep security_free w"
    and "ht_reply (hw_env w (Suc (hw_turn w))) = HubFails" and "build_singletons w = (Some u, w')"
  shows "security_free (hw_hub w') \<and> hc_built (hw_hub w') \<and> hw_env w' = hw_env w"
proof -
  have keep: "others_keep security_free (v\<lparr>hw_hub := c\<rparr>) = others_keep security_free v" for v c
    by (simp add: others_keep_def)
  let ?a = "w\<lparr>hw_hub := build_fixed (hw_hub w)\<rparr>"
  from assms(4) obtain addon b snapshot e interfaces h loc es k slugify
    where ask1: "hub_ask (Update GetAddonUpdateStatus) addon_body ?a = (Some addon, b)"
      and ask2: "hub_ask (Security GetSecuritySnapshot) security_body
          (b\<lparr>hw_hub := build_metrics (build_addon addon (hw_hub b))\<rparr>) = (Some snapshot, e)"
      and ask3: "hub_ask (Update ListInterfaces) interfaces_body
          (e\<lparr>hw_hub := build_security slugify snapshot (hw_hub e)\<rparr>) = (Some interfaces, h)"
      and ask4: "hub_ask (I18n (Some loc)) names_body
          (h\<lparr>hw_hub := fold (build_interface slugify) (or_no_entries interfaces) (hw_hub h)\<rparr>) = (Some es, k)"
      and w': "w' = k\<lparr>hw_hub := (adopt_names (case es of None \<Rightarrow> None | Some x \<Rightarrow> x) (hw_hub k))\<lparr>hc_built := True\<rparr>\<rparr>"
    unfolding build_singletons_def ask_security_def
    by (elim follow_Some) (auto simp: set_hub_Some slugified_def observe_def)
  have "security_free (hw_hub b) \<and> others_keep security_free b \<and> hw_turn b = Suc (hw_turn w) \<and> hw_env b = hw_env w"
    using awaited [OF ask1, of security_free] assms(1,2) by (simp add: keep security_free_fixed)
  note b = this
  have "security_free (hw_hub e) \<and> others_keep security_free e \<and> hw_env e = hw_env w \<and> snapshot = None"
    using awaited [OF ask2, of security_free] b assms(3) by (simp add: keep security_free_metrics)
  note e = this
  have "security_free (hw_hub h) \<and> others_keep security_free h \<and> hw_env h = hw_env w"
    using awaited [OF ask3, of security_free] e by (simp add: keep build_security_def)
  note h = this
  have "security_free (hw_hub k) \<and> hw_env k = hw_env w"
    using awaited [OF ask4, of security_free] h by (simp add: keep security_free_interfaces)
  then show ?thesis by (simp add: w' security_free_names)
qed

text \<open>Fact: When the one security request of the build fails, for whatever reason, the security entities never
  come into being: every later refresh, push and fetch leaves the slots of the severity, the
  faults, the reports and all classes empty, however healthy the daemon's answers are then. The tasks that run in between are assumed to build
  none either, as these methods do.
\<close>

theorem security_failure_permanent:
  assumes "security_free (hw_hub w)" and "build_singletons w = (Some u, w')"
    and "ht_reply (hw_env w (Suc (hw_turn w))) = HubFails"
    and "others_keep security_free w" and "others_keep (\<lambda>c. hc_built c \<and> security_free c) w"
    and "security_slot k"
  shows "slot k (hw_hub (run_methods ms w')) = None"
proof -
  have built: "security_free (hw_hub w') \<and> hc_built (hw_hub w') \<and> hw_env w' = hw_env w"
    by (rule build_without_security [OF assms(1,4,3,2)])
  then have "others_keep (\<lambda>c. hc_built c \<and> security_free c) w'" using assms(5) by (simp add: others_keep_def)
  then have "security_free (hw_hub (run_methods ms w'))" using no_security.keeps_methods built by blast
  then show ?thesis using assms(6) by (rule security_free_slot)
qed

definition empty_hub :: coordinator where
  "empty_hub = new_coordinator (empty_store None 10)"

theorem security_failure_permanent_witness:
  "\<exists>w'. build_singletons (demo_world empty_hub HubFails) = (Some (), w')
     \<and> slot KSeverity (hw_hub (run_methods [FetchSingletons, Pushed (SecurityStatePush ''alarm'')] w')) = None"
proof -
  let ?w = "demo_world empty_hub HubFails"
  have run: "fst (build_singletons ?w) = Some ()"
    by (simp add: demo_world_def build_singletons_def follow_def set_hub_def change_def hub_ask_def await_turn_def
        ask_security_def slugified_def observe_def)
  then obtain w' where w': "build_singletons ?w = (Some (), w')" by (metis prod.collapse)
  have "slot KSeverity (hw_hub (run_methods [FetchSingletons, Pushed (SecurityStatePush ''alarm'')] w')) = None"
    by (rule security_failure_permanent [OF _ w'])
      (simp_all add: demo_world_def empty_hub_def new_coordinator_def security_free_def others_keep_def security_slot_def)
  with w' show ?thesis by blast
qed

section \<open>The severity push\<close>

text \<open>Fact: The push of the folded severity carries no sources and is applied as if there were none: after it
  the severity object names no source, whatever the class sensors, which it leaves alone, still
  name.
\<close>

theorem severity_push_drops_sources:
  assumes "hub_ok (hw_hub w)" and "calm w" and "slot KSeverity (hw_hub w) = Some i"
    and "on_push (SecurityStatePush severity) w = (r, w')"
  shows "py_equal (JStr severity) (sg_value (hc_heap (hw_hub w') ! i))
    \<and> py_equal (JObj (sources_attribute [])) (JObj (sg_attributes (hc_heap (hw_hub w') ! i)))
    \<and> hc_heap (hw_hub w') = (hc_heap (hw_hub w))[i := hc_heap (hw_hub w') ! i]"
proof -
  let ?f = "update_severity severity [] None" and ?sg = "hc_heap (hw_hub w) ! i"
  have i: "i < length (hc_heap (hw_hub w))" by (rule slot_in_heap [OF assms(1,3)])
  have hub: "hw_hub (snd (publish_each xs v)) = hw_hub v" if "calm v" for xs v
    using that
  proof (induction xs arbitrary: v)
    case (Cons j xs)
    have one: "hw_hub (snd (publish_one j v)) = hw_hub v \<and> calm (snd (publish_one j v))"
      using Cons.prems by (simp add: publish_one_def hub_publish_def await_turn_def calm_def Let_def)
    obtain x v1 where "publish_one j v = (x, v1)" by fastforce
    then show ?case using one Cons.IH by (cases x) (simp_all add: follow_def)
  qed (simp add: finish_def)
  have applied: "hc_heap (snd (apply_to KSeverity ?f (hw_hub w))) = (hc_heap (hw_hub w))[i := snd (?f ?sg)]"
    using assms(3) by (simp add: apply_to_def apply_at_def mutate_def split: prod.splits)
  obtain xs c where step: "apply_to KSeverity ?f (hw_hub w) = (xs, c)" by fastforce
  have "w' = snd (publish_each xs (w\<lparr>hw_hub := c\<rparr>))"
    using assms(4) step by (simp add: apply_and_publish_def follow_def change_def)
  then have heap: "hc_heap (hw_hub w') = (hc_heap (hw_hub w))[i := snd (?f ?sg)]"
    using hub [of "w\<lparr>hw_hub := c\<rparr>" xs] assms(2) step applied by (simp add: calm_def)
  have "?f ?sg = update_value (JStr severity) (sources_attribute []) ?sg"
    by (simp add: update_severity_def del: py_equal.simps)
  with heap show ?thesis using i update_value_shows [of "JStr severity" "sources_attribute []" ?sg]
    by (simp del: py_equal.simps)
qed

definition burning :: alarm_source where
  "burning = \<lparr>so_ref = ''r'', so_central = None, so_interface_id = None, so_channel_address = None, so_device_address = None,
     so_parameter = None, so_source_name = Some ''Kitchen'', so_sensor_type = None, so_hazard_class = None, so_at = ''t''\<rparr>"

theorem severity_push_drops_sources_witness:
  "py_equal (JObj (sources_attribute []))
     (JObj (sg_attributes (hc_heap (hw_hub (snd (on_push (SecurityStatePush ''alarm'')
       (demo_world (install KSeverity (snd (update_severity ''alarm'' [burning] (Some True) security_severity_sensor)) empty_hub)
         HubFails)))) ! 0)))"
proof -
  let ?c = "install KSeverity (snd (update_severity ''alarm'' [burning] (Some True) security_severity_sensor)) empty_hub"
  have hub: "hw_hub (demo_world ?c HubFails) = ?c" by (simp add: demo_world_def)
  have ok: "hub_ok ?c" by (rule hub_ok_install) (simp add: empty_hub_def new_coordinator_def hub_ok_def)
  have at: "slot KSeverity ?c = Some 0" by (simp add: empty_hub_def new_coordinator_def)
  show ?thesis
    using severity_push_drops_sources [of "demo_world ?c HubFails", unfolded hub, OF ok demo_calm at prod.collapse [symmetric]]
    by blast
qed

end
