(* ===== verification/Generic.thy ===== *)
theory Generic
  imports Pairing
begin

text \<open>
  The categorised generic data points (compat/aiohomematic/model/generic/__init__.py): the class a parameter resolves
  to, the value it shows (an enum index as its option, a two-valued enum as a boolean, a value the
  consumer wrote over it first) and the writes its actions send. What the daemon's summary carries
  beside the value is read out of the rest of the summary.
\<close>

section \<open>Reading the summary\<close>

definition dp_field :: "dp_obj \<Rightarrow> string \<Rightarrow> json" where
  "dp_field d k = (case dp_rest (do_summary d) of JObj r \<Rightarrow> obj_get r k | _ \<Rightarrow> JNull)"

fun json_strings :: "json list \<Rightarrow> string list" where
  "json_strings [] = []"
| "json_strings (JStr s # js) = s # json_strings js"
| "json_strings (j # js) = json_strings js"

definition value_list :: "dp_obj \<Rightarrow> string list" where
  "value_list d = (case dp_field d ''value_list'' of JArr xs \<Rightarrow> json_strings xs | _ \<Rightarrow> [])"

definition text_field :: "dp_obj \<Rightarrow> string \<Rightarrow> string option" where
  "text_field d k = (case dp_field d k of JStr s \<Rightarrow> Some s | _ \<Rightarrow> None)"

definition dp_label :: "dp_obj \<Rightarrow> string" where
  "dp_label d = (case text_field d ''parameter_label'' of
       Some l \<Rightarrow> if l \<noteq> '''' then l else dp_parameter (do_summary d) | None \<Rightarrow> dp_parameter (do_summary d))"

definition dp_translation_key :: "dp_obj \<Rightarrow> string" where
  "dp_translation_key d = map lower_char (dp_parameter (do_summary d))"

definition multiplier :: "dp_obj \<Rightarrow> rat" where
  "multiplier d = (case as_float (dp_field d ''multiplier'') of Some m \<Rightarrow> if m \<noteq> 0 then m else 1 | None \<Rightarrow> 1)"

section \<open>Values\<close>

text \<open>\<open>isinstance(raw, int)\<close> with an index inside the list.\<close>

definition option_at :: "string list \<Rightarrow> json \<Rightarrow> string option" where
  "option_at vl raw = (case as_int raw of
       Some i \<Rightarrow> if 0 \<le> i \<and> i < int (length vl) then Some (vl ! nat i) else None | None \<Rightarrow> None)"

definition resolve_enum :: "dp_obj \<Rightarrow> json \<Rightarrow> json" where
  "resolve_enum d raw =
     (if text_field d ''type'' = Some ''ENUM'' \<and> value_list d \<noteq> []
      then (case option_at (value_list d) raw of Some s \<Rightarrow> JStr s | None \<Rightarrow> raw) else raw)"

definition generic_value :: "dp_obj \<Rightarrow> json" where
  "generic_value d = (case do_override d of Some v \<Rightarrow> v | None \<Rightarrow> resolve_enum d (dp_read_value d))"

definition write_over :: "json \<Rightarrow> dp_obj \<Rightarrow> dp_obj" where
  "write_over v d = d\<lparr>do_override := Some v\<rparr>"

text \<open>The setter, on the object the store holds.\<close>

definition assign_value :: "string \<times> int \<times> string \<Rightarrow> json \<Rightarrow> store \<Rightarrow> store" where
  "assign_value k v s = s\<lparr>st_dps := reg_modify k (write_over v) (st_dps s)\<rparr>"

definition generic_default :: "dp_obj \<Rightarrow> json" where
  "generic_default d = resolve_enum d (dp_field d ''default'')"

definition true_value_of :: "string list \<Rightarrow> string option" where
  "true_value_of vl = dict_get [([''CLOSED'', ''OPEN''], ''OPEN''), ([''DRY'', ''RAIN''], ''RAIN''),
     ([''STABLE'', ''NOT_STABLE''], ''NOT_STABLE'')] vl"

definition as_bool :: "string list \<Rightarrow> json \<Rightarrow> bool option" where
  "as_bool vl raw =
     (case raw of
        JNull \<Rightarrow> None
      | JBool b \<Rightarrow> Some b
      | _ \<Rightarrow> (case true_value_of vl of
            None \<Rightarrow> Some (json_truth raw)
          | Some t \<Rightarrow> (case (case option_at vl raw of Some s \<Rightarrow> JStr s | None \<Rightarrow> raw) of
                JStr s \<Rightarrow> Some (s = t)
              | v \<Rightarrow> Some (json_truth v))))"

definition binary_value :: "dp_obj \<Rightarrow> bool option" where
  "binary_value d = as_bool (value_list d) (case do_override d of Some v \<Rightarrow> v | None \<Rightarrow> dp_read_value d)"

definition binary_default :: "dp_obj \<Rightarrow> bool option" where
  "binary_default d = as_bool (value_list d) (dp_field d ''default'')"

section \<open>The class of a parameter\<close>

datatype generic_class = DpSwitch | DpBinarySensor | DpSensor | DpSelect | DpText | BaseDpNumber | DpAction | DpButton
  | DpActionSelect | BaseDpActionNumber

fun class_category :: "generic_class \<Rightarrow> string" where
  "class_category DpSwitch = ''switch''"
| "class_category DpBinarySensor = ''binary_sensor''"
| "class_category DpSensor = ''sensor''"
| "class_category DpSelect = ''select''"
| "class_category DpText = ''text''"
| "class_category BaseDpNumber = ''number''"
| "class_category DpAction = ''action''"
| "class_category DpButton = ''button''"
| "class_category DpActionSelect = ''action_select''"
| "class_category BaseDpActionNumber = ''action_number''"

definition class_by_category :: "(string, generic_class) dict" where
  "class_by_category = map (\<lambda>c. (class_category c, c))
     [DpSwitch, DpBinarySensor, DpSensor, DpSelect, DpText, BaseDpNumber, DpAction, DpButton, DpActionSelect,
      BaseDpActionNumber]"

definition writable_by_type :: "(string, generic_class) dict" where
  "writable_by_type = [(''BOOL'', DpSwitch), (''ENUM'', DpSelect), (''FLOAT'', BaseDpNumber), (''INTEGER'', BaseDpNumber),
     (''STRING'', DpText)]"

definition resolve_generic_class :: "string option \<Rightarrow> bool \<Rightarrow> bool \<Rightarrow> bool \<Rightarrow> generic_class" where
  "resolve_generic_class type_token read write has_value_list =
     (let token = map upper_char (case type_token of None \<Rightarrow> '''' | Some t \<Rightarrow> t) in
      if write then
        if token = ''ACTION'' then if read then DpSwitch else DpButton
        else if \<not> read then
          if has_value_list then DpActionSelect
          else if token \<in> {''FLOAT'', ''INTEGER''} then BaseDpActionNumber
          else DpAction
        else (case dict_get writable_by_type token of Some c \<Rightarrow> c | None \<Rightarrow> DpText)
      else if token = ''BOOL'' then DpBinarySensor else DpSensor)"

definition operation_flag :: "dp_obj \<Rightarrow> string \<Rightarrow> bool" where
  "operation_flag d k = (case dp_field d ''operations'' of JObj r \<Rightarrow> json_truth (obj_get r k) | _ \<Rightarrow> False)"

definition generic_class_of :: "dp_obj \<Rightarrow> generic_class" where
  "generic_class_of d =
     (case (case text_field d ''category'' of
              None \<Rightarrow> None | Some c \<Rightarrow> if c = '''' then None else dict_get class_by_category c) of
        Some c \<Rightarrow> c
      | None \<Rightarrow> resolve_generic_class (text_field d ''type'') (operation_flag d ''read'') (operation_flag d ''write'')
          (value_list d \<noteq> []))"

text \<open>What the entity shows: the binary sensor overrides the value of the others.\<close>

definition entity_value :: "dp_obj \<Rightarrow> json" where
  "entity_value d = (if generic_class_of d = DpBinarySensor
     then (case binary_value d of None \<Rightarrow> JNull | Some b \<Rightarrow> JBool b) else generic_value d)"

definition entity_is_valid :: "dp_obj \<Rightarrow> bool" where
  "entity_is_valid d \<longleftrightarrow> entity_value d \<noteq> JNull"

section \<open>Actions\<close>

definition send_value :: "dp_obj \<Rightarrow> json \<Rightarrow> string option \<Rightarrow> write_back" where
  "send_value d v priority = WriteValue (do_address d) (do_channel d) (dp_parameter (do_summary d)) v priority"

definition dp_turn_on :: "dp_obj \<Rightarrow> write_back" where
  "dp_turn_on d = send_value d (JBool True) None"

definition dp_turn_off :: "dp_obj \<Rightarrow> write_back" where
  "dp_turn_off d = send_value d (JBool False) None"

definition press :: "dp_obj \<Rightarrow> write_back" where
  "press d = send_value d (JBool True) None"

definition send_action :: "dp_obj \<Rightarrow> json \<Rightarrow> write_back" where
  "send_action d v = send_value d v None"

definition dp_set_on_time :: "store \<Rightarrow> dp_obj \<Rightarrow> rat \<Rightarrow> write_back list" where
  "dp_set_on_time s d on_time =
     (case get_data_point (do_address d) (do_channel d) ''ON_TIME'' s of
        None \<Rightarrow> []
      | Some i \<Rightarrow> [WriteValue (do_address d) (do_channel d) ''ON_TIME'' (JFloat on_time) None])"

text \<open>The factory and the re-read.\<close>

definition make_generic_data_point :: "dp_summary \<Rightarrow> string \<Rightarrow> int \<Rightarrow> generic_class \<times> dp_obj" where
  "make_generic_data_point sm addr ch = (let d = new_data_point sm addr ch in (generic_class_of d, d))"

definition load_generic_value :: "dp_obj \<Rightarrow> unit co" where
  "load_generic_value d = refresh_data_point (do_address d) (do_channel d) (dp_parameter (do_summary d))"

section \<open>What holds of them\<close>

text \<open>Fact: the class resolved from a parameter's type and operations tells its access. A parameter that cannot be
  written becomes a sensor of either kind and nothing else does; a parameter that can be written
  but not read becomes a button, an action, an action select or an action number and nothing else
  does. No type token and no value list moves a parameter across these groups.\<close>

theorem resolved_class_tells_access:
  "(resolve_generic_class ty r w vl \<in> {DpBinarySensor, DpSensor} \<longleftrightarrow> \<not> w)
   \<and> (resolve_generic_class ty r w vl \<in> {DpButton, DpAction, DpActionSelect, BaseDpActionNumber} \<longleftrightarrow> w \<and> \<not> r)"
proof (rule conjI)
  have writable: "(case dict_get writable_by_type t of Some c \<Rightarrow> c | None \<Rightarrow> DpText)
      \<in> {DpSwitch, DpSelect, BaseDpNumber, DpText}" for t
  proof (cases "dict_get writable_by_type t")
    case (Some c)
    then have "(t, c) \<in> set writable_by_type" by (rule map_of_SomeD)
    then have "c \<in> snd ` set writable_by_type" by (metis image_eqI snd_conv)
    moreover have "snd ` set writable_by_type \<subseteq> {DpSwitch, DpSelect, BaseDpNumber, DpText}"
      by (simp add: writable_by_type_def)
    ultimately show ?thesis using Some by auto
  qed simp
  show "resolve_generic_class ty r w vl \<in> {DpBinarySensor, DpSensor} \<longleftrightarrow> \<not> w"
    using writable [of "map upper_char (case ty of None \<Rightarrow> [] | Some t \<Rightarrow> t)"]
    by (cases w; cases r; cases vl) (auto simp: resolve_generic_class_def Let_def)
  show "resolve_generic_class ty r w vl \<in> {DpButton, DpAction, DpActionSelect, BaseDpActionNumber} \<longleftrightarrow> w \<and> \<not> r"
    using writable [of "map upper_char (case ty of None \<Rightarrow> [] | Some t \<Rightarrow> t)"]
    by (cases w; cases r; cases vl) (auto simp: resolve_generic_class_def Let_def)
qed

lemma class_by_category_inverse: "dict_get class_by_category (class_category c) = Some c"
  by (cases c) (simp_all add: class_by_category_def)

lemma dp_field_cong: "dp_rest (do_summary d) = dp_rest (do_summary d') \<Longrightarrow> dp_field d = dp_field d'"
  by (rule ext) (simp add: dp_field_def)

lemma pushed_fields [simp]:
  "dp_field (clear_value_override (replace_dp_summary (pushed_summary p (do_summary d)) d)) = dp_field d"
  "dp_field (write_over v d) = dp_field d"
  by (rule dp_field_cong; simp add: clear_value_override_def replace_dp_summary_def pushed_summary_def write_over_def)+

text \<open>How the class shows a raw value of the daemon.\<close>

definition shown :: "dp_obj \<Rightarrow> json \<Rightarrow> json" where
  "shown d raw = (if generic_class_of d = DpBinarySensor
     then (case as_bool (value_list d) raw of None \<Rightarrow> JNull | Some b \<Rightarrow> JBool b) else resolve_enum d raw)"

lemma class_of_fields:
  assumes "dp_field d' = dp_field d"
  shows "generic_class_of d' = generic_class_of d" "value_list d' = value_list d" "resolve_enum d' = resolve_enum d"
proof -
  have "text_field d' = text_field d" "operation_flag d' = operation_flag d" "value_list d' = value_list d"
    by (simp_all add: text_field_def operation_flag_def value_list_def fun_eq_iff assms)
  then show "generic_class_of d' = generic_class_of d" "value_list d' = value_list d" "resolve_enum d' = resolve_enum d"
    by (simp_all only: generic_class_of_def resolve_enum_def fun_eq_iff simp_thms)
qed

text \<open>Fact: a value the consumer writes onto a data point shows until the next push for it and never after. Before the
  push the entity shows the written value (a binary sensor shows it as a boolean); after the push
  it shows the pushed value in the form its class gives it, whatever had been written.\<close>

theorem written_value_until_push:
  assumes "reg_ok (st_dps s)" and "reg_get (st_dps s) (a, c, p) = Some d"
    and "vc_address u = a" and "vc_channel u = c" and "vc_parameter u = p"
  shows "map_option entity_value (reg_get (st_dps (assign_value (a, c, p) v s)) (a, c, p))
      = Some (if generic_class_of d = DpBinarySensor then shown d v else v)
    \<and> map_option entity_value (reg_get (st_dps (apply_value_changed u (assign_value (a, c, p) v s))) (a, c, p))
      = Some (shown d (vc_value u))"
proof
  note fields = class_of_fields [OF pushed_fields(2)] class_of_fields [OF pushed_fields(1)]
  have ok: "reg_ok (st_dps (assign_value (a, c, p) v s))" using assms(1) by (simp add: assign_value_def)
  have get: "reg_get (st_dps (assign_value (a, c, p) v s)) (a, c, p) = Some (write_over v d)"
    using assms(1,2) by (simp add: assign_value_def reg_get_modify)
  show "map_option entity_value (reg_get (st_dps (assign_value (a, c, p) v s)) (a, c, p))
      = Some (if generic_class_of d = DpBinarySensor then shown d v else v)"
    by (simp add: get entity_value_def fields shown_def binary_value_def generic_value_def) (simp add: write_over_def)
  let ?d = "clear_value_override (replace_dp_summary (pushed_summary u (do_summary (write_over v d))) (write_over v d))"
  have "reg_get (st_dps (apply_value_changed u (assign_value (a, c, p) v s))) (a, c, p) = Some ?d"
    using assms(3-5) ok get by (simp add: apply_value_changed_def reg_get_modify)
  moreover have "do_override ?d = None" "dp_read_value ?d = vc_value u"
    by (simp_all add: clear_value_override_def dp_read_value_def replace_dp_summary_def pushed_summary_def)
  ultimately show "map_option entity_value (reg_get (st_dps (apply_value_changed u (assign_value (a, c, p) v s))) (a, c, p))
      = Some (shown d (vc_value u))"
    by (simp add: entity_value_def fields shown_def binary_value_def generic_value_def)
qed

theorem written_value_until_push_witness:
  "let u = \<lparr>vc_address = ''D'', vc_channel = 1, vc_parameter = ''STATE'', vc_value = JInt 9, vc_display_value = None,
            vc_modified_at = 8, vc_available = True\<rparr>;
       s = assign_value (''D'', 1, ''STATE'') (JInt 4) demo_store
   in map_option entity_value (reg_get (st_dps s) (''D'', 1, ''STATE'')) = Some (JInt 4)
    \<and> map_option entity_value (reg_get (st_dps (apply_value_changed u s)) (''D'', 1, ''STATE'')) = Some (JInt 9)"
proof -
  let ?d = "new_data_point (demo_dp ''STATE'' 0 5) ''D'' 1"
  have get: "reg_get (st_dps demo_store) (''D'', 1, ''STATE'') = Some ?d"
    by (simp add: demo_store_def attach_channel_data_points_def empty_store_def registry_eval build_data_point_def
        demo_dp_def)
  have "store_ok (apply_op (AttachDataPoints ''D'' 1 [demo_dp ''STATE'' 0 5]) (empty_store None 2))"
    by (rule store_ok_op) simp
  then have ok: "reg_ok (st_dps demo_store)" by (simp add: demo_store_def store_ok_def)
  have none: "dp_field ?d k = JNull" for k by (simp add: dp_field_def new_data_point_def demo_dp_def)
  have "generic_class_of ?d = DpSensor"
    by (simp add: generic_class_of_def text_field_def none operation_flag_def resolve_generic_class_def Let_def value_list_def)
  moreover have "resolve_enum ?d = (\<lambda>x. x)" by (rule ext) (simp add: resolve_enum_def text_field_def none)
  ultimately show ?thesis
    using written_value_until_push [OF ok get, of "\<lparr>vc_address = ''D'', vc_channel = 1, vc_parameter = ''STATE'',
        vc_value = JInt 9, vc_display_value = None, vc_modified_at = 8, vc_available = True\<rparr>" "JInt 4"]
    by (simp add: shown_def Let_def)
qed

text \<open>Fact: a two-valued contact reads the same from the index the daemon pushes and from the option a consumer restores,
  and it is on exactly at the option that means on: a closed contact (index 0 of CLOSED, OPEN)
  is off. An index outside the list is off only when it is 0, so it reads as on.\<close>

theorem contact_reads_alike:
  assumes "true_value_of vl = Some t"
  shows "length vl = 2
    \<and> as_bool vl (JInt 0) = as_bool vl (JStr (vl ! 0)) \<and> as_bool vl (JInt 1) = as_bool vl (JStr (vl ! 1))
    \<and> as_bool vl (JInt 0) = Some False \<and> as_bool vl (JInt 1) = Some True \<and> as_bool vl (JInt (2 + int n)) = Some True"
  using assms by (auto simp: true_value_of_def as_bool_def option_at_def json_truth_def split: if_splits)

theorem contact_reads_alike_witness:
  "true_value_of [''CLOSED'', ''OPEN''] = Some ''OPEN'' \<and> as_bool [''CLOSED'', ''OPEN''] (JInt 0) = Some False"
proof
  show t: "true_value_of [''CLOSED'', ''OPEN''] = Some ''OPEN''" by (simp add: true_value_of_def)
  show "as_bool [''CLOSED'', ''OPEN''] (JInt 0) = Some False"
    using contact_reads_alike [OF t, of 0] by (elim conjE)
qed

text \<open>
  The other entities show an override as it was written: only a binary sensor converts it.
\<close>

lemma entity_value_of_binary_sensor:
  "generic_class_of d = DpBinarySensor \<Longrightarrow> entity_value d \<in> {JNull, JBool True, JBool False}"
  by (auto simp: entity_value_def split: option.splits)

end
