(* ===== verification/Custom.thy ===== *)
theory Custom
  imports Generic
begin

text \<open>
  The categorised custom data points (compat/aiohomematic/model/custom/__init__.py): the class the daemon's
  classifier selects, the Home Assistant properties read out of the state the daemon pushes, with
  the generic data points of the channel as fall-back, and the actions as the invocations they
  send. An on-time can be staged on the entity for the next switch-on. \<open>str\<close> on floats and containers is
  an argument, as are the token sets of aiohomematic's climate enumerations.
\<close>

section \<open>Reading the summary and the state\<close>

record entity =
  en_cdp :: cdp_obj
  en_pending :: "rat option"

definition new_entity :: "cdp_obj \<Rightarrow> entity" where
  "new_entity c = \<lparr>en_cdp = c, en_pending = None\<rparr>"

definition summary_field :: "entity \<Rightarrow> string \<Rightarrow> json" where
  "summary_field e k = (case cd_rest (co_summary (en_cdp e)) of JObj d \<Rightarrow> obj_get d k | _ \<Rightarrow> JNull)"

definition state_get :: "entity \<Rightarrow> string \<Rightarrow> json" where
  "state_get e k = obj_get (co_state (en_cdp e)) k"

definition state_text :: "(json \<Rightarrow> string) \<Rightarrow> entity \<Rightarrow> string \<Rightarrow> string \<Rightarrow> string" where
  "state_text repr e k default_text = (case dict_get (co_state (en_cdp e)) k of None \<Rightarrow> default_text | Some v \<Rightarrow> py_str repr v)"

definition optional_text :: "(json \<Rightarrow> string) \<Rightarrow> entity \<Rightarrow> string \<Rightarrow> string option" where
  "optional_text repr e k = (case state_get e k of JNull \<Rightarrow> None | v \<Rightarrow> Some (py_str repr v))"

definition config_value :: "entity \<Rightarrow> string \<Rightarrow> json" where
  "config_value e k = (case summary_field e ''config'' of JObj d \<Rightarrow> obj_get d k | _ \<Rightarrow> JNull)"

definition truncated :: "json \<Rightarrow> int option" where
  "truncated j = map_option (\<lambda>r. if r < 0 then \<lceil>r\<rceil> else \<lfloor>r\<rfloor>) (as_float j)"

text \<open>The value of a generic data point of the entity's channel, \<open>JNull\<close> when there is none.\<close>

definition generic_channel_value :: "store \<Rightarrow> entity \<Rightarrow> string \<Rightarrow> json" where
  "generic_channel_value s e parameter =
     (case get_data_point (co_address (en_cdp e)) (cd_channel_no (co_summary (en_cdp e))) parameter s of
        None \<Rightarrow> JNull
      | Some i \<Rightarrow> entity_value (reg_heap (st_dps s) ! i))"

definition is_valid :: "entity \<Rightarrow> bool" where
  "is_valid e \<longleftrightarrow> co_state (en_cdp e) \<noteq> []"

definition state_uncertain :: "entity \<Rightarrow> bool" where
  "state_uncertain e = json_truth (case dict_get (co_state (en_cdp e)) ''state_uncertain'' of None \<Rightarrow> JBool False | Some v \<Rightarrow> v)"

definition capability_aliases :: "(string, string) dict" where
  "capability_aliases = [(''brightness'', ''dimmable''), (''color_temperature'', ''color_temp''), (''hs_color'', ''color''),
     (''profiles'', ''profile''), (''tones'', ''acoustic'')]"

definition has_flag :: "entity \<Rightarrow> string \<Rightarrow> bool" where
  "has_flag e name =
     (let flags = (case summary_field e ''capabilities'' of JObj d \<Rightarrow> d | _ \<Rightarrow> []) in
      case dict_get flags name of
        Some v \<Rightarrow> json_truth v
      | None \<Rightarrow> (case dict_get capability_aliases name of
          Some alias \<Rightarrow> json_truth (case dict_get flags alias of None \<Rightarrow> JBool False | Some v \<Rightarrow> v)
        | None \<Rightarrow> False))"

text \<open>
  \<open>tuple(str(x) for x in raw)\<close>: over a list, the characters of a string or the keys of a dict; any other value
  raises a \<open>TypeError\<close>. A falsy \<open>raw\<close> is replaced by \<open>()\<close> first.
\<close>

definition str_items :: "(json \<Rightarrow> string) \<Rightarrow> json \<Rightarrow> string list option" where
  "str_items repr raw =
     (if \<not> json_truth raw then Some []
      else case raw of
        JArr xs \<Rightarrow> Some (map (py_str repr) xs)
      | JStr s \<Rightarrow> Some (map (\<lambda>c. [c]) s)
      | JObj d \<Rightarrow> Some (map fst d)
      | _ \<Rightarrow> None)"

text \<open>\<open>a or b or c\<close>, on JSON values and on floats.\<close>

definition py_or :: "json \<Rightarrow> json \<Rightarrow> json" where
  "py_or a b = (if json_truth a then a else b)"

definition float_or :: "rat option \<Rightarrow> rat option \<Rightarrow> rat option" where
  "float_or a b = (if a \<noteq> None \<and> a \<noteq> Some 0 then a else b)"

section \<open>The class\<close>

datatype custom_class =
    Dimmer | FixedColorLight | SoundPlayerLed | Cover | IpBlind | Garage | Climate | IpThermostat | Lock | Siren
  | SoundPlayer | Switch | IrrigationValve | TextDisplay

definition kind_to_class :: "(string, custom_class) dict" where
  "kind_to_class = [(''light'', Dimmer), (''light_color'', Dimmer), (''light_color_temp'', Dimmer), (''light_rgbw'', Dimmer),
     (''light_dali'', Dimmer), (''light_effect'', Dimmer), (''light_fixed_color'', FixedColorLight),
     (''light_sound_led'', SoundPlayerLed), (''cover'', Cover), (''cover_blind'', IpBlind), (''cover_garage'', Garage),
     (''climate_simple'', Climate), (''climate_rf'', Climate), (''climate_hmip'', IpThermostat), (''lock'', Lock),
     (''siren'', Siren), (''siren_smoke'', Siren), (''siren_sound'', SoundPlayer), (''switch'', Switch),
     (''valve_irrigation'', IrrigationValve), (''valve_modulating'', IrrigationValve), (''text_display'', TextDisplay)]"

definition category_fallback :: "(string, custom_class) dict" where
  "category_fallback = [(''light'', Dimmer), (''cover'', Cover), (''climate'', Climate), (''lock'', Lock), (''siren'', Siren),
     (''switch'', Switch), (''valve'', IrrigationValve), (''text_display'', TextDisplay)]"

definition resolve_custom_class :: "string option \<Rightarrow> string option \<Rightarrow> custom_class" where
  "resolve_custom_class kind category =
     (case (case kind of None \<Rightarrow> None | Some k \<Rightarrow> dict_get kind_to_class k) of
        Some c \<Rightarrow> c
      | None \<Rightarrow> (case dict_get category_fallback (case category of None \<Rightarrow> '''' | Some c \<Rightarrow> c) of Some c \<Rightarrow> c | None \<Rightarrow> Switch))"

fun custom_category :: "custom_class \<Rightarrow> string" where
  "custom_category Switch = ''switch''"
| "custom_category Dimmer = ''light''"
| "custom_category FixedColorLight = ''light''"
| "custom_category SoundPlayerLed = ''light''"
| "custom_category Cover = ''cover''"
| "custom_category IpBlind = ''cover''"
| "custom_category Garage = ''cover''"
| "custom_category Climate = ''climate''"
| "custom_category IpThermostat = ''climate''"
| "custom_category Lock = ''lock''"
| "custom_category Siren = ''siren''"
| "custom_category SoundPlayer = ''siren''"
| "custom_category IrrigationValve = ''valve''"
| "custom_category TextDisplay = ''text_display''"

definition category_strings :: "string list" where
  "category_strings = [''light'', ''cover'', ''climate'', ''lock'', ''siren'', ''switch'', ''valve'', ''text_display'']"

definition entity_category :: "string option \<Rightarrow> string option \<Rightarrow> string" where
  "entity_category kind category = (case category of
       Some c \<Rightarrow> if c \<in> set category_strings then c else custom_category (resolve_custom_class kind category)
     | None \<Rightarrow> custom_category (resolve_custom_class kind category))"

text \<open>The factory: the class and the entity with its state as announced.\<close>

definition make_custom_data_point :: "cdp_summary \<Rightarrow> string \<Rightarrow> cdp_state option \<Rightarrow> custom_class \<times> entity" where
  "make_custom_data_point sm addr initial =
     (let e = new_entity (new_cdp sm addr initial);
          txt_of = (\<lambda>k. case summary_field e k of JStr s \<Rightarrow> Some s | _ \<Rightarrow> None)
      in (resolve_custom_class (txt_of ''kind'') (txt_of ''category''), e))"

text \<open>The translated name and the parameter name, an empty text counting as none.\<close>

definition name_parts :: "entity \<Rightarrow> string option \<times> string" where
  "name_parts e =
     ((case summary_field e ''translated_name'' of JStr s \<Rightarrow> if s = '''' then None else Some s | _ \<Rightarrow> None),
      (case summary_field e ''parameter_name'' of JStr s \<Rightarrow> s | _ \<Rightarrow> ''''))"

definition name_data :: "entity \<Rightarrow> string \<times> string" where
  "name_data e = (case name_parts e of (translated, parameter) \<Rightarrow>
     (if parameter = '''' then cd_name (co_summary (en_cdp e)) else parameter,
      case translated of None \<Rightarrow> cd_name (co_summary (en_cdp e)) | Some t \<Rightarrow> t))"

definition load_custom_value :: "entity \<Rightarrow> unit co" where
  "load_custom_value e = refresh_custom_data_point (co_address (en_cdp e)) (cd_name (co_summary (en_cdp e)))"

section \<open>Properties\<close>

definition switch_state :: "store \<Rightarrow> entity \<Rightarrow> bool option" where
  "switch_state s e = (case state_get e ''is_on'' of
       JNull \<Rightarrow> (case generic_channel_value s e ''STATE'' of JNull \<Rightarrow> None | v \<Rightarrow> Some (json_truth v))
     | v \<Rightarrow> Some (json_truth v))"

definition light_is_on :: "(json \<Rightarrow> string) \<Rightarrow> entity \<Rightarrow> bool" where
  "light_is_on repr e \<longleftrightarrow> map upper_char (state_text repr e ''state'' ''OFF'') = ''ON''"

definition brightness :: "entity \<Rightarrow> int option" where
  "brightness e = truncated (state_get e ''brightness'')"

definition brightness_pct :: "entity \<Rightarrow> int option" where
  "brightness_pct e = map_option (\<lambda>b. let r = of_int b / 255 * 100 :: rat in if r < 0 then \<lceil>r\<rceil> else \<lfloor>r\<rfloor>) (brightness e)"

definition color_temp_kelvin :: "entity \<Rightarrow> int option" where
  "color_temp_kelvin e = truncated (state_get e ''color_temp_kelvin'')"

definition hs_color :: "entity \<Rightarrow> (rat \<times> rat) option" where
  "hs_color e = (case state_get e ''color'' of
       JObj d \<Rightarrow> (case (as_float (obj_get d ''h''), as_float (obj_get d ''s'')) of (Some h, Some s) \<Rightarrow> Some (h, s) | _ \<Rightarrow> None)
     | _ \<Rightarrow> None)"

definition light_effects :: "(json \<Rightarrow> string) \<Rightarrow> entity \<Rightarrow> string list option" where
  "light_effects repr e = str_items repr (state_get e ''effects'')"

definition last_level :: "entity \<Rightarrow> int" where
  "last_level e = (case brightness e of None \<Rightarrow> 0 | Some b \<Rightarrow> b)"

definition current_position :: "entity \<Rightarrow> int option" where
  "current_position e = truncated (state_get e ''current_position'')"

definition state_token :: "(json \<Rightarrow> string) \<Rightarrow> entity \<Rightarrow> string" where
  "state_token repr e = map lower_char (state_text repr e ''state'' '''')"

definition is_closed :: "(json \<Rightarrow> string) \<Rightarrow> entity \<Rightarrow> bool" where
  "is_closed repr e = (if state_token repr e \<noteq> '''' then state_token repr e = ''closed'' else current_position e = Some 0)"

definition is_opening :: "(json \<Rightarrow> string) \<Rightarrow> entity \<Rightarrow> bool" where
  "is_opening repr e \<longleftrightarrow> state_token repr e = ''opening''"

definition is_closing :: "(json \<Rightarrow> string) \<Rightarrow> entity \<Rightarrow> bool" where
  "is_closing repr e \<longleftrightarrow> state_token repr e = ''closing''"

definition current_tilt_position :: "entity \<Rightarrow> int option" where
  "current_tilt_position e = truncated (state_get e ''current_tilt_position'')"

definition available_colors :: "(json \<Rightarrow> string) \<Rightarrow> entity \<Rightarrow> string list option option" where
  "available_colors repr e = (let raw = state_get e ''available_colors'' in
     if json_truth raw then map_option Some (str_items repr raw) else Some None)"

definition lock_flag :: "entity \<Rightarrow> string \<Rightarrow> bool" where
  "lock_flag e k = json_truth (state_get e k)"

definition lock_name_postfix :: "entity \<Rightarrow> string" where
  "lock_name_postfix e = (let name = takeWhile (\<lambda>c. c \<noteq> CHR ''@'') (cd_name (co_summary (en_cdp e))) in
     if name \<in> {''BUTTON_LOCK'', ''GLOBAL_BUTTON_LOCK''} then name else '''')"

definition siren_is_on :: "(json \<Rightarrow> string) \<Rightarrow> entity \<Rightarrow> bool" where
  "siren_is_on repr e \<longleftrightarrow> map lower_char (state_text repr e ''state'' ''off'') = ''on''"

definition available_tones :: "entity \<Rightarrow> json" where
  "available_tones e = py_or (config_value e ''available_tones'') (py_or (state_get e ''available_tones'') (JArr []))"

definition available_lights :: "entity \<Rightarrow> json" where
  "available_lights e = py_or (config_value e ''available_lights'') (py_or (state_get e ''available_lights'') (JArr []))"

definition available_soundfiles :: "entity \<Rightarrow> json" where
  "available_soundfiles e = py_or (state_get e ''available_soundfiles'') (JObj [])"

definition valve_is_open :: "entity \<Rightarrow> bool" where
  "valve_is_open e = json_truth (state_get e ''is_open'')"

definition option_list :: "(json \<Rightarrow> string) \<Rightarrow> entity \<Rightarrow> string \<Rightarrow> string list option" where
  "option_list repr e k = str_items repr (state_get e k)"

section \<open>Climate\<close>

text \<open>The tokens of aiohomematic's climate enumerations.\<close>

record climate_tokens =
  ct_modes :: "string list"
  ct_profiles :: "string list"
  ct_heat :: string
  ct_none :: string
  ct_away :: string
  ct_boost :: string
  ct_comfort :: string
  ct_eco :: string

definition hvac_mode :: "(json \<Rightarrow> string) \<Rightarrow> entity \<Rightarrow> string" where
  "hvac_mode repr e = state_text repr e ''hvac_mode'' ''off''"

definition preset_mode :: "(json \<Rightarrow> string) \<Rightarrow> entity \<Rightarrow> string" where
  "preset_mode repr e = state_text repr e ''preset_mode'' ''none''"

definition current_temperature :: "store \<Rightarrow> entity \<Rightarrow> rat option" where
  "current_temperature s e = (case as_float (state_get e ''current_temperature'') of
       Some r \<Rightarrow> Some r | None \<Rightarrow> as_float (generic_channel_value s e ''ACTUAL_TEMPERATURE''))"

text \<open>The default of the outer \<open>get\<close> is used when the key is absent, not when it holds a null.\<close>

definition target_temperature :: "store \<Rightarrow> entity \<Rightarrow> rat option" where
  "target_temperature s e =
     (case as_float (case dict_get (co_state (en_cdp e)) ''set_temperature'' of
          Some v \<Rightarrow> v | None \<Rightarrow> state_get e ''target_temperature'') of
        Some r \<Rightarrow> Some r | None \<Rightarrow> as_float (generic_channel_value s e ''SET_POINT_TEMPERATURE''))"

definition current_humidity :: "store \<Rightarrow> entity \<Rightarrow> int option" where
  "current_humidity s e = (case truncated (state_get e ''current_humidity'') of
       Some h \<Rightarrow> Some h | None \<Rightarrow> truncated (generic_channel_value s e ''HUMIDITY''))"

definition limit_of :: "entity \<Rightarrow> string \<Rightarrow> string \<Rightarrow> rat \<Rightarrow> rat" where
  "limit_of e config_key state_key fallback =
     (case float_or (as_float (config_value e config_key)) (as_float (state_get e state_key)) of
        None \<Rightarrow> fallback | Some r \<Rightarrow> if r = 0 then fallback else r)"

definition climate_min_temp :: "entity \<Rightarrow> rat" where
  "climate_min_temp e = limit_of e ''min_temp'' ''min_temp'' (9 / 2)"

definition climate_max_temp :: "entity \<Rightarrow> rat" where
  "climate_max_temp e = limit_of e ''max_temp'' ''max_temp'' (61 / 2)"

definition target_temperature_step :: "entity \<Rightarrow> rat" where
  "target_temperature_step e = limit_of e ''temp_step'' ''target_temperature_step'' (1 / 2)"

definition climate_modes :: "(json \<Rightarrow> string) \<Rightarrow> climate_tokens \<Rightarrow> entity \<Rightarrow> string list option" where
  "climate_modes repr ct e =
     map_option (\<lambda>raw. let modes = filter (\<lambda>m. m \<in> set (ct_modes ct)) raw in if modes = [] then [ct_heat ct] else modes)
       (str_items repr (py_or (config_value e ''hvac_modes'') (state_get e ''hvac_modes'')))"

definition control_block :: "climate_tokens \<Rightarrow> string set" where
  "control_block ct = {ct_away ct, ct_boost ct, ct_comfort ct, ct_eco ct}"

text \<open>The loop that moves \<open>insert_at\<close> over the control block.\<close>

fun insert_at :: "string set \<Rightarrow> string list \<Rightarrow> nat" where
  "insert_at block [] = 0"
| "insert_at block (p # ps) = (if p \<in> block then Suc (insert_at block ps) else 0)"

definition with_none :: "climate_tokens \<Rightarrow> string list \<Rightarrow> string list" where
  "with_none ct ps =
     (if ct_none ct \<in> set ps then ps
      else let i = insert_at (control_block ct) ps in take i ps @ ct_none ct # drop i ps)"

definition climate_profiles :: "(json \<Rightarrow> string) \<Rightarrow> climate_tokens \<Rightarrow> entity \<Rightarrow> string list option" where
  "climate_profiles repr ct e =
     map_option (\<lambda>raw. with_none ct (filter (\<lambda>p. p \<in> set (ct_profiles ct)) raw))
       (str_items repr (py_or (config_value e ''preset_modes'') (state_get e ''available_profiles'')))"

section \<open>What holds of them\<close>

lemma insert_at_split: "take (insert_at b ps) ps = takeWhile (\<lambda>p. p \<in> b) ps" "drop (insert_at b ps) ps = dropWhile (\<lambda>p. p \<in> b) ps"
  by (induction ps) auto

lemma with_none_eq:
  "with_none ct ps = (if ct_none ct \<in> set ps then ps
     else takeWhile (\<lambda>p. p \<in> control_block ct) ps @ ct_none ct # dropWhile (\<lambda>p. p \<in> control_block ct) ps)"
  by (simp add: with_none_def Let_def insert_at_split)

text \<open>Fact: the profiles a thermostat offers always contain the profile \<open>NONE\<close>, add nothing else to what the daemon
  lists and keep its order. Where the daemon does not list it, only control profiles (away, boost,
  comfort, eco) stand before it and none stands directly after it, so the week programs follow.\<close>

theorem profiles_have_none:
  "ct_none ct \<in> set (with_none ct ps)
   \<and> filter (\<lambda>p. p \<noteq> ct_none ct) (with_none ct ps) = filter (\<lambda>p. p \<noteq> ct_none ct) ps
   \<and> (ct_none ct \<in> set ps \<or> (\<exists>us vs. with_none ct ps = us @ ct_none ct # vs \<and> ps = us @ vs
        \<and> set us \<subseteq> control_block ct \<and> (case vs of [] \<Rightarrow> True | v # _ \<Rightarrow> v \<notin> control_block ct)))"
proof -
  let ?us = "takeWhile (\<lambda>p. p \<in> control_block ct) ps" and ?vs = "dropWhile (\<lambda>p. p \<in> control_block ct) ps"
  have us: "set ?us \<subseteq> control_block ct" by (auto dest: set_takeWhileD)
  have vs: "case ?vs of [] \<Rightarrow> True | v # _ \<Rightarrow> v \<notin> control_block ct" by (cases ?vs) (auto dest: dropWhile_eq_Cons_conv [THEN iffD1] simp del: dropWhile_eq_Nil_conv)
  have "filter (\<lambda>p. p \<noteq> ct_none ct) (?us @ ct_none ct # ?vs) = filter (\<lambda>p. p \<noteq> ct_none ct) (?us @ ?vs)"
    by (simp only: filter_append filter.simps if_False simp_thms)
  then have kept: "filter (\<lambda>p. p \<noteq> ct_none ct) (with_none ct ps) = filter (\<lambda>p. p \<noteq> ct_none ct) ps"
    by (simp add: with_none_eq)
  have split: "ct_none ct \<in> set ps \<or> (with_none ct ps = ?us @ ct_none ct # ?vs \<and> ps = ?us @ ?vs)"
    by (simp add: with_none_eq)
  have "ct_none ct \<in> set (with_none ct ps)" by (simp add: with_none_eq)
  with kept split us vs show ?thesis by blast
qed

lemma climate_modes_usable:
  assumes "climate_modes repr ct e = Some ms" and "ct_heat ct \<in> set (ct_modes ct)"
  shows "ms \<noteq> []" and "set ms \<subseteq> set (ct_modes ct)"
  using assms by (auto simp: climate_modes_def Let_def split: if_splits)

text \<open>Fact: a temperature limit is never 0: a limit of 0 that the daemon reports is skipped like a missing one, and the
  next source, in the end the built-in limit, is used instead. So a thermostat that may be set
  down to 0 degrees is offered from 4.5 degrees.\<close>

theorem zero_limit_is_skipped:
  "climate_min_temp e \<noteq> 0 \<and> climate_max_temp e \<noteq> 0 \<and> target_temperature_step e \<noteq> 0
   \<and> (as_float (config_value e ''min_temp'') \<notin> {None, Some 0}
      \<or> climate_min_temp e = (case as_float (state_get e ''min_temp'') of None \<Rightarrow> 9 / 2 | Some r \<Rightarrow> if r = 0 then 9 / 2 else r))"
  by (auto simp: climate_min_temp_def climate_max_temp_def target_temperature_step_def limit_of_def float_or_def split: option.splits)

text \<open>Fact: a null set temperature hides the target temperature of the same state: the fall-back key is read only when
  the first one is absent, so with a null under it the value comes from the generic data point
  alone.\<close>

theorem null_set_temperature_hides_target:
  "dict_get (co_state (en_cdp e)) ''set_temperature'' = Some JNull \<Longrightarrow>
   target_temperature s e = as_float (generic_channel_value s e ''SET_POINT_TEMPERATURE'')"
  by (simp add: target_temperature_def)

text \<open>
  The kind decides before the category does; a kind outside the table leaves it to the category.
  Whatever the kind says, the entity is filed under a category of the fixed list.
\<close>

lemma class_of_unknown_kind:
  "k \<notin> set (map fst kind_to_class) \<Longrightarrow> resolve_custom_class (Some k) c = resolve_custom_class None c"
  using map_of_eq_None_iff [THEN iffD2, of k kind_to_class] by (simp add: resolve_custom_class_def)

lemma entity_category_known: "entity_category k c \<in> set category_strings"
proof -
  have "custom_category x \<in> set category_strings" for x by (cases x) (simp_all add: category_strings_def)
  then show ?thesis by (simp add: entity_category_def split: option.split)
qed

end
