(* ===== verification/CustomOps.thy ===== *)
theory CustomOps
  imports Custom
begin

text \<open>
  The actions of the custom data points (compat/aiohomematic/model/custom/__init__.py): each one is the list of
  invocations it sends, awaited one after the other, and the entity it leaves. On-times are staged
  on the entity for the next switch-on (compat/aiohomematic/model/_protocol_surface.py); the contract every timed
  output keeps about them is the locale \<open>timed_output\<close>, interpreted on the switch and the valve.
\<close>

section \<open>Invocations\<close>

definition invoke :: "entity \<Rightarrow> string \<Rightarrow> (string \<times> json) list option \<Rightarrow> write_back" where
  "invoke e operation ps = InvokeCustomDataPoint (co_address (en_cdp e)) (cd_name (co_summary (en_cdp e))) operation ps None"

definition send_call :: "write_back \<Rightarrow> unit co" where
  "send_call wb = bind (look transport_bound) (\<lambda>b. if b then ask (call_of wb) (\<lambda>r. Some ()) else throw OtherError)"

text \<open>Awaited one by one: the first that raises ends the action.\<close>

definition perform_calls :: "write_back list \<Rightarrow> unit co" where
  "perform_calls ws = each send_call ws"

section \<open>The staged on-time\<close>

definition set_timer_on_time :: "rat \<Rightarrow> entity \<Rightarrow> entity" where
  "set_timer_on_time on_time e = e\<lparr>en_pending := Some on_time\<rparr>"

definition reset_timer_on_time :: "entity \<Rightarrow> entity" where
  "reset_timer_on_time e = e\<lparr>en_pending := None\<rparr>"

definition consume_timer_on_time :: "rat option \<Rightarrow> entity \<Rightarrow> rat option \<times> entity" where
  "consume_timer_on_time on_time e =
     (let seconds = (case on_time of Some t \<Rightarrow> Some t | None \<Rightarrow> en_pending e)
      in (case seconds of None \<Rightarrow> None | Some t \<Rightarrow> if t > 0 then Some t else None, e\<lparr>en_pending := None\<rparr>))"

section \<open>Switches and valves\<close>

definition switch_turn_on :: "rat option \<Rightarrow> entity \<Rightarrow> write_back list \<times> entity" where
  "switch_turn_on on_time e =
     (case consume_timer_on_time on_time e of
        (Some t, e') \<Rightarrow> ([invoke e' ''turn_on_for'' (Some [(''seconds'', JFloat t)])], e')
      | (None, e') \<Rightarrow> ([invoke e' ''turn_on'' None], e'))"

definition switch_turn_off :: "entity \<Rightarrow> write_back list \<times> entity" where
  "switch_turn_off e = (let e' = reset_timer_on_time e in ([invoke e' ''turn_off'' None], e'))"

definition valve_open :: "rat option \<Rightarrow> entity \<Rightarrow> write_back list \<times> entity" where
  "valve_open on_time e =
     (case consume_timer_on_time on_time e of
        (Some t, e') \<Rightarrow> ([invoke e' ''open'' (Some [(''seconds'', JFloat t)])], e')
      | (None, e') \<Rightarrow> ([invoke e' ''open'' None], e'))"

definition valve_close :: "entity \<Rightarrow> write_back list \<times> entity" where
  "valve_close e = (let e' = reset_timer_on_time e in ([invoke e' ''close'' None], e'))"

section \<open>Lights\<close>

record light_request =
  lr_brightness :: "int option"
  lr_hs_color :: "(rat \<times> rat) option"
  lr_color_temp_kelvin :: "int option"
  lr_effect :: "string option"

definition is_plain :: "light_request \<Rightarrow> bool" where
  "is_plain r \<longleftrightarrow> lr_hs_color r = None \<and> lr_color_temp_kelvin r = None \<and> lr_effect r = None \<and> lr_brightness r = None"

text \<open>Colour, kelvin and effect, in this order, each only when given.\<close>

definition light_settings :: "light_request \<Rightarrow> entity \<Rightarrow> write_back list" where
  "light_settings r e =
     (case lr_hs_color r of None \<Rightarrow> []
        | Some (h, s) \<Rightarrow> [invoke e ''set_color'' (Some [(''hue'', JFloat h), (''saturation'', JFloat s)])])
     @ (case lr_color_temp_kelvin r of None \<Rightarrow> [] | Some k \<Rightarrow> [invoke e ''set_kelvin'' (Some [(''kelvin'', JInt k)])])
     @ (case lr_effect r of None \<Rightarrow> [] | Some x \<Rightarrow> [invoke e ''set_effect'' (Some [(''effect'', JStr x)])])"

definition turn_on_bounded :: "rat \<Rightarrow> light_request \<Rightarrow> entity \<Rightarrow> write_back list" where
  "turn_on_bounded seconds r e = light_settings r e @
     [case lr_brightness r of
        Some b \<Rightarrow> invoke e ''set_level'' (Some [(''brightness'', JInt b), (''seconds'', JFloat seconds)])
      | None \<Rightarrow> invoke e ''turn_on'' (Some [(''seconds'', JFloat seconds)])]"

definition light_turn_on :: "store \<Rightarrow> rat option \<Rightarrow> light_request \<Rightarrow> entity \<Rightarrow> write_back list \<times> entity" where
  "light_turn_on s on_time r e =
     (case consume_timer_on_time on_time e of (seconds, e') \<Rightarrow>
        (case seconds of
           Some t \<Rightarrow>
             if has_capability ''cdp.bounded_on.v1'' s then turn_on_bounded t r e'
             else if is_plain r then [invoke e' ''set_timer_on_time'' (Some [(''seconds'', JFloat t)]), invoke e' ''turn_on'' None]
             else light_settings r e' @ (case lr_brightness r of
                 Some b \<Rightarrow> [invoke e' ''set_level'' (Some [(''brightness'', JInt b)])] | None \<Rightarrow> [])
         | None \<Rightarrow> light_settings r e' @ (case lr_brightness r of
                 Some b \<Rightarrow> [invoke e' ''set_level'' (Some [(''brightness'', JInt b)])]
               | None \<Rightarrow> if is_plain r then [invoke e' ''turn_on'' None] else []), e'))"

definition light_turn_off :: "entity \<Rightarrow> write_back list \<times> entity" where
  "light_turn_off e = (let e' = reset_timer_on_time e in ([invoke e' ''turn_off'' None], e'))"

definition set_brightness :: "int \<Rightarrow> entity \<Rightarrow> write_back" where
  "set_brightness b e = invoke e ''set_level'' (Some [(''brightness'', JInt b)])"

text \<open>Bookkeeping on the entity's own state, without a write.\<close>

definition set_last_level :: "int \<Rightarrow> entity \<Rightarrow> entity" where
  "set_last_level b e = e\<lparr>en_cdp := (en_cdp e)\<lparr>co_state := dict_put ''brightness'' (JInt b) (co_state (en_cdp e))\<rparr>\<rparr>"

section \<open>Covers, blinds and garage doors\<close>

datatype cover_command = OpenCover | CloseCover | StopCover | SetPosition int "int option" | SetTiltPosition int
  | OpenTilt | CloseTilt | StopTilt | Vent

fun cover_calls :: "custom_class \<Rightarrow> cover_command \<Rightarrow> entity \<Rightarrow> write_back list" where
  "cover_calls c OpenCover e = [invoke e ''open'' None]"
| "cover_calls c CloseCover e = [invoke e ''close'' None]"
| "cover_calls c StopCover e = [invoke e ''stop'' None]"
| "cover_calls c (SetPosition p tilt) e =
     invoke e ''set_position'' (Some [(''position'', JFloat (of_int p / 100))]) #
     (if c = IpBlind then
        (case tilt of None \<Rightarrow> [] | Some t \<Rightarrow> [invoke e ''set_tilt'' (Some [(''tilt'', JFloat (of_int t / 100))])])
      else [])"
| "cover_calls c (SetTiltPosition t) e = [invoke e ''set_tilt'' (Some [(''tilt'', JFloat (of_int t / 100))])]"
| "cover_calls c OpenTilt e = [invoke e ''open_tilt'' None]"
| "cover_calls c CloseTilt e = [invoke e ''close_tilt'' None]"
| "cover_calls c StopTilt e = [invoke e ''stop_tilt'' None]"
| "cover_calls c Vent e = [invoke e ''ventilate'' None]"

section \<open>Climate, locks and sirens\<close>

datatype climate_command = SetTemperature rat | SetMode string | SetProfile string | EnableAwayFor int rat
  | EnableAwayBetween json json rat | DisableAway

fun climate_call :: "climate_command \<Rightarrow> entity \<Rightarrow> write_back" where
  "climate_call (SetTemperature t) e = invoke e ''set_temperature'' (Some [(''temperature'', JFloat t)])"
| "climate_call (SetMode m) e = invoke e ''set_mode'' (Some [(''mode'', JStr m)])"
| "climate_call (SetProfile p) e = invoke e ''set_profile'' (Some [(''profile'', JStr p)])"
| "climate_call (EnableAwayFor h t) e = invoke e ''enable_away'' (Some [(''hours'', JInt h), (''temperature'', JFloat t)])"
| "climate_call (EnableAwayBetween from til t) e =
     invoke e ''enable_away'' (Some [(''start'', from), (''end'', til), (''temperature'', JFloat t)])"
| "climate_call DisableAway e = invoke e ''disable_away'' None"

datatype lock_command = LockIt | Unlock | OpenLatch

fun lock_call :: "lock_command \<Rightarrow> entity \<Rightarrow> write_back" where
  "lock_call LockIt e = invoke e ''lock'' None"
| "lock_call Unlock e = invoke e ''unlock'' None"
| "lock_call OpenLatch e = invoke e ''open'' None"

definition none_if_empty :: "(string \<times> json) list \<Rightarrow> (string \<times> json) list option" where
  "none_if_empty ps = (if ps = [] then None else Some ps)"

definition siren_turn_on :: "(string \<times> json) list \<Rightarrow> entity \<Rightarrow> write_back" where
  "siren_turn_on ps e = invoke e ''turn_on'' (none_if_empty ps)"

definition siren_turn_off :: "entity \<Rightarrow> write_back" where
  "siren_turn_off e = invoke e ''turn_off'' None"

definition play_sound :: "(string \<times> json) list \<Rightarrow> entity \<Rightarrow> write_back" where
  "play_sound ps e = invoke e ''turn_on'' (none_if_empty ps)"

definition stop_sound :: "entity \<Rightarrow> write_back" where
  "stop_sound e = invoke e ''turn_off'' None"

section \<open>Text displays\<close>

record text_request =
  tr_text :: string
  tr_icon :: "string option"
  tr_background_color :: "string option"
  tr_text_color :: "string option"
  tr_alignment :: "string option"
  tr_display_id :: int
  tr_sound :: "string option"
  tr_repeat :: "int option"
  tr_interval :: "int option"

definition send_text :: "text_request \<Rightarrow> entity \<Rightarrow> write_back" where
  "send_text r e =
     (let ps = [(''id'', JInt (tr_display_id r)), (''text'', JStr (tr_text r))] @ opt ''icon'' JStr (tr_icon r) in
      case tr_sound r of
        None \<Rightarrow> invoke e ''write'' (Some (ps @ opt ''background_color'' JStr (tr_background_color r)
            @ opt ''text_color'' JStr (tr_text_color r) @ opt ''alignment'' JStr (tr_alignment r)))
      | Some x \<Rightarrow> invoke e ''write_with_sound'' (Some (ps @ [(''sound'', JStr x)] @ opt ''repeat'' JInt (tr_repeat r)
            @ opt ''interval'' (\<lambda>i. JStr (show_int i)) (tr_interval r))))"

definition write_text :: "(string \<times> json) list \<Rightarrow> entity \<Rightarrow> write_back" where
  "write_text ps e = invoke e ''write'' (none_if_empty ps)"

definition clear_text :: "entity \<Rightarrow> write_back" where
  "clear_text e = invoke e ''clear'' None"

section \<open>Performing a list of invocations\<close>

lemma send_sends: "w_sent (snd (send_call c w)) = w_sent w \<or> w_sent (snd (send_call c w)) = w_sent w @ [call_of c]"
  by (simp add: send_call_def co_defs Let_def split: prod.splits reply.splits)

lemma send_done: "fst (send_call c w) = Inr () \<Longrightarrow> w_sent (snd (send_call c w)) = w_sent w @ [call_of c]"
  by (auto simp: send_call_def co_defs Let_def split: prod.splits reply.splits if_splits)

text \<open>Fact: the invocations of an action are sent in their order and the first that fails ends the action: what was sent
  is a prefix of the list, all of it exactly when the action returns, and each earlier call was
  answered. So the switch-on that comes last is never sent over a failed setting.\<close>

theorem performed_in_order:
  "(fst (perform_calls ws w) = Inr () \<and> w_sent (snd (perform_calls ws w)) = w_sent w @ map call_of ws)
   \<or> (\<exists>x us vs. fst (perform_calls ws w) = Inl x \<and> ws = us @ vs \<and> vs \<noteq> []
        \<and> w_sent (snd (perform_calls ws w)) \<in> {w_sent w @ map call_of us, w_sent w @ map call_of (us @ [hd vs])}
        \<and> fst (perform_calls us w) = Inr ())"
proof (induction ws arbitrary: w)
  case Nil
  then show ?case by (simp add: perform_calls_def ret_def)
next
  case (Cons c ws)
  obtain r w1 where s: "send_call c w = (r, w1)" by fastforce
  show ?case
  proof (cases r)
    case (Inl x)
    with s have "perform_calls (c # ws) w = (Inl x, w1)" by (simp add: perform_calls_def andthen_def bind_def)
    moreover have "w_sent w1 \<in> {w_sent w @ map call_of [], w_sent w @ map call_of ([] @ [c])}"
      using send_sends [of c w] s by auto
    ultimately show ?thesis
      by (intro disjI2 exI [of _ x] exI [of _ "[]"] exI [of _ "c # ws"]) (simp add: perform_calls_def ret_def)
  next
    case (Inr u)
    have first: "w_sent w1 = w_sent w @ [call_of c]" using send_done [of c w] s Inr by simp
    have step: "perform_calls (c # xs) w = perform_calls xs w1" for xs using s Inr by (simp add: perform_calls_def andthen_def bind_def)
    from Cons.IH [of w1] show ?thesis
    proof (elim disjE exE conjE, goal_cases)
      case 1
      then show ?case by (simp add: step first)
    next
      case (2 x us vs)
      then show ?case
        by (intro disjI2 exI [of _ x] exI [of _ "c # us"] exI [of _ vs]) (auto simp: step first)
    qed
  qed
qed

section \<open>Timed outputs\<close>

text \<open>What an output does between two commands of a consumer: on-times staged or dropped, states pushed.\<close>

datatype timer_step = Stage rat | Unstage | SwitchOn "rat option" | SwitchOff | Pushed cdp_state

definition push_state :: "cdp_state \<Rightarrow> entity \<Rightarrow> entity" where
  "push_state st e = e\<lparr>en_cdp := (en_cdp e)\<lparr>co_state := st, co_generation := Suc (co_generation (en_cdp e))\<rparr>\<rparr>"

fun output_step :: "(rat option \<Rightarrow> entity \<Rightarrow> write_back list \<times> entity) \<Rightarrow> (entity \<Rightarrow> write_back list \<times> entity)
    \<Rightarrow> timer_step \<Rightarrow> entity \<Rightarrow> write_back list \<times> entity" where
  "output_step turn_on turn_off (Stage t) e = ([], set_timer_on_time t e)"
| "output_step turn_on turn_off Unstage e = ([], reset_timer_on_time e)"
| "output_step turn_on turn_off (SwitchOn t) e = turn_on t e"
| "output_step turn_on turn_off SwitchOff e = turn_off e"
| "output_step turn_on turn_off (Pushed st) e = ([], push_state st e)"

fun output_run :: "(rat option \<Rightarrow> entity \<Rightarrow> write_back list \<times> entity) \<Rightarrow> (entity \<Rightarrow> write_back list \<times> entity)
    \<Rightarrow> timer_step list \<Rightarrow> entity \<Rightarrow> write_back list \<times> entity" where
  "output_run turn_on turn_off [] e = ([], e)"
| "output_run turn_on turn_off (x # xs) e =
     (case output_step turn_on turn_off x e of (ws, e') \<Rightarrow>
        (case output_run turn_on turn_off xs e' of (vs, e'') \<Rightarrow> (ws @ vs, e'')))"

text \<open>The contract: the on-time of a switch-on is the explicit one, else the one staged last, and both ends clear it.\<close>

fun is_push :: "timer_step \<Rightarrow> bool" where
  "is_push (Pushed st) \<longleftrightarrow> True"
| "is_push _ \<longleftrightarrow> False"

definition staged :: "timer_step list \<Rightarrow> rat option" where
  "staged past = (case dropWhile is_push (rev past) of Stage t # _ \<Rightarrow> Some t | _ \<Rightarrow> None)"

definition due :: "timer_step list \<Rightarrow> rat option \<Rightarrow> rat option" where
  "due past explicit = (case (case explicit of Some t \<Rightarrow> Some t | None \<Rightarrow> staged past) of
     Some t \<Rightarrow> if t > 0 then Some t else None | None \<Rightarrow> None)"

lemma output_run_append:
  "output_run turn_on turn_off (xs @ ys) e =
     (case output_run turn_on turn_off xs e of (ws, e') \<Rightarrow>
        (case output_run turn_on turn_off ys e' of (vs, e'') \<Rightarrow> (ws @ vs, e'')))"
  by (induction xs arbitrary: e) (auto split: prod.splits)

text \<open>The address and the name, which the calls are made of, are kept by every step.\<close>

definition cdp_identity :: "entity \<Rightarrow> string \<times> string" where
  "cdp_identity e = (co_address (en_cdp e), cd_name (co_summary (en_cdp e)))"

lemma identity_simps [simp]:
  "cdp_identity (set_timer_on_time t e) = cdp_identity e" "cdp_identity (reset_timer_on_time e) = cdp_identity e"
  "cdp_identity (push_state st e) = cdp_identity e" "en_pending (push_state st e) = en_pending e"
  "en_pending (reset_timer_on_time e) = None" "en_pending (set_timer_on_time t e) = Some t"
  by (simp_all add: cdp_identity_def set_timer_on_time_def reset_timer_on_time_def push_state_def)

lemma invoke_identity: "invoke e = invoke e' \<longleftrightarrow> cdp_identity e = cdp_identity e'"
  by (auto simp: invoke_def cdp_identity_def fun_eq_iff)

locale timed_output =
  fixes turn_on :: "rat option \<Rightarrow> entity \<Rightarrow> write_back list \<times> entity"
    and turn_off :: "entity \<Rightarrow> write_back list \<times> entity"
    and on_calls :: "rat option \<Rightarrow> string \<times> string \<Rightarrow> write_back list"
  assumes on: "turn_on t e = (on_calls (fst (consume_timer_on_time t e)) (cdp_identity e), reset_timer_on_time e)"
    and off: "snd (turn_off e) = reset_timer_on_time e"
begin

lemma identity_run: "cdp_identity (snd (output_run turn_on turn_off xs e)) = cdp_identity e"
proof (induction xs arbitrary: e)
  case (Cons x xs)
  have "cdp_identity (snd (output_step turn_on turn_off x e)) = cdp_identity e" by (cases x) (simp_all add: on off)
  with Cons show ?case by (auto split: prod.splits) (metis snd_conv)
qed simp

lemma pending_run:
  assumes "en_pending e = None"
  shows "en_pending (snd (output_run turn_on turn_off xs e)) = staged xs"
proof (induction xs rule: rev_induct)
  case Nil
  then show ?case using assms by (simp add: staged_def)
next
  case (snoc x xs)
  have "en_pending (snd (output_step turn_on turn_off x e')) = staged (xs @ [x])" if "en_pending e' = staged xs" for e'
    using that by (cases x) (simp_all add: on off staged_def)
  with snoc show ?case by (simp add: output_run_append split: prod.splits) (metis snd_conv)
qed

lemma next_on:
  assumes "en_pending e = None"
  shows "fst (output_run turn_on turn_off (xs @ [SwitchOn t]) e)
    = fst (output_run turn_on turn_off xs e) @ on_calls (due xs t) (cdp_identity e)"
proof -
  obtain ws e' where run: "output_run turn_on turn_off xs e = (ws, e')" by fastforce
  have "en_pending e' = staged xs" "cdp_identity e' = cdp_identity e"
    using pending_run [OF assms, of xs] identity_run [of xs e] run by simp_all
  moreover from this have "fst (consume_timer_on_time t e') = due xs t"
    by (cases t) (simp_all add: consume_timer_on_time_def due_def Let_def)
  ultimately show ?thesis by (simp add: output_run_append run on)
qed

end

text \<open>The calls of the two timed outputs, as functions of the on-time and the entity's identity.\<close>

definition switch_calls :: "rat option \<Rightarrow> string \<times> string \<Rightarrow> write_back list" where
  "switch_calls t i = (case t of
       Some s \<Rightarrow> [InvokeCustomDataPoint (fst i) (snd i) ''turn_on_for'' (Some [(''seconds'', JFloat s)]) None]
     | None \<Rightarrow> [InvokeCustomDataPoint (fst i) (snd i) ''turn_on'' None None])"

definition valve_calls :: "rat option \<Rightarrow> string \<times> string \<Rightarrow> write_back list" where
  "valve_calls t i = [InvokeCustomDataPoint (fst i) (snd i) ''open'' (map_option (\<lambda>s. [(''seconds'', JFloat s)]) t) None]"

lemma consume_snd: "snd (consume_timer_on_time t e) = reset_timer_on_time e"
  by (simp add: consume_timer_on_time_def reset_timer_on_time_def Let_def)

interpretation switch: timed_output switch_turn_on switch_turn_off switch_calls
proof
  show "switch_turn_on t e = (switch_calls (fst (consume_timer_on_time t e)) (cdp_identity e), reset_timer_on_time e)" for t e
    using consume_snd [of t e] identity_simps(2) [of e]
    by (cases "consume_timer_on_time t e")
       (auto simp: switch_turn_on_def switch_calls_def invoke_def cdp_identity_def split: option.splits)
  show "snd (switch_turn_off e) = reset_timer_on_time e" for e by (simp add: switch_turn_off_def Let_def)
qed

interpretation valve: timed_output valve_open valve_close valve_calls
proof
  show "valve_open t e = (valve_calls (fst (consume_timer_on_time t e)) (cdp_identity e), reset_timer_on_time e)" for t e
    using consume_snd [of t e] identity_simps(2) [of e]
    by (cases "consume_timer_on_time t e")
       (auto simp: valve_open_def valve_calls_def invoke_def cdp_identity_def split: option.splits)
  show "snd (valve_close e) = reset_timer_on_time e" for e by (simp add: valve_close_def Let_def)
qed

definition light_calls :: "store \<Rightarrow> light_request \<Rightarrow> rat option \<Rightarrow> string \<times> string \<Rightarrow> write_back list" where
  "light_calls s r t i = fst (light_turn_on s t r
     (new_entity (new_cdp \<lparr>cd_name = snd i, cd_channel_no = 0, cd_state = None, cd_rest = JNull\<rparr> (fst i) None)))"

lemma light_settings_cong: "invoke e = invoke e' \<Longrightarrow> light_settings r e = light_settings r e'"
  by (simp add: light_settings_def split: option.splits prod.splits)

lemma light_turn_on_cong:
  assumes "cdp_identity e = cdp_identity e'" and "fst (consume_timer_on_time t e) = fst (consume_timer_on_time t' e')"
  shows "fst (light_turn_on s t r e) = fst (light_turn_on s t' r e')"
proof -
  obtain c e1 c' e1' where c: "consume_timer_on_time t e = (c, e1)" "consume_timer_on_time t' e' = (c', e1')" by fastforce
  have "e1 = reset_timer_on_time e" "e1' = reset_timer_on_time e'" using consume_snd [of t e] consume_snd [of t' e'] c by simp_all
  then have i: "invoke e1 = invoke e1'" using assms(1) by (simp add: invoke_identity)
  have "c = c'" using assms(2) c by simp
  then show ?thesis
    by (cases c'; cases "lr_brightness r")
       (simp_all add: light_turn_on_def c i light_settings_cong [OF i] turn_on_bounded_def)
qed

lemma consumed_positive: "fst (consume_timer_on_time t e) = Some x \<Longrightarrow> x > 0"
  by (auto simp: consume_timer_on_time_def Let_def split: option.splits if_splits)

lemma consume_again: "en_pending e' = None \<Longrightarrow>
  fst (consume_timer_on_time (fst (consume_timer_on_time t e)) e') = fst (consume_timer_on_time t e)"
  using consumed_positive [of t e]
  by (cases "fst (consume_timer_on_time t e)") (auto simp: consume_timer_on_time_def Let_def)

interpretation light: timed_output "\<lambda>t. light_turn_on s t r" light_turn_off "light_calls s r" for s r
proof
  show "light_turn_on s t r e = (light_calls s r (fst (consume_timer_on_time t e)) (cdp_identity e), reset_timer_on_time e)" for t e
  proof (rule prod_eqI)
    let ?e = "new_entity (new_cdp \<lparr>cd_name = snd (cdp_identity e), cd_channel_no = 0, cd_state = None, cd_rest = JNull\<rparr>
      (fst (cdp_identity e)) None)"
    have "cdp_identity e = cdp_identity ?e" by (simp add: cdp_identity_def new_entity_def new_cdp_def)
    moreover have "en_pending ?e = None" by (simp add: new_entity_def)
    ultimately show "fst (light_turn_on s t r e) = fst (light_calls s r (fst (consume_timer_on_time t e)) (cdp_identity e), reset_timer_on_time e)"
      unfolding light_calls_def using consume_again [of ?e t e] by (simp add: light_turn_on_cong [where e' = ?e])
    show "snd (light_turn_on s t r e) = snd (light_calls s r (fst (consume_timer_on_time t e)) (cdp_identity e), reset_timer_on_time e)"
      using consume_snd [of t e] by (cases "consume_timer_on_time t e") (simp add: light_turn_on_def)
  qed
  show "snd (light_turn_off e) = reset_timer_on_time e" for e by (simp add: light_turn_off_def Let_def)
qed

text \<open>C29: the seconds of a switch-on are exactly the on-time due to it. Over any sequence of stagings, resets,
  switch-ons, switch-offs and pushed states, a switch-on that ends it sends one invocation:
  \<open>turn_on_for\<close> with the explicit on-time, or without one with the on-time staged directly before
  (pushes aside), if it is positive, and the plain \<open>turn_on\<close> otherwise. A staged on-time is so used
  by one switch-on at most and never survives another command.\<close>

theorem switch_on_time_exact:
  "fst (output_run switch_turn_on switch_turn_off (past @ [SwitchOn t]) (new_entity c))
   = fst (output_run switch_turn_on switch_turn_off past (new_entity c))
     @ [case due past t of
          Some x \<Rightarrow> invoke (new_entity c) ''turn_on_for'' (Some [(''seconds'', JFloat x)])
        | None \<Rightarrow> invoke (new_entity c) ''turn_on'' None]"
  using switch.next_on [of "new_entity c" past t]
  by (simp add: new_entity_def switch_calls_def invoke_def cdp_identity_def split: option.splits)

text \<open>Fact: the same for an irrigation valve: \<open>open\<close> carries the due on-time as \<open>seconds\<close> and no parameter without one.\<close>

theorem valve_on_time_exact:
  "fst (output_run valve_open valve_close (past @ [SwitchOn t]) (new_entity c))
   = fst (output_run valve_open valve_close past (new_entity c))
     @ [invoke (new_entity c) ''open'' (map_option (\<lambda>x. [(''seconds'', JFloat x)]) (due past t))]"
  using valve.next_on [of "new_entity c" past t]
  by (simp add: new_entity_def valve_calls_def invoke_def cdp_identity_def)

text \<open>The seconds an invocation carries.\<close>

fun seconds_of :: "write_back \<Rightarrow> json" where
  "seconds_of (InvokeCustomDataPoint a n oper (Some ps) prio) = obj_get ps ''seconds''"
| "seconds_of _ = JNull"

lemma settings_carry_none: "filter (\<lambda>w. seconds_of w \<noteq> JNull) (light_settings r e) = []"
  by (simp add: light_settings_def invoke_def obj_get_def split: option.splits)

text \<open>Fact: a bounded light switch-on carries its seconds exactly once or not at all. With a due on-time and a daemon that
  bounds a switch-on, only the last invocation carries it, so no earlier one starts the light
  unbounded; with an older daemon only a plain switch-on carries it, in the first of its two calls,
  and any other request drops it. Without a due on-time none carries one, and the staged on-time
  is used up in every case.\<close>

theorem light_seconds_carried_once:
  "let (ws, e') = light_turn_on s t r e; seconds = fst (consume_timer_on_time t e) in
     en_pending e' = None
   \<and> filter (\<lambda>w. seconds_of w \<noteq> JNull) ws =
       (case seconds of
          None \<Rightarrow> []
        | Some x \<Rightarrow> if has_capability ''cdp.bounded_on.v1'' s then [last ws] else if is_plain r then [hd ws] else [])
   \<and> (seconds = None \<or> set (map seconds_of ws) \<subseteq> {JNull, JFloat (the seconds)})"
proof -
  obtain c e1 where c: "consume_timer_on_time t e = (c, e1)" by fastforce
  have pending: "en_pending e1 = None" using consume_snd [of t e] c by simp
  have settings: "set (map seconds_of (light_settings r e1)) \<subseteq> {JNull}"
    by (cases "lr_hs_color r"; cases "lr_color_temp_kelvin r"; cases "lr_effect r")
       (auto simp: light_settings_def invoke_def obj_get_def)
  show ?thesis
  proof (cases c)
    case None
    then show ?thesis
      by (simp add: light_turn_on_def c pending settings_carry_none)
         (simp add: invoke_def obj_get_def split: option.splits)
  next
    case (Some x)
    then show ?thesis
      using settings
      by (auto simp: light_turn_on_def c pending settings_carry_none turn_on_bounded_def invoke_def obj_get_def
          split: option.splits)
  qed
qed

end
