(* ===== verification/EventGroups.thy ===== *)
theory EventGroups
  imports Generic
begin

text \<open>
  The trigger sources of a device (compat/aiohomematic/model/event_group.py, event.py and naming.py, the graph navigation of
  model/device.py, the query facade's cache of groups in compat/aiohomematic/central/adapter.py). The daemon declares
  the groups of a channel; a group's members are the data points of the channel that emit events
  and are not suppressed. A group carries the last trigger and whether an entity claimed it, so the
  facade keeps the group it built first for each key.
\<close>

section \<open>Names\<close>

definition has_channel_no_suffix :: "string \<Rightarrow> bool" where
  "has_channel_no_suffix name \<longleftrightarrow>
     length (filter (\<lambda>c. c = CHR '':'') name) = 1 \<and> python_int (snd (snd (partition_colon name))) \<noteq> None"

definition channel_field :: "channel_obj \<Rightarrow> string \<Rightarrow> json" where
  "channel_field c k = (case cs_rest (ch_summary c) of JObj r \<Rightarrow> obj_get r k | _ \<Rightarrow> JNull)"

definition channel_name :: "channel_obj \<Rightarrow> string option" where
  "channel_name c = (case channel_field c ''name'' of JStr n \<Rightarrow> Some n | _ \<Rightarrow> None)"

definition channel_base_name :: "store \<Rightarrow> device_obj \<Rightarrow> int \<Rightarrow> string" where
  "channel_base_name s d n =
     (let sm = dv_summary d;
          raw = (case get_channel (ds_address sm) n s of None \<Rightarrow> None | Some i \<Rightarrow> channel_name (reg_heap (st_channels s) ! i));
          fallback = ds_name sm @ '':'' @ show_int n
      in case raw of
           None \<Rightarrow> fallback
         | Some r \<Rightarrow> if r = '''' \<or> r = ds_model sm @ '' '' @ ds_address sm @ '':'' @ show_int n then fallback else r)"

text \<open>\<open>text.replace(part, "")\<close> for a part that is not empty.\<close>

function remove_all :: "string \<Rightarrow> string \<Rightarrow> string" where
  "remove_all part [] = []"
| "remove_all part (c # cs) =
     (if part \<noteq> [] \<and> starts_with part (c # cs) then remove_all part (drop (length part) (c # cs))
      else c # remove_all part cs)"
  by pat_completeness auto
termination by (relation "measure (\<lambda>(p, s). length s)") auto

definition channel_display_name :: "store \<Rightarrow> device_obj \<Rightarrow> int \<Rightarrow> string" where
  "channel_display_name s d n =
     (let base = channel_base_name s d n; own = ds_name (dv_summary d) in
      if has_channel_no_suffix base then if n = 0 then '''' else ''ch'' @ show_int n
      else py_strip
        (if own \<noteq> '''' \<and> starts_with own base then
           (let name = py_strip (remove_all own base) in if starts_with '':'' name then drop 1 name else name)
         else base))"

section \<open>Declared groups\<close>

datatype trigger_type = Keypress | Impulse | DeviceError

fun trigger_short :: "trigger_type \<Rightarrow> string" where
  "trigger_short Keypress = ''keypress''"
| "trigger_short Impulse = ''impulse''"
| "trigger_short DeviceError = ''device_error''"

definition trigger_by_kind :: "string \<Rightarrow> trigger_type option" where
  "trigger_by_kind kind = dict_get (map (\<lambda>t. (trigger_short t, t)) [Keypress, Impulse, DeviceError]) kind"

record declared_group =
  dg_kind :: string
  dg_parameters :: "string list"
  dg_unique_id :: string

definition declared_of :: "json \<Rightarrow> declared_group option" where
  "declared_of j = (case j of
       JObj d \<Rightarrow> (case (obj_get d ''kind'', obj_get d ''parameters'', obj_get d ''unique_id'') of
           (JStr k, JArr ps, JStr u) \<Rightarrow> Some \<lparr>dg_kind = k, dg_parameters = json_strings ps, dg_unique_id = u\<rparr>
         | _ \<Rightarrow> None)
     | _ \<Rightarrow> None)"

definition event_groups_of :: "channel_obj \<Rightarrow> declared_group list" where
  "event_groups_of c = (case channel_field c ''event_groups'' of JArr gs \<Rightarrow> List.map_filter declared_of gs | _ \<Rightarrow> [])"

definition usage_of :: "dp_obj \<Rightarrow> string" where
  "usage_of d = (case text_field d ''usage'' of None \<Rightarrow> '''' | Some u \<Rightarrow> u)"

definition emits_events :: "dp_obj \<Rightarrow> bool" where
  "emits_events d = operation_flag d ''event''"

section \<open>Generic data points and generic events of a device\<close>

text \<open>The channels in number order with their data points, as identities of live objects.\<close>

definition channel_at :: "store \<Rightarrow> oid \<Rightarrow> channel_obj" where
  "channel_at s i = reg_heap (st_channels s) ! i"

definition dp_at :: "store \<Rightarrow> oid \<Rightarrow> dp_obj" where
  "dp_at s i = reg_heap (st_dps s) ! i"

definition channel_device :: "channel_obj \<Rightarrow> string" where
  "channel_device c = before_colon (cs_address (ch_summary c))"

definition data_points_of_channel :: "store \<Rightarrow> oid \<Rightarrow> oid list" where
  "data_points_of_channel s i = data_points_of (channel_device (channel_at s i)) (cs_number (ch_summary (channel_at s i))) s"

definition not_generic :: "channel_obj \<Rightarrow> string list" where
  "not_generic c = concat (map dg_parameters (filter (\<lambda>g. dg_kind g \<noteq> ''keypress'') (event_groups_of c)))"

definition keypress_sources :: "channel_obj \<Rightarrow> string list" where
  "keypress_sources c = concat (map dg_parameters (filter (\<lambda>g. dg_kind g = ''keypress'') (event_groups_of c)))"

definition is_generic :: "store \<Rightarrow> string \<Rightarrow> channel_obj \<Rightarrow> dp_obj \<Rightarrow> bool" where
  "is_generic s addr c d \<longleftrightarrow> (let p = dp_parameter (do_summary d) in
     \<not> (usage_of d = ''ignored'' \<or> p \<in> set (not_generic c) \<or> (p \<in> set (keypress_sources c) \<and> \<not> operation_flag d ''write'')
        \<or> is_calculated_data_point addr (do_channel d) p s))"

definition generic_of :: "store \<Rightarrow> string \<Rightarrow> oid \<Rightarrow> oid list" where
  "generic_of s addr i = filter (\<lambda>j. is_generic s addr (channel_at s i) (dp_at s j)) (data_points_of_channel s i)"

definition generic_data_points :: "store \<Rightarrow> string \<Rightarrow> oid list" where
  "generic_data_points s addr = concat (map (generic_of s addr) (channels_of addr s))"

record generic_event =
  ge_data_point :: oid
  ge_type :: trigger_type

definition make_generic_event :: "store \<Rightarrow> oid \<Rightarrow> string \<Rightarrow> generic_event option" where
  "make_generic_event s j kind =
     (if usage_of (dp_at s j) = ''ignored'' then None
      else map_option (\<lambda>t. \<lparr>ge_data_point = j, ge_type = t\<rparr>) (trigger_by_kind kind))"

definition event_usage :: "dp_obj \<Rightarrow> string" where
  "event_usage d = (if usage_of d = ''no_create'' then ''no_create'' else ''event'')"

definition is_member :: "declared_group \<Rightarrow> dp_obj \<Rightarrow> bool" where
  "is_member g d \<longleftrightarrow> dp_parameter (do_summary d) \<in> set (dg_parameters g) \<and> emits_events d"

definition events_of_group :: "store \<Rightarrow> oid \<Rightarrow> declared_group \<Rightarrow> generic_event list" where
  "events_of_group s i g = List.map_filter
     (\<lambda>j. if is_member g (dp_at s j) then make_generic_event s j (dg_kind g) else None) (data_points_of_channel s i)"

definition events_of :: "store \<Rightarrow> oid \<Rightarrow> generic_event list" where
  "events_of s i = concat (map (events_of_group s i) (event_groups_of (channel_at s i)))"

definition generic_events :: "store \<Rightarrow> string \<Rightarrow> generic_event list" where
  "generic_events s addr = concat (map (events_of s) (channels_of addr s))"

section \<open>Event groups\<close>

record event_group =
  eg_channel :: oid
  eg_type :: trigger_type
  eg_events :: "oid list"
  eg_unique_id :: string
  eg_registered :: bool
  eg_last :: "(string \<times> json) option"

definition suppressed_usages :: "string set" where
  "suppressed_usages = {''no_create'', ''ignored''}"

definition group_of :: "store \<Rightarrow> oid \<Rightarrow> trigger_type option \<Rightarrow> declared_group \<Rightarrow> event_group option" where
  "group_of s i only g = (case trigger_by_kind (dg_kind g) of
       None \<Rightarrow> None
     | Some t \<Rightarrow>
         let members = filter (\<lambda>j. is_member g (dp_at s j) \<and> usage_of (dp_at s j) \<notin> suppressed_usages) (data_points_of_channel s i)
         in if only \<notin> {None, Some t} \<or> members = [] then None
            else Some \<lparr>eg_channel = i, eg_type = t, eg_events = members, eg_unique_id = dg_unique_id g,
                   eg_registered = False, eg_last = None\<rparr>)"

definition build_event_groups :: "store \<Rightarrow> trigger_type option \<Rightarrow> event_group list" where
  "build_event_groups s only = concat (map (\<lambda>d.
     concat (map (\<lambda>i. List.map_filter (group_of s i only) (event_groups_of (channel_at s i)))
       (channels_of (ds_address (dv_summary (reg_heap (st_devices s) ! d))) s))) (devices s))"

definition event_types :: "store \<Rightarrow> event_group \<Rightarrow> string list" where
  "event_types s g = map (\<lambda>j. map lower_char (dp_parameter (do_summary (dp_at s j)))) (eg_events g)"

definition record_trigger :: "string \<Rightarrow> json \<Rightarrow> event_group \<Rightarrow> event_group" where
  "record_trigger p v g = g\<lparr>eg_last := Some (p, v)\<rparr>"

definition register_group :: "bool \<Rightarrow> event_group \<Rightarrow> event_group" where
  "register_group b g = g\<lparr>eg_registered := b\<rparr>"

text \<open>\<open>cache.setdefault(key, built)\<close>\<close>

definition set_default :: "event_group \<Rightarrow> (string, event_group) dict \<Rightarrow> (string, event_group) dict" where
  "set_default g cache = (if dict_get cache (eg_unique_id g) = None then dict_put (eg_unique_id g) g cache else cache)"

fun get_event_groups :: "bool option \<Rightarrow> event_group list \<Rightarrow> (string, event_group) dict \<Rightarrow> event_group list \<times> (string, event_group) dict" where
  "get_event_groups wanted [] cache = ([], cache)"
| "get_event_groups wanted (b # bs) cache =
     (let cache1 = set_default b cache;
          g = the (dict_get cache1 (eg_unique_id b));
          (gs, cache2) = get_event_groups wanted bs cache1
      in (if wanted \<in> {None, Some (eg_registered g)} then (g # gs, cache2) else (gs, cache2)))"

definition scan_event_groups :: "store \<Rightarrow> trigger_type option \<Rightarrow> bool option \<Rightarrow> (string, event_group) dict \<Rightarrow> event_group list \<times> (string, event_group) dict" where
  "scan_event_groups s only wanted cache = get_event_groups wanted (build_event_groups s only) cache"

definition find_event_group :: "store \<Rightarrow> string \<Rightarrow> int option \<Rightarrow> trigger_type \<Rightarrow> (string, event_group) dict \<Rightarrow> event_group option" where
  "find_event_group s addr channel_no t cache = List.find (\<lambda>g.
     channel_device (channel_at s (eg_channel g)) = addr \<and> Some (cs_number (ch_summary (channel_at s (eg_channel g)))) = channel_no
     \<and> eg_type g = t) (dict_values cache)"

section \<open>What holds of them\<close>

lemma trigger_by_kind_iff: "trigger_by_kind k = Some t \<longleftrightarrow> k = trigger_short t"
  by (cases t) (auto simp: trigger_by_kind_def split: if_splits)

lemma map_filter_mem: "y \<in> set (List.map_filter f xs) \<longleftrightarrow> (\<exists>x. x \<in> set xs \<and> f x = Some y)"
  by (auto simp: List.map_filter_def image_iff)

lemma events_of_group_iff:
  "e \<in> set (events_of_group s i g) \<longleftrightarrow> ge_data_point e \<in> set (data_points_of_channel s i)
     \<and> is_member g (dp_at s (ge_data_point e)) \<and> usage_of (dp_at s (ge_data_point e)) \<noteq> ''ignored''
     \<and> dg_kind g = trigger_short (ge_type e)"
  by (cases e) (auto simp: events_of_group_def map_filter_mem make_generic_event_def trigger_by_kind_iff split: if_splits)

lemma events_of_iff:
  "e \<in> set (events_of s i) \<longleftrightarrow> (\<exists>g. g \<in> set (event_groups_of (channel_at s i)) \<and> e \<in> set (events_of_group s i g))"
  by (auto simp: events_of_def)

text \<open>Fact: the generic data points of a channel and its trigger sources overlap only in keys that can be pressed. A data
  point that is an impulse or device-error source is never generic, and one that is a keypress
  source is generic only when it can be written; so no data point offers an action that writes a
  read-only key.\<close>

theorem generic_and_events_overlap:
  "ge_data_point ` {e \<in> set (events_of s i). ge_type e \<noteq> Keypress} \<inter> set (generic_of s addr i) = {}
   \<and> ge_data_point ` {e \<in> set (events_of s i). ge_type e = Keypress} \<inter> set (generic_of s addr i)
       \<subseteq> {j. operation_flag (dp_at s j) ''write''}"
proof -
  have other: "ge_data_point e \<notin> set (generic_of s addr i)" if e: "e \<in> set (events_of s i)" "ge_type e \<noteq> Keypress" for e
  proof -
    obtain g where g: "g \<in> set (event_groups_of (channel_at s i))" "is_member g (dp_at s (ge_data_point e))"
      "dg_kind g = trigger_short (ge_type e)" using e(1) by (auto simp: events_of_iff events_of_group_iff)
    moreover from g(3) have "dg_kind g \<noteq> ''keypress''" using e(2) by (cases "ge_type e") simp_all
    ultimately have "dp_parameter (do_summary (dp_at s (ge_data_point e))) \<in> set (not_generic (channel_at s i))"
      by (auto simp: not_generic_def is_member_def)
    then show ?thesis by (simp add: generic_of_def is_generic_def Let_def)
  qed
  have key: "operation_flag (dp_at s (ge_data_point e)) ''write''"
    if e: "e \<in> set (events_of s i)" "ge_type e = Keypress" "ge_data_point e \<in> set (generic_of s addr i)" for e
  proof -
    obtain g where "g \<in> set (event_groups_of (channel_at s i))" "is_member g (dp_at s (ge_data_point e))"
      "dg_kind g = ''keypress''" using e(1,2) by (auto simp: events_of_iff events_of_group_iff)
    then have "dp_parameter (do_summary (dp_at s (ge_data_point e))) \<in> set (keypress_sources (channel_at s i))"
      by (auto simp: keypress_sources_def is_member_def)
    then show ?thesis using e(3) by (auto simp: generic_of_def is_generic_def Let_def)
  qed
  from other key show ?thesis by blast
qed

lemma get_event_groups_cache:
  "dict_get (snd (get_event_groups w bs cache)) u
    = (case dict_get cache u of Some g \<Rightarrow> Some g | None \<Rightarrow> List.find (\<lambda>b. eg_unique_id b = u) bs)"
proof (induction bs arbitrary: cache)
  case (Cons b bs)
  have "snd (get_event_groups w (b # bs) cache) = snd (get_event_groups w bs (set_default b cache))"
    by (simp add: Let_def split: prod.splits)
  then show ?case using Cons.IH [of "set_default b cache"] by (auto simp: set_default_def split: option.splits)
qed (simp split: option.splits)

lemma get_event_groups_all:
  "fst (get_event_groups None bs cache)
    = map (\<lambda>b. the (dict_get (snd (get_event_groups None bs cache)) (eg_unique_id b))) bs"
proof (induction bs arbitrary: cache)
  case (Cons b bs)
  let ?c = "set_default b cache"
  obtain g where g: "dict_get ?c (eg_unique_id b) = Some g"
    by (cases "dict_get cache (eg_unique_id b)") (simp_all add: set_default_def)
  obtain gs c2 where r: "get_event_groups None bs ?c = (gs, c2)" by fastforce
  then have "dict_get c2 (eg_unique_id b) = Some g" using get_event_groups_cache [of None bs ?c "eg_unique_id b"] g by simp
  with g r Cons.IH [of ?c] show ?case by (simp add: Let_def)
qed simp

text \<open>Fact: a scan for event groups never replaces a group that is known. After it a key holds the group it held before,
  with its last trigger and its registration, or, when it held none, the first one built for it;
  and the scan hands out the groups the cache holds, so what a trigger is recorded on is what the
  entity reads.\<close>

theorem scan_keeps_groups:
  "dict_get (snd (scan_event_groups s only wanted cache)) u
     = (case dict_get cache u of Some g \<Rightarrow> Some g
        | None \<Rightarrow> List.find (\<lambda>b. eg_unique_id b = u) (build_event_groups s only))
   \<and> fst (scan_event_groups s only None cache)
     = map (\<lambda>b. the (dict_get (snd (scan_event_groups s only None cache)) (eg_unique_id b))) (build_event_groups s only)"
  unfolding scan_event_groups_def using get_event_groups_cache get_event_groups_all by blast

text \<open>A group shows in the scan unless its kind is unknown or all of its members are suppressed.\<close>

lemma group_of_None:
  "group_of s i None g = None \<longleftrightarrow>
     trigger_by_kind (dg_kind g) = None \<or> (\<forall>j\<in>set (data_points_of_channel s i). is_member g (dp_at s j) \<longrightarrow> usage_of (dp_at s j) \<in> suppressed_usages)"
  by (auto simp: group_of_def Let_def filter_empty_conv split: option.splits if_splits)

lemma show_nat_no_colon: "CHR '':'' \<notin> set (show_nat n)"
  using show_nat_is_digit [of "CHR '':''" n] by (auto simp: is_digit_char_def)

lemma show_int_no_colon: "CHR '':'' \<notin> set (show_int n)"
  by (simp add: show_int_def show_nat_no_colon)

lemma no_colon_suffix:
  assumes "CHR '':'' \<notin> set own"
  shows "has_channel_no_suffix (own @ '':'' @ show_int n)"
proof -
  have none: "filter (\<lambda>c. c = CHR '':'') xs = []" if "CHR '':'' \<notin> set xs" for xs using that by (auto simp: filter_empty_conv)
  have "takeWhile (\<lambda>c. c \<noteq> CHR '':'') (own @ '':'' @ show_int n) = own"
    using assms by (subst takeWhile_append2) auto
  then have "partition_colon (own @ '':'' @ show_int n) = (own, True, show_int n)"
    by (simp add: partition_colon_def before_colon_def)
  then show ?thesis by (simp add: has_channel_no_suffix_def none assms show_int_no_colon)
qed

text \<open>Fact: a channel that keeps its default name is shown as \<open>ch\<close> and its number, channel 0 with no name at all, as
  long as the device name holds no colon.\<close>

theorem default_channel_name:
  assumes "get_channel (ds_address (dv_summary d)) n s = None" and "CHR '':'' \<notin> set (ds_name (dv_summary d))"
  shows "channel_display_name s d n = (if n = 0 then '''' else ''ch'' @ show_int n)"
  using assms no_colon_suffix [OF assms(2)] by (simp add: channel_display_name_def channel_base_name_def Let_def)

end
