(* ===== verification/Refresh.thy ===== *)
theory Refresh
  imports Bridge EventGroups WeekProfile
begin

text \<open>
  The refresh bridge (compat/aiohomematic/central/refresh.py): every typed event of the daemon becomes an event on the
  consumer's bus, keyed by the unique id the entity subscribed with. A handler is a method over the
  world, the consumer events published so far, the event groups and the week profiles; at each
  await a turn passes in which the other tasks change the store. What stands for code outside the
  repository (aiohomematic's key algorithm, slugify, its enumerations) is the record \<open>upstream_lib\<close>.
  Timestamps are left out.
\<close>

section \<open>Keys\<close>

record upstream_lib =
  up_generate :: "string \<Rightarrow> string \<Rightarrow> string option \<Rightarrow> string"
  up_slug :: "string \<Rightarrow> string"
  up_sysvar_address :: string
  up_trigger_value :: "trigger_type \<Rightarrow> string"
  up_paramset_keys :: "string list"
  up_central_states :: "string list"

definition canonical_unique_id :: "upstream_lib \<Rightarrow> string \<Rightarrow> string \<Rightarrow> string option \<Rightarrow> string" where
  "canonical_unique_id u sfx address parameter = ''loom_'' @ up_generate u sfx address parameter"

definition data_point_event_key :: "upstream_lib \<Rightarrow> string \<Rightarrow> string \<Rightarrow> int \<Rightarrow> string \<Rightarrow> string" where
  "data_point_event_key u sfx addr ch p = canonical_unique_id u sfx (addr @ '':'' @ show_int ch) (Some p)"

definition custom_unique_id :: "upstream_lib \<Rightarrow> string \<Rightarrow> string \<Rightarrow> int \<Rightarrow> string" where
  "custom_unique_id u sfx addr ch = canonical_unique_id u sfx (addr @ '':'' @ show_int ch) None"

definition legacy_sysvar_unique_id :: "upstream_lib \<Rightarrow> string \<Rightarrow> string \<Rightarrow> string" where
  "legacy_sysvar_unique_id u sfx name = canonical_unique_id u sfx (up_sysvar_address u) (Some (up_slug u name))"

text \<open>\<open>stated or fallback\<close> on an optional text.\<close>

definition or_key :: "string option \<Rightarrow> string \<Rightarrow> string" where
  "or_key stated fallback = (case stated of Some k \<Rightarrow> if k \<noteq> '''' then k else fallback | None \<Rightarrow> fallback)"

definition dp_unique_id :: "dp_obj \<Rightarrow> string" where
  "dp_unique_id d = (case text_field d ''unique_id'' of Some k \<Rightarrow> k | None \<Rightarrow> '''')"

definition json_text :: "json \<Rightarrow> string \<Rightarrow> string" where
  "json_text j k = (case j of JObj d \<Rightarrow> (case obj_get d k of JStr x \<Rightarrow> x | _ \<Rightarrow> '''') | _ \<Rightarrow> '''')"

definition cdp_unique_id :: "cdp_obj \<Rightarrow> string" where
  "cdp_unique_id c = json_text (cd_rest (co_summary c)) ''unique_id''"

definition sysvar_event_key :: "upstream_lib \<Rightarrow> store \<Rightarrow> string option \<Rightarrow> string \<Rightarrow> string" where
  "sysvar_event_key u s stated name = or_key stated
     (let stored = (case get_sysvar name s of None \<Rightarrow> '''' | Some i \<Rightarrow> json_text (sv_rest (so_summary (reg_heap (st_sysvars s) ! i))) ''unique_id'')
      in if stored \<noteq> '''' then stored else legacy_sysvar_unique_id u (st_serial_suffix s) name)"

definition trigger_type_of :: "upstream_lib \<Rightarrow> string \<Rightarrow> trigger_type" where
  "trigger_type_of u token = (case List.find (\<lambda>t. token \<in> {trigger_short t, up_trigger_value u t}) [Keypress, Impulse, DeviceError] of
     Some t \<Rightarrow> t | None \<Rightarrow> Keypress)"

section \<open>Methods of the bridge\<close>

datatype lifecycle_type = Created | Removed | Updated

datatype ha_event =
    StateChanged string json
  | Triggered trigger_type string string string "int option" string json "string option"
  | RolledBack string string string string string json json "string option"
  | EntityRemoved string
  | CentralState string string string
  | Lifecycle lifecycle_type string string

record refresher =
  rf_world :: world
  rf_out :: "ha_event list"
  rf_groups :: "(string, event_group) dict"
  rf_profiles :: "week_profile list"
  rf_schedules :: "nat \<Rightarrow> week_schedule reply_of"

type_synonym 'a rf = "refresher \<Rightarrow> (exc + 'a) \<times> refresher"

definition rret :: "'a \<Rightarrow> 'a rf" where
  "rret x r = (Inr x, r)"

definition rbind :: "'a rf \<Rightarrow> ('a \<Rightarrow> 'b rf) \<Rightarrow> 'b rf" where
  "rbind m k r = (case m r of (Inl e, r') \<Rightarrow> (Inl e, r') | (Inr x, r') \<Rightarrow> k x r')"

definition rthrow :: "exc \<Rightarrow> 'a rf" where
  "rthrow e r = (Inl e, r)"

definition rlook :: "(refresher \<Rightarrow> 'a) \<Rightarrow> 'a rf" where
  "rlook f r = (Inr (f r), r)"

definition rstore :: "refresher \<Rightarrow> store" where
  "rstore r = w_store (rf_world r)"

primrec reach :: "('a \<Rightarrow> unit rf) \<Rightarrow> 'a list \<Rightarrow> unit rf" where
  "reach f [] = rret ()"
| "reach f (x # xs) = rbind (f x) (\<lambda>u. reach f xs)"

definition on_world :: "'a co \<Rightarrow> 'a rf" where
  "on_world m r = (case m (rf_world r) of (x, w) \<Rightarrow> (x, r\<lparr>rf_world := w\<rparr>))"

text \<open>\<open>except Exception: return\<close>, then the rest: a cancellation passes through.\<close>

definition unless_failed :: "'a rf \<Rightarrow> ('a \<Rightarrow> unit rf) \<Rightarrow> unit rf" where
  "unless_failed m k r = (case m r of
       (Inl e, r') \<Rightarrow> if e = Cancelled then (Inl e, r') else (Inr (), r')
     | (Inr x, r') \<Rightarrow> k x r')"

definition publish :: "ha_event \<Rightarrow> unit rf" where
  "publish e r = (case pass_turn (rf_world r) of (reply, w) \<Rightarrow>
     (case reply of Answer b \<Rightarrow> Inr () | Fails l \<Rightarrow> Inl (Loom l) | CancelHere \<Rightarrow> Inl Cancelled,
      r\<lparr>rf_world := w, rf_out := rf_out r @ [e]\<rparr>))"

lemmas rf_defs = rret_def rbind_def rthrow_def rlook_def on_world_def unless_failed_def publish_def

section \<open>Values\<close>

definition on_value :: "upstream_lib \<Rightarrow> string option \<Rightarrow> value_changed \<Rightarrow> unit rf" where
  "on_value u stated p =
     rbind (rlook (\<lambda>r. or_key stated (data_point_event_key u (st_serial_suffix (rstore r)) (vc_address p) (vc_channel p) (vc_parameter p)))) (\<lambda>key.
     rbind (publish (StateChanged key (vc_value p))) (\<lambda>x.
     rbind (rlook (\<lambda>r. dict_get (st_cdp_index (rstore r)) (vc_address p, vc_channel p))) (\<lambda>cdp.
       case cdp of
         None \<Rightarrow> rret ()
       | Some i \<Rightarrow> rbind (rlook (\<lambda>r. custom_unique_id u (st_serial_suffix (rstore r)) (vc_address p) (vc_channel p)))
           (\<lambda>key. publish (StateChanged key JNull)))))"

definition on_custom :: "upstream_lib \<Rightarrow> string option \<Rightarrow> string \<Rightarrow> int \<Rightarrow> unit rf" where
  "on_custom u stated addr ch =
     rbind (rlook (\<lambda>r. or_key stated (custom_unique_id u (st_serial_suffix (rstore r)) addr ch))) (\<lambda>key. publish (StateChanged key JNull))"

definition on_sysvar :: "upstream_lib \<Rightarrow> string option \<Rightarrow> string \<Rightarrow> json \<Rightarrow> unit rf" where
  "on_sysvar u stated name v = rbind (rlook (\<lambda>r. sysvar_event_key u (rstore r) stated name)) (\<lambda>key. publish (StateChanged key v))"

definition on_program_changed :: "string option \<Rightarrow> bool \<Rightarrow> unit rf" where
  "on_program_changed stated active = (case stated of
     Some key \<Rightarrow> if key \<noteq> '''' then publish (StateChanged key (JBool active)) else rret () | None \<Rightarrow> rret ())"

section \<open>Triggers and rollbacks\<close>

record trigger_payload =
  tp_address :: string
  tp_interface_id :: "string option"
  tp_channel :: "int option"
  tp_event_type :: string
  tp_parameter :: string
  tp_value :: json

definition device_attrs :: "string \<Rightarrow> store \<Rightarrow> string \<times> string \<times> string option" where
  "device_attrs addr s = (case get_device addr s of
       None \<Rightarrow> ('''', '''', None)
     | Some i \<Rightarrow> (let sm = dv_summary (reg_heap (st_devices s) ! i) in (ds_interface_id sm, ds_model sm, Some (ds_name sm))))"

definition set_group :: "event_group \<Rightarrow> unit rf" where
  "set_group g r = (Inr (), r\<lparr>rf_groups := dict_put (eg_unique_id g) g (rf_groups r)\<rparr>)"

definition on_trigger :: "upstream_lib \<Rightarrow> bool \<Rightarrow> trigger_payload \<Rightarrow> unit rf" where
  "on_trigger u has_resolver p =
     (let t = trigger_type_of u (tp_event_type p) in
      rbind (rlook (\<lambda>r. device_attrs (tp_address p) (rstore r))) (\<lambda>(iface, model, name).
      rbind (publish (Triggered t model (or_key (tp_interface_id p) iface) (tp_address p) (tp_channel p) (tp_parameter p) (tp_value p) name)) (\<lambda>x.
      if \<not> has_resolver then rret ()
      else rbind (rlook (\<lambda>r. find_event_group (rstore r) (tp_address p) (tp_channel p) t (rf_groups r))) (\<lambda>found.
        case found of
          None \<Rightarrow> rret ()
        | Some g \<Rightarrow> rbind (set_group (record_trigger (tp_parameter p) (tp_value p) g)) (\<lambda>x.
            publish (StateChanged (eg_unique_id g) (JStr (tp_parameter p))))))))"

record rollback_payload =
  rb_address :: string
  rb_channel :: int
  rb_paramset_key :: string
  rb_parameter :: string
  rb_reason :: string
  rb_sent :: json
  rb_present :: json

definition on_rollback :: "upstream_lib \<Rightarrow> rollback_payload \<Rightarrow> unit rf" where
  "on_rollback u p =
     rbind (rlook (\<lambda>r. device_attrs (rb_address p) (rstore r))) (\<lambda>(iface, model, name).
       if rb_paramset_key p \<notin> set (up_paramset_keys u) then rthrow OtherError
       else publish (RolledBack iface (rb_address p @ '':'' @ show_int (rb_channel p)) (rb_paramset_key p) (rb_parameter p)
         (rb_reason p) (rb_sent p) (rb_present p) name))"

section \<open>Availability\<close>

definition ping_channel :: "string \<Rightarrow> oid \<Rightarrow> unit rf" where
  "ping_channel addr i = rbind (rlook (\<lambda>r. data_points_of addr (cs_number (ch_summary (channel_at (rstore r) i))) (rstore r)))
     (reach (\<lambda>j. rbind (rlook (\<lambda>r. dp_unique_id (dp_at (rstore r) j))) (\<lambda>key. publish (StateChanged key JNull))))"

definition ping_customs :: "string \<Rightarrow> unit rf" where
  "ping_customs addr = rbind (rlook (\<lambda>r. custom_data_points_of addr (rstore r)))
     (reach (\<lambda>j. rbind (rlook (\<lambda>r. cdp_unique_id (reg_heap (st_cdps (rstore r)) ! j))) (\<lambda>key. publish (StateChanged key JNull))))"

definition on_availability :: "string \<Rightarrow> unit rf" where
  "on_availability addr = rbind (rlook (\<lambda>r. channels_of addr (rstore r))) (\<lambda>cs.
     rbind (reach (ping_channel addr) cs) (\<lambda>x. ping_customs addr))"

section \<open>Alarm panels\<close>

definition ping_zone :: "string \<Rightarrow> unit rf" where
  "ping_zone zid = rbind (rlook (\<lambda>r. map_option (\<lambda>i. pe_unique_id (pa_summary (reg_heap (st_panels (rstore r)) ! i))) (get_alarm_panel_by_zone zid (rstore r))))
     (\<lambda>key. case key of None \<Rightarrow> rret () | Some k \<Rightarrow> publish (StateChanged k JNull))"

text \<open>State, countdown, readiness and trigger pushes all ping the panel of their zone.\<close>

definition on_zone_detail :: "string \<Rightarrow> unit rf" where
  "on_zone_detail zid = ping_zone zid"

definition on_panel_changed :: "panel_changed \<Rightarrow> unit rf" where
  "on_panel_changed p = (if pc_removed p = Some True then publish (EntityRemoved (pc_unique_id p))
     else publish (StateChanged (pc_unique_id p) (JStr (pc_state p))))"

section \<open>Schedules\<close>

text \<open>The forced re-read of the object, its answer taken from the turn it waits in.\<close>

definition reload_profile :: "oid \<Rightarrow> unit rf" where
  "reload_profile i r =
     (case reload_schedule True (rf_schedules r (w_turn (rf_world r))) (rf_profiles r ! i) of (calls, x, wp) \<Rightarrow>
        (case x of Inl e \<Rightarrow> Inl e | Inr s \<Rightarrow> Inr (),
         r\<lparr>rf_world := snd (pass_turn (rf_world r)), rf_profiles := (rf_profiles r)[i := wp]\<rparr>))"

definition count_json :: "int option \<Rightarrow> json" where
  "count_json v = (case v of None \<Rightarrow> JNull | Some n \<Rightarrow> JInt n)"

definition on_schedule_changed :: "string \<Rightarrow> int \<Rightarrow> unit rf" where
  "on_schedule_changed addr ch =
     rbind (rlook (\<lambda>r. List.find (\<lambda>i. wp_channel_no (rf_profiles r ! i) = ch) (week_profiles_of addr (rstore r)))) (\<lambda>found.
       case found of
         None \<Rightarrow> rret ()
       | Some i \<Rightarrow> unless_failed (reload_profile i) (\<lambda>x.
           rbind (rlook (\<lambda>r. rf_profiles r ! i)) (\<lambda>wp.
             publish (StateChanged (de_unique_id (wp_descriptor wp)) (count_json (wp_value wp))))))"

section \<open>Central state and lifecycle\<close>

definition on_central_state :: "upstream_lib \<Rightarrow> string \<Rightarrow> string \<Rightarrow> string \<Rightarrow> unit rf" where
  "on_central_state u central old new =
     (if {old, new} \<subseteq> set (up_central_states u) then publish (CentralState central old new) else rthrow OtherError)"

definition on_device_created_lifecycle :: "string \<Rightarrow> string \<Rightarrow> unit rf" where
  "on_device_created_lifecycle addr iface = publish (Lifecycle Created addr iface)"

definition on_device_removed_lifecycle :: "string \<Rightarrow> string \<Rightarrow> unit rf" where
  "on_device_removed_lifecycle addr iface = publish (Lifecycle Removed addr iface)"

definition on_device_metadata_changed :: "string \<Rightarrow> string \<Rightarrow> unit rf" where
  "on_device_metadata_changed addr iface =
     unless_failed (on_world (refresh_device addr)) (\<lambda>x. publish (Lifecycle Updated addr iface))"

section \<open>What a handler publishes when nothing interferes\<close>

definition calm_world :: "world \<Rightarrow> bool" where
  "calm_world w \<longleftrightarrow> (\<forall>n. tn_ops (w_env w n) = [] \<and> (\<exists>b. tn_reply (w_env w n) = Answer b))"

definition emits :: "unit rf \<Rightarrow> (store \<Rightarrow> ha_event list) \<Rightarrow> bool" where
  "emits m es \<longleftrightarrow> (\<forall>r. calm_world (rf_world r) \<longrightarrow> (\<exists>r'. m r = (Inr (), r') \<and> calm_world (rf_world r') \<and> rstore r' = rstore r
     \<and> rf_out r' = rf_out r @ es (rstore r)))"

named_theorems emits_intros

lemma emits_publish [emits_intros]: "emits (publish e) (\<lambda>s. [e])"
  unfolding emits_def
proof (intro allI impI)
  fix r :: refresher assume q: "calm_world (rf_world r)"
  then obtain b where b: "tn_ops (w_env (rf_world r) (w_turn (rf_world r))) = []" "tn_reply (w_env (rf_world r) (w_turn (rf_world r))) = Answer b"
    unfolding calm_world_def by blast
  with q show "\<exists>r'. publish e r = (Inr (), r') \<and> calm_world (rf_world r') \<and> rstore r' = rstore r \<and> rf_out r' = rf_out r @ [e]"
    by (simp add: publish_def pass_turn_def Let_def rstore_def calm_world_def)
qed

lemma emits_ret [emits_intros]: "emits (rret ()) (\<lambda>s. [])"
  by (simp add: emits_def rret_def)

lemma emits_look [emits_intros]:
  assumes "\<And>x. emits (k x) (es x)"
  shows "emits (rbind (rlook (\<lambda>r. h (rstore r))) k) (\<lambda>s. es (h s) s)"
  using assms by (simp add: emits_def rbind_def rlook_def)

lemma emits_seq [emits_intros]:
  assumes "emits m es" and "emits k fs"
  shows "emits (rbind m (\<lambda>x. k)) (\<lambda>s. es s @ fs s)"
  unfolding emits_def
proof (intro allI impI)
  fix r :: refresher assume "calm_world (rf_world r)"
  then obtain r1 where 1: "m r = (Inr (), r1)" "calm_world (rf_world r1)" "rstore r1 = rstore r" "rf_out r1 = rf_out r @ es (rstore r)"
    using assms(1) unfolding emits_def by blast
  then obtain r2 where "k r1 = (Inr (), r2)" "calm_world (rf_world r2)" "rstore r2 = rstore r1" "rf_out r2 = rf_out r1 @ fs (rstore r1)"
    using assms(2) unfolding emits_def by blast
  with 1 show "\<exists>r'. rbind m (\<lambda>x. k) r = (Inr (), r') \<and> calm_world (rf_world r') \<and> rstore r' = rstore r
      \<and> rf_out r' = rf_out r @ es (rstore r) @ fs (rstore r)"
    by (simp add: rbind_def)
qed

lemma emits_reach [emits_intros]:
  assumes "\<And>x. emits (f x) (es x)"
  shows "emits (reach f xs) (\<lambda>s. concat (map (\<lambda>x. es x s) xs))"
proof (induction xs)
  case (Cons x xs)
  show ?case using emits_seq [OF assms Cons] by simp
qed (simp add: emits_ret)

definition pings :: "string list \<Rightarrow> ha_event list" where
  "pings ks = map (\<lambda>k. StateChanged k JNull) ks"

lemma pings_simps [simp]: "pings [] = []" "pings (k # ks) = StateChanged k JNull # pings ks" "pings (ks @ ls) = pings ks @ pings ls"
  by (simp_all add: pings_def)

lemma pings_concat: "concat (map (\<lambda>x. pings (f x)) xs) = pings (concat (map f xs))"
  by (induction xs) simp_all

definition channel_keys :: "string \<Rightarrow> store \<Rightarrow> oid \<Rightarrow> string list" where
  "channel_keys addr s i = map (\<lambda>j. dp_unique_id (dp_at s j)) (data_points_of addr (cs_number (ch_summary (channel_at s i))) s)"

definition custom_keys :: "string \<Rightarrow> store \<Rightarrow> string list" where
  "custom_keys addr s = map (\<lambda>j. cdp_unique_id (reg_heap (st_cdps s) ! j)) (custom_data_points_of addr s)"

lemma emits_one: "emits (rbind (rlook (\<lambda>r. h (rstore r))) (\<lambda>key. publish (StateChanged key JNull))) (\<lambda>s. pings [h s])"
  using emits_look [where k = "\<lambda>key. publish (StateChanged key JNull)", OF emits_publish] by simp

lemma emits_ping_channel: "emits (ping_channel addr i) (\<lambda>s. pings (channel_keys addr s i))"
proof -
  have "emits (reach (\<lambda>j. rbind (rlook (\<lambda>r. dp_unique_id (dp_at (rstore r) j))) (\<lambda>key. publish (StateChanged key JNull))) xs)
      (\<lambda>s. concat (map (\<lambda>j. pings [dp_unique_id (dp_at s j)]) xs))" for xs
    by (rule emits_reach) (rule emits_one)
  from emits_look [where h = "\<lambda>s. data_points_of addr (cs_number (ch_summary (channel_at s i))) s"
      and es = "\<lambda>xs s. concat (map (\<lambda>j. pings [dp_unique_id (dp_at s j)]) xs)", OF this]
  show ?thesis by (simp add: ping_channel_def channel_keys_def pings_def comp_def)
qed

lemma emits_ping_customs: "emits (ping_customs addr) (\<lambda>s. pings (custom_keys addr s))"
proof -
  have "emits (reach (\<lambda>j. rbind (rlook (\<lambda>r. cdp_unique_id (reg_heap (st_cdps (rstore r)) ! j))) (\<lambda>key. publish (StateChanged key JNull))) xs)
      (\<lambda>s. concat (map (\<lambda>j. pings [cdp_unique_id (reg_heap (st_cdps s) ! j)]) xs))" for xs
    by (rule emits_reach) (rule emits_one)
  from emits_look [where h = "custom_data_points_of addr"
      and es = "\<lambda>xs s. concat (map (\<lambda>j. pings [cdp_unique_id (reg_heap (st_cdps s) ! j)]) xs)", OF this]
  show ?thesis by (simp add: ping_customs_def custom_keys_def pings_def comp_def)
qed

lemma emits_availability:
  "emits (on_availability addr) (\<lambda>s. pings (concat (map (channel_keys addr s) (channels_of addr s)) @ custom_keys addr s))"
proof -
  have "emits (rbind (reach (ping_channel addr) cs) (\<lambda>x. ping_customs addr))
      (\<lambda>s. concat (map (\<lambda>i. pings (channel_keys addr s i)) cs) @ pings (custom_keys addr s))" for cs
    by (intro emits_seq emits_reach emits_ping_channel emits_ping_customs)
  from emits_look [where h = "channels_of addr", OF this] show ?thesis
    by (simp add: on_availability_def pings_concat)
qed

text \<open>Fact: an availability push reaches every entity of the device and no other. While nothing interferes it publishes
  one ping per data point of each of the device's channels and one per custom data point, by the
  unique id the daemon gave them; the keys are exactly those of the registered objects of the
  device whose channel is registered.\<close>

theorem availability_pings_exact:
  assumes "calm_world (rf_world r)" and "store_ok (rstore r)"
  shows "\<exists>ks. fst (on_availability addr r) = Inr ()
    \<and> rf_out (snd (on_availability addr r)) = rf_out r @ map (\<lambda>k. StateChanged k JNull) ks
    \<and> set ks = {dp_unique_id (dp_at (rstore r) j) | c n p j. get_channel addr n (rstore r) = Some c
           \<and> get_data_point addr (cs_number (ch_summary (channel_at (rstore r) c))) p (rstore r) = Some j}
        \<union> {cdp_unique_id (reg_heap (st_cdps (rstore r)) ! j) | n j. get_custom_data_point addr n (rstore r) = Some j}"
proof -
  let ?s = "rstore r"
  let ?ks = "concat (map (channel_keys addr ?s) (channels_of addr ?s)) @ custom_keys addr ?s"
  have ok: "reg_ok (st_channels ?s)" "reg_ok (st_dps ?s)" "reg_ok (st_cdps ?s)" using assms(2) by (simp_all add: store_ok_def)
  have channels: "set (channels_of addr ?s) = {i. \<exists>n. get_channel addr n ?s = Some i}"
    unfolding channels_of_def get_channel_def set_eq_iff select_sorted_mem [OF ok(1)] by simp
  have dps: "set (data_points_of addr ch ?s) = {i. \<exists>p. get_data_point addr ch p ?s = Some i}" for ch
    unfolding data_points_of_def get_data_point_def set_eq_iff select_sorted_mem [OF ok(2)] by simp
  have cdps: "set (custom_data_points_of addr ?s) = {i. \<exists>n. get_custom_data_point addr n ?s = Some i}"
    unfolding custom_data_points_of_def get_custom_data_point_def set_eq_iff select_sorted_mem [OF ok(3)] by simp
  have "set ?ks = {dp_unique_id (dp_at ?s j) | c n p j. get_channel addr n ?s = Some c
           \<and> get_data_point addr (cs_number (ch_summary (channel_at ?s c))) p ?s = Some j}
        \<union> {cdp_unique_id (reg_heap (st_cdps ?s) ! j) | n j. get_custom_data_point addr n ?s = Some j}"
    by (auto simp: channel_keys_def custom_keys_def channels dps cdps)
  moreover obtain r' where "on_availability addr r = (Inr (), r')" "rf_out r' = rf_out r @ pings ?ks"
    using emits_availability [of addr] assms(1) unfolding emits_def by blast
  ultimately show ?thesis by (intro exI [of _ ?ks]) (simp add: pings_def)
qed

text \<open>Fact: a rename is announced after the device has been read back. When the re-read returns, the handler publishes
  one lifecycle event, in the world the re-read left; when it fails, none, and the handler returns
  all the same; a cancellation ends it without one. When the re-read was answered with a detail, the
  last store operation before the announcement is the attachment of that detail.\<close>

theorem rename_announced_after_read:
  "case refresh_device addr (rf_world r) of
     (Inl e, w) \<Rightarrow> on_device_metadata_changed addr iface r = ((if e = Cancelled then Inl e else Inr ()), r\<lparr>rf_world := w\<rparr>)
   | (Inr x, w) \<Rightarrow> on_device_metadata_changed addr iface r = publish (Lifecycle Updated addr iface) (r\<lparr>rf_world := w\<rparr>)
       \<and> (w = rf_world r \<or> (\<exists>d. w_ops w \<noteq> [] \<and> last (w_ops w) = AttachDetail d \<and> w_sent w = w_sent (rf_world r) @ [DeviceRead (GetDeviceDetail addr)]))"
  by (simp add: on_device_metadata_changed_def unless_failed_def on_world_def refresh_device_def when_bound_def co_defs
      Let_def split: prod.splits sum.splits reply.splits option.splits if_splits)

section \<open>The store is updated first\<close>

text \<open>Handlers are called in the order they subscribed in: the buckets of a reachable bus are ascending.\<close>

definition ascending :: "bus \<Rightarrow> bool" where
  "ascending b \<longleftrightarrow> bus_ok b \<and> (\<forall>t. sorted (bucket b t))"

lemma ascending_act:
  assumes "ascending b"
  shows "ascending (bus_act a b)"
proof -
  have ok: "bus_ok b" and srt: "sorted (bucket b t)" for t using assms by (simp_all add: ascending_def)
  have "sorted (bucket (bus_act a b) t)" for t
  proof (cases a)
    case (Subscribe u h k)
    have "\<forall>i\<in>set (bucket b t). i \<le> length (bus_heap b)" using bus_ok_mem [OF ok] by (auto simp: live_def less_imp_le)
    then show ?thesis using srt [of t] srt [of u] Subscribe by (auto simp: bucket_subscribe sorted_append)
  next
    case (Unsubscribe i)
    show ?thesis
    proof (cases "live b i")
      case True
      then show ?thesis
        using Unsubscribe srt [of t] by (cases "i < length (bus_heap b)") (simp_all add: bucket_unsubscribe [OF ok True] sorted_remove1)
    next
      case False
      then have "bus_act a b = b" using Unsubscribe by (simp add: live_def split: if_splits)
      then show ?thesis using srt by simp
    qed
  qed
  then show ?thesis using bus_ok_act [OF ok] by (simp add: ascending_def)
qed

lemma ascending_acts: "ascending b \<Longrightarrow> ascending (bus_acts as b)"
  by (induction as arbitrary: b) (simp_all add: ascending_act)

lemma ascending_fan_out: "ascending b \<Longrightarrow> ascending (snd (fan_out sc e ids b))"
proof (induction ids arbitrary: b)
  case (Cons i ids)
  show ?case
    by (cases rule: fan_out_cases [of b e i sc ids]) (use Cons in \<open>auto intro: ascending_acts\<close>)
qed simp

lemma ascending_reachable: "bus_reachable b \<Longrightarrow> ascending b"
proof (induction rule: bus_reachable.induct)
  case start
  show ?case by (simp add: ascending_def bus_ok_empty) (simp add: bucket_def empty_bus_def)
qed (simp_all add: ascending_act bus_publish_def ascending_fan_out)

lemma sorted_subseq: "subseq xs ys \<Longrightarrow> sorted ys \<Longrightarrow> sorted (xs :: nat list)"
  by (induction xs ys rule: list_emb.induct) (auto dest: subseq_set_subset)

lemma calls_sorted: "ascending b \<Longrightarrow> sorted (map fst (fst (bus_publish sc e b)))"
  unfolding bus_publish_def by (rule sorted_subseq [OF fan_out_subseq]) (simp add: ascending_def)

lemma sorted_split: "sorted xs \<Longrightarrow> xs = filter (\<lambda>i. i < n) xs @ filter (\<lambda>i. (n :: nat) \<le> i) xs"
proof (induction xs)
  case (Cons x xs)
  show ?case
  proof (cases "x < n")
    case True
    then show ?thesis using Cons by simp
  next
    case False
    then have "filter (\<lambda>i. i < n) xs = []" "filter (\<lambda>i. n \<le> i) xs = xs" using Cons.prems by (auto simp: filter_empty_conv filter_id_conv)
    with False show ?thesis by simp
  qed
qed simp

lemma wired_acts_below: "wired hs g b \<Longrightarrow> i \<in> set (group_members g) \<Longrightarrow> i < length (bus_heap b)"
  by (rule live_bound) (rule wired_live)

text \<open>C30: the store has an event before the consumer hears of it. Once the client has wired its handlers, every
  subscription made later on the bus (the refresh bridge is one) is called after the store's
  handler of the same event, whatever the other handlers do to the bus, and the store's handler is
  called in every fan-out of its type: an entity that reads the store on a ping reads the new
  state.\<close>

theorem store_updated_first:
  assumes "bus_reachable b" and "wired client_handlers g b" and "list_all (spares g) as" and "well_behaved g sc"
    and "i \<in> set (group_members g)" and "sub_event_type (bus_heap b ! i) = ev_type e"
  shows "\<exists>us vs. map fst (fst (bus_publish sc e (bus_acts as b))) = us @ vs \<and> i \<in> set us
    \<and> set us \<subseteq> {..<length (bus_heap b)} \<and> set vs \<subseteq> {length (bus_heap b)..}"
proof -
  let ?b = "bus_acts as b" and ?n = "length (bus_heap b)"
  let ?calls = "map fst (fst (bus_publish sc e ?b))"
  have w: "wired client_handlers g ?b" by (rule wired_acts [OF assms(2,3)])
  have below: "i < ?n" using live_bound [OF wired_live [OF assms(2,5)]] .
  have ev: "sub_event_type (bus_heap ?b ! i) = ev_type e" "sub_event_key (bus_heap ?b ! i) = sub_event_key (bus_heap b ! i)"
    using bus_evolves_acts [of b as] below assms(6) by (simp_all add: bus_evolves_def)
  have "(sub_event_type (bus_heap b ! i), sub_handler (bus_heap b ! i), sub_event_key (bus_heap b ! i))
      \<in> set (map (\<lambda>(c, h). (bus_type c, h, None)) client_handlers)"
    using wired_members [OF assms(2)] assms(5) by (metis (no_types, lifting) image_eqI set_map)
  then have key: "sub_event_key (bus_heap b ! i) = None" by auto
  have "live ?b i" by (rule wired_live [OF w assms(5)])
  moreover from this have "i \<in> set (bucket ?b (ev_type e))" using bus_ok_mem [OF wired_ok [OF w]] ev(1) by simp
  ultimately have "i \<in> fst ` set (fst (bus_publish sc e ?b))"
    unfolding bus_publish_def using ev(2) key by (intro fan_out_reaches [OF assms(4,5)]) simp_all
  then have called: "i \<in> set ?calls" by simp
  have "?calls = filter (\<lambda>i. i < ?n) ?calls @ filter (\<lambda>i. ?n \<le> i) ?calls"
    by (rule sorted_split [OF calls_sorted [OF ascending_acts [OF ascending_reachable [OF assms(1)]]]])
  then show ?thesis using called below
    by (intro exI [of _ "filter (\<lambda>i. i < ?n) ?calls"] exI [of _ "filter (\<lambda>i. ?n \<le> i) ?calls"]) auto
qed

lemma subscribe_all_step:
  "subscribe_all ((c, h) # hs) (g, b)
     = subscribe_all hs (g\<lparr>group_members := group_members g @ [length (bus_heap b)]\<rparr>, bus_act (Subscribe (bus_type c) h None) b)"
  by (simp add: subscribe_all_def group_subscribe_def case_prod_unfold fst_subscribe)

lemma subscribe_all_ascending: "ascending b \<Longrightarrow> ascending (snd (subscribe_all hs (g, b)))"
proof (induction hs arbitrary: g b)
  case (Cons x hs)
  then show ?case by (cases x) (simp add: subscribe_all_step ascending_act del: bus_act.simps)
qed (simp add: subscribe_all_def)

lemma subscribe_all_new:
  "n \<le> length (bus_heap b) \<Longrightarrow> set (group_members (fst (subscribe_all hs (g, b)))) \<subseteq> set (group_members g) \<union> {n..}"
proof (induction hs arbitrary: g b)
  case (Cons x hs)
  obtain c h where x: "x = (c, h)" by fastforce
  let ?g = "g\<lparr>group_members := group_members g @ [length (bus_heap b)]\<rparr>" and ?b = "bus_act (Subscribe (bus_type c) h None) b"
  have "n \<le> length (bus_heap ?b)" using Cons.prems by (simp add: heap_subscribe)
  then have "set (group_members (fst (subscribe_all hs (?g, ?b)))) \<subseteq> set (group_members ?g) \<union> {n..}" by (rule Cons.IH)
  then show ?case using Cons.prems unfolding x subscribe_all_step by auto
qed (simp add: subscribe_all_def)

lemma cancel_ascending:
  "ascending b \<Longrightarrow> set is \<subseteq> {..<length (bus_heap b)} \<Longrightarrow>
     ascending (fold bus_unsubscribe is b) \<and> length (bus_heap (fold bus_unsubscribe is b)) = length (bus_heap b)"
proof (induction "is" arbitrary: b)
  case (Cons i "is")
  then have "bus_unsubscribe i b = bus_act (Unsubscribe i) b" by simp
  then have "ascending (bus_unsubscribe i b)" using ascending_act [OF Cons.prems(1), of "Unsubscribe i"] by simp
  with Cons show ?case by simp
qed simp

text \<open>Fact: starting the event stream a second time reverses that order: the store's handlers are wired anew, behind every
  subscription that was there, so from then on the refresh bridge pings an entity before the store
  has the value it is pinged for.\<close>

theorem second_start_updates_last:
  assumes "bus_reachable b" and "wired client_handlers g b"
  shows "\<exists>us vs. map fst (fst (bus_publish sc e (snd (wire_events (Some g, b))))) = us @ vs
    \<and> set us \<subseteq> {..<length (bus_heap b)} \<and> set us \<inter> set (group_members (fst (wire_events (Some g, b)))) = {}
    \<and> set vs \<subseteq> {length (bus_heap b)..}"
proof -
  let ?n = "length (bus_heap b)"
  let ?c = "snd (group_cancel (g, b))"
  have below: "set (group_members g) \<subseteq> {..<?n}" using wired_acts_below [OF assms(2)] by auto
  have c: "ascending ?c" "length (bus_heap ?c) = ?n"
    using cancel_ascending [OF ascending_reachable [OF assms(1)] below] by (simp_all add: group_cancel_def)
  have eq: "wire_events (Some g, b) = subscribe_all client_handlers (create_subscription_group ''loom-client-wire'', ?c)"
    by (simp add: wire_events_def client_handlers_split)
  have asc: "ascending (snd (wire_events (Some g, b)))" unfolding eq by (rule subscribe_all_ascending [OF c(1)])
  have new: "set (group_members (fst (wire_events (Some g, b)))) \<subseteq> {?n..}"
    unfolding eq using subscribe_all_new [of ?n ?c client_handlers "create_subscription_group ''loom-client-wire''"] c(2)
    by (simp add: create_subscription_group_def)
  let ?calls = "map fst (fst (bus_publish sc e (snd (wire_events (Some g, b)))))"
  have "?calls = filter (\<lambda>i. i < ?n) ?calls @ filter (\<lambda>i. ?n \<le> i) ?calls" by (rule sorted_split [OF calls_sorted [OF asc]])
  then show ?thesis using new
    by (intro exI [of _ "filter (\<lambda>i. i < ?n) ?calls"] exI [of _ "filter (\<lambda>i. ?n \<le> i) ?calls"]) auto
qed

lemma subscribe_all_reachable: "bus_reachable b \<Longrightarrow> bus_reachable (snd (subscribe_all hs (g, b)))"
proof (induction hs arbitrary: g b)
  case (Cons x hs)
  then show ?case by (cases x) (simp add: subscribe_all_step bus_reachable.act del: bus_act.simps)
qed (simp add: subscribe_all_def)

lemma first_start_reachable: "bus_reachable (snd (rewired 0))"
  using subscribe_all_reachable [OF bus_reachable.start, of client_handlers "create_subscription_group ''loom-client-wire''"]
  by (simp add: wire_events_def client_handlers_split)

lemmas first_start_wired = rewired_wired [of 0]

theorem store_updated_first_witness:
  "\<exists>i us vs. i \<in> set (group_members (fst (rewired 0)))
    \<and> map fst (fst (bus_publish (\<lambda>h e b. ([], outcome.Returned)) (BusEvent (bus_type (CoreEv DataPointValueChangedEvent)) None)
        (bus_acts [Subscribe (bus_type (CoreEv DataPointValueChangedEvent)) 17 None] (snd (rewired 0))))) = us @ vs \<and> i \<in> set us"
proof -
  let ?b = "snd (rewired 0)" and ?g = "fst (rewired 0)" and ?t = "bus_type (CoreEv DataPointValueChangedEvent)"
  have handlers: "(?t, 0, None) \<in> set (map (\<lambda>(c, h). (bus_type c, h, None)) client_handlers)"
    by (simp add: client_handlers_def store_classes_def bridge_classes_def alarm_classes_def upt_rec)
  have "(?t, 0, None) \<in> set (map (\<lambda>i. (sub_event_type (bus_heap ?b ! i), sub_handler (bus_heap ?b ! i), sub_event_key (bus_heap ?b ! i)))
      (group_members ?g))"
    by (subst wired_members [OF first_start_wired]) (rule handlers)
  then obtain i where i: "i \<in> set (group_members ?g)" "sub_event_type (bus_heap ?b ! i) = ?t"
    by (auto simp del: rewired.simps)
  have s: "list_all (spares ?g) [Subscribe ?t 17 None]" "well_behaved ?g (\<lambda>h e b. ([], outcome.Returned))"
    by (simp_all add: spares_def well_behaved_def)
  show ?thesis
    using store_updated_first [OF first_start_reachable first_start_wired s i(1), of "BusEvent ?t None"] i by auto
qed

definition quiet_world :: "store \<Rightarrow> world" where
  "quiet_world s = \<lparr>w_store = s, w_env = (\<lambda>n. \<lparr>tn_elapsed = 0, tn_ops = [], tn_info = None, tn_reply = Answer NoBody\<rparr>), w_turn = 0,
     w_now = 0, w_info = None, w_sent = [], w_ops = [], w_announced = []\<rparr>"

theorem availability_pings_exact_witness:
  "\<exists>ks. rf_out (snd (on_availability ''A'' \<lparr>rf_world = quiet_world (attach_device_detail two_channels (empty_store None 5)),
       rf_out = [], rf_groups = [], rf_profiles = [], rf_schedules = (\<lambda>n. Fault OtherError)\<rparr>)) = map (\<lambda>k. StateChanged k JNull) ks"
proof -
  let ?r = "\<lparr>rf_world = quiet_world (attach_device_detail two_channels (empty_store None 5)),
       rf_out = [], rf_groups = [], rf_profiles = [], rf_schedules = (\<lambda>n. Fault OtherError)\<rparr> :: refresher"
  have "calm_world (rf_world ?r)" by (simp add: calm_world_def quiet_world_def)
  moreover have "store_ok (apply_op (AttachDetail two_channels) (empty_store None 5))" by (rule store_ok_op) simp
  then have "store_ok (rstore ?r)" by (simp add: rstore_def quiet_world_def)
  ultimately show ?thesis using availability_pings_exact [of ?r "''A''"] by auto
qed

text \<open>Fact: a trigger is recorded on the group the entity reads before the entity is pinged for it. Whatever the world does in
  between, a trigger handler that returns has published the trigger, and then either found no group
  of the channel and flavour and changed none, or recorded the trigger on that group alone and
  published one ping with the group's key.\<close>

theorem trigger_recorded_then_pinged:
  "let (x, r') = on_trigger u True p r; t = trigger_type_of u (tp_event_type p) in
     (\<exists>e. x = Inl e)
   \<or> (\<exists>model iface name. rf_out r' = rf_out r @ [Triggered t model iface (tp_address p) (tp_channel p) (tp_parameter p) (tp_value p) name]
        \<and> rf_groups r' = rf_groups r)
   \<or> (\<exists>model iface name g. g \<in> set (dict_values (rf_groups r)) \<and> eg_type g = t
        \<and> rf_out r' = rf_out r @ [Triggered t model iface (tp_address p) (tp_channel p) (tp_parameter p) (tp_value p) name,
             StateChanged (eg_unique_id g) (JStr (tp_parameter p))]
        \<and> rf_groups r' = dict_put (eg_unique_id g) (g\<lparr>eg_last := Some (tp_parameter p, tp_value p)\<rparr>) (rf_groups r))"
proof -
  let ?t = "trigger_type_of u (tp_event_type p)"
  obtain iface model name where attrs: "device_attrs (tp_address p) (rstore r) = (iface, model, name)" by (metis prod_cases3)
  let ?e = "Triggered ?t model (or_key (tp_interface_id p) iface) (tp_address p) (tp_channel p) (tp_parameter p) (tp_value p) name"
  obtain x1 r1 where 1: "publish ?e r = (x1, r1)" by fastforce
  then have out1: "rf_out r1 = rf_out r @ [?e]" "rf_groups r1 = rf_groups r" by (auto simp: publish_def split: prod.splits)
  show ?thesis
  proof (cases x1)
    case (Inl e)
    then show ?thesis by (simp add: on_trigger_def Let_def rbind_def rlook_def attrs 1)
  next
    case (Inr v)
    show ?thesis
    proof (cases "find_event_group (rstore r1) (tp_address p) (tp_channel p) ?t (rf_groups r1)")
      case None
      then show ?thesis using out1 Inr by (auto simp: on_trigger_def Let_def rbind_def rlook_def rret_def attrs 1)
    next
      case (Some g)
      then have g: "g \<in> set (dict_values (rf_groups r))" "eg_type g = ?t"
        using out1(2) by (auto simp: find_event_group_def find_Some_iff)
      obtain x2 r2 where 2: "publish (StateChanged (eg_unique_id g) (JStr (tp_parameter p)))
          (r1\<lparr>rf_groups := dict_put (eg_unique_id g) (g\<lparr>eg_last := Some (tp_parameter p, tp_value p)\<rparr>) (rf_groups r1)\<rparr>) = (x2, r2)"
        by fastforce
      then have "rf_out r2 = rf_out r1 @ [StateChanged (eg_unique_id g) (JStr (tp_parameter p))]"
        "rf_groups r2 = dict_put (eg_unique_id g) (g\<lparr>eg_last := Some (tp_parameter p, tp_value p)\<rparr>) (rf_groups r1)"
        by (auto simp: publish_def split: prod.splits)
      then have "rf_out r2 = rf_out r @ [?e, StateChanged (eg_unique_id g) (JStr (tp_parameter p))]"
        "rf_groups r2 = dict_put (eg_unique_id g) (g\<lparr>eg_last := Some (tp_parameter p, tp_value p)\<rparr>) (rf_groups r)"
        using out1 by simp_all
      moreover have "on_trigger u True p r = (x2, r2)"
        using Inr 2 Some by (simp add: on_trigger_def Let_def rbind_def rlook_def attrs 1 set_group_def record_trigger_def)
      ultimately show ?thesis using g by simp blast
    qed
  qed
qed

end
