(* ===== verification/Central.thy ===== *)
theory Central
  imports HubCoordinator
begin

text \<open>
  The lifecycle of the central (compat/aiohomematic/central/adapter.py): its state follows the event stream, a drop only
  after a grace period, which a task waits out; and the two background re-reads that events
  schedule. Each input is one handler or one turn of a task. A publication awaits aiohomematic's bus,
  which may suspend: the task that reports an outage publishes one event per turn, and the next
  connection event cancels it wherever it stands. A handler's own publications are one step. Times
  are milliseconds.
\<close>

section \<open>The state of the central\<close>

datatype central_state = DegradedState | FailedState | InitializingState | RecoveringState | RunningState | StartingState | StoppedState

definition terminal :: "central_state \<Rightarrow> bool" where
  "terminal st \<longleftrightarrow> st = StoppedState \<or> st = FailedState"

datatype central_event = SensorPing oid json | Transition central_state central_state

datatype degrade_task = NoTask | Grace nat | Reporting "central_event list"

record central =
  ct_state :: central_state
  ct_now :: nat
  ct_task :: degrade_task
  ct_hub :: coordinator
  ct_out :: "central_event list"

definition degraded_grace_ms :: nat where
  "degraded_grace_ms = 15000"

definition central_available :: "central \<Rightarrow> bool" where
  "central_available c \<longleftrightarrow> ct_state c = RunningState \<or> ct_state c = DegradedState"

text \<open>What the move publishes: the daemon-connection sensor if it changed, then the transition.\<close>

definition connection_report :: "bool \<Rightarrow> central \<Rightarrow> central_event list" where
  "connection_report b c =
     (let (ids, hub) = apply_daemon_connection b (ct_hub c)
      in map (\<lambda>i. SensorPing i (JBool b)) ids @ [Transition (ct_state c) (if b then RunningState else DegradedState)])"

definition moved_state :: "bool \<Rightarrow> central \<Rightarrow> central" where
  "moved_state b c = c\<lparr>ct_state := (if b then RunningState else DegradedState), ct_hub := snd (apply_daemon_connection b (ct_hub c))\<rparr>"

definition apply_connection_state :: "bool \<Rightarrow> central \<Rightarrow> central_event list \<times> central" where
  "apply_connection_state b c =
     (if (if b then RunningState else DegradedState) = ct_state c then ([], c)
      else (connection_report b c, moved_state b c))"

definition on_connection_state_changed :: "bool \<Rightarrow> central \<Rightarrow> central" where
  "on_connection_state_changed b c =
     (if terminal (ct_state c) then c
      else let c1 = c\<lparr>ct_task := NoTask\<rparr> in
        if b then (case apply_connection_state True c1 of (es, c2) \<Rightarrow> c2\<lparr>ct_out := ct_out c2 @ es\<rparr>)
        else c1\<lparr>ct_task := Grace (ct_now c + degraded_grace_ms)\<rparr>)"

text \<open>The task when its sleep is over; what it then publishes takes a turn each.\<close>

definition degrade_after_grace :: "central \<Rightarrow> central" where
  "degrade_after_grace c =
     (if terminal (ct_state c) then c\<lparr>ct_task := NoTask\<rparr>
      else case apply_connection_state False c of
        (es, c1) \<Rightarrow> c1\<lparr>ct_task := (if es = [] then NoTask else Reporting es)\<rparr>)"

definition pass_time :: "nat \<Rightarrow> central \<Rightarrow> central" where
  "pass_time n c =
     (let c1 = c\<lparr>ct_now := ct_now c + n\<rparr> in
      case ct_task c of Grace t \<Rightarrow> if t \<le> ct_now c1 then degrade_after_grace c1 else c1 | _ \<Rightarrow> c1)"

definition task_turn :: "central \<Rightarrow> central" where
  "task_turn c = (case ct_task c of
       Reporting (e # es) \<Rightarrow> c\<lparr>ct_out := ct_out c @ [e], ct_task := (if es = [] then NoTask else Reporting es)\<rparr>
     | _ \<Rightarrow> c)"

definition on_auth_failed :: "central \<Rightarrow> central" where
  "on_auth_failed c = (if terminal (ct_state c) then c else c\<lparr>ct_state := DegradedState\<rparr>)"

text \<open>The last step of \<open>start\<close>, and the part of \<open>stop\<close> that ends the task.\<close>

definition start_done :: "central \<Rightarrow> central" where
  "start_done c = c\<lparr>ct_state := RunningState\<rparr>"

definition stop_central :: "central \<Rightarrow> central" where
  "stop_central c = c\<lparr>ct_task := NoTask, ct_state := StoppedState\<rparr>"

datatype central_input = Connection bool | Passes nat | TaskTurn | AuthFails | StartDone | StopNow

fun central_step :: "central_input \<Rightarrow> central \<Rightarrow> central" where
  "central_step (Connection b) c = on_connection_state_changed b c"
| "central_step (Passes n) c = pass_time n c"
| "central_step TaskTurn c = task_turn c"
| "central_step AuthFails c = on_auth_failed c"
| "central_step StartDone c = start_done c"
| "central_step StopNow c = stop_central c"

definition central_run :: "central_input list \<Rightarrow> central \<Rightarrow> central" where
  "central_run is c = fold central_step is c"

section \<open>Re-reads scheduled by events\<close>

text \<open>
  A broadcast schedules a re-read; the log says when a broadcast was heard and when a read was
  started. The feature re-read notes a broadcast that comes while it runs and reads once more; the
  latch re-read drops it.
\<close>

datatype reread_entry = Heard | Started

record reread =
  rr_running :: bool
  rr_again :: bool
  rr_log :: "reread_entry list"

definition idle_reread :: reread where
  "idle_reread = \<lparr>rr_running = False, rr_again = False, rr_log = []\<rparr>"

datatype reread_input = Broadcast | ReadEnds

fun features_step :: "reread_input \<Rightarrow> reread \<Rightarrow> reread" where
  "features_step Broadcast r =
     (if rr_running r then r\<lparr>rr_again := True, rr_log := rr_log r @ [Heard]\<rparr>
      else \<lparr>rr_running = True, rr_again = False, rr_log = rr_log r @ [Heard, Started]\<rparr>)"
| "features_step ReadEnds r =
     (if \<not> rr_running r then r
      else if rr_again r then r\<lparr>rr_again := False, rr_log := rr_log r @ [Started]\<rparr>
      else r\<lparr>rr_running := False\<rparr>)"

fun latch_step :: "reread_input \<Rightarrow> reread \<Rightarrow> reread" where
  "latch_step Broadcast r =
     (if rr_running r then r\<lparr>rr_log := rr_log r @ [Heard]\<rparr>
      else r\<lparr>rr_running := True, rr_log := rr_log r @ [Heard, Started]\<rparr>)"
| "latch_step ReadEnds r = r\<lparr>rr_running := False\<rparr>"

section \<open>What holds of them\<close>

lemma central_run_Nil [simp]: "central_run [] c = c"
  and central_run_Cons [simp]: "central_run (i # is) c = central_run is (central_step i c)"
  and central_run_append [simp]: "central_run (is @ js) c = central_run js (central_run is c)"
  by (simp_all add: central_run_def)

lemmas central_defs = on_connection_state_changed_def apply_connection_state_def degrade_after_grace_def pass_time_def
  task_turn_def on_auth_failed_def start_done_def stop_central_def moved_state_def Let_def

definition waits :: "nat list \<Rightarrow> central_input list" where
  "waits ns = map Passes ns"

lemma grace_not_over:
  "sum_list ns < t - ct_now c \<Longrightarrow> central_run (waits ns) (c\<lparr>ct_task := Grace t\<rparr>)
     = c\<lparr>ct_task := Grace t, ct_now := ct_now c + sum_list ns\<rparr>"
proof (induction ns arbitrary: c)
  case Nil
  then show ?case by (simp add: waits_def)
next
  case (Cons n ns)
  have "central_step (Passes n) (c\<lparr>ct_task := Grace t\<rparr>) = (c\<lparr>ct_now := ct_now c + n\<rparr>)\<lparr>ct_task := Grace t\<rparr>"
    using Cons.prems by (simp add: pass_time_def Let_def)
  moreover have "central_run (waits ns) ((c\<lparr>ct_now := ct_now c + n\<rparr>)\<lparr>ct_task := Grace t\<rparr>)
      = (c\<lparr>ct_now := ct_now c + n\<rparr>)\<lparr>ct_task := Grace t, ct_now := ct_now (c\<lparr>ct_now := ct_now c + n\<rparr>) + sum_list ns\<rparr>"
    by (rule Cons.IH) (use Cons.prems in simp)
  ultimately show ?case by (simp add: waits_def add.assoc)
qed

text \<open>Fact: a drop that does not outlast the grace period is not noticed. From a running central, a disconnect, any passing of
  time that stays below 15 seconds and a reconnect leave the state and what was published as they
  were, and no report pending.\<close>

theorem flap_unnoticed:
  assumes "ct_state c = RunningState" and "sum_list ns < degraded_grace_ms"
  shows "central_run (Connection False # waits ns @ [Connection True]) c = c\<lparr>ct_now := ct_now c + sum_list ns, ct_task := NoTask\<rparr>"
proof -
  have "central_step (Connection False) c = c\<lparr>ct_task := Grace (ct_now c + degraded_grace_ms)\<rparr>"
    using assms(1) by (simp add: central_defs terminal_def)
  then show ?thesis
    using assms grace_not_over [of ns "ct_now c + degraded_grace_ms" c]
    by (simp add: on_connection_state_changed_def apply_connection_state_def terminal_def Let_def)
qed

definition demo_central :: central where
  "demo_central = \<lparr>ct_state = RunningState, ct_now = 7, ct_task = NoTask, ct_hub = new_coordinator (empty_store None 10), ct_out = []\<rparr>"

theorem flap_unnoticed_witness:
  "central_run (Connection False # waits [9000, 5999] @ [Connection True]) demo_central = demo_central\<lparr>ct_now := 15006\<rparr>"
proof -
  have "ct_state demo_central = RunningState" "sum_list [9000, 5999] < degraded_grace_ms"
    by (simp_all add: demo_central_def degraded_grace_ms_def)
  from flap_unnoticed [OF this] show ?thesis by (simp add: demo_central_def)
qed

text \<open>Time and turns of the task, in any order.\<close>

definition uneventful :: "central_input \<Rightarrow> bool" where
  "uneventful i \<longleftrightarrow> (case i of Passes n \<Rightarrow> True | TaskTurn \<Rightarrow> True | _ \<Rightarrow> False)"

definition elapsed :: "central_input list \<Rightarrow> nat" where
  "elapsed is = sum_list (map (\<lambda>i. case i of Passes n \<Rightarrow> n | _ \<Rightarrow> 0) is)"

lemma elapsed_simps [simp]: "elapsed [] = 0" "elapsed (Passes n # is) = n + elapsed is" "elapsed (TaskTurn # is) = elapsed is"
  by (simp_all add: elapsed_def)

lemma grace_run:
  "list_all uneventful is \<Longrightarrow> elapsed is < t - ct_now c \<Longrightarrow>
     central_run is (c\<lparr>ct_task := Grace t\<rparr>) = c\<lparr>ct_task := Grace t, ct_now := ct_now c + elapsed is\<rparr>"
proof (induction "is" arbitrary: c)
  case (Cons i "is")
  show ?case
  proof (cases i)
    case (Passes n)
    have "central_step (Passes n) (c\<lparr>ct_task := Grace t\<rparr>) = (c\<lparr>ct_now := ct_now c + n\<rparr>)\<lparr>ct_task := Grace t\<rparr>"
      using Cons.prems by (simp add: Passes pass_time_def Let_def)
    then show ?thesis using Cons.IH [of "c\<lparr>ct_now := ct_now c + n\<rparr>"] Cons.prems by (simp add: Passes add.assoc)
  next
    case TaskTurn
    then show ?thesis using Cons by (simp add: task_turn_def)
  qed (use Cons.prems in \<open>simp_all add: uneventful_def\<close>)
qed simp

definition report_task :: "central_event list \<Rightarrow> degrade_task" where
  "report_task es = (if es = [] then NoTask else Reporting es)"

lemma report_run:
  "list_all uneventful is \<Longrightarrow> central_run is (c\<lparr>ct_task := report_task es\<rparr>)
     = c\<lparr>ct_task := report_task (drop (count_list is TaskTurn) es), ct_now := ct_now c + elapsed is,
         ct_out := ct_out c @ take (count_list is TaskTurn) es\<rparr>"
proof (induction "is" arbitrary: c es)
  case (Cons i "is")
  show ?case
  proof (cases i)
    case (Passes n)
    have "central_step (Passes n) (c\<lparr>ct_task := report_task es\<rparr>) = (c\<lparr>ct_now := ct_now c + n\<rparr>)\<lparr>ct_task := report_task es\<rparr>"
      by (simp add: pass_time_def report_task_def Let_def)
    then show ?thesis using Cons.IH [of es "c\<lparr>ct_now := ct_now c + n\<rparr>"] Cons.prems by (simp add: Passes add.assoc)
  next
    case TaskTurn
    show ?thesis
    proof (cases es)
      case Nil
      have "central_step TaskTurn (c\<lparr>ct_task := report_task []\<rparr>) = c\<lparr>ct_task := report_task []\<rparr>"
        by (simp add: task_turn_def report_task_def)
      then show ?thesis using Cons.IH [of "[]" c] Cons.prems by (simp add: TaskTurn Nil)
    next
      case (Cons e fs)
      have "central_step TaskTurn (c\<lparr>ct_task := report_task (e # fs)\<rparr>) = (c\<lparr>ct_out := ct_out c @ [e]\<rparr>)\<lparr>ct_task := report_task fs\<rparr>"
        by (simp add: task_turn_def report_task_def)
      then show ?thesis using Cons.IH [of fs "c\<lparr>ct_out := ct_out c @ [e]\<rparr>"] Cons.prems by (simp add: TaskTurn Cons)
    qed
  qed (use Cons.prems in \<open>simp_all add: uneventful_def\<close>)
qed simp

text \<open>C33: an outage that outlasts the grace period is reported once: as long as no other connection event, credential
  failure, start or stop comes, in any order of time and task turns, a central that is up publishes
  nothing and stays as it was for 15 seconds after the disconnect; from then on it is degraded and
  its connection sensor is off, and its turns publish first the sensor, if it changed, then the
  transition, once each, and nothing after.\<close>

theorem outage_reported:
  assumes "\<not> terminal (ct_state c)" and "ct_state c \<noteq> DegradedState"
    and "list_all uneventful before" and "list_all uneventful after"
    and "elapsed before < 15000" and "15000 \<le> elapsed before + n"
    and "apply_daemon_connection False (ct_hub c) = (ids, hub)"
    and "report = map (\<lambda>i. SensorPing i (JBool False)) ids @ [Transition (ct_state c) DegradedState]"
    and "k = count_list after TaskTurn"
  shows "central_run (Connection False # before) c
      = c\<lparr>ct_now := ct_now c + elapsed before, ct_task := Grace (ct_now c + 15000)\<rparr>
    \<and> central_run (Connection False # before @ Passes n # after) c
      = c\<lparr>ct_state := DegradedState, ct_hub := hub, ct_now := ct_now c + elapsed before + n + elapsed after,
          ct_task := (if length report \<le> k then NoTask else Reporting (drop k report)), ct_out := ct_out c @ take k report\<rparr>"
proof -
  let ?t = "ct_now c + 15000"
  let ?w = "c\<lparr>ct_now := ct_now c + elapsed before, ct_task := Grace ?t\<rparr>"
  let ?d = "c\<lparr>ct_state := DegradedState, ct_hub := hub, ct_now := ct_now c + elapsed before + n\<rparr>"
  have 1: "central_step (Connection False) c = c\<lparr>ct_task := Grace ?t\<rparr>"
    using assms(1) by (simp add: on_connection_state_changed_def degraded_grace_ms_def Let_def)
  have 2: "central_run before (c\<lparr>ct_task := Grace ?t\<rparr>) = ?w"
    using grace_run [OF assms(3), of ?t c] assms(5) by simp
  have 3: "central_step (Passes n) ?w = ?d\<lparr>ct_task := report_task report\<rparr>"
    using assms(1,2,6,7,8)
    by (simp add: pass_time_def degrade_after_grace_def apply_connection_state_def moved_state_def connection_report_def
        report_task_def Let_def)
  have 4: "report_task (drop k report) = (if length report \<le> k then NoTask else Reporting (drop k report))"
    by (simp add: report_task_def)
  show ?thesis
    using report_run [OF assms(4), of report ?d] by (simp add: 1 2 3 assms(9) [symmetric] 4 del: central_step.simps)
qed

theorem outage_reported_witness:
  "central_run [Connection False, Passes 9000, TaskTurn, Passes 6000, Passes 3, TaskTurn, TaskTurn] demo_central
    = demo_central\<lparr>ct_state := DegradedState, ct_now := 15010, ct_out := [Transition RunningState DegradedState]\<rparr>"
proof -
  have hub: "apply_daemon_connection False (ct_hub demo_central) = ([], ct_hub demo_central)"
    by (simp add: demo_central_def apply_daemon_connection_def new_coordinator_def apply_to_def slot_def apply_at_def)
  have up: "\<not> terminal (ct_state demo_central)" "ct_state demo_central \<noteq> DegradedState"
    by (simp_all add: demo_central_def terminal_def)
  from outage_reported [OF up _ _ _ _ hub refl refl, of "[Passes 9000, TaskTurn]" "[Passes 3, TaskTurn, TaskTurn]" 6000]
  show ?thesis by (simp add: uneventful_def demo_central_def del: central_run_Cons)
qed

text \<open>Fact: a central that has stopped stays stopped and publishes nothing, whatever connection events, timers and
  credential failures come late; only a start that completes brings it back.\<close>

theorem stopped_stays_stopped:
  assumes "ct_state c = StoppedState" and "ct_task c = NoTask" and "StartDone \<notin> set is"
  shows "ct_state (central_run is c) = StoppedState \<and> ct_out (central_run is c) = ct_out c"
  using assms
proof (induction "is" arbitrary: c)
  case (Cons i "is")
  have "ct_state (central_step i c) = StoppedState \<and> ct_task (central_step i c) = NoTask \<and> ct_out (central_step i c) = ct_out c"
    using Cons.prems by (cases i) (simp_all add: central_defs terminal_def)
  with Cons show ?case by simp
qed simp

text \<open>Fact: a reconnect that falls between the two publications of an outage report leaves the consumer with a transition
  out of a state it was never told about: the task has moved the state and is cancelled before it
  has published the transition, and the reconnect publishes the way back alone.\<close>

theorem report_cut_short:
  assumes "ct_state c = RunningState" and "ct_task c = NoTask" and "fst (apply_daemon_connection False (ct_hub c)) = [i]"
    and "fst (apply_daemon_connection True (snd (apply_daemon_connection False (ct_hub c)))) = [j]"
  shows "ct_out (central_run [Connection False, Passes degraded_grace_ms, TaskTurn, Connection True] c)
    = ct_out c @ [SensorPing i (JBool False), SensorPing j (JBool True), Transition DegradedState RunningState]"
  using assms by (simp add: central_defs terminal_def connection_report_def case_prod_unfold)

definition no_way_back :: "central_input \<Rightarrow> bool" where
  "no_way_back i \<longleftrightarrow> i \<noteq> Connection True \<and> i \<noteq> StartDone \<and> i \<noteq> StopNow"

lemma degraded_silent:
  "ct_state c = DegradedState \<Longrightarrow> (\<And>es. ct_task c \<noteq> Reporting es) \<Longrightarrow> list_all no_way_back is \<Longrightarrow>
     ct_out (central_run is c) = ct_out c \<and> ct_hub (central_run is c) = ct_hub c \<and> ct_state (central_run is c) = DegradedState"
proof (induction "is" arbitrary: c)
  case (Cons i "is")
  let ?d = "central_step i c"
  have "ct_state ?d = DegradedState \<and> (\<forall>es. ct_task ?d \<noteq> Reporting es) \<and> ct_out ?d = ct_out c \<and> ct_hub ?d = ct_hub c"
    using Cons.prems
    by (cases i) (auto simp: central_defs terminal_def no_way_back_def split: degrade_task.splits)
  with Cons show ?case by simp
qed simp

text \<open>Fact: a rejected credential degrades the central without a report, and silences the report of the outage it belongs
  to: from a running central whose report has not begun, a credential failure, and then whatever
  drops, timers and further failures, publish nothing and leave the connection sensor as it was,
  while the state is degraded.\<close>

theorem auth_failure_silent:
  assumes "ct_state c = RunningState" and "\<And>es. ct_task c \<noteq> Reporting es" and "list_all no_way_back is"
  shows "ct_out (central_run (AuthFails # is) c) = ct_out c \<and> ct_hub (central_run (AuthFails # is) c) = ct_hub c
    \<and> ct_state (central_run (AuthFails # is) c) = DegradedState"
proof -
  have "central_step AuthFails c = c\<lparr>ct_state := DegradedState\<rparr>"
    using assms(1) by (simp add: on_auth_failed_def terminal_def)
  then show ?thesis using degraded_silent [of "c\<lparr>ct_state := DegradedState\<rparr>" "is"] assms(2,3) by simp
qed

text \<open>Fact: a start that completes during an outage reports a running central: the outage that outlasted the grace period while
  the start was still going on is overwritten, and stays so until the next connection event.\<close>

theorem start_hides_outage:
  assumes "ct_state c = StartingState" and "degraded_grace_ms \<le> n"
  shows "ct_state (central_run [Connection False, Passes n] c) = DegradedState
    \<and> ct_state (central_run [Connection False, Passes n, StartDone] c) = RunningState"
  using assms by (simp add: central_defs terminal_def connection_report_def case_prod_unfold)

definition caught_up :: "reread_entry list \<Rightarrow> bool" where
  "caught_up lg \<longleftrightarrow> Heard \<notin> set lg \<or> (\<exists>us vs. lg = us @ vs \<and> Heard \<notin> set vs \<and> Started \<in> set vs)"

lemma caught_up_started: "caught_up (lg @ [Started])"
  unfolding caught_up_def by (intro disjI2 exI [of _ lg] exI [of _ "[Started]"]) simp

lemma caught_up_heard_started: "caught_up (lg @ [Heard, Started])"
  using caught_up_started [of "lg @ [Heard]"] by simp

lemma features_invariant:
  "let r = fold features_step is idle_reread in
     (rr_again r \<or> caught_up (rr_log r)) \<and> (rr_again r \<longrightarrow> rr_running r)
     \<and> length (filter (\<lambda>e. e = Started) (rr_log r)) + (if rr_again r then 1 else 0) \<le> length (filter (\<lambda>e. e = Heard) (rr_log r))"
proof (induction "is" rule: rev_induct)
  case Nil
  then show ?case by (simp add: idle_reread_def caught_up_def)
next
  case (snoc i "is")
  then show ?case
    by (cases i) (auto simp: Let_def caught_up_started caught_up_heard_started)
qed


text \<open>Fact: a latch change can be missed: a broadcast heard while a read runs starts none, so the log can end idle with a
  broadcast that no read follows, and the count stays as it was read before it.\<close>

theorem latch_change_missed:
  "\<exists>is. let r = fold latch_step is idle_reread in \<not> rr_running r \<and> \<not> caught_up (rr_log r)"
proof -
  let ?log = "[Heard, Started, Heard]"
  have no: False if "us @ vs = ?log" "Heard \<notin> set vs" "Started \<in> set vs" for us vs
    using that by (cases vs rule: rev_cases) auto
  have "\<not> caught_up ?log"
    unfolding caught_up_def using no by (metis list.set_intros(1))
  then show ?thesis by (intro exI [of _ "[Broadcast, Broadcast, ReadEnds]"]) (simp add: idle_reread_def)
qed

end
