(* ===== verification/Lifecycle.thy ===== *)
theory Lifecycle
  imports Central
begin

text \<open>
  Bringing a central up and taking it down (compat/aiohomematic/central/adapter.py: \<open>start\<close>, \<open>stop\<close>, the rebuild after a
  re-bootstrap). The bring-up is a plan of statements; at each await other tasks take turns, and the
  await returns, raises or is cancelled. What the adapter holds is a record: whether the client is
  open, the handlers of its subscription group in order, and the handle of each of its tasks. The
  work behind a step is in the theory of its component. A start is not called on an adapter that
  runs, nor a stop while another start or stop is under way.
\<close>

section \<open>What the adapter holds\<close>

text \<open>A task behind a handle: it runs, has returned or was cancelled, or has ended with an exception.\<close>

datatype task_state = TaskRuns | TaskOver | TaskCrashed

datatype adapter_sub =
    RefreshBridge | HubPushRouting | PanelChangedSub | LatchReadinessSub | LatchTriggeredSub | LatchPanelSub
  | ConnectionSub | AuthFailedSub | FeaturesChangedSub | InboxChangedSub | DeviceCreatedSub | DeviceRemovedSub

text \<open>
  \<open>ad_stray\<close> counts the running tasks whose handle was given up: the re-sync of held devices clears its own
  handle before it reads. A feature broadcast that comes before a new task's first stretch of code
  counts here as one that comes during its read.
\<close>

record adapter =
  ad_name :: string
  ad_central :: central
  ad_client_open :: bool
  ad_stream :: bool
  ad_hook :: bool
  ad_group :: "adapter_sub list option"
  ad_reconcile :: "task_state option"
  ad_motion :: "task_state option"
  ad_features :: "task_state option"
  ad_features_again :: bool
  ad_held :: "task_state option"
  ad_looper :: nat
  ad_stray :: nat

definition new_adapter :: "string \<Rightarrow> store \<Rightarrow> adapter" where
  "new_adapter n s =
     \<lparr>ad_name = n,
      ad_central = \<lparr>ct_state = StoppedState, ct_now = 0, ct_task = NoTask, ct_hub = new_coordinator s, ct_out = []\<rparr>,
      ad_client_open = False, ad_stream = False, ad_hook = False, ad_group = None, ad_reconcile = None,
      ad_motion = None, ad_features = None, ad_features_again = False, ad_held = None, ad_looper = 0, ad_stray = 0\<rparr>"

section \<open>The other tasks\<close>

datatype adapter_input =
    ConnectionPush bool | AuthFailedPush | LatchPush adapter_sub | FeaturesPush string
  | TimePasses nat | ReporterTurn | MotionEnds bool | FeaturesReadEnds
  | HeldDeclined | HeldSyncBegins | StrayEnds | LooperTask | LooperEnds

definition hears :: "adapter_sub \<Rightarrow> adapter \<Rightarrow> bool" where
  "hears x a = (case ad_group a of None \<Rightarrow> False | Some g \<Rightarrow> x \<in> set g)"

definition move_central :: "central_input \<Rightarrow> adapter \<Rightarrow> adapter" where
  "move_central i a = a\<lparr>ad_central := central_step i (ad_central a)\<rparr>"

definition on_possible_latch_change :: "adapter \<Rightarrow> adapter" where
  "on_possible_latch_change a = (if ad_motion a = Some TaskRuns then a else a\<lparr>ad_motion := Some TaskRuns\<rparr>)"

definition on_central_features_changed :: "string \<Rightarrow> adapter \<Rightarrow> adapter" where
  "on_central_features_changed n a =
     (if n \<noteq> ad_name a then a
      else if ad_features a = Some TaskRuns then a\<lparr>ad_features_again := True\<rparr>
      else a\<lparr>ad_features := Some TaskRuns, ad_features_again := False\<rparr>)"

definition latch_subs :: "adapter_sub list" where
  "latch_subs = [LatchReadinessSub, LatchTriggeredSub, LatchPanelSub]"

fun adapter_step :: "adapter_input \<Rightarrow> adapter \<Rightarrow> adapter" where
  "adapter_step (ConnectionPush b) a = (if hears ConnectionSub a then move_central (Connection b) a else a)"
| "adapter_step AuthFailedPush a = (if hears AuthFailedSub a then move_central AuthFails a else a)"
| "adapter_step (LatchPush x) a = (if x \<in> set latch_subs \<and> hears x a then on_possible_latch_change a else a)"
| "adapter_step (FeaturesPush n) a = (if hears FeaturesChangedSub a then on_central_features_changed n a else a)"
| "adapter_step (TimePasses n) a = move_central (Passes n) a"
| "adapter_step ReporterTurn a = move_central TaskTurn a"
| "adapter_step (MotionEnds crashed) a =
     (if ad_motion a = Some TaskRuns then a\<lparr>ad_motion := Some (if crashed then TaskCrashed else TaskOver)\<rparr> else a)"
| "adapter_step FeaturesReadEnds a =
     (if ad_features a = Some TaskRuns
      then (if ad_features_again a then a\<lparr>ad_features_again := False\<rparr> else a\<lparr>ad_features := Some TaskOver\<rparr>)
      else a)"
| "adapter_step HeldDeclined a = a\<lparr>ad_held := Some TaskRuns\<rparr>"
| "adapter_step HeldSyncBegins a =
     (if ad_held a = Some TaskRuns then a\<lparr>ad_held := None, ad_stray := Suc (ad_stray a)\<rparr> else a)"
| "adapter_step StrayEnds a = a\<lparr>ad_stray := ad_stray a - 1\<rparr>"
| "adapter_step LooperTask a = a\<lparr>ad_looper := Suc (ad_looper a)\<rparr>"
| "adapter_step LooperEnds a = a\<lparr>ad_looper := ad_looper a - 1\<rparr>"

definition other_tasks :: "adapter_input list \<Rightarrow> adapter \<Rightarrow> adapter" where
  "other_tasks is a = fold adapter_step is a"

section \<open>Stopping\<close>

datatype ending = Returns | Raises | Cancels

text \<open>
  \<open>cancel()\<close> and \<open>await\<close> under \<open>suppress(CancelledError)\<close>: a task that has ended is not waited for, and its
  exception comes out of the \<open>await\<close>. A task that runs is waited for until it is cancelled; the turn
  holds what the other tasks do from then on. A task they put behind the handle meanwhile is lost
  when the handle is cleared.
\<close>

definition reap :: "(adapter \<Rightarrow> task_state option) \<Rightarrow> (task_state option \<Rightarrow> adapter \<Rightarrow> adapter) \<Rightarrow> adapter_input list
    \<Rightarrow> adapter \<Rightarrow> ending \<times> adapter" where
  "reap handle put is a =
     (case handle a of
        None \<Rightarrow> (Returns, a)
      | Some TaskCrashed \<Rightarrow> (Raises, a)
      | Some TaskOver \<Rightarrow> (Returns, put None a)
      | Some TaskRuns \<Rightarrow>
          let b = other_tasks is (put (Some TaskOver) a)
          in (Returns, put None (if handle b = Some TaskRuns then b\<lparr>ad_stray := Suc (ad_stray b)\<rparr> else b)))"

definition put_reconcile where "put_reconcile t a = a\<lparr>ad_reconcile := t\<rparr>"
definition put_motion where "put_motion t a = a\<lparr>ad_motion := t\<rparr>"
definition put_features where "put_features t a = a\<lparr>ad_features := t\<rparr>"

text \<open>\<open>aclose\<close> clears the handle before it waits.\<close>

definition held_aclose :: "adapter_input list \<Rightarrow> adapter \<Rightarrow> ending \<times> adapter" where
  "held_aclose is a =
     (case ad_held a of
        None \<Rightarrow> (Returns, a)
      | Some TaskCrashed \<Rightarrow> (Raises, a\<lparr>ad_held := None\<rparr>)
      | Some TaskOver \<Rightarrow> (Returns, a\<lparr>ad_held := None\<rparr>)
      | Some TaskRuns \<Rightarrow> (Returns, other_tasks is (a\<lparr>ad_held := None\<rparr>)))"

definition client_close :: "adapter_input list \<Rightarrow> ending \<Rightarrow> adapter \<Rightarrow> ending \<times> adapter" where
  "client_close is e a =
     (let b = other_tasks is a in (e, if e = Returns then b\<lparr>ad_client_open := False, ad_stream := False\<rparr> else b))"

definition release_bridge :: "adapter \<Rightarrow> adapter" where
  "release_bridge a = a\<lparr>ad_group := None, ad_looper := 0, ad_central := (ad_central a)\<lparr>ct_task := NoTask\<rparr>, ad_hook := False\<rparr>"

definition onward :: "ending \<times> adapter \<Rightarrow> (adapter \<Rightarrow> ending \<times> adapter) \<Rightarrow> ending \<times> adapter" where
  "onward r f = (case r of (Returns, a) \<Rightarrow> f a | _ \<Rightarrow> r)"

record stop_turns =
  at_reconcile :: "adapter_input list"
  at_motion :: "adapter_input list"
  at_features :: "adapter_input list"
  at_held :: "adapter_input list"
  at_close :: "adapter_input list"
  close_ends :: ending

definition adapter_stop :: "stop_turns \<Rightarrow> adapter \<Rightarrow> ending \<times> adapter" where
  "adapter_stop t a =
     onward (reap ad_reconcile put_reconcile (at_reconcile t) a) (\<lambda>a.
     onward (reap ad_motion put_motion (at_motion t) a) (\<lambda>a.
     onward (reap ad_features put_features (at_features t) a) (\<lambda>a.
     onward (held_aclose (at_held t) (release_bridge a)) (\<lambda>a.
     onward (client_close (at_close t) (close_ends t) a) (\<lambda>a.
       (Returns, move_central StopNow a))))))"

section \<open>Starting\<close>

datatype bring_up =
    AwaitConnect | AwaitSystemInformation | AwaitInterfaces | SetStarting | AwaitReady
  | AwaitBootstrap | AwaitHubCatalogue | AwaitSingletons | AwaitCustomDataPoints | AwaitSchedules | AwaitCombined
  | AwaitCandidates | SetHook | AwaitStartEvents | MakeGroup | SubscribeTo adapter_sub
  | AwaitAnnouncement | AwaitHeldSync | SpawnReconcile | SetRunning

definition layered_model :: "bring_up list" where
  "layered_model = [AwaitHubCatalogue, AwaitSingletons, AwaitCustomDataPoints, AwaitSchedules, AwaitCombined]"

definition bootstrap_model :: "bring_up list" where
  "bootstrap_model = AwaitBootstrap # layered_model"

definition start_plan :: "bring_up list" where
  "start_plan =
     [AwaitConnect, AwaitSystemInformation, AwaitInterfaces, SetStarting, AwaitReady] @ bootstrap_model
     @ [AwaitCandidates, SetHook, AwaitStartEvents, MakeGroup]
     @ map SubscribeTo ([RefreshBridge, HubPushRouting, PanelChangedSub] @ latch_subs
         @ [ConnectionSub, AuthFailedSub, FeaturesChangedSub])
     @ [AwaitAnnouncement] @ map SubscribeTo [InboxChangedSub, DeviceCreatedSub, DeviceRemovedSub]
     @ [AwaitHeldSync, SpawnReconcile, SetRunning]"

fun perform :: "bring_up \<Rightarrow> adapter \<Rightarrow> adapter" where
  "perform AwaitConnect a = a\<lparr>ad_client_open := True\<rparr>"
| "perform SetStarting a = a\<lparr>ad_central := (ad_central a)\<lparr>ct_state := StartingState\<rparr>\<rparr>"
| "perform SetHook a = a\<lparr>ad_hook := True\<rparr>"
| "perform AwaitStartEvents a = a\<lparr>ad_stream := True\<rparr>"
| "perform MakeGroup a = a\<lparr>ad_group := Some []\<rparr>"
| "perform (SubscribeTo x) a = a\<lparr>ad_group := map_option (\<lambda>g. g @ [x]) (ad_group a)\<rparr>"
| "perform SpawnReconcile a = a\<lparr>ad_reconcile := Some TaskRuns\<rparr>"
| "perform SetRunning a = move_central StartDone a"
| "perform _ a = a"

fun awaits :: "bring_up \<Rightarrow> bool" where
  "awaits SetStarting = False"
| "awaits SetHook = False"
| "awaits MakeGroup = False"
| "awaits (SubscribeTo x) = False"
| "awaits SpawnReconcile = False"
| "awaits SetRunning = False"
| "awaits _ = True"

text \<open>Two steps catch every \<open>Exception\<close> of their call and go on without its answer.\<close>

definition absorbs :: "bring_up \<Rightarrow> bool" where
  "absorbs s \<longleftrightarrow> s = AwaitHubCatalogue \<or> s = AwaitCandidates"

type_synonym turns = "nat \<Rightarrow> adapter_input list \<times> ending"

fun run_plan :: "turns \<Rightarrow> nat \<Rightarrow> bring_up list \<Rightarrow> adapter \<Rightarrow> ending \<times> adapter" where
  "run_plan t k [] a = (Returns, a)"
| "run_plan t k (s # ss) a =
     (if awaits s
      then let b = other_tasks (fst (t k)) (perform s a) in
        (case snd (t k) of
           Returns \<Rightarrow> run_plan t (Suc k) ss b
         | Raises \<Rightarrow> if absorbs s then run_plan t (Suc k) ss b else (Raises, b)
         | Cancels \<Rightarrow> (Cancels, b))
      else run_plan t k ss (perform s a))"

text \<open>\<open>except Exception\<close> stops the adapter and re-raises; a cancellation is not an \<open>Exception\<close>.\<close>

definition adapter_start :: "turns \<Rightarrow> stop_turns \<Rightarrow> adapter \<Rightarrow> ending \<times> adapter" where
  "adapter_start t u a =
     (case run_plan t 0 start_plan a of
        (Raises, b) \<Rightarrow> onward (adapter_stop u b) (\<lambda>c. (Raises, c))
      | r \<Rightarrow> r)"

definition rebuild_plan :: "bring_up list" where
  "rebuild_plan = layered_model @ [AwaitAnnouncement, AwaitHeldSync]"

definition on_store_rebootstrapped :: "turns \<Rightarrow> adapter \<Rightarrow> ending \<times> adapter" where
  "on_store_rebootstrapped t a =
     (if terminal (ct_state (ad_central a)) then (Returns, a)
      else case run_plan t 0 rebuild_plan a of (Raises, b) \<Rightarrow> (Returns, b) | r \<Rightarrow> r)"

section \<open>What the other tasks leave alone\<close>

lemma adapter_step_keeps [simp]:
  "ad_group (adapter_step i a) = ad_group a" "ad_hook (adapter_step i a) = ad_hook a"
  "ad_client_open (adapter_step i a) = ad_client_open a" "ad_stream (adapter_step i a) = ad_stream a"
  "ad_reconcile (adapter_step i a) = ad_reconcile a" "ad_name (adapter_step i a) = ad_name a"
  by (cases i; simp add: move_central_def on_possible_latch_change_def on_central_features_changed_def)+

lemma other_tasks_simps [simp]:
  "other_tasks [] a = a" "other_tasks (i # is) a = other_tasks is (adapter_step i a)"
  by (simp_all add: other_tasks_def)

lemma other_tasks_keep [simp]:
  "ad_group (other_tasks is a) = ad_group a" "ad_hook (other_tasks is a) = ad_hook a"
  "ad_client_open (other_tasks is a) = ad_client_open a" "ad_stream (other_tasks is a) = ad_stream a"
  "ad_reconcile (other_tasks is a) = ad_reconcile a" "ad_name (other_tasks is a) = ad_name a"
  by (induction "is" arbitrary: a; simp)+

text \<open>What a plan leaves in the fields only the plan writes does not depend on the turns.\<close>

definition holdings where
  "holdings a = (ad_client_open a, ad_stream a, ad_hook a, ad_group a, ad_reconcile a)"

lemma holdings_others [simp]: "holdings (other_tasks is a) = holdings a"
  by (simp add: holdings_def)

lemma holdings_perform: "holdings a = holdings b \<Longrightarrow> holdings (perform s a) = holdings (perform s b)"
  by (cases s) (simp_all add: holdings_def move_central_def)

lemma holdings_plan: "holdings a = holdings b \<Longrightarrow> holdings (fold perform ss a) = holdings (fold perform ss b)"
proof (induction ss arbitrary: a b)
  case (Cons s ss)
  show ?case using Cons.IH [OF holdings_perform [OF Cons.prems]] by simp
qed simp

lemma onward_simps [simp]:
  "onward (Returns, a) f = f a" "onward (Raises, a) f = (Raises, a)" "onward (Cancels, a) f = (Cancels, a)"
  by (simp_all add: onward_def)

lemma run_plan_cases:
  obtains (moves) k' b where "run_plan t k (s # ss) a = run_plan t k' ss b" "holdings b = holdings (perform s a)"
      "\<And>us. run_plan t k ((s # ss) @ us) a = run_plan t k' (ss @ us) b"
    | (ends) e b where "run_plan t k (s # ss) a = (e, b)" "e \<noteq> Returns" "holdings b = holdings (perform s a)"
      "\<And>us. run_plan t k ((s # ss) @ us) a = (e, b)" "e = Cancels \<or> e = Raises \<and> \<not> absorbs s"
proof (cases "awaits s")
  case False
  then show ?thesis by (intro moves [of k "perform s a"]) simp_all
next
  case True
  show ?thesis
  proof (cases "snd (t k) = Returns \<or> snd (t k) = Raises \<and> absorbs s")
    case True
    with \<open>awaits s\<close> show ?thesis
      by (intro moves [of "Suc k" "other_tasks (fst (t k)) (perform s a)"]) (auto simp: Let_def)
  next
    case False
    with \<open>awaits s\<close> show ?thesis
      by (intro ends [of "snd (t k)" "other_tasks (fst (t k)) (perform s a)"]; cases "snd (t k)") (simp_all add: Let_def)
  qed
qed

lemma plan_holdings:
  "fst (run_plan t k ss a) = Returns \<Longrightarrow> holdings (snd (run_plan t k ss a)) = holdings (fold perform ss a)"
proof (induction ss arbitrary: k a)
  case (Cons s ss)
  show ?case
  proof (cases rule: run_plan_cases [of t k s ss a])
    case (moves k' b)
    then show ?thesis using Cons holdings_plan [of b "perform s a" ss] by simp
  qed (use Cons.prems in simp)
qed simp

lemma plan_append:
  "run_plan t k (ss @ us) a = onward (run_plan t k ss a) (\<lambda>b. run_plan t (k + length (filter awaits ss)) us b)"
proof (induction ss arbitrary: k a)
  case (Cons s ss)
  show ?case
    using Cons.IH by (cases "awaits s"; cases "snd (t k)") (simp_all add: Let_def)
qed simp

section \<open>A start that returns\<close>

definition all_subs :: "adapter_sub list" where
  "all_subs = [RefreshBridge, HubPushRouting, PanelChangedSub, LatchReadinessSub, LatchTriggeredSub, LatchPanelSub,
     ConnectionSub, AuthFailedSub, FeaturesChangedSub, InboxChangedSub, DeviceCreatedSub, DeviceRemovedSub]"

lemma start_plan_split:
  "\<exists>ss. start_plan = ss @ [SetRunning] \<and> SetRunning \<notin> set ss"
  by (intro exI [of _ "butlast start_plan"]) (simp add: start_plan_def bootstrap_model_def layered_model_def latch_subs_def)

lemma start_ends: "fst (adapter_start t u a) = Returns \<longleftrightarrow> fst (run_plan t 0 start_plan a) = Returns"
  by (cases "run_plan t 0 start_plan a"; cases "fst (run_plan t 0 start_plan a)")
    (simp_all add: adapter_start_def onward_def split: prod.split ending.split)

lemma start_returns: "fst (run_plan t 0 start_plan a) = Returns \<Longrightarrow> adapter_start t u a = run_plan t 0 start_plan a"
  by (cases "run_plan t 0 start_plan a") (simp add: adapter_start_def)

text \<open>Fact: whatever the other tasks do during it, a start that returns leaves a running central with an open client, an event
  stream, the hook for re-bootstraps, the reconcile loop, and every handler of the layer subscribed
  once, in one order: the refresh bridge before the hub, both before the adapter's own.\<close>

theorem started_complete:
  assumes "fst (adapter_start t u a) = Returns"
  shows "let b = snd (adapter_start t u a) in
    ct_state (ad_central b) = RunningState \<and> ad_client_open b \<and> ad_stream b \<and> ad_hook b
    \<and> ad_group b = Some all_subs \<and> ad_reconcile b = Some TaskRuns"
proof -
  from assms have ret: "fst (run_plan t 0 start_plan a) = Returns" by (simp add: start_ends)
  obtain ss where ss: "start_plan = ss @ [SetRunning]" using start_plan_split by blast
  from ret obtain c where "run_plan t 0 ss a = (Returns, c)"
    unfolding ss plan_append by (cases "run_plan t 0 ss a"; cases "fst (run_plan t 0 ss a)") auto
  then have "snd (run_plan t 0 start_plan a) = move_central StartDone c" unfolding ss plan_append by simp
  moreover have "holdings (snd (run_plan t 0 start_plan a)) = (True, True, True, Some all_subs, Some TaskRuns)"
    unfolding plan_holdings [OF ret]
    by (simp add: start_plan_def bootstrap_model_def layered_model_def latch_subs_def all_subs_def holdings_def move_central_def)
  ultimately show ?thesis
    using start_returns [OF ret] by (simp add: holdings_def Let_def move_central_def start_done_def)
qed

section \<open>A start that fails\<close>

text \<open>Inputs that start no task and crash none, and the handles such inputs can only take down.\<close>

fun starts_nothing :: "adapter_input \<Rightarrow> bool" where
  "starts_nothing (LatchPush x) = False"
| "starts_nothing (FeaturesPush n) = False"
| "starts_nothing (MotionEnds crashed) = (\<not> crashed)"
| "starts_nothing HeldDeclined = False"
| "starts_nothing HeldSyncBegins = False"
| "starts_nothing LooperTask = False"
| "starts_nothing _ = True"

definition winds_down :: "task_state option \<Rightarrow> task_state option \<Rightarrow> bool" where
  "winds_down t u \<longleftrightarrow> t = u \<or> t = Some TaskRuns \<and> u = Some TaskOver"

definition quieter :: "adapter \<Rightarrow> adapter \<Rightarrow> bool" where
  "quieter a b \<longleftrightarrow> winds_down (ad_motion a) (ad_motion b) \<and> winds_down (ad_features a) (ad_features b)
     \<and> winds_down (ad_reconcile a) (ad_reconcile b) \<and> winds_down (ad_held a) (ad_held b)
     \<and> ad_looper b \<le> ad_looper a \<and> ad_stray b \<le> ad_stray a"

lemma winds_down_refl [simp]: "winds_down t t" by (simp add: winds_down_def)

lemma winds_down_trans: "winds_down t u \<Longrightarrow> winds_down u v \<Longrightarrow> winds_down t v"
  by (auto simp: winds_down_def)

lemma quieter_refl [simp]: "quieter a a" by (simp add: quieter_def winds_down_def)

lemma quieter_trans: "quieter a b \<Longrightarrow> quieter b c \<Longrightarrow> quieter a c"
  by (simp add: quieter_def) (blast intro: winds_down_trans order_trans)

lemma quieter_step: "starts_nothing i \<Longrightarrow> quieter a (adapter_step i a)"
  by (cases i) (auto simp: quieter_def winds_down_def move_central_def)

lemma quieter_others: "list_all starts_nothing is \<Longrightarrow> quieter a (other_tasks is a)"
proof (induction "is" arbitrary: a)
  case (Cons i "is")
  then show ?case using quieter_step [of i a] quieter_trans by auto
qed simp

text \<open>No task crashes before the end of the plan unless an input says so.\<close>

definition uncrashed :: "adapter \<Rightarrow> bool" where
  "uncrashed a \<longleftrightarrow> ad_reconcile a \<noteq> Some TaskCrashed \<and> ad_motion a \<noteq> Some TaskCrashed
     \<and> ad_features a \<noteq> Some TaskCrashed \<and> ad_held a \<noteq> Some TaskCrashed"

lemma uncrashed_others:
  "uncrashed a \<Longrightarrow> MotionEnds True \<notin> set is \<Longrightarrow> uncrashed (other_tasks is a)"
proof (induction "is" arbitrary: a)
  case (Cons i "is")
  have "uncrashed (adapter_step i a)"
    using Cons.prems
    by (cases i) (auto simp: uncrashed_def move_central_def on_possible_latch_change_def on_central_features_changed_def)
  with Cons show ?case by simp
qed simp

lemma uncrashed_perform: "uncrashed a \<Longrightarrow> uncrashed (perform s a)"
  by (cases s) (simp_all add: uncrashed_def move_central_def)

lemma uncrashed_plan:
  "uncrashed a \<Longrightarrow> \<forall>j. MotionEnds True \<notin> set (fst (t j)) \<Longrightarrow> uncrashed (snd (run_plan t k ss a))"
proof (induction ss arbitrary: k a)
  case (Cons s ss)
  then have "uncrashed (other_tasks (fst (t k)) (perform s a))" "uncrashed (perform s a)"
    by (simp_all add: uncrashed_others uncrashed_perform)
  with Cons show ?case by (cases "snd (t k)") (simp_all add: Let_def)
qed simp

text \<open>An adapter that holds nothing: no open client, no handler, no task behind a handle, and stopped.\<close>

definition holds_nothing :: "adapter \<Rightarrow> bool" where
  "holds_nothing a \<longleftrightarrow> \<not> ad_client_open a \<and> \<not> ad_stream a \<and> \<not> ad_hook a \<and> ad_group a = None \<and> ad_reconcile a = None
     \<and> ad_motion a = None \<and> ad_features a = None \<and> ad_held a = None \<and> ad_looper a = 0
     \<and> ct_state (ad_central a) = StoppedState \<and> ct_task (ad_central a) = NoTask"

definition quiet_turns :: "stop_turns \<Rightarrow> bool" where
  "quiet_turns u \<longleftrightarrow> close_ends u = Returns \<and> list_all starts_nothing (at_reconcile u) \<and> list_all starts_nothing (at_motion u)
     \<and> list_all starts_nothing (at_features u) \<and> list_all starts_nothing (at_held u) \<and> list_all starts_nothing (at_close u)"

text \<open>What \<open>reap\<close> needs of a handle and how it is written, and what it then guarantees.\<close>

locale task_handle =
  fixes handle :: "adapter \<Rightarrow> task_state option"
    and put :: "task_state option \<Rightarrow> adapter \<Rightarrow> adapter"
  assumes get_put: "handle (put t a) = t"
    and absent: "handle a = None \<Longrightarrow> put None a = a"
    and watched: "quieter a b \<Longrightarrow> winds_down (handle a) (handle b)"
    and cleared: "quieter (put (Some TaskOver) a) b \<Longrightarrow> quieter (put None a) (put None b)"
    and sound: "uncrashed a \<Longrightarrow> handle a \<noteq> Some TaskCrashed \<and> uncrashed (put None a) \<and> uncrashed (put (Some TaskOver) a)"
    and stray_sound: "uncrashed (a\<lparr>ad_stray := n\<rparr>) = uncrashed a"
begin

text \<open>Whatever starts meanwhile, an uncrashed task is reaped.\<close>

lemma reap_uncrashed:
  assumes "uncrashed a" and "MotionEnds True \<notin> set is"
  shows "\<exists>b. reap handle put is a = (Returns, b) \<and> uncrashed b"
proof (cases "handle a")
  case (Some t)
  have over: "uncrashed (other_tasks is (put (Some TaskOver) a))"
    by (intro uncrashed_others) (use assms sound in auto)
  then have "uncrashed (put None ((other_tasks is (put (Some TaskOver) a))\<lparr>ad_stray := n\<rparr>))" for n
    using sound stray_sound by blast
  with over show ?thesis
    using Some sound [OF assms(1)] sound [OF over] by (cases t) (auto simp: reap_def Let_def)
qed (use assms(1) in \<open>simp add: reap_def\<close>)

lemma reap_returns:
  assumes "handle a \<noteq> Some TaskCrashed" and "list_all starts_nothing is"
  shows "\<exists>b. reap handle put is a = (Returns, b) \<and> quieter (put None a) b \<and> handle b = None"
proof (cases "handle a = Some TaskRuns")
  case True
  let ?b = "other_tasks is (put (Some TaskOver) a)"
  have q: "quieter (put (Some TaskOver) a) ?b" by (rule quieter_others [OF assms(2)])
  then have "handle ?b = Some TaskOver" using watched [OF q] by (simp add: get_put winds_down_def)
  with True cleared [OF q] show ?thesis by (simp add: reap_def Let_def get_put)
next
  case False
  with assms(1) show ?thesis
    by (cases "handle a"; cases "the (handle a)") (simp_all add: reap_def absent get_put)
qed

lemma crashed_raises: "handle a = Some TaskCrashed \<Longrightarrow> reap handle put is a = (Raises, a)"
  by (simp add: reap_def)

end

interpretation reconcile_handle: task_handle ad_reconcile put_reconcile
  by unfold_locales (auto simp: put_reconcile_def quieter_def winds_down_def uncrashed_def)

interpretation motion_handle: task_handle ad_motion put_motion
  by unfold_locales (auto simp: put_motion_def quieter_def winds_down_def uncrashed_def)

interpretation features_handle: task_handle ad_features put_features
  by unfold_locales (auto simp: put_features_def quieter_def winds_down_def uncrashed_def)

lemmas put_defs = put_reconcile_def put_motion_def put_features_def

lemma held_aclose_returns:
  assumes "ad_held a \<noteq> Some TaskCrashed" and "list_all starts_nothing is"
  shows "\<exists>b. held_aclose is a = (Returns, b) \<and> quieter (a\<lparr>ad_held := None\<rparr>) b \<and> ad_group b = ad_group a \<and> ad_hook b = ad_hook a"
  using assms quieter_others [OF assms(2), of "a\<lparr>ad_held := None\<rparr>"]
  by (cases "ad_held a"; cases "the (ad_held a)") (auto simp: held_aclose_def quieter_def winds_down_def)

lemma stop_leaves_nothing:
  assumes "uncrashed a" and u: "quiet_turns u"
  shows "\<exists>b. adapter_stop u a = (Returns, b) \<and> holds_nothing b \<and> ad_stray b \<le> ad_stray a"
proof -
  note u = u [unfolded quiet_turns_def]
  from assms(1) have crash: "ad_reconcile a \<noteq> Some TaskCrashed" "ad_motion a \<noteq> Some TaskCrashed"
    "ad_features a \<noteq> Some TaskCrashed" "ad_held a \<noteq> Some TaskCrashed" by (simp_all add: uncrashed_def)
  obtain b where b: "reap ad_reconcile put_reconcile (at_reconcile u) a = (Returns, b)"
    "quieter (put_reconcile None a) b" using reconcile_handle.reap_returns crash u by blast
  then have "ad_motion b \<noteq> Some TaskCrashed" using crash by (auto simp: put_defs quieter_def winds_down_def)
  then obtain c where c: "reap ad_motion put_motion (at_motion u) b = (Returns, c)" "quieter (put_motion None b) c"
    using motion_handle.reap_returns u by blast
  then have "ad_features c \<noteq> Some TaskCrashed" using b crash by (auto simp: put_defs quieter_def winds_down_def)
  then obtain d where d: "reap ad_features put_features (at_features u) c = (Returns, d)" "quieter (put_features None c) d"
    using features_handle.reap_returns u by blast
  then have "ad_held (release_bridge d) \<noteq> Some TaskCrashed"
    using b c crash by (auto simp: put_defs release_bridge_def quieter_def winds_down_def)
  then obtain e where e: "held_aclose (at_held u) (release_bridge d) = (Returns, e)"
    "quieter ((release_bridge d)\<lparr>ad_held := None\<rparr>) e" "ad_group e = None" "ad_hook e = False"
    using held_aclose_returns [of "release_bridge d" "at_held u"] u by (auto simp: release_bridge_def)
  have f: "quieter e (other_tasks (at_close u) e)" using quieter_others u by blast
  let ?z = "move_central StopNow ((other_tasks (at_close u) e)\<lparr>ad_client_open := False, ad_stream := False\<rparr>)"
  have "adapter_stop u a = (Returns, ?z)" using b c d e u by (simp add: adapter_stop_def client_close_def Let_def)
  moreover have "holds_nothing ?z \<and> ad_stray ?z \<le> ad_stray a"
    using b c d e f
    by (auto simp: holds_nothing_def move_central_def stop_central_def quieter_def winds_down_def put_defs release_bridge_def)
  ultimately show ?thesis by blast
qed

text \<open>A stop of an adapter without a crashed task closes it, whatever starts while it waits.\<close>

definition crash_free :: "stop_turns \<Rightarrow> bool" where
  "crash_free u \<longleftrightarrow> MotionEnds True \<notin> set (at_reconcile u @ at_motion u @ at_features u @ at_held u @ at_close u)"

lemma reap_reconcile: "reap ad_reconcile put_reconcile is a = (Returns, b) \<Longrightarrow> ad_reconcile b = None"
  by (auto simp: reap_def put_reconcile_def Let_def split: option.splits task_state.splits if_splits)

lemma reap_keeps_reconcile:
  "reap ad_motion put_motion is a = (Returns, b) \<Longrightarrow> ad_reconcile b = ad_reconcile a"
  "reap ad_features put_features is a = (Returns, b) \<Longrightarrow> ad_reconcile b = ad_reconcile a"
  by (auto simp: reap_def put_motion_def put_features_def Let_def split: option.splits task_state.splits if_splits)

lemma held_aclose_uncrashed:
  assumes "uncrashed a"
  shows "\<exists>b. held_aclose is a = (Returns, b) \<and> holdings b = holdings a"
proof (cases "ad_held a")
  case (Some t)
  then show ?thesis using assms by (cases t) (simp_all add: held_aclose_def uncrashed_def, simp_all add: holdings_def)
qed (simp add: held_aclose_def)

lemma stop_closes:
  assumes "uncrashed a" and "crash_free u" and "close_ends u = Returns"
  shows "\<exists>b. adapter_stop u a = (Returns, b) \<and> \<not> ad_client_open b \<and> \<not> ad_stream b \<and> \<not> ad_hook b \<and> ad_group b = None
    \<and> ad_reconcile b = None \<and> ct_state (ad_central b) = StoppedState \<and> ct_task (ad_central b) = NoTask"
proof -
  note u = assms(2) [unfolded crash_free_def, simplified]
  obtain b where b: "reap ad_reconcile put_reconcile (at_reconcile u) a = (Returns, b)" "uncrashed b"
    using reconcile_handle.reap_uncrashed assms(1) u by blast
  obtain c where c: "reap ad_motion put_motion (at_motion u) b = (Returns, c)" "uncrashed c"
    using motion_handle.reap_uncrashed b(2) u by blast
  obtain d where d: "reap ad_features put_features (at_features u) c = (Returns, d)" "uncrashed d"
    using features_handle.reap_uncrashed c(2) u by blast
  have "uncrashed (release_bridge d)" using d(2) by (simp add: uncrashed_def release_bridge_def)
  then obtain e where e: "held_aclose (at_held u) (release_bridge d) = (Returns, e)" "holdings e = holdings (release_bridge d)"
    using held_aclose_uncrashed by blast
  have "ad_reconcile d = None"
    using reap_reconcile [OF b(1)] reap_keeps_reconcile(1) [OF c(1)] reap_keeps_reconcile(2) [OF d(1)] by simp
  with e(2) have left: "ad_group e = None" "\<not> ad_hook e" "ad_reconcile e = None" by (simp_all add: holdings_def release_bridge_def)
  let ?z = "move_central StopNow ((other_tasks (at_close u) e)\<lparr>ad_client_open := False, ad_stream := False\<rparr>)"
  have "adapter_stop u a = (Returns, ?z)" using b c d e assms(3) by (simp add: adapter_stop_def client_close_def Let_def)
  with left show ?thesis by (simp add: move_central_def stop_central_def)
qed

text \<open>C37: a start that fails is undone. Whichever step raises, whatever the other tasks did by then and whatever
  they do while \<open>start\<close> cleans up, the error comes out of it, and then the client and the event
  stream are closed, every handler and the hook are gone, the reconcile loop and the report of an
  outage are ended and the central is stopped, provided that closing the client succeeds and no
  latched-detector read ends with an unexpected exception: such a read stops the clean-up. If
  moreover nothing new is started during the clean-up, no task is left behind any handle, and no
  running task has lost its handle to it.\<close>

theorem failed_start_leaves_nothing:
  assumes "fst (run_plan t 0 start_plan a) = Raises" and "uncrashed a" and "\<forall>k. MotionEnds True \<notin> set (fst (t k))"
    and "crash_free u" and "close_ends u = Returns"
  shows "let b = snd (adapter_start t u a) in
    fst (adapter_start t u a) = Raises \<and> \<not> ad_client_open b \<and> \<not> ad_stream b \<and> \<not> ad_hook b \<and> ad_group b = None
    \<and> ad_reconcile b = None \<and> ct_state (ad_central b) = StoppedState \<and> ct_task (ad_central b) = NoTask
    \<and> (quiet_turns u \<longrightarrow> ad_motion b = None \<and> ad_features b = None \<and> ad_held b = None \<and> ad_looper b = 0
         \<and> ad_stray b \<le> ad_stray (snd (run_plan t 0 start_plan a)))"
proof -
  obtain b where b: "run_plan t 0 start_plan a = (Raises, b)"
    using assms(1) by (cases "run_plan t 0 start_plan a") auto
  then have unc: "uncrashed b" using uncrashed_plan [OF assms(2,3), of 0 start_plan] by simp
  from stop_closes [OF this assms(4,5)] obtain c where c: "adapter_stop u b = (Returns, c)"
    "\<not> ad_client_open c \<and> \<not> ad_stream c \<and> \<not> ad_hook c \<and> ad_group c = None
     \<and> ad_reconcile c = None \<and> ct_state (ad_central c) = StoppedState \<and> ct_task (ad_central c) = NoTask" by blast
  have start: "adapter_start t u a = (Raises, c)" using b c(1) by (simp add: adapter_start_def)
  have "ad_motion c = None \<and> ad_features c = None \<and> ad_held c = None \<and> ad_looper c = 0 \<and> ad_stray c \<le> ad_stray b"
    if "quiet_turns u"
    using stop_leaves_nothing [OF unc that] c(1) by (auto simp: holds_nothing_def)
  with b c(2) start show ?thesis by simp
qed

definition raises_at :: "nat \<Rightarrow> turns" where
  "raises_at n k = ([TimePasses 5], if k = n then Raises else Returns)"

definition demo_turns :: stop_turns where
  "demo_turns = \<lparr>at_reconcile = [], at_motion = [], at_features = [], at_held = [TimePasses 1], at_close = [], close_ends = Returns\<rparr>"

lemmas plan_defs = start_plan_def bootstrap_model_def layered_model_def latch_subs_def

theorem failed_start_leaves_nothing_witness:
  "fst (adapter_start (raises_at 11) demo_turns (new_adapter ''ccu'' (empty_store None 10))) = Raises
    \<and> holds_nothing (snd (adapter_start (raises_at 11) demo_turns (new_adapter ''ccu'' (empty_store None 10))))"
proof -
  have "fst (run_plan (raises_at 11) 0 start_plan a) = Raises" for a
    by (simp add: plan_defs raises_at_def absorbs_def Let_def)
  moreover have "uncrashed (new_adapter ''ccu'' (empty_store None 10))" "quiet_turns demo_turns"
    "\<forall>k. MotionEnds True \<notin> set (fst (raises_at 11 k))"
    by (simp_all add: uncrashed_def new_adapter_def quiet_turns_def demo_turns_def raises_at_def)
  moreover have "crash_free demo_turns" "close_ends demo_turns = Returns" by (simp_all add: crash_free_def demo_turns_def)
  ultimately show ?thesis
    using failed_start_leaves_nothing [of "raises_at 11" "new_adapter ''ccu'' (empty_store None 10)" demo_turns]
    by (simp add: holds_nothing_def Let_def)
qed

lemma plan_keeps_open: "ad_client_open a \<Longrightarrow> ad_client_open (snd (run_plan t k ss a))"
proof (induction ss arbitrary: k a)
  case (Cons s ss)
  then have "ad_client_open (perform s a)" by (cases s) (simp_all add: move_central_def)
  with Cons.IH show ?case by (cases "awaits s"; cases "snd (t k)") (simp_all add: Let_def)
qed simp

text \<open>Fact: a start that is cancelled is not cleaned up: \<open>CancelledError\<close> is no \<open>Exception\<close>, so nothing is stopped and the client
  stays open, with the stream, the hook and the handlers of the steps done by then.\<close>

theorem cancelled_start_keeps_client:
  assumes "fst (run_plan t 0 start_plan a) = Cancels"
  shows "adapter_start t u a = run_plan t 0 start_plan a \<and> ad_client_open (snd (adapter_start t u a))"
proof -
  obtain b where b: "run_plan t 0 start_plan a = (Cancels, b)"
    using assms by (cases "run_plan t 0 start_plan a") auto
  obtain ss where ss: "start_plan = AwaitConnect # ss" by (simp add: start_plan_def)
  have "ad_client_open (snd (run_plan t 0 start_plan a))"
    unfolding ss using plan_keeps_open [of "other_tasks (fst (t 0)) (perform AwaitConnect a)"]
    by (cases "snd (t 0)") (simp_all add: Let_def)
  with b show ?thesis by (simp add: adapter_start_def)
qed

theorem cancelled_announcement_keeps_stream:
  "case adapter_start (\<lambda>k. ([], if k = 12 then Cancels else Returns)) u a of
     (e, b) \<Rightarrow> e = Cancels \<and> ad_client_open b \<and> ad_stream b \<and> ad_hook b \<and> ad_group b = Some (take 9 all_subs)"
  by (simp add: adapter_start_def plan_defs all_subs_def Let_def move_central_def)

section \<open>A stop that cannot end, and a stop that leaves a task\<close>

lemma stop_raises_again:
  assumes "ad_motion a = Some TaskCrashed" and "ad_reconcile a \<noteq> Some TaskCrashed" and "list_all starts_nothing (at_reconcile u)"
  shows "\<exists>b. adapter_stop u a = (Raises, b) \<and> ad_motion b = Some TaskCrashed \<and> ad_reconcile b = None
    \<and> ad_client_open b = ad_client_open a \<and> ad_group b = ad_group a \<and> ad_hook b = ad_hook a"
proof -
  obtain b where b: "reap ad_reconcile put_reconcile (at_reconcile u) a = (Returns, b)"
      "quieter (put_reconcile None a) b" "ad_reconcile b = None"
    using reconcile_handle.reap_returns assms(2,3) by blast
  then have m: "ad_motion b = Some TaskCrashed" using assms(1) by (auto simp: put_defs quieter_def winds_down_def)
  have "ad_client_open b = ad_client_open a \<and> ad_group b = ad_group a \<and> ad_hook b = ad_hook a"
    using b(1) by (auto simp: reap_def put_defs Let_def split: option.splits task_state.splits if_splits)
  with b m show ?thesis by (simp add: adapter_stop_def motion_handle.crashed_raises)
qed

text \<open>Fact: once the latched-detector read has ended with an exception, the adapter cannot be stopped: every attempt awaits the dead
  task, raises its exception, and leaves the client open and every handler in place. The read only
  catches the client's own errors, so a reply that does not validate is enough.\<close>

theorem crashed_read_blocks_stop:
  assumes "ad_motion a = Some TaskCrashed" and "ad_reconcile a \<noteq> Some TaskCrashed"
    and "\<forall>v\<in>set (u # us). list_all starts_nothing (at_reconcile v)"
  shows "let b = fold (\<lambda>v b. snd (adapter_stop v b)) us a in
    fst (adapter_stop u b) = Raises \<and> ad_client_open b = ad_client_open a \<and> ad_group b = ad_group a \<and> ad_hook b = ad_hook a"
  using assms
proof (induction us arbitrary: a)
  case Nil
  then show ?case using stop_raises_again [of a u] by auto
next
  case (Cons v us)
  obtain b where b: "adapter_stop v a = (Raises, b)" "ad_motion b = Some TaskCrashed" "ad_reconcile b = None"
      "ad_client_open b = ad_client_open a" "ad_group b = ad_group a" "ad_hook b = ad_hook a"
    using stop_raises_again [of a v] Cons.prems by auto
  then show ?case using Cons.IH [of b] Cons.prems by (simp add: Let_def)
qed

theorem crashed_read_blocks_stop_witness:
  "let a = adapter_step (MotionEnds True) (adapter_step (LatchPush LatchPanelSub)
             (snd (adapter_start (\<lambda>k. ([], Returns)) demo_turns (new_adapter ''ccu'' (empty_store None 10)))));
       b = fold (\<lambda>v b. snd (adapter_stop v b)) [demo_turns] a in
     fst (adapter_stop demo_turns b) = Raises \<and> ad_client_open b \<and> ad_group b = Some all_subs"
proof -
  let ?a = "adapter_step (MotionEnds True) (adapter_step (LatchPush LatchPanelSub)
             (snd (adapter_start (\<lambda>k. ([], Returns)) demo_turns (new_adapter ''ccu'' (empty_store None 10)))))"
  have "ad_motion ?a = Some TaskCrashed" "ad_reconcile ?a \<noteq> Some TaskCrashed" "ad_client_open ?a" "ad_group ?a = Some all_subs"
    by (simp_all add: adapter_start_def plan_defs all_subs_def hears_def on_possible_latch_change_def move_central_def
        new_adapter_def Let_def)
  then show ?thesis
    using crashed_read_blocks_stop [of ?a demo_turns "[demo_turns]"] by (simp add: demo_turns_def Let_def)
qed

text \<open>Fact: a latch event that arrives while a stop waits for the feature re-read starts a task that outlives the stop: the
  handlers are only taken down after the tasks, and the motion task has had its turn.\<close>

theorem latch_read_outlives_stop:
  assumes "ad_reconcile a = None" "ad_motion a = None" "ad_features a = Some TaskRuns" "ad_held a = None"
    and "x \<in> set latch_subs" "hears x a"
  shows "case adapter_stop (demo_turns\<lparr>at_features := [LatchPush x]\<rparr>) a of
     (e, b) \<Rightarrow> e = Returns \<and> \<not> ad_client_open b \<and> ct_state (ad_central b) = StoppedState \<and> ad_motion b = Some TaskRuns"
  using assms
  by (simp add: adapter_stop_def reap_def held_aclose_def client_close_def demo_turns_def put_defs hears_def
      on_possible_latch_change_def move_central_def stop_central_def release_bridge_def Let_def)

text \<open>Fact: the rebuild after a re-bootstrap raises nothing into the client's task, and does nothing once the central has
  stopped.\<close>

theorem rebuild_never_raises:
  "case on_store_rebootstrapped t a of (e, b) \<Rightarrow> e \<noteq> Raises \<and> holdings b = holdings a
     \<and> (if terminal (ct_state (ad_central a)) then b = a else True)"
proof -
  have "holdings (snd (run_plan t k ss a)) = holdings a" if "set ss \<subseteq> set rebuild_plan" for k ss a
    using that
  proof (induction ss arbitrary: k a)
    case (Cons s ss)
    then have "perform s a = a" for a by (auto simp: rebuild_plan_def layered_model_def)
    with Cons show ?case by (cases "awaits s"; cases "snd (t k)") (simp_all add: Let_def)
  qed simp
  from this [of rebuild_plan 0 a] show ?thesis
    by (auto simp: on_store_rebootstrapped_def split: prod.split ending.split)
qed

end
