(* ===== verification/Announce.thy ===== *)
theory Announce
  imports CustomOps WeekProfile EventGroups
begin

text \<open>
  What the compatibility layer builds on the store and announces to Home Assistant
  (compat/aiohomematic/central/adapter.py, compat/aiohomematic/model/combined.py and update.py): the data points
  that have no summary in the store (week profiles, their per-channel switches, the combined
  duration of a siren), the firmware-update entities, the batch announcement with its gates, and
  the panels that appear later. The daemon's answers to the reads of one pass are functions of the
  device and the channel. An object is seen here the way the announcement sees it, by its key,
  category, usage verdict and whether an entity claimed it.
\<close>

section \<open>The combined duration\<close>

definition duration_factors :: "(json, int) dict" where
  "duration_factors = [(JInt 0, 1), (JInt 1, 60), (JInt 2, 3600), (JStr ''S'', 1), (JStr ''M'', 60), (JStr ''H'', 3600),
     (JStr ''SECONDS'', 1), (JStr ''MINUTES'', 60), (JStr ''HOURS'', 3600)]"

text \<open>
  \<open>dict.get\<close> finds a number by its value, whatever its type (\<open>1.0\<close> and \<open>True\<close> are the key 1); a list or a
  dictionary cannot be a key and raises.
\<close>

definition duration_factor :: "json \<Rightarrow> int option" where
  "duration_factor unit =
     (case unit of
        JArr xs \<Rightarrow> None
      | JObj d \<Rightarrow> None
      | _ \<Rightarrow> Some (case as_float unit of
            Some r \<Rightarrow> (if r = 0 then 1 else if r = 1 then 60 else if r = 2 then 3600 else 1)
          | None \<Rightarrow> (case dict_get duration_factors unit of Some f \<Rightarrow> f | None \<Rightarrow> 1)))"

definition source_dp :: "store \<Rightarrow> string \<Rightarrow> int \<Rightarrow> string \<Rightarrow> dp_obj option" where
  "source_dp s addr n p = map_option (dp_at s) (get_data_point addr n p s)"

datatype duration_read = NoDuration | Duration rat | DurationRaises

text \<open>
  The raw value is the data point's own; the unit is the wire value of the summary. \<open>float\<close> of a text that is
  not a number raises, which \<open>to_float\<close> stands for.
\<close>

definition combined_value :: "(json \<Rightarrow> rat option) \<Rightarrow> store \<Rightarrow> string \<Rightarrow> int \<Rightarrow> duration_read" where
  "combined_value to_float s addr n =
     (case source_dp s addr n ''DURATION_VALUE'' of
        None \<Rightarrow> NoDuration
      | Some d \<Rightarrow>
          (case entity_value d of
             JNull \<Rightarrow> NoDuration
           | raw \<Rightarrow>
               (case (to_float raw, (case source_dp s addr n ''DURATION_UNIT'' of
                    None \<Rightarrow> Some 1 | Some u \<Rightarrow> duration_factor (dp_value (do_summary u)))) of
                  (Some r, Some f) \<Rightarrow> Duration (r * of_int f)
                | _ \<Rightarrow> DurationRaises)))"

definition combined_is_valid :: "(json \<Rightarrow> rat option) \<Rightarrow> store \<Rightarrow> string \<Rightarrow> int \<Rightarrow> bool option" where
  "combined_is_valid to_float s addr n =
     (case combined_value to_float s addr n of NoDuration \<Rightarrow> Some False | Duration r \<Rightarrow> Some True | DurationRaises \<Rightarrow> None)"

definition channel_has_duration_pair :: "store \<Rightarrow> string \<Rightarrow> int \<Rightarrow> bool" where
  "channel_has_duration_pair s addr n \<longleftrightarrow>
     list_all (\<lambda>p. get_data_point addr n p s \<noteq> None) [''DURATION_VALUE'', ''DURATION_UNIT'']"

text \<open>The unit first, then the whole seconds: \<open>int\<close> cuts towards zero.\<close>

definition whole :: "rat \<Rightarrow> int" where
  "whole r = (if r < 0 then \<lceil>r\<rceil> else \<lfloor>r\<rfloor>)"

definition combined_writes :: "string \<Rightarrow> int \<Rightarrow> rat \<Rightarrow> write_back list" where
  "combined_writes addr n v = [WriteValue addr n ''DURATION_UNIT'' (JInt 0) None,
     WriteValue addr n ''DURATION_VALUE'' (JInt (whole v)) None]"

definition combined_send :: "string \<Rightarrow> int \<Rightarrow> rat \<Rightarrow> unit co" where
  "combined_send addr n v = perform_calls (combined_writes addr n v)"

definition combined_load :: "string \<Rightarrow> int \<Rightarrow> unit co" where
  "combined_load addr n = each (\<lambda>p. refresh_data_point addr n p) [''DURATION_VALUE'', ''DURATION_UNIT'']"

section \<open>The firmware entity\<close>

definition firmware_text :: "device_obj \<Rightarrow> string \<Rightarrow> string option" where
  "firmware_text d k = (case dv_firmware d of
       Some (JObj f) \<Rightarrow> (case obj_get f k of JStr t \<Rightarrow> Some t | _ \<Rightarrow> None) | _ \<Rightarrow> None)"

definition device_firmware :: "device_obj \<Rightarrow> string" where
  "device_firmware d = (case firmware_text d ''Current'' of Some t \<Rightarrow> if t = [] then ''0.0'' else t | None \<Rightarrow> ''0.0'')"

definition device_update_status :: "device_obj \<Rightarrow> string option" where
  "device_update_status d = (case ds_rest (dv_summary d) of
       JObj r \<Rightarrow> (case obj_get r ''update_status'' of JStr t \<Rightarrow> Some t | _ \<Rightarrow> None) | _ \<Rightarrow> None)"

definition update_in_progress :: "device_obj \<Rightarrow> bool" where
  "update_in_progress d \<longleftrightarrow> device_update_status d = Some ''installing''"

definition update_latest_firmware :: "device_obj \<Rightarrow> string" where
  "update_latest_firmware d =
     (if device_update_status d = Some ''update_available''
      then (case firmware_text d ''Available'' of Some t \<Rightarrow> if t = [] then device_firmware d else t | None \<Rightarrow> device_firmware d)
      else device_firmware d)"

section \<open>Objects as the announcement sees them\<close>

record ha_object =
  ho_unique_id :: string
  ho_category :: "string option"
  ho_usage :: "string option"
  ho_registered :: bool

definition make_update_data_point :: "(string \<Rightarrow> string) \<Rightarrow> device_obj \<Rightarrow> ha_object" where
  "make_update_data_point canonical d = \<lparr>ho_unique_id = canonical (ds_address (dv_summary d)), ho_category = Some ''update'',
     ho_usage = None, ho_registered = False\<rparr>"

definition non_creatable_usages :: "string list" where
  "non_creatable_usages = [''no_create'', ''ignored'', ''event'']"

definition is_creatable :: "ha_object \<Rightarrow> bool" where
  "is_creatable x \<longleftrightarrow> (case ho_usage x of None \<Rightarrow> True | Some u \<Rightarrow> u \<notin> set non_creatable_usages)"

section \<open>The batch announcement\<close>

text \<open>
  The sources in the order the code chains them. \<open>known\<close> tells the categories of the installed aiohomematic;
  the hub data points and event groups come filtered by their coordinators.
\<close>

record ha_sources =
  hs_data_points :: "ha_object list"
  hs_customs :: "ha_object list"
  hs_extra :: "ha_object list"
  hs_hub :: "ha_object list"
  hs_devices :: "device_obj list"
  hs_event_groups :: "ha_object list"
  hs_panels :: "ha_object list"

type_synonym announcement = "(string, ha_object list) dict"

definition update_data_points :: "(string \<Rightarrow> string) \<Rightarrow> device_obj list \<Rightarrow> ha_object list" where
  "update_data_points canonical ds = map (make_update_data_point canonical) (filter (\<lambda>d. ds_updatable (dv_summary d)) ds)"

definition admitted :: "(string \<Rightarrow> bool) \<Rightarrow> ha_object \<Rightarrow> string option" where
  "admitted known x = (case ho_category x of
       None \<Rightarrow> None
     | Some c \<Rightarrow> if \<not> is_creatable x then None else if ho_registered x then None else if known c then Some c else None)"

definition append_to :: "string \<Rightarrow> ha_object \<Rightarrow> announcement \<Rightarrow> announcement" where
  "append_to c x g = dict_put c ((case dict_get g c of None \<Rightarrow> [] | Some xs \<Rightarrow> xs) @ [x]) g"

fun group_each :: "(string \<Rightarrow> bool) \<Rightarrow> (bool \<times> ha_object) list \<Rightarrow> announcement \<times> string list \<Rightarrow> announcement \<times> string list" where
  "group_each known [] acc = acc"
| "group_each known ((panel, x) # xs) (g, seen) = (case admitted known x of
       None \<Rightarrow> group_each known xs (g, seen)
     | Some c \<Rightarrow> group_each known xs
         (append_to c x g, if panel then List.insert (ho_unique_id x) seen else seen))"

definition announced_pool :: "(string \<Rightarrow> string) \<Rightarrow> ha_sources \<Rightarrow> (bool \<times> ha_object) list" where
  "announced_pool canonical hs = map (Pair False) (hs_data_points hs @ hs_customs hs @ hs_extra hs @ hs_hub hs
       @ update_data_points canonical (hs_devices hs) @ hs_event_groups hs) @ map (Pair True) (hs_panels hs)"

definition emit_data_points_created ::
  "(string \<Rightarrow> string) \<Rightarrow> (string \<Rightarrow> bool) \<Rightarrow> ha_sources \<Rightarrow> string list \<Rightarrow> announcement option \<times> string list" where
  "emit_data_points_created canonical known hs seen = (case group_each known (announced_pool canonical hs) ([], seen) of
       (g, seen') \<Rightarrow> (if g = [] then None else Some g, seen'))"

section \<open>Panels that appear later\<close>

text \<open>A panel event: the key, whether the panel is gone, and the panel the store has under it.\<close>

definition on_alarm_panel_changed ::
  "(string \<Rightarrow> bool) \<Rightarrow> string \<Rightarrow> bool \<Rightarrow> ha_object option \<Rightarrow> string list \<Rightarrow> announcement option \<times> string list" where
  "on_alarm_panel_changed known uid removed panel seen =
     (if removed then (None, filter (\<lambda>u. u \<noteq> uid) seen)
      else if uid \<in> set seen then (None, seen)
      else case panel of
        None \<Rightarrow> (None, seen)
      | Some x \<Rightarrow> (case ho_category x of
            None \<Rightarrow> (None, seen)
          | Some c \<Rightarrow> if known c then (Some [(c, [x])], uid # seen) else (None, seen)))"

section \<open>The query facade's filter\<close>

definition category_for_type :: "string list \<Rightarrow> string option \<Rightarrow> string option" where
  "category_for_type loom_categories token =
     (case token of None \<Rightarrow> None | Some t \<Rightarrow> if t \<in> set loom_categories then Some t else None)"

definition facade_data_points ::
  "string list \<Rightarrow> string option \<Rightarrow> string option \<Rightarrow> bool \<Rightarrow> bool option \<Rightarrow> ha_sources \<Rightarrow> ha_object list" where
  "facade_data_points loom_categories data_point_type category exclude_no_create registered hs =
     (let target = (case category of Some c \<Rightarrow> Some c | None \<Rightarrow> category_for_type loom_categories data_point_type) in
      filter (\<lambda>x. (case target of None \<Rightarrow> True | Some c \<Rightarrow> ho_category x = Some c)
          \<and> (case registered of None \<Rightarrow> True | Some r \<Rightarrow> ho_registered x = r)
          \<and> (exclude_no_create \<longrightarrow> is_creatable x))
        (hs_data_points hs @ hs_customs hs @ hs_panels hs @ hs_extra hs))"

section \<open>Schedules and durations of the devices\<close>

datatype extra_kind = ProfileExtra oid | SwitchExtra oid string | DurationExtra string int "string option"

record extra_dp =
  xd_kind :: extra_kind
  xd_registered :: bool

record layer =
  ly_store :: store
  ly_profiles :: "week_profile heap"
  ly_extra :: "extra_dp list"
  ly_labels :: "(string \<times> int, string) dict"

record spawned =
  sp_kinds :: "bool list"
  sp_unique_ids :: "string list"

record daemon_reads =
  dr_profile :: "string \<Rightarrow> int \<Rightarrow> descriptor reply_of"
  dr_schedule :: "string \<Rightarrow> int \<Rightarrow> week_schedule reply_of"

definition add_extra :: "extra_kind \<Rightarrow> layer \<Rightarrow> layer" where
  "add_extra k l = l\<lparr>ly_extra := ly_extra l @ [\<lparr>xd_kind = k, xd_registered = False\<rparr>]\<rparr>"

definition cdp_at :: "store \<Rightarrow> oid \<Rightarrow> cdp_obj" where
  "cdp_at s i = reg_heap (st_cdps s) ! i"

definition cdp_text :: "cdp_obj \<Rightarrow> string \<Rightarrow> string option" where
  "cdp_text c k = (case summary_field (new_entity c) k of JStr t \<Rightarrow> Some t | _ \<Rightarrow> None)"

definition is_week_profile_channel :: "channel_obj \<Rightarrow> bool" where
  "is_week_profile_channel c \<longleftrightarrow> (case channel_field c ''type'' of JStr t \<Rightarrow> ends_with ''WEEK_PROFILE'' t | _ \<Rightarrow> False)"

text \<open>The channels probed, and whether their switches are wanted.\<close>

definition schedule_channels :: "store \<Rightarrow> string \<Rightarrow> (int \<times> bool) list" where
  "schedule_channels s addr =
     (let cdps = map (cdp_at s) (custom_data_points_of addr s);
          climate = find (\<lambda>c. cdp_text c ''category'' = Some ''climate'') cdps;
          own = map_option (\<lambda>i. cs_number (ch_summary (channel_at s i)))
            (find (\<lambda>i. is_week_profile_channel (channel_at s i)) (channels_of addr s))
      in if cdps = [] then []
         else (case own of None \<Rightarrow> [] | Some n \<Rightarrow> [(n, True)])
           @ (case climate of None \<Rightarrow> []
              | Some c \<Rightarrow> if Some (cd_channel_no (co_summary c)) = own then [] else [(cd_channel_no (co_summary c), False)]))"

definition spawn_schedule ::
  "daemon_reads \<Rightarrow> string \<Rightarrow> int \<times> bool \<Rightarrow> spawned \<times> layer \<Rightarrow> exc + spawned \<times> layer" where
  "spawn_schedule dr addr = (\<lambda>(n, with_switches) (sp, l).
     case dr_profile dr addr n of
       Fault e \<Rightarrow> if any_exception e then Inr (sp, l) else Inl e
     | Got d \<Rightarrow>
         (let climate = (de_schedule_type d = schedule_kind_climate) in
          if climate \<in> set (sp_kinds sp) \<or> de_unique_id d \<in> set (sp_unique_ids sp) then Inr (sp, l)
          else let sp' = \<lparr>sp_kinds = climate # sp_kinds sp, sp_unique_ids = de_unique_id d # sp_unique_ids sp\<rparr>;
                   w = new_week_profile addr n d;
                   add = (\<lambda>w'. let i = length (ly_profiles l);
                        l1 = add_extra (ProfileExtra i) (l\<lparr>ly_profiles := snd (alloc w' (ly_profiles l))\<rparr>);
                        l2 = l1\<lparr>ly_store := set_week_profile addr i climate (ly_store l1)\<rparr>
                      in if with_switches
                         then fold (\<lambda>k. add_extra (SwitchExtra i k))
                           (case de_schedule_enabled d of None \<Rightarrow> [] | Some es \<Rightarrow> dict_keys es) l2
                         else l2)
               in case dr_schedule dr addr n of
                    Got s \<Rightarrow> Inr (sp', add (update_from s w))
                  | Fault e \<Rightarrow> if any_exception e then Inr (sp', add w) else Inl e))"

fun spawn_each :: "daemon_reads \<Rightarrow> string \<Rightarrow> (int \<times> bool) list \<Rightarrow> spawned \<times> layer \<Rightarrow> exc + spawned \<times> layer" where
  "spawn_each dr addr [] acc = Inr acc"
| "spawn_each dr addr (c # cs) acc = (case spawn_schedule dr addr c acc of
       Inl e \<Rightarrow> Inl e | Inr acc' \<Rightarrow> spawn_each dr addr cs acc')"

definition device_addresses :: "store \<Rightarrow> string list" where
  "device_addresses s = map (\<lambda>i. ds_address (dv_summary (reg_heap (st_devices s) ! i))) (devices s)"

fun schedules_each :: "daemon_reads \<Rightarrow> string list \<Rightarrow> layer \<Rightarrow> exc + layer" where
  "schedules_each dr [] l = Inr l"
| "schedules_each dr (a # as) l =
     (case spawn_each dr a (schedule_channels (ly_store l) a) (\<lparr>sp_kinds = [], sp_unique_ids = []\<rparr>, l) of
        Inl e \<Rightarrow> Inl e | Inr (sp, l') \<Rightarrow> schedules_each dr as l')"

definition bootstrap_schedules :: "daemon_reads \<Rightarrow> layer \<Rightarrow> exc + layer" where
  "bootstrap_schedules dr l = schedules_each dr (device_addresses (ly_store l)) l"

definition plain_siren :: "cdp_obj \<Rightarrow> bool" where
  "plain_siren c \<longleftrightarrow> resolve_custom_class (cdp_text c ''kind'') (cdp_text c ''category'') = Siren"

definition durations_of :: "store \<Rightarrow> (string \<times> int, string) dict \<Rightarrow> string \<Rightarrow> extra_kind list" where
  "durations_of s labels addr = List.map_filter
     (\<lambda>i. let c = cdp_at s i; n = cd_channel_no (co_summary c) in
        if plain_siren c \<and> channel_has_duration_pair s addr n then Some (DurationExtra addr n (dict_get labels (addr, n)))
        else None)
     (custom_data_points_of addr s)"

definition bootstrap_combined :: "layer \<Rightarrow> layer" where
  "bootstrap_combined l = fold add_extra
     (concat (map (durations_of (ly_store l) (ly_labels l)) (device_addresses (ly_store l)))) l"

definition rebuild_layer :: "daemon_reads \<Rightarrow> layer \<Rightarrow> exc + layer" where
  "rebuild_layer dr l = (case bootstrap_schedules dr l of Inl e \<Rightarrow> Inl e | Inr l' \<Rightarrow> Inr (bootstrap_combined l'))"

section \<open>What is announced\<close>

lemma dict_get_append_to: "dict_get (append_to c x g) c' = (if c' = c then Some ((case dict_get g c of None \<Rightarrow> [] | Some xs \<Rightarrow> xs) @ [x]) else dict_get g c')"
  by (simp add: append_to_def)

definition admitted_under :: "(string \<Rightarrow> bool) \<Rightarrow> string \<Rightarrow> (bool \<times> ha_object) list \<Rightarrow> ha_object list" where
  "admitted_under known c pool = filter (\<lambda>x. admitted known x = Some c) (map snd pool)"

lemma admitted_under_simps [simp]:
  "admitted_under known c [] = []"
  "admitted_under known c (e # pool) = (if admitted known (snd e) = Some c then [snd e] else []) @ admitted_under known c pool"
  "admitted_under known c (xs @ ys) = admitted_under known c xs @ admitted_under known c ys"
  by (simp_all add: admitted_under_def)

definition listed_under :: "announcement \<Rightarrow> string \<Rightarrow> ha_object list" where
  "listed_under g c = (case dict_get g c of None \<Rightarrow> [] | Some xs \<Rightarrow> xs)"

lemma group_each_lists:
  "listed_under (fst (group_each known pool (g, seen))) c = listed_under g c @ admitted_under known c pool"
proof (induction pool arbitrary: g seen)
  case (Cons e pool)
  obtain panel x where e: "e = (panel, x)" by (cases e)
  show ?case
  proof (cases "admitted known x")
    case (Some c')
    have "listed_under (append_to c' x g) c = listed_under g c @ (if c' = c then [x] else [])"
      by (simp add: listed_under_def dict_get_append_to)
    then show ?thesis using Cons.IH by (simp add: e Some)
  qed (use Cons.IH in \<open>simp add: e\<close>)
qed simp

lemma group_each_ok:
  "dict_ok g \<Longrightarrow> list_all (\<lambda>e. snd e \<noteq> []) g \<Longrightarrow>
     dict_ok (fst (group_each known pool (g, seen))) \<and> list_all (\<lambda>e. snd e \<noteq> []) (fst (group_each known pool (g, seen)))"
proof (induction pool arbitrary: g seen)
  case (Cons e pool)
  obtain panel x where e: "e = (panel, x)" by (cases e)
  have sub: "set (AList.update c' ys g) \<subseteq> insert (c', ys) (set g)" for c' ys
    by (induction g) auto
  have "dict_ok (append_to c' x g) \<and> list_all (\<lambda>e. snd e \<noteq> []) (append_to c' x g)" for c'
    using Cons.prems sub unfolding append_to_def list_all_iff by (auto dest!: subsetD [OF sub])
  then show ?case using Cons.prems Cons.IH by (simp add: e split: option.splits)
qed simp

lemma group_each_seen:
  "set (snd (group_each known pool (g, seen))) = set seen \<union> ho_unique_id ` {x. (True, x) \<in> set pool \<and> admitted known x \<noteq> None}"
proof (induction pool arbitrary: g seen)
  case (Cons e pool)
  obtain panel x where e: "e = (panel, x)" by (cases e)
  show ?case using Cons.IH by (cases panel; cases "admitted known x") (auto simp: e)
qed simp

lemma admitted_Some: "admitted known x = Some c \<longleftrightarrow> ho_category x = Some c \<and> is_creatable x \<and> \<not> ho_registered x \<and> known c"
  by (auto simp: admitted_def split: option.splits)

lemma is_creatable_iff: "is_creatable x \<longleftrightarrow> ho_usage x \<notin> {Some ''no_create'', Some ''ignored'', Some ''event''}"
  by (cases "ho_usage x") (auto simp: is_creatable_def non_creatable_usages_def)

lemma pool_objects: "map snd (announced_pool canonical hs) = hs_data_points hs @ hs_customs hs @ hs_extra hs @ hs_hub hs
    @ map (make_update_data_point canonical) (filter (\<lambda>d. ds_updatable (dv_summary d)) (hs_devices hs))
    @ hs_event_groups hs @ hs_panels hs"
  by (simp add: announced_pool_def update_data_points_def o_def)

text \<open>C31: the batch announcement is exact. An object is announced when it names a category, its usage is none of
  \<open>no_create\<close>, \<open>ignored\<close> and \<open>event\<close>, no entity has claimed it, and the installed aiohomematic knows the
  category. The batch lists under each category precisely these objects of it, in the order data
  points, custom data points, schedules and durations, hub entities, firmware entities of the
  updatable devices, triggers, panels, and has no entry for a category without any; there is no
  batch when no object is announced; and the panels counted as announced are those counted before
  and those announced now.\<close>

theorem announcement_exact:
  "let shown = (\<lambda>c x. ho_category x = Some c \<and> ho_usage x \<notin> {Some ''no_create'', Some ''ignored'', Some ''event''}
         \<and> \<not> ho_registered x \<and> known c);
       pool = hs_data_points hs @ hs_customs hs @ hs_extra hs @ hs_hub hs
         @ map (make_update_data_point canonical) (filter (\<lambda>d. ds_updatable (dv_summary d)) (hs_devices hs))
         @ hs_event_groups hs @ hs_panels hs;
       r = emit_data_points_created canonical known hs seen in
     (case fst r of
        None \<Rightarrow> (\<forall>c. filter (shown c) pool = [])
      | Some g \<Rightarrow> distinct (map fst g) \<and> g \<noteq> []
          \<and> (\<forall>c. dict_get g c = (if filter (shown c) pool = [] then None else Some (filter (shown c) pool))))
     \<and> set (snd r) = set seen \<union> ho_unique_id ` {x \<in> set (hs_panels hs). \<exists>c. shown c x}"
proof -
  let ?p = "announced_pool canonical hs"
  let ?shown = "\<lambda>c x. ho_category x = Some c \<and> ho_usage x \<notin> {Some ''no_create'', Some ''ignored'', Some ''event''}
      \<and> \<not> ho_registered x \<and> known c"
  have gate: "admitted known x = Some c \<longleftrightarrow> ?shown c x" for c x by (auto simp: admitted_Some is_creatable_iff)
  obtain g seen' where g: "group_each known ?p ([], seen) = (g, seen')" by (cases "group_each known ?p ([], seen)")
  have lists: "listed_under g c = filter (?shown c) (map snd ?p)" for c
    using group_each_lists [of known ?p "[]" seen c] by (simp add: g listed_under_def admitted_under_def gate)
  have ok: "distinct (map fst g)" "list_all (\<lambda>e. snd e \<noteq> []) g"
    using group_each_ok [of "[]" known ?p seen] by (simp_all add: g dict_ok_def)
  have entry: "dict_get g c = (if filter (?shown c) (map snd ?p) = [] then None else Some (filter (?shown c) (map snd ?p)))" for c
  proof (cases "dict_get g c")
    case None
    with lists [of c] show ?thesis by (simp add: listed_under_def)
  next
    case (Some xs)
    then have "xs \<noteq> []" using ok(2) map_of_SomeD [of g c xs] by (auto simp: list_all_iff)
    with Some lists [of c] show ?thesis by (simp add: listed_under_def)
  qed
  have panels: "{x. (True, x) \<in> set ?p \<and> admitted known x \<noteq> None} = {x \<in> set (hs_panels hs). \<exists>c. ?shown c x}"
    unfolding not_None_eq gate by (auto simp: announced_pool_def)
  have seen: "set seen' = set seen \<union> ho_unique_id ` {x \<in> set (hs_panels hs). \<exists>c. ?shown c x}"
    using group_each_seen [of known ?p "[]" seen] unfolding g snd_conv panels .
  have r: "emit_data_points_created canonical known hs seen = (if g = [] then None else Some g, seen')"
    by (simp add: emit_data_points_created_def g)
  show ?thesis
    unfolding Let_def pool_objects [symmetric] r fst_conv snd_conv
  proof
    show "case if g = [] then None else Some g of None \<Rightarrow> \<forall>c. filter (?shown c) (map snd ?p) = []
        | Some g \<Rightarrow> distinct (map fst g) \<and> g \<noteq> [] \<and> (\<forall>c. dict_get g c =
            (if filter (?shown c) (map snd ?p) = [] then None else Some (filter (?shown c) (map snd ?p))))"
    proof (cases "g = []")
      case True
      have "filter (?shown c) (map snd ?p) = []" for c using lists [of c] by (simp add: True listed_under_def)
      with True show ?thesis by simp
    next
      case False
      with ok(1) entry show ?thesis by simp
    qed
  qed (rule seen)
qed

definition batch_of :: "announcement option \<Rightarrow> announcement" where
  "batch_of b = (case b of None \<Rightarrow> [] | Some g \<Rightarrow> g)"

lemma batch_lists:
  "listed_under (batch_of (fst (emit_data_points_created canonical known hs seen))) c
     = admitted_under known c (announced_pool canonical hs)"
  using group_each_lists [of known "announced_pool canonical hs" "[]" seen c]
  by (cases "group_each known (announced_pool canonical hs) ([], seen)")
    (auto simp: emit_data_points_created_def batch_of_def listed_under_def)

text \<open>Fact: what a platform finds by asking the query facade for the unclaimed data points of a category is what the batch
  announces to it, but for the hub, firmware and trigger entities, which only the batch brings: a
  platform that comes late and one that was there first end with the same entities.\<close>

theorem scan_and_batch_agree:
  assumes "known c"
  shows "set (listed_under (batch_of (fst (emit_data_points_created canonical known hs seen))) c)
    = set (facade_data_points cats ty (Some c) True (Some False) hs)
      \<union> {x \<in> set (hs_hub hs @ update_data_points canonical (hs_devices hs) @ hs_event_groups hs). admitted known x = Some c}"
  unfolding batch_lists using assms
  by (auto simp: admitted_under_def announced_pool_def facade_data_points_def admitted_Some Let_def)

text \<open>Fact: the firmware entity of an updatable device is announced in every batch, whatever an entity has claimed before:
  each batch builds a new object for it, which nothing has claimed.\<close>

theorem firmware_announced_each_time:
  assumes "known ''update''" and "d \<in> set (hs_devices hs)" and "ds_updatable (dv_summary d)"
  shows "make_update_data_point canonical d
    \<in> set (listed_under (batch_of (fst (emit_data_points_created canonical known hs seen))) ''update'')"
  unfolding batch_lists using assms
  by (auto simp: admitted_under_def announced_pool_def admitted_Some update_data_points_def make_update_data_point_def
      is_creatable_def)

text \<open>Fact: a panel that appears is announced once until it goes. Once its key is counted as announced, the events of the
  panel announce nothing while none removes it; an event that announces it counts it.\<close>

theorem panel_announced_once:
  "case on_alarm_panel_changed known uid removed panel seen of (batch, seen') \<Rightarrow>
     (batch = None \<or> (uid \<in> set seen' \<and> uid \<notin> set seen \<and> \<not> removed))
     \<and> (uid \<in> set seen' \<longleftrightarrow> \<not> removed \<and> (uid \<in> set seen \<or> batch \<noteq> None))
     \<and> (\<forall>u. u \<noteq> uid \<longrightarrow> (u \<in> set seen' \<longleftrightarrow> u \<in> set seen))"
  by (auto simp: on_alarm_panel_changed_def split: option.splits)

section \<open>What a pass over the devices spawns\<close>

text \<open>
  A pass without the layer it changes: which profiles it makes of the daemon's answers, with the
  keys of their switches.
\<close>

record planned =
  pl_profile :: week_profile
  pl_climate :: bool
  pl_switches :: "string list"

definition plan_schedule :: "daemon_reads \<Rightarrow> string \<Rightarrow> int \<times> bool \<Rightarrow> spawned \<Rightarrow> exc + spawned \<times> planned list" where
  "plan_schedule dr addr = (\<lambda>(n, with_switches) sp.
     case dr_profile dr addr n of
       Fault e \<Rightarrow> if any_exception e then Inr (sp, []) else Inl e
     | Got d \<Rightarrow>
         (let climate = (de_schedule_type d = schedule_kind_climate) in
          if climate \<in> set (sp_kinds sp) \<or> de_unique_id d \<in> set (sp_unique_ids sp) then Inr (sp, [])
          else let sp' = \<lparr>sp_kinds = climate # sp_kinds sp, sp_unique_ids = de_unique_id d # sp_unique_ids sp\<rparr>;
                   w = new_week_profile addr n d;
                   planned = (\<lambda>w'. [\<lparr>pl_profile = w', pl_climate = climate, pl_switches = (if with_switches
                     then (case de_schedule_enabled d of None \<Rightarrow> [] | Some es \<Rightarrow> dict_keys es) else [])\<rparr>])
               in case dr_schedule dr addr n of
                    Got s \<Rightarrow> Inr (sp', planned (update_from s w))
                  | Fault e \<Rightarrow> if any_exception e then Inr (sp', planned w) else Inl e))"

fun plan_each :: "daemon_reads \<Rightarrow> string \<Rightarrow> (int \<times> bool) list \<Rightarrow> spawned \<Rightarrow> exc + planned list" where
  "plan_each dr addr [] sp = Inr []"
| "plan_each dr addr (c # cs) sp = (case plan_schedule dr addr c sp of
       Inl e \<Rightarrow> Inl e
     | Inr (sp', ps) \<Rightarrow> (case plan_each dr addr cs sp' of Inl e \<Rightarrow> Inl e | Inr qs \<Rightarrow> Inr (ps @ qs)))"

definition carry_out :: "string \<Rightarrow> planned \<Rightarrow> layer \<Rightarrow> layer" where
  "carry_out addr p l = (let i = length (ly_profiles l) in
     l\<lparr>ly_profiles := ly_profiles l @ [pl_profile p], ly_store := set_week_profile addr i (pl_climate p) (ly_store l),
       ly_extra := ly_extra l @ map (\<lambda>k. \<lparr>xd_kind = k, xd_registered = False\<rparr>)
         (ProfileExtra i # map (SwitchExtra i) (pl_switches p))\<rparr>)"

lemma add_extras: "fold add_extra ks l = l\<lparr>ly_extra := ly_extra l @ map (\<lambda>k. \<lparr>xd_kind = k, xd_registered = False\<rparr>) ks\<rparr>"
  by (induction ks arbitrary: l) (simp_all add: add_extra_def)

lemma fold_map_keys: "fold (\<lambda>k. f (g k)) ks = fold f (map g ks)"
  by (rule ext) (simp add: fold_map o_def)

lemma spawn_schedule_plan:
  "spawn_schedule dr addr c (sp, l) = (case plan_schedule dr addr c sp of
     Inl e \<Rightarrow> Inl e | Inr (sp', ps) \<Rightarrow> Inr (sp', fold (carry_out addr) ps l))"
  by (simp add: spawn_schedule_def plan_schedule_def Let_def carry_out_def fold_map_keys add_extras add_extra_def
      split: prod.splits reply_of.splits if_splits option.splits)

lemma spawn_each_plan:
  "(case spawn_each dr addr cs (sp, l) of Inl e \<Rightarrow> Inl e | Inr r \<Rightarrow> Inr (snd r))
     = (case plan_each dr addr cs sp of Inl e \<Rightarrow> Inl e | Inr ps \<Rightarrow> Inr (fold (carry_out addr) ps l))"
proof (induction cs arbitrary: sp l)
  case (Cons c cs)
  show ?case
  proof (cases "plan_schedule dr addr c sp")
    case (Inr p)
    obtain sp' ps where p: "p = (sp', ps)" by (cases p)
    show ?thesis
      using Cons.IH [of sp' "fold (carry_out addr) ps l"]
      by (cases "plan_each dr addr cs sp'"; cases "spawn_each dr addr cs (sp', fold (carry_out addr) ps l)")
        (simp_all add: spawn_schedule_plan Inr p)
  qed (simp add: spawn_schedule_plan)
qed simp

lemma week_profile_elsewhere [simp]:
  "cdp_at (set_week_profile a i k s) = cdp_at s" "channel_at (set_week_profile a i k s) = channel_at s"
  "dp_at (set_week_profile a i k s) = dp_at s" "custom_data_points_of addr (set_week_profile a i k s) = custom_data_points_of addr s"
  "channels_of addr (set_week_profile a i k s) = channels_of addr s" "devices (set_week_profile a i k s) = devices s"
  "get_data_point addr n q (set_week_profile a i k s) = get_data_point addr n q s"
  by (simp_all add: fun_eq_iff cdp_at_def channel_at_def dp_at_def custom_data_points_of_def channels_of_def devices_def
      get_data_point_def)

lemma carry_out_base [simp]:
  "device_addresses (ly_store (carry_out a p l)) = device_addresses (ly_store l)"
  "schedule_channels (ly_store (carry_out a p l)) = schedule_channels (ly_store l)"
  "durations_of (ly_store (carry_out a p l)) = durations_of (ly_store l)"
  "ly_labels (carry_out a p l) = ly_labels l"
  by (simp_all add: fun_eq_iff carry_out_def Let_def device_addresses_def schedule_channels_def durations_of_def
      channel_has_duration_pair_def)

fun plan_devices :: "daemon_reads \<Rightarrow> store \<Rightarrow> string list \<Rightarrow> exc + (string \<times> planned) list" where
  "plan_devices dr s [] = Inr []"
| "plan_devices dr s (a # as) = (case plan_each dr a (schedule_channels s a) \<lparr>sp_kinds = [], sp_unique_ids = []\<rparr> of
       Inl e \<Rightarrow> Inl e
     | Inr ps \<Rightarrow> (case plan_devices dr s as of Inl e \<Rightarrow> Inl e | Inr qs \<Rightarrow> Inr (map (Pair a) ps @ qs)))"

definition carry_all :: "(string \<times> planned) list \<Rightarrow> layer \<Rightarrow> layer" where
  "carry_all ps l = fold (\<lambda>(a, p). carry_out a p) ps l"

lemma carry_all_simps [simp]:
  "carry_all [] l = l" "carry_all ((a, p) # ps) l = carry_all ps (carry_out a p l)"
  "carry_all (ps @ qs) l = carry_all qs (carry_all ps l)"
  by (simp_all add: carry_all_def)

lemma carry_all_device: "carry_all (map (Pair a) ps) l = fold (carry_out a) ps l"
  by (induction ps arbitrary: l) simp_all

lemma carry_all_base [simp]:
  "device_addresses (ly_store (carry_all ps l)) = device_addresses (ly_store l)"
  "schedule_channels (ly_store (carry_all ps l)) = schedule_channels (ly_store l)"
  "durations_of (ly_store (carry_all ps l)) = durations_of (ly_store l)"
  "ly_labels (carry_all ps l) = ly_labels l"
  by (induction ps arbitrary: l) (auto split: prod.splits)

lemma plan_devices_cong: "schedule_channels s = schedule_channels s' \<Longrightarrow> plan_devices dr s as = plan_devices dr s' as"
  by (induction "as") (simp_all split: sum.splits)

lemma schedules_each_plan:
  "schedules_each dr as l = (case plan_devices dr (ly_store l) as of Inl e \<Rightarrow> Inl e | Inr ps \<Rightarrow> Inr (carry_all ps l))"
proof (induction "as" arbitrary: l)
  case (Cons a "as")
  let ?sp = "\<lparr>sp_kinds = [], sp_unique_ids = []\<rparr>"
  show ?case
  proof (cases "plan_each dr a (schedule_channels (ly_store l) a) ?sp")
    case (Inl e)
    then show ?thesis
      using spawn_each_plan [of dr a "schedule_channels (ly_store l) a" ?sp l] by (simp split: sum.splits)
  next
    case (Inr ps)
    then obtain sp' where sp': "spawn_each dr a (schedule_channels (ly_store l) a) (?sp, l) = Inr (sp', carry_all (map (Pair a) ps) l)"
      using spawn_each_plan [of dr a "schedule_channels (ly_store l) a" ?sp l]
      by (auto simp: carry_all_device split: sum.splits)
    have "plan_devices dr (ly_store (carry_all (map (Pair a) ps) l)) as = plan_devices dr (ly_store l) as"
      by (rule plan_devices_cong) simp
    then show ?thesis by (simp add: Inr sp' Cons.IH split: sum.splits)
  qed
qed simp

text \<open>The identity of an entity, which does not depend on the object behind it.\<close>

datatype extra_key = ProfileKey string string | SwitchKey string string string | DurationKey string int

definition profile_at :: "layer \<Rightarrow> oid \<Rightarrow> week_profile" where
  "profile_at l i = ly_profiles l ! i"

fun key_of :: "layer \<Rightarrow> extra_kind \<Rightarrow> extra_key" where
  "key_of l (ProfileExtra i) = ProfileKey (wp_address (profile_at l i)) (de_unique_id (wp_descriptor (profile_at l i)))"
| "key_of l (SwitchExtra i k) = SwitchKey (wp_address (profile_at l i)) (de_unique_id (wp_descriptor (profile_at l i))) k"
| "key_of l (DurationExtra a n t) = DurationKey a n"

definition extra_keys :: "layer \<Rightarrow> extra_key list" where
  "extra_keys l = map (\<lambda>x. key_of l (xd_kind x)) (ly_extra l)"

definition unclaimed_keys :: "layer \<Rightarrow> extra_key list" where
  "unclaimed_keys l = map (\<lambda>x. key_of l (xd_kind x)) (filter (\<lambda>x. \<not> xd_registered x) (ly_extra l))"

definition claim_all :: "layer \<Rightarrow> layer" where
  "claim_all l = l\<lparr>ly_extra := map (\<lambda>x. x\<lparr>xd_registered := True\<rparr>) (ly_extra l)\<rparr>"

fun kind_ok :: "layer \<Rightarrow> extra_kind \<Rightarrow> bool" where
  "kind_ok l (ProfileExtra i) \<longleftrightarrow> i < length (ly_profiles l)"
| "kind_ok l (SwitchExtra i k) \<longleftrightarrow> i < length (ly_profiles l)"
| "kind_ok l (DurationExtra a n t) \<longleftrightarrow> True"

definition layer_ok :: "layer \<Rightarrow> bool" where
  "layer_ok l \<longleftrightarrow> list_all (\<lambda>x. kind_ok l (xd_kind x)) (ly_extra l)"

definition planned_keys :: "planned \<Rightarrow> extra_key list" where
  "planned_keys p = (let w = pl_profile p in ProfileKey (wp_address w) (de_unique_id (wp_descriptor w))
     # map (SwitchKey (wp_address w) (de_unique_id (wp_descriptor w))) (pl_switches p))"

lemma key_of_grown:
  "kind_ok l k \<Longrightarrow> ly_profiles l' = ly_profiles l @ ws \<Longrightarrow> key_of l' k = key_of l k \<and> kind_ok l' k"
  by (cases k) (simp_all add: profile_at_def nth_append)

text \<open>A layer that has grown: the old entities as they were, the new ones unclaimed under the keys given.\<close>

definition grows :: "layer \<Rightarrow> extra_key list \<Rightarrow> layer \<Rightarrow> bool" where
  "grows l ks l' \<longleftrightarrow> (\<exists>ws xs. ly_profiles l' = ly_profiles l @ ws \<and> ly_extra l' = ly_extra l @ xs
     \<and> list_all (\<lambda>x. kind_ok l' (xd_kind x) \<and> \<not> xd_registered x) xs \<and> map (\<lambda>x. key_of l' (xd_kind x)) xs = ks)"

lemma grows_refl: "grows l [] l"
  by (simp add: grows_def)

lemma grows_trans:
  assumes "grows l ks l'" and "grows l' ks' l''"
  shows "grows l (ks @ ks') l''"
proof -
  obtain ws xs where 1: "ly_profiles l' = ly_profiles l @ ws" "ly_extra l' = ly_extra l @ xs"
    "list_all (\<lambda>x. kind_ok l' (xd_kind x) \<and> \<not> xd_registered x) xs" "map (\<lambda>x. key_of l' (xd_kind x)) xs = ks"
    using assms(1) unfolding grows_def by blast
  obtain ws' xs' where 2: "ly_profiles l'' = ly_profiles l' @ ws'" "ly_extra l'' = ly_extra l' @ xs'"
    "list_all (\<lambda>x. kind_ok l'' (xd_kind x) \<and> \<not> xd_registered x) xs'" "map (\<lambda>x. key_of l'' (xd_kind x)) xs' = ks'"
    using assms(2) unfolding grows_def by blast
  have same: "key_of l'' (xd_kind x) = key_of l' (xd_kind x) \<and> kind_ok l'' (xd_kind x)" if "x \<in> set xs" for x
    using 1(3) that by (intro key_of_grown [OF _ 2(1)]) (auto simp: list_all_iff)
  have old: "list_all (\<lambda>x. kind_ok l'' (xd_kind x) \<and> \<not> xd_registered x) xs"
    using 1(3) same by (simp add: list_all_iff)
  have keys: "map (\<lambda>x. key_of l'' (xd_kind x)) xs = ks"
    unfolding 1(4) [symmetric] using same by (intro map_cong refl) simp
  show ?thesis
    unfolding grows_def
    by (rule exI [of _ "ws @ ws'"], rule exI [of _ "xs @ xs'"]) (simp add: 1(1,2) 2 old keys)
qed

lemma carry_out_grows: "grows l (planned_keys p) (carry_out a p l)"
  unfolding grows_def
  by (rule exI [of _ "[pl_profile p]"], rule exI [of _ "map (\<lambda>k. \<lparr>xd_kind = k, xd_registered = False\<rparr>)
        (ProfileExtra (length (ly_profiles l)) # map (SwitchExtra (length (ly_profiles l))) (pl_switches p))"])
    (simp add: carry_out_def Let_def planned_keys_def list_all_iff profile_at_def o_def)

lemma carry_all_grows: "grows l (concat (map (\<lambda>(a, p). planned_keys p) ps)) (carry_all ps l)"
proof (induction ps arbitrary: l)
  case (Cons e ps)
  obtain a p where e: "e = (a, p)" by (cases e)
  show ?case using grows_trans [OF carry_out_grows Cons.IH] by (simp add: e)
qed (simp add: grows_refl)

definition duration_keys :: "layer \<Rightarrow> extra_key list" where
  "duration_keys l = map (key_of l)
     (concat (map (durations_of (ly_store l) (ly_labels l)) (device_addresses (ly_store l))))"

lemma durations_kind: "k \<in> set (durations_of s labels a) \<Longrightarrow> \<exists>n t. k = DurationExtra a n t"
  by (auto simp: durations_of_def map_filter_def Let_def split: if_splits)

lemma bootstrap_combined_grows: "grows l (duration_keys l) (bootstrap_combined l)"
proof -
  let ?ks = "concat (map (durations_of (ly_store l) (ly_labels l)) (device_addresses (ly_store l)))"
  have d: "\<exists>a n t. k = DurationExtra a n t" if "k \<in> set ?ks" for k using that durations_kind by fastforce
  then have "kind_ok (bootstrap_combined l) k \<and> key_of (bootstrap_combined l) k = key_of l k" if "k \<in> set ?ks" for k
    using that by fastforce
  then show ?thesis
    unfolding grows_def
    by (intro exI [of _ "[]"] exI [of _ "map (\<lambda>k. \<lparr>xd_kind = k, xd_registered = False\<rparr>) ?ks"])
      (auto simp: bootstrap_combined_def add_extras duration_keys_def list_all_iff)
qed

lemma duration_keys_cong:
  assumes "device_addresses (ly_store l) = device_addresses (ly_store m)" "durations_of (ly_store l) = durations_of (ly_store m)"
    and "ly_labels l = ly_labels m"
  shows "duration_keys l = duration_keys m"
proof -
  let ?ks = "concat (map (durations_of (ly_store m) (ly_labels m)) (device_addresses (ly_store m)))"
  have "key_of l k = key_of m k" if "k \<in> set ?ks" for k using that durations_kind by fastforce
  then show ?thesis using assms by (simp add: duration_keys_def)
qed

text \<open>What one pass of the rebuild spawns, by the store and the daemon's answers alone.\<close>

lemma rebuild_layer_grows:
  assumes "rebuild_layer dr l = Inr l'"
  obtains ps where "plan_devices dr (ly_store l) (device_addresses (ly_store l)) = Inr ps"
    and "l' = bootstrap_combined (carry_all ps l)"
    and "grows l (concat (map (\<lambda>(a, p). planned_keys p) ps) @ duration_keys l) l'"
proof -
  obtain ps where ps: "plan_devices dr (ly_store l) (device_addresses (ly_store l)) = Inr ps"
    and l': "l' = bootstrap_combined (carry_all ps l)"
    using assms by (auto simp: rebuild_layer_def bootstrap_schedules_def schedules_each_plan split: sum.splits)
  have "duration_keys (carry_all ps l) = duration_keys l" by (rule duration_keys_cong) simp_all
  then have "grows l (concat (map (\<lambda>(a, p). planned_keys p) ps) @ duration_keys l) l'"
    using grows_trans [OF carry_all_grows [of l ps] bootstrap_combined_grows] l' by simp
  then show thesis using that ps l' by blast
qed

text \<open>Fact: rebuilding the layer after a re-bootstrap announces again what Home Assistant already holds. The rebuild keeps
  every entity of the layer and adds a new, unclaimed one under every key it had spawned before:
  run twice over the same devices with the same answers, with every entity claimed in between, it
  leaves exactly the keys of the first run unclaimed, each of them now held twice.\<close>

theorem rebuild_spawns_again:
  assumes "ly_extra l = []" and "rebuild_layer dr l = Inr l1"
  shows "\<exists>l2. rebuild_layer dr (claim_all l1) = Inr l2
     \<and> extra_keys l2 = extra_keys l1 @ extra_keys l1 \<and> unclaimed_keys l2 = extra_keys l1"
proof -
  obtain ps where ps: "plan_devices dr (ly_store l) (device_addresses (ly_store l)) = Inr ps"
    and l1: "l1 = bootstrap_combined (carry_all ps l)"
    and g1: "grows l (concat (map (\<lambda>(a, p). planned_keys p) ps) @ duration_keys l) l1"
    by (rule rebuild_layer_grows [OF assms(2)])
  let ?c = "claim_all l1"
  have base: "device_addresses (ly_store ?c) = device_addresses (ly_store l)" "schedule_channels (ly_store ?c) = schedule_channels (ly_store l)"
    "durations_of (ly_store ?c) = durations_of (ly_store l)" "ly_labels ?c = ly_labels l"
    by (simp_all add: l1 claim_all_def bootstrap_combined_def add_extras)
  have "plan_devices dr (ly_store ?c) (device_addresses (ly_store ?c)) = Inr ps"
    using ps base plan_devices_cong [OF base(2)] by simp
  then obtain l2 where l2: "rebuild_layer dr ?c = Inr l2"
    by (simp add: rebuild_layer_def bootstrap_schedules_def schedules_each_plan)
  obtain ps' where "plan_devices dr (ly_store ?c) (device_addresses (ly_store ?c)) = Inr ps'"
    and g2: "grows ?c (concat (map (\<lambda>(a, p). planned_keys p) ps') @ duration_keys ?c) l2"
    by (rule rebuild_layer_grows [OF l2])
  then have g2: "grows ?c (concat (map (\<lambda>(a, p). planned_keys p) ps) @ duration_keys l) l2"
    using \<open>plan_devices dr (ly_store ?c) _ = Inr ps\<close> duration_keys_cong [OF base(1,3,4)] by simp
  have k1: "extra_keys l1 = concat (map (\<lambda>(a, p). planned_keys p) ps) @ duration_keys l" and ok: "layer_ok l1"
    using g1 assms(1) by (auto simp: grows_def extra_keys_def layer_ok_def list_all_iff)
  obtain ws xs where g: "ly_profiles l2 = ly_profiles ?c @ ws" "ly_extra l2 = ly_extra ?c @ xs"
    "list_all (\<lambda>x. \<not> xd_registered x) xs" "map (\<lambda>x. key_of l2 (xd_kind x)) xs = extra_keys l1"
    using g2 k1 by (auto simp: grows_def list_all_iff)
  have "key_of l2 (xd_kind x) = key_of l1 (xd_kind x)" if "x \<in> set (ly_extra l1)" for x
    using ok that key_of_grown [of l1 "xd_kind x" l2 ws] g(1) by (auto simp: layer_ok_def list_all_iff claim_all_def)
  then have "map (\<lambda>x. key_of l2 (xd_kind x)) (ly_extra ?c) = extra_keys l1"
    by (simp add: claim_all_def extra_keys_def o_def)
  moreover have "filter (\<lambda>x. \<not> xd_registered x) (ly_extra l2) = xs"
    using g(2,3) by (simp add: claim_all_def filter_empty_conv list_all_iff)
  ultimately show ?thesis using l2 g(2,4) by (simp add: extra_keys_def unclaimed_keys_def)
qed

definition demo_layer :: layer where
  "demo_layer = \<lparr>ly_store = (empty_store None 10)
       \<lparr>st_devices := \<lparr>reg_map = [(''D'', 0)], reg_heap = [new_device \<lparr>ds_address = ''D'', ds_central = None, ds_interface = [],
          ds_interface_id = [], ds_model = [], ds_name = [], ds_available = True, ds_channels_count = 1, ds_updatable = True,
          ds_update_available = False, ds_config_pending = False, ds_has_sub_devices = False, ds_firmware = JNull,
          ds_availability = no_availability, ds_rest = JNull\<rparr>]\<rparr>,
        st_cdps := \<lparr>reg_map = [((''D'', ''climate''), 0)], reg_heap = [new_cdp \<lparr>cd_name = ''climate'', cd_channel_no = 1,
          cd_state = None, cd_rest = JObj [(''category'', JStr ''climate'')]\<rparr> ''D'' None]\<rparr>\<rparr>,
     ly_profiles = [], ly_extra = [], ly_labels = []\<rparr>"

definition demo_reads :: daemon_reads where
  "demo_reads = \<lparr>dr_profile = \<lambda>a n. Got demo_descriptor, dr_schedule = \<lambda>a n. Got demo_schedule\<rparr>"

lemma demo_layer_devices: "device_addresses (ly_store demo_layer) = [''D'']"
  by (simp add: demo_layer_def device_addresses_def devices_def new_device_def)

lemma demo_layer_channels: "schedule_channels (ly_store demo_layer) ''D'' = [(1, False)]"
  by (simp add: demo_layer_def schedule_channels_def custom_data_points_of_def channels_of_def select_sorted_def empty_store_def
      cdp_at_def cdp_text_def summary_field_def new_entity_def new_cdp_def obj_get_def reg_empty_def Let_def)

lemma demo_layer_durations: "durations_of (ly_store demo_layer) [] ''D'' = []"
  by (simp add: demo_layer_def durations_of_def custom_data_points_of_def select_sorted_def map_filter_def Let_def
      channel_has_duration_pair_def get_data_point_def empty_store_def reg_empty_def reg_ref_def)

definition demo_planned :: planned where
  "demo_planned = \<lparr>pl_profile = update_from demo_schedule (new_week_profile ''D'' 1 demo_descriptor), pl_climate = True,
     pl_switches = []\<rparr>"

lemma demo_layer_plan: "plan_devices demo_reads (ly_store demo_layer) [''D''] = Inr [(''D'', demo_planned)]"
proof -
  have "de_schedule_type demo_descriptor = schedule_kind_climate"
    by (simp add: demo_descriptor_def schedule_kind_climate_def)
  then show ?thesis by (simp add: demo_layer_channels plan_schedule_def demo_reads_def demo_planned_def Let_def)
qed

lemma demo_layer_rebuilt:
  "\<exists>l1. rebuild_layer demo_reads demo_layer = Inr l1 \<and> extra_keys l1 = [ProfileKey ''D'' ''u'']"
proof -
  let ?l = "carry_out ''D'' demo_planned demo_layer"
  have "rebuild_layer demo_reads demo_layer = Inr (bootstrap_combined ?l)"
    by (simp add: rebuild_layer_def bootstrap_schedules_def demo_layer_devices schedules_each_plan demo_layer_plan
        del: plan_devices.simps)
  moreover have "duration_keys ?l = []"
    using demo_layer_durations by (simp add: duration_keys_def demo_layer_devices) (simp add: demo_layer_def)
  moreover have "grows demo_layer (planned_keys demo_planned @ duration_keys ?l) (bootstrap_combined ?l)"
    by (rule grows_trans [OF carry_out_grows bootstrap_combined_grows])
  moreover have "planned_keys demo_planned = [ProfileKey ''D'' ''u'']" "ly_extra demo_layer = []"
    by (simp_all add: planned_keys_def demo_planned_def update_from_def new_week_profile_def demo_descriptor_def demo_layer_def)
  ultimately show ?thesis by (auto simp: grows_def extra_keys_def)
qed

theorem rebuild_spawns_again_witness:
  "\<exists>l1 l2. rebuild_layer demo_reads demo_layer = Inr l1 \<and> rebuild_layer demo_reads (claim_all l1) = Inr l2
     \<and> extra_keys l2 = [ProfileKey ''D'' ''u'', ProfileKey ''D'' ''u''] \<and> unclaimed_keys l2 = [ProfileKey ''D'' ''u'']"
proof -
  obtain l1 where l1: "rebuild_layer demo_reads demo_layer = Inr l1" "extra_keys l1 = [ProfileKey ''D'' ''u'']"
    using demo_layer_rebuilt by blast
  have "ly_extra demo_layer = []" by (simp add: demo_layer_def)
  from rebuild_spawns_again [OF this l1(1)] show ?thesis using l1 by simp
qed

section \<open>One schedule of a kind\<close>

lemma descriptor_kept [simp]:
  "wp_descriptor (update_from s w) = wp_descriptor w" "wp_descriptor (new_week_profile a n d) = d"
  "wp_channel_no (update_from s w) = wp_channel_no w" "wp_channel_no (new_week_profile a n d) = n"
  by (simp_all add: update_from_def new_week_profile_def)

definition profile_key :: "week_profile \<Rightarrow> string" where
  "profile_key w = de_unique_id (wp_descriptor w)"

lemma plan_schedule_cases:
  assumes "plan_schedule dr a (n, b) sp = Inr (sp', ps)"
  shows "(ps = [] \<and> sp' = sp) \<or> (\<exists>p. ps = [p] \<and> is_climate (pl_profile p) \<notin> set (sp_kinds sp)
     \<and> profile_key (pl_profile p) \<notin> set (sp_unique_ids sp) \<and> wp_channel_no (pl_profile p) = n
     \<and> sp' = \<lparr>sp_kinds = is_climate (pl_profile p) # sp_kinds sp, sp_unique_ids = profile_key (pl_profile p) # sp_unique_ids sp\<rparr>)"
  using assms
  by (auto simp: plan_schedule_def Let_def is_climate_def profile_key_def split: reply_of.splits if_splits)

lemma plan_each_distinct:
  "plan_each dr a cs sp = Inr ps \<Longrightarrow>
     distinct (map (\<lambda>p. is_climate (pl_profile p)) ps) \<and> distinct (map (\<lambda>p. profile_key (pl_profile p)) ps)
     \<and> (\<forall>p\<in>set ps. is_climate (pl_profile p) \<notin> set (sp_kinds sp) \<and> profile_key (pl_profile p) \<notin> set (sp_unique_ids sp))"
proof (induction cs arbitrary: sp ps)
  case (Cons c cs)
  obtain n b where c: "c = (n, b)" by (cases c)
  obtain sp' us vs where u: "plan_schedule dr a (n, b) sp = Inr (sp', us)" and v: "plan_each dr a cs sp' = Inr vs" and ps: "ps = us @ vs"
    using Cons.prems by (auto simp: c split: sum.splits)
  show ?case using plan_schedule_cases [OF u] Cons.IH [OF v] by (fastforce simp: ps)
qed simp

lemma carry_out_profiles: "ly_profiles (fold (carry_out a) ps l) = ly_profiles l @ map pl_profile ps"
  by (induction ps arbitrary: l) (simp_all add: carry_out_def Let_def)

text \<open>A channel that is described is spawned, unless one spawned before it has its kind or its key.\<close>

definition described_by :: "daemon_reads \<Rightarrow> string \<Rightarrow> int \<times> bool \<Rightarrow> bool" where
  "described_by dr a c \<longleftrightarrow> (\<exists>d. dr_profile dr a (fst c) = Got d)"

definition represented :: "daemon_reads \<Rightarrow> string \<Rightarrow> spawned \<Rightarrow> planned list \<Rightarrow> int \<Rightarrow> bool" where
  "represented dr a sp ps n \<longleftrightarrow> (\<forall>d. dr_profile dr a n = Got d \<longrightarrow>
     (de_schedule_type d = schedule_kind_climate) \<in> set (sp_kinds sp) \<or> de_unique_id d \<in> set (sp_unique_ids sp)
     \<or> (\<exists>p\<in>set ps. is_climate (pl_profile p) = (de_schedule_type d = schedule_kind_climate) \<or> profile_key (pl_profile p) = de_unique_id d))"

lemma plan_schedule_represents:
  assumes "plan_schedule dr a (n, b) sp = Inr (sp', ps)"
  shows "represented dr a sp ps n"
  using assms
  by (auto simp: represented_def plan_schedule_def Let_def is_climate_def profile_key_def split: reply_of.splits if_splits)

lemma plan_schedule_adds:
  assumes "plan_schedule dr a (n, b) sp = Inr (sp', ps)"
  shows "set (sp_kinds sp') = set (map (\<lambda>p. is_climate (pl_profile p)) ps) \<union> set (sp_kinds sp)"
    and "set (sp_unique_ids sp') = set (map (\<lambda>p. profile_key (pl_profile p)) ps) \<union> set (sp_unique_ids sp)"
  using plan_schedule_cases [OF assms] by auto

lemma plan_each_represents:
  "plan_each dr a cs sp = Inr ps \<Longrightarrow> c \<in> set cs \<Longrightarrow> represented dr a sp ps (fst c)"
proof (induction cs arbitrary: sp ps)
  case (Cons e cs)
  obtain n b where e: "e = (n, b)" by (cases e)
  obtain sp' us vs where u: "plan_schedule dr a (n, b) sp = Inr (sp', us)" and v: "plan_each dr a cs sp' = Inr vs" and ps: "ps = us @ vs"
    using Cons.prems(1) by (auto simp: e split: sum.splits)
  show ?case
  proof (cases "c = e")
    case True
    with plan_schedule_represents [OF u] show ?thesis by (auto simp: represented_def e ps)
  next
    case False
    then have "represented dr a sp' vs (fst c)" using Cons.IH [OF v] Cons.prems(2) by simp
    then show ?thesis using plan_schedule_adds [OF u] by (fastforce simp: represented_def ps)
  qed
qed simp

lemma plan_each_first:
  "plan_each dr a cs \<lparr>sp_kinds = [], sp_unique_ids = []\<rparr> = Inr ps \<Longrightarrow>
     (case find (described_by dr a) cs of
        None \<Rightarrow> ps = []
      | Some c \<Rightarrow> ps \<noteq> [] \<and> wp_channel_no (pl_profile (hd ps)) = fst c \<and> dr_profile dr a (fst c) = Got (wp_descriptor (pl_profile (hd ps))))"
proof (induction cs arbitrary: ps)
  case (Cons e cs)
  obtain n b where e: "e = (n, b)" by (cases e)
  let ?sp = "\<lparr>sp_kinds = [], sp_unique_ids = []\<rparr>"
  obtain sp' us vs where u: "plan_schedule dr a (n, b) ?sp = Inr (sp', us)" and v: "plan_each dr a cs sp' = Inr vs" and ps: "ps = us @ vs"
    using Cons.prems by (auto simp: e split: sum.splits)
  show ?case
  proof (cases "dr_profile dr a n")
    case (Got d)
    with u show ?thesis by (auto simp: e ps described_by_def plan_schedule_def Let_def split: reply_of.splits if_splits)
  next
    case (Fault x)
    with u have "us = []" "sp' = ?sp" by (auto simp: plan_schedule_def split: if_splits)
    moreover have "\<not> described_by dr a e" by (simp add: described_by_def e Fault)
    ultimately show ?thesis using Cons.IH [of vs] v unfolding ps by (simp only: find.simps append_Nil if_False)
  qed
qed simp

lemma plan_each_address: "plan_each dr a cs sp = Inr ps \<Longrightarrow> p \<in> set ps \<Longrightarrow> wp_address (pl_profile p) = a"
proof (induction cs arbitrary: sp ps)
  case (Cons e cs)
  obtain n b where e: "e = (n, b)" by (cases e)
  obtain sp' us vs where u: "plan_schedule dr a (n, b) sp = Inr (sp', us)" and v: "plan_each dr a cs sp' = Inr vs" and ps: "ps = us @ vs"
    using Cons.prems(1) by (auto simp: e split: sum.splits)
  have "wp_address (pl_profile p) = a" if "p \<in> set us"
    using u that by (auto simp: plan_schedule_def Let_def update_from_def new_week_profile_def split: reply_of.splits if_splits)
  then show ?case using Cons.IH [OF v] Cons.prems(2) by (auto simp: ps)
qed simp

lemma plan_devices_of:
  "plan_devices dr s as = Inr ps \<Longrightarrow> distinct as \<Longrightarrow> a \<in> set as \<Longrightarrow>
     \<exists>qs. plan_each dr a (schedule_channels s a) \<lparr>sp_kinds = [], sp_unique_ids = []\<rparr> = Inr qs
       \<and> filter (\<lambda>w. wp_address w = a) (map (\<lambda>e. pl_profile (snd e)) ps) = map pl_profile qs"
proof (induction "as" arbitrary: ps)
  case (Cons b "as")
  obtain us vs where u: "plan_each dr b (schedule_channels s b) \<lparr>sp_kinds = [], sp_unique_ids = []\<rparr> = Inr us"
    and v: "plan_devices dr s as = Inr vs" and ps: "ps = map (Pair b) us @ vs"
    using Cons.prems(1) by (auto split: sum.splits)
  have mine: "filter (\<lambda>w. wp_address w = a) (map pl_profile us) = (if a = b then map pl_profile us else [])"
    using plan_each_address [OF u] by (auto simp: filter_empty_conv filter_id_conv)
  have other: "filter (\<lambda>w. wp_address w = a) (map (\<lambda>e. pl_profile (snd e)) vs) = []" if "a \<notin> set as"
  proof -
    have "wp_address (pl_profile (snd e)) \<in> set as" if "e \<in> set vs" for e
      using v that
    proof (induction "as" arbitrary: vs)
      case (Cons c cs)
      then show ?case using plan_each_address by (fastforce split: sum.splits)
    qed simp
    with that show ?thesis by (auto simp: filter_empty_conv)
  qed
  have split: "filter (\<lambda>w. wp_address w = a) (map (\<lambda>e. pl_profile (snd e)) ps)
      = filter (\<lambda>w. wp_address w = a) (map pl_profile us) @ filter (\<lambda>w. wp_address w = a) (map (\<lambda>e. pl_profile (snd e)) vs)"
    by (simp add: ps o_def)
  show ?case
  proof (cases "a = b")
    case True
    with Cons.prems(2) other u show ?thesis unfolding split mine by auto
  next
    case False
    with Cons.prems have "distinct as" "a \<in> set as" by simp_all
    from Cons.IH [OF v this] show ?thesis using False unfolding split mine by simp
  qed
qed simp

lemma carry_all_profiles: "ly_profiles (carry_all ps l) = ly_profiles l @ map (\<lambda>e. pl_profile (snd e)) ps"
  by (induction ps arbitrary: l) (auto simp: carry_out_def Let_def)

text \<open>C32: one pass of the schedule bootstrap gives each device at most one schedule of a kind. Of the profiles the
  pass adds, those of a device differ in kind and in key, so there are at most two; the first is that
  of the first of its schedule channels the daemon describes, and there is none when it describes
  none; and a described channel that got none of its own shares its kind or its key with one that
  was spawned.\<close>

theorem one_schedule_of_a_kind:
  assumes "bootstrap_schedules dr l = Inr l'" and "distinct (device_addresses (ly_store l))"
  shows "\<exists>ws. ly_profiles l' = ly_profiles l @ ws \<and> (\<forall>a\<in>set (device_addresses (ly_store l)).
     let mine = filter (\<lambda>w. wp_address w = a) ws; channels = schedule_channels (ly_store l) a in
       distinct (map is_climate mine) \<and> distinct (map profile_key mine) \<and> length mine \<le> 2
       \<and> (case find (\<lambda>c. \<exists>d. dr_profile dr a (fst c) = Got d) channels of
            None \<Rightarrow> mine = []
          | Some c \<Rightarrow> mine \<noteq> [] \<and> wp_channel_no (hd mine) = fst c \<and> dr_profile dr a (fst c) = Got (wp_descriptor (hd mine)))
       \<and> (\<forall>c\<in>set channels. \<forall>d. dr_profile dr a (fst c) = Got d \<longrightarrow>
            (\<exists>w\<in>set mine. is_climate w = (de_schedule_type d = schedule_kind_climate) \<or> profile_key w = de_unique_id d)))"
proof -
  obtain ps where ps: "plan_devices dr (ly_store l) (device_addresses (ly_store l)) = Inr ps" and l': "l' = carry_all ps l"
    using assms(1) by (auto simp: bootstrap_schedules_def schedules_each_plan split: sum.splits)
  have "let mine = filter (\<lambda>w. wp_address w = a) (map (\<lambda>e. pl_profile (snd e)) ps); channels = schedule_channels (ly_store l) a in
       distinct (map is_climate mine) \<and> distinct (map profile_key mine) \<and> length mine \<le> 2
       \<and> (case find (\<lambda>c. \<exists>d. dr_profile dr a (fst c) = Got d) channels of
            None \<Rightarrow> mine = []
          | Some c \<Rightarrow> mine \<noteq> [] \<and> wp_channel_no (hd mine) = fst c \<and> dr_profile dr a (fst c) = Got (wp_descriptor (hd mine)))
       \<and> (\<forall>c\<in>set channels. \<forall>d. dr_profile dr a (fst c) = Got d \<longrightarrow>
            (\<exists>w\<in>set mine. is_climate w = (de_schedule_type d = schedule_kind_climate) \<or> profile_key w = de_unique_id d))"
    if dev: "a \<in> set (device_addresses (ly_store l))" for a
  proof -
    obtain qs where qs: "plan_each dr a (schedule_channels (ly_store l) a) \<lparr>sp_kinds = [], sp_unique_ids = []\<rparr> = Inr qs"
      and mine: "filter (\<lambda>w. wp_address w = a) (map (\<lambda>e. pl_profile (snd e)) ps) = map pl_profile qs"
      using plan_devices_of [OF ps assms(2) dev] by blast
    have d: "distinct (map is_climate (map pl_profile qs))" "distinct (map profile_key (map pl_profile qs))"
      using plan_each_distinct [OF qs] by (simp_all add: o_def)
    have "length xs \<le> 2" if "distinct xs" for xs :: "bool list"
      using distinct_card [OF that] card_mono [of "UNIV :: bool set" "set xs"] by simp
    from this [OF d(1)] have two: "length (map pl_profile qs) \<le> 2" by simp
    have first: "case find (\<lambda>c. \<exists>d. dr_profile dr a (fst c) = Got d) (schedule_channels (ly_store l) a) of
        None \<Rightarrow> map pl_profile qs = []
      | Some c \<Rightarrow> map pl_profile qs \<noteq> [] \<and> wp_channel_no (hd (map pl_profile qs)) = fst c
          \<and> dr_profile dr a (fst c) = Got (wp_descriptor (hd (map pl_profile qs)))"
      using plan_each_first [OF qs, unfolded described_by_def] by (auto simp: hd_map split: option.splits)
    have "\<exists>w\<in>set (map pl_profile qs). is_climate w = (de_schedule_type d = schedule_kind_climate) \<or> profile_key w = de_unique_id d"
      if "c \<in> set (schedule_channels (ly_store l) a)" "dr_profile dr a (fst c) = Got d" for c d
      using plan_each_represents [OF qs that(1)] that(2) by (simp add: represented_def)
    with d two first show ?thesis unfolding mine Let_def by blast
  qed
  then show ?thesis by (intro exI [of _ "map (\<lambda>e. pl_profile (snd e)) ps"]) (simp only: l' carry_all_profiles, blast)
qed

theorem one_schedule_of_a_kind_witness:
  "\<exists>l'. bootstrap_schedules demo_reads demo_layer = Inr l' \<and> map wp_channel_no (ly_profiles l') = [1]"
proof -
  let ?l = "carry_out ''D'' demo_planned demo_layer"
  have run: "bootstrap_schedules demo_reads demo_layer = Inr ?l"
    by (simp add: bootstrap_schedules_def demo_layer_devices schedules_each_plan demo_layer_plan del: plan_devices.simps)
  have old: "ly_profiles demo_layer = []" and new: "ly_profiles ?l = [pl_profile demo_planned]"
    by (simp_all add: demo_layer_def carry_out_def Let_def)
  have p: "dr_profile demo_reads ''D'' 1 = Got demo_descriptor" by (simp add: demo_reads_def)
  have "distinct (device_addresses (ly_store demo_layer))" by (simp add: demo_layer_devices)
  from one_schedule_of_a_kind [OF run this]
  have "wp_channel_no (pl_profile demo_planned) = 1"
    unfolding old new demo_layer_devices by (auto simp: demo_layer_channels p Let_def split: if_splits)
  with run new show ?thesis by simp
qed

section \<open>Writing the combined duration\<close>

lemma source_dp_get: "source_dp s a n p = reg_get (st_dps s) (a, n, p)"
  by (simp add: source_dp_def get_data_point_def reg_get_def dp_at_def [abs_def])

lemma pushed_data_point:
  assumes "reg_ok (st_dps s)"
  shows "reg_ok (st_dps (apply_value_changed u s))"
    and "k \<noteq> (vc_address u, vc_channel u, vc_parameter u) \<Longrightarrow> reg_get (st_dps (apply_value_changed u s)) k = reg_get (st_dps s) k"
    and "reg_get (st_dps s) (vc_address u, vc_channel u, vc_parameter u) = Some d \<Longrightarrow>
      \<exists>d'. reg_get (st_dps (apply_value_changed u s)) (vc_address u, vc_channel u, vc_parameter u) = Some d'
        \<and> entity_value d' = shown d (vc_value u) \<and> dp_value (do_summary d') = vc_value u"
proof -
  show "reg_ok (st_dps (apply_value_changed u s))" using assms by (simp add: apply_value_changed_def)
  show "k \<noteq> (vc_address u, vc_channel u, vc_parameter u) \<Longrightarrow> reg_get (st_dps (apply_value_changed u s)) k = reg_get (st_dps s) k"
    using assms by (simp add: apply_value_changed_def reg_get_modify)
  assume d: "reg_get (st_dps s) (vc_address u, vc_channel u, vc_parameter u) = Some d"
  let ?d = "clear_value_override (replace_dp_summary (pushed_summary u (do_summary d)) d)"
  have "reg_get (st_dps (apply_value_changed u s)) (vc_address u, vc_channel u, vc_parameter u) = Some ?d"
    using assms d by (simp add: apply_value_changed_def reg_get_modify)
  moreover have "do_override ?d = None" "dp_read_value ?d = vc_value u" "dp_value (do_summary ?d) = vc_value u"
    by (simp_all add: clear_value_override_def dp_read_value_def replace_dp_summary_def pushed_summary_def)
  moreover have "entity_value ?d = shown d (vc_value u)"
    using calculation(2,3)
    by (simp add: entity_value_def class_of_fields [OF pushed_fields(1)] shown_def binary_value_def generic_value_def)
  ultimately show "\<exists>d'. reg_get (st_dps (apply_value_changed u s)) (vc_address u, vc_channel u, vc_parameter u) = Some d'
        \<and> entity_value d' = shown d (vc_value u) \<and> dp_value (do_summary d') = vc_value u"
    by blast
qed

text \<open>A push that reports a write.\<close>

definition reports :: "write_back \<Rightarrow> value_changed \<Rightarrow> bool" where
  "reports wb u \<longleftrightarrow> wb = WriteValue (vc_address u) (vc_channel u) (vc_parameter u) (vc_value u) None"

text \<open>Fact: a duration that is written reads back as its whole seconds, whatever unit it was in, once the daemon reports
  both writes; in between, when only the unit has been reported, the old value reads as so many
  seconds: five minutes read as five seconds.\<close>

theorem combined_round_trip:
  assumes "reg_ok (st_dps s)"
    and "source_dp s a n ''DURATION_VALUE'' = Some dv" and "source_dp s a n ''DURATION_UNIT'' = Some du"
    and "combined_writes a n v = [w1, w2]" and "reports w1 u1" and "reports w2 u2"
    and "shown dv (JInt (whole v)) = JInt (whole v)" and "entity_value dv = JInt old"
  shows "combined_value as_float (apply_value_changed u1 s) a n = Duration (of_int old)
    \<and> combined_value as_float (apply_value_changed u2 (apply_value_changed u1 s)) a n = Duration (of_int (whole v))"
proof -
  have u1: "vc_address u1 = a" "vc_channel u1 = n" "vc_parameter u1 = ''DURATION_UNIT''" "vc_value u1 = JInt 0"
    and u2: "vc_address u2 = a" "vc_channel u2 = n" "vc_parameter u2 = ''DURATION_VALUE''" "vc_value u2 = JInt (whole v)"
    using assms(4-6) by (auto simp: combined_writes_def reports_def)
  let ?s1 = "apply_value_changed u1 s" and ?s2 = "apply_value_changed u2 (apply_value_changed u1 s)"
  obtain d1 where d1: "source_dp ?s1 a n ''DURATION_UNIT'' = Some d1" "dp_value (do_summary d1) = JInt 0"
    using pushed_data_point(3) [OF assms(1), of u1 du] assms(3) by (auto simp: source_dp_get u1)
  have v1: "source_dp ?s1 a n ''DURATION_VALUE'' = Some dv"
    using pushed_data_point(2) [OF assms(1), of "(a, n, ''DURATION_VALUE'')" u1] assms(2) by (simp add: source_dp_get u1)
  have ok1: "reg_ok (st_dps ?s1)" by (rule pushed_data_point(1) [OF assms(1)])
  obtain d2 where d2: "source_dp ?s2 a n ''DURATION_VALUE'' = Some d2" "entity_value d2 = JInt (whole v)"
    using pushed_data_point(3) [OF ok1, of u2 dv] v1 assms(7) by (auto simp: source_dp_get u2)
  have "source_dp ?s2 a n ''DURATION_UNIT'' = Some d1"
    using pushed_data_point(2) [OF ok1, of "(a, n, ''DURATION_UNIT'')" u2] d1 by (simp add: source_dp_get u2)
  then show ?thesis
    using d1 d2 v1 assms(8) by (simp add: combined_value_def duration_factor_def)
qed

definition demo_durations :: store where
  "demo_durations = (empty_store None 10)\<lparr>st_dps := \<lparr>
     reg_map = [((''D'', 4, ''DURATION_VALUE''), 0), ((''D'', 4, ''DURATION_UNIT''), 1)],
     reg_heap = [new_data_point (demo_dp ''DURATION_VALUE'' 5 5) ''D'' 4, new_data_point (demo_dp ''DURATION_UNIT'' 1 5) ''D'' 4]\<rparr>\<rparr>"

theorem combined_round_trip_witness:
  "\<exists>s1 s2. combined_value as_float demo_durations ''D'' 4 = Duration 300 \<and> combined_value as_float s1 ''D'' 4 = Duration 5
     \<and> combined_value as_float s2 ''D'' 4 = Duration 90"
proof -
  let ?v = "new_data_point (demo_dp ''DURATION_VALUE'' 5 5) ''D'' 4"
  let ?u = "new_data_point (demo_dp ''DURATION_UNIT'' 1 5) ''D'' 4"
  have dps: "source_dp demo_durations ''D'' 4 ''DURATION_VALUE'' = Some ?v" "source_dp demo_durations ''D'' 4 ''DURATION_UNIT'' = Some ?u"
    by (simp_all add: source_dp_get reg_get_def reg_ref_def demo_durations_def)
  have ok: "reg_ok (st_dps demo_durations)" by (auto simp: reg_ok_def demo_durations_def dict_ok_def reg_ref_def split: if_splits)
  have none: "dp_field ?v k = JNull" for k by (simp add: dp_field_def new_data_point_def demo_dp_def)
  have kind: "generic_class_of ?v = DpSensor"
    by (simp add: generic_class_of_def text_field_def none operation_flag_def resolve_generic_class_def Let_def value_list_def)
  have enum: "resolve_enum ?v = (\<lambda>x. x)" by (rule ext) (simp add: resolve_enum_def text_field_def none)
  have shown: "shown ?v (JInt (whole 90)) = JInt (whole 90)" by (simp add: shown_def kind enum)
  have "do_override ?v = None" "dp_read_value ?v = JInt 5" by (simp_all add: new_data_point_def demo_dp_def dp_read_value_def)
  then have reads: "entity_value ?v = JInt 5" by (simp add: entity_value_def kind generic_value_def enum)
  have "dp_value (do_summary ?u) = JInt 1" by (simp add: new_data_point_def demo_dp_def)
  then have before: "combined_value as_float demo_durations ''D'' 4 = Duration 300"
    by (simp add: combined_value_def dps reads duration_factor_def)
  have writes: "combined_writes ''D'' 4 90 = [WriteValue ''D'' 4 ''DURATION_UNIT'' (JInt 0) None,
      WriteValue ''D'' 4 ''DURATION_VALUE'' (JInt (whole 90)) None]"
    by (simp add: combined_writes_def)
  let ?p = "\<lambda>p x. \<lparr>vc_address = ''D'', vc_channel = 4, vc_parameter = p, vc_value = JInt x, vc_display_value = None,
     vc_modified_at = 8, vc_available = True\<rparr>"
  have "reports (WriteValue ''D'' 4 p (JInt x) None) (?p p x)" for p x by (simp add: reports_def)
  from combined_round_trip [OF ok dps writes this this shown reads] before show ?thesis
    by (auto simp: whole_def)
qed

end
