(* ===== verification/CentralSetup.thy ===== *)
theory CentralSetup
  imports Config WeekProfile
begin

text \<open>
  Setting up a central for Home Assistant (compat/aiohomematic/central/__init__.py, const.py and the reading of the
  system information in central/adapter.py): the keywords of \<open>CentralConfig\<close>, the credential they
  resolve to and the connection configuration built of them, the static pre-flight, the listing of
  the daemon's CCUs, and the record of what the CCU is and offers. The rule aiohomematic derives an
  offer from is an argument, as are the daemon's replies.
\<close>

section \<open>Keywords\<close>

datatype setup_error = SetupTypeError | SetupValueError

definition default_box_path_prefix :: string where "default_box_path_prefix = ''/addons/loom''"
definition default_base_path :: string where "default_base_path = ''/api/v1''"

record central_args =
  ca_central_name :: "string option"
  ca_host :: string
  ca_auth :: "auth_method option"
  ca_token :: "string option"
  ca_username :: "string option"
  ca_password :: "string option"
  ca_port :: "int option"
  ca_tls :: bool
  ca_verify_tls :: bool
  ca_serial :: "string option"
  ca_box_token :: "string option"
  ca_box_port :: "int option"
  ca_box_path_prefix :: "string option"
  ca_other :: "string list"

text \<open>Python's truth of an optional text.\<close>

definition given_some :: "string option \<Rightarrow> bool" where
  "given_some t \<longleftrightarrow> t \<noteq> None \<and> t \<noteq> Some []"

definition unknown_box_keywords :: "string list \<Rightarrow> string list" where
  "unknown_box_keywords ks = filter (starts_with ''box_'') ks"

definition build_box_ingress :: "string option \<Rightarrow> int option \<Rightarrow> string option \<Rightarrow> box_ingress_config option" where
  "build_box_ingress token port path = (case token of
       None \<Rightarrow> None
     | Some t \<Rightarrow> if t = [] then None
         else Some \<lparr>box_token = t, box_port = port,
           box_path_prefix = (case path of Some p \<Rightarrow> if p = [] then default_box_path_prefix else p | None \<Rightarrow> default_box_path_prefix)\<rparr>)"

definition resolve_auth ::
  "auth_method option \<Rightarrow> string option \<Rightarrow> string option \<Rightarrow> string option \<Rightarrow> bool \<Rightarrow> setup_error + auth_method" where
  "resolve_auth auth token username password box_mode =
     (if box_mode then
        if auth \<noteq> None \<or> given_some token \<or> given_some username then Inl SetupValueError else Inr NoAuth
      else case auth of
        Some m \<Rightarrow> Inr m
      | None \<Rightarrow>
          (case token of
             Some (c # cs) \<Rightarrow> Inr (BearerAuth (c # cs) ''bearer'')
           | _ \<Rightarrow> (case (username, password) of
                 (Some (c # cs), Some p) \<Rightarrow> Inr (BasicAuth (c # cs) p)
               | _ \<Rightarrow> Inl SetupValueError)))"

record central_config =
  cc_name :: string
  cc_args :: central_args
  cc_box_ingress :: "box_ingress_config option"
  cc_auth :: auth_method

definition central_config_init :: "central_args \<Rightarrow> setup_error + central_config" where
  "central_config_init a =
     (if unknown_box_keywords (ca_other a) \<noteq> [] then Inl SetupTypeError
      else let box = build_box_ingress (ca_box_token a) (ca_box_port a) (ca_box_path_prefix a) in
        case resolve_auth (ca_auth a) (ca_token a) (ca_username a) (ca_password a) (box \<noteq> None) of
          Inl e \<Rightarrow> Inl e
        | Inr m \<Rightarrow> Inr \<lparr>cc_name = (case ca_central_name a of Some n \<Rightarrow> if n = [] then ca_host a else n | None \<Rightarrow> ca_host a),
            cc_args = a, cc_box_ingress = box, cc_auth = m\<rparr>)"

definition loom_config_of ::
  "string \<Rightarrow> int option \<Rightarrow> bool \<Rightarrow> bool \<Rightarrow> auth_method \<Rightarrow> box_ingress_config option \<Rightarrow> string option \<Rightarrow> loom_config" where
  "loom_config_of host port tls verify m box base = \<lparr>cfg_host = host, cfg_auth = m, cfg_port = port, cfg_tls = tls, cfg_verify_tls = verify,
     cfg_base_path = (case base of None \<Rightarrow> default_base_path | Some b \<Rightarrow> b), cfg_request_timeout = 30, cfg_extra_headers = [],
     cfg_user_agent = ''openccu-loom-client'', cfg_released_only = True, cfg_readiness_wait = 180, cfg_box_ingress = box\<rparr>"

text \<open>\<open>create_central\<close>: the connection configuration, checked by its own constructor, and the name and serial of the adapter.\<close>

definition create_central :: "central_config \<Rightarrow> config_error + loom_config \<times> string \<times> string option" where
  "create_central c =
     (let a = cc_args c in
      case config_post_init (loom_config_of (ca_host a) (ca_port a) (ca_tls a) (ca_verify_tls a) (cc_auth c) (cc_box_ingress c) None) of
        Inl e \<Rightarrow> Inl e | Inr cfg \<Rightarrow> Inr (cfg, cc_name c, ca_serial a))"

section \<open>The pre-flight and the listing\<close>

datatype check_failure = CentralNameRequired | HostRequired | UsernameEmpty | BoxTokenRequired

definition check_config ::
  "string \<Rightarrow> string \<Rightarrow> string option \<Rightarrow> string option \<Rightarrow> int option \<Rightarrow> string option \<Rightarrow> string list \<Rightarrow> setup_error + check_failure list" where
  "check_config cname host username token port path other =
     (if unknown_box_keywords other \<noteq> [] then Inl SetupTypeError
      else Inr ((if cname = [] then [CentralNameRequired] else []) @ (if host = [] then [HostRequired] else [])
        @ (if username = Some [] then [UsernameEmpty] else [])
        @ (if \<not> given_some token \<and> (port \<noteq> None \<or> given_some path) then [BoxTokenRequired] else [])))"

datatype listing_step = Connects loom_config | ReadsCcus | Closes

text \<open>The client is closed on every way out once it is built.\<close>

definition list_ccus ::
  "string \<Rightarrow> string option \<Rightarrow> int option \<Rightarrow> bool \<Rightarrow> bool \<Rightarrow> string option \<Rightarrow> string option \<Rightarrow> int option \<Rightarrow> string option
     \<Rightarrow> unit reply_of \<Rightarrow> 'c list reply_of \<Rightarrow> listing_step list \<times> (setup_error + exc + 'c list)" where
  "list_ccus host token port tls verify base box_tok box_prt box_prefix greeted ccus =
     (let box = build_box_ingress box_tok box_prt box_prefix in
      if box \<noteq> None \<and> given_some token then ([], Inl SetupValueError)
      else let m = (if box \<noteq> None then NoAuth else BearerAuth (case token of None \<Rightarrow> [] | Some t \<Rightarrow> t) ''bearer'') in
        case config_post_init (loom_config_of host port tls verify m box base) of
          Inl e \<Rightarrow> ([], Inl SetupValueError)
        | Inr cfg \<Rightarrow>
            (case greeted of
               Fault e \<Rightarrow> ([Connects cfg, Closes], Inr (Inl e))
             | Got u \<Rightarrow> ([Connects cfg, ReadsCcus, Closes], Inr (case ccus of Got cs \<Rightarrow> Inr cs | Fault e \<Rightarrow> Inl e))))"

section \<open>System information\<close>

datatype ccu_type = CcuType | OpenCcuType | OpenCcuLiteType | UnknownCcuType

definition ccu_type_for_central :: "string option \<Rightarrow> string option \<Rightarrow> ccu_type" where
  "ccu_type_for_central system_type model =
     (let token = (\<lambda>t. map lower_char (py_strip (case t of None \<Rightarrow> [] | Some s \<Rightarrow> s))) in
      if token system_type = ''openccu-lite'' then OpenCcuLiteType
      else if token model = ''openccu'' then OpenCcuType
      else if token model = ''ccu'' then CcuType
      else UnknownCcuType)"

record system_information =
  si_serial :: "string option"
  si_version :: string
  si_interfaces :: "string list"
  si_hostname :: string
  si_is_ha_app :: bool
  si_auth_enabled :: "bool option"
  si_https_redirect :: "bool option"
  si_ccu_type :: ccu_type
  si_backup :: "bool option"
  si_system_update :: "bool option"

definition has_backup :: "(system_information \<Rightarrow> bool) \<Rightarrow> system_information \<Rightarrow> bool" where
  "has_backup type_rule i = (case si_backup i of Some b \<Rightarrow> b | None \<Rightarrow> type_rule i)"

definition has_system_update :: "(system_information \<Rightarrow> bool) \<Rightarrow> system_information \<Rightarrow> bool" where
  "has_system_update type_rule i = (case si_system_update i of Some b \<Rightarrow> b \<and> \<not> si_is_ha_app i | None \<Rightarrow> type_rule i)"

definition or_empty_text :: "string option \<Rightarrow> string" where
  "or_empty_text t = (case t of None \<Rightarrow> [] | Some s \<Rightarrow> s)"

definition blank_system_information :: system_information where
  "blank_system_information = \<lparr>si_serial = None, si_version = [], si_interfaces = [], si_hostname = [], si_is_ha_app = False,
     si_auth_enabled = None, si_https_redirect = None, si_ccu_type = UnknownCcuType, si_backup = None, si_system_update = None\<rparr>"

record ccu_info =
  ci_name :: "string option"
  ci_serial :: "string option"
  ci_version :: "string option"
  ci_hostname :: "string option"
  ci_is_ha_app :: bool
  ci_auth_enabled :: "bool option"
  ci_https_redirect :: "bool option"
  ci_system_type :: "string option"
  ci_model :: "string option"
  ci_features :: "(string, bool) dict option"

definition feature_available :: "(string, bool) dict \<Rightarrow> string \<Rightarrow> bool option" where
  "feature_available fs k = dict_get fs k"

definition own_ccu :: "string \<Rightarrow> ccu_info list \<Rightarrow> ccu_info option" where
  "own_ccu name cs = (case find (\<lambda>c. ci_name c = Some name) cs of
       Some c \<Rightarrow> Some c | None \<Rightarrow> (case cs of c # rest \<Rightarrow> Some c | [] \<Rightarrow> None))"

definition serial_of :: "string option \<Rightarrow> ccu_info option \<Rightarrow> string option" where
  "serial_of injected c = (if given_some injected then injected else case c of None \<Rightarrow> None | Some x \<Rightarrow> ci_serial x)"

definition system_information_of :: "string option \<Rightarrow> string \<Rightarrow> ccu_info option \<Rightarrow> string list \<Rightarrow> system_information" where
  "system_information_of injected daemon_version c interfaces =
     (let features = (case c of None \<Rightarrow> [] | Some x \<Rightarrow> (case ci_features x of None \<Rightarrow> [] | Some fs \<Rightarrow> fs));
          ccu_version = (case c of None \<Rightarrow> None | Some x \<Rightarrow> ci_version x)
      in \<lparr>si_serial = serial_of injected c,
          si_version = (if given_some ccu_version then the ccu_version else daemon_version),
          si_interfaces = interfaces,
          si_hostname = (case c of None \<Rightarrow> [] | Some x \<Rightarrow> or_empty_text (ci_hostname x)),
          si_is_ha_app = (case c of None \<Rightarrow> False | Some x \<Rightarrow> ci_is_ha_app x),
          si_auth_enabled = (case c of None \<Rightarrow> None | Some x \<Rightarrow> ci_auth_enabled x),
          si_https_redirect = (case c of None \<Rightarrow> None | Some x \<Rightarrow> ci_https_redirect x),
          si_ccu_type = (case c of None \<Rightarrow> UnknownCcuType | Some x \<Rightarrow> ccu_type_for_central (ci_system_type x) (ci_model x)),
          si_backup = feature_available features ''system.backup.create'',
          si_system_update = feature_available features ''hub.system_update.install''\<rparr>)"

text \<open>The adapter's own part: the information, whether one was read, and the serial the store was given.\<close>

record info_reader =
  ir_info :: system_information
  ir_read :: bool
  ir_store_serial :: "string option"

record info_replies =
  ip_info :: "string reply_of"
  ip_ccus :: "ccu_info list reply_of"
  ip_interfaces :: "string list reply_of"

type_synonym info_change = "system_information \<times> system_information"

text \<open>\<open>except Exception\<close>: a failed optional read reads as nothing, a cancellation goes through.\<close>

definition optional_read :: "'x list reply_of \<Rightarrow> exc + 'x list" where
  "optional_read r = (case r of Got xs \<Rightarrow> Inr xs | Fault e \<Rightarrow> if any_exception e then Inr [] else Inl e)"

definition refresh_system_information ::
  "string \<Rightarrow> string option \<Rightarrow> info_replies \<Rightarrow> info_reader \<Rightarrow> exc option \<times> info_change list \<times> info_reader" where
  "refresh_system_information name injected ip r =
     (case ip_info ip of
        Fault e \<Rightarrow> (Some e, [], r)
      | Got version \<Rightarrow>
          (case optional_read (ip_ccus ip) of
             Inl e \<Rightarrow> (Some e, [], r)
           | Inr ccus \<Rightarrow>
               (let c = own_ccu name ccus; r1 = r\<lparr>ir_store_serial := serial_of injected c\<rparr> in
                case optional_read (ip_interfaces ip) of
                  Inl e \<Rightarrow> (Some e, [], r1)
                | Inr ifs \<Rightarrow>
                    (let current = system_information_of injected version c ifs; previous = ir_info r in
                     (None, if ir_read r \<and> current \<noteq> previous then [(previous, current)] else [],
                      r1\<lparr>ir_info := current, ir_read := True\<rparr>)))))"

section \<open>What the setup guarantees\<close>

lemma config_checked:
  "config_post_init c = (if cfg_box_ingress c \<noteq> None \<and> cfg_auth c \<noteq> NoAuth then Inl ValueError
     else Inr (c\<lparr>cfg_port := Some (case cfg_port c of Some p \<Rightarrow> p
       | None \<Rightarrow> if cfg_tls c then default_https_port else default_http_port)\<rparr>))"
  by (cases c) (simp add: config_post_init_def Let_def split: option.split)

text \<open>C35: keywords that \<open>CentralConfig\<close> accepts always build a central, with the one credential they name. Whatever
  combination is accepted, no box keyword was left over, the connection configuration passes its own
  check, behind a box it carries the box token and no credential of the daemon's beside it, and
  otherwise the credential is the auth method given, else the token, else the user with a password.\<close>

theorem accepted_keywords_connect:
  "case central_config_init a of
     Inl e \<Rightarrow> e = (if unknown_box_keywords (ca_other a) = [] then SetupValueError else SetupTypeError)
   | Inr c \<Rightarrow> unknown_box_keywords (ca_other a) = []
       \<and> (case create_central c of
            Inl e \<Rightarrow> False
          | Inr (cfg, name, serial) \<Rightarrow>
              (case cfg_box_ingress cfg of
                 Some b \<Rightarrow> cfg_auth cfg = NoAuth \<and> Some (box_token b) = ca_box_token a \<and> ca_auth a = None
                   \<and> \<not> given_some (ca_token a) \<and> \<not> given_some (ca_username a)
               | None \<Rightarrow> \<not> given_some (ca_box_token a)
                   \<and> (case ca_auth a of
                        Some m \<Rightarrow> cfg_auth cfg = m
                      | None \<Rightarrow> if given_some (ca_token a) then cfg_auth cfg = BearerAuth (the (ca_token a)) ''bearer''
                          else given_some (ca_username a) \<and> ca_password a \<noteq> None
                            \<and> cfg_auth cfg = BasicAuth (the (ca_username a)) (the (ca_password a)))))"
proof (cases "unknown_box_keywords (ca_other a) = []")
  case known: True
  show ?thesis
  proof (cases "given_some (ca_box_token a)")
    case True
    then obtain x xs where box: "ca_box_token a = Some (x # xs)" by (auto simp: given_some_def neq_Nil_conv)
    show ?thesis
      by (cases "ca_auth a = None \<and> \<not> given_some (ca_token a) \<and> \<not> given_some (ca_username a)")
        (auto simp: central_config_init_def known box build_box_ingress_def resolve_auth_def create_central_def
          config_checked loom_config_of_def Let_def)
  next
    case False
    then have none: "build_box_ingress (ca_box_token a) port path = None" for port path
      by (auto simp: given_some_def build_box_ingress_def)
    have credential: "resolve_auth (ca_auth a) (ca_token a) (ca_username a) (ca_password a) False =
      (case ca_auth a of
         Some m \<Rightarrow> Inr m
       | None \<Rightarrow> if given_some (ca_token a) then Inr (BearerAuth (the (ca_token a)) ''bearer'')
           else if given_some (ca_username a) \<and> ca_password a \<noteq> None
             then Inr (BasicAuth (the (ca_username a)) (the (ca_password a))) else Inl SetupValueError)"
      by (auto simp: resolve_auth_def given_some_def split: option.splits list.splits)
    show ?thesis
      by (auto simp: central_config_init_def known none credential create_central_def config_checked loom_config_of_def
          Let_def False split: option.split)
  qed
qed (simp add: central_config_init_def)

text \<open>Fact: the pre-flight does not see a missing credential: without a token, a user or an auth method it reports nothing,
  and the same keywords are refused by the configuration they are meant for.\<close>

theorem preflight_misses_credential:
  assumes "ca_central_name a = Some (c # cs)" and "ca_host a \<noteq> []" and "ca_auth a = None" and "ca_token a = None"
    and "ca_username a = None" and "ca_box_token a = None" and "ca_box_port a = None" and "ca_box_path_prefix a = None"
    and "unknown_box_keywords (ca_other a) = []"
  shows "check_config (c # cs) (ca_host a) (ca_username a) (ca_box_token a) (ca_box_port a) (ca_box_path_prefix a) (ca_other a)
      = Inr []
    \<and> central_config_init a = Inl SetupValueError"
  using assms by (simp add: check_config_def central_config_init_def build_box_ingress_def resolve_auth_def Let_def given_some_def)

section \<open>System information over time\<close>

fun read_each :: "string \<Rightarrow> string option \<Rightarrow> info_replies list \<Rightarrow> info_reader \<Rightarrow> info_change list" where
  "read_each name injected [] r = []"
| "read_each name injected (ip # ips) r = (case refresh_system_information name injected ip r of
     (e, evs, r') \<Rightarrow> evs @ read_each name injected ips r')"

definition info_of_read :: "string \<Rightarrow> string option \<Rightarrow> info_replies \<Rightarrow> system_information option" where
  "info_of_read name injected ip = (case (ip_info ip, optional_read (ip_ccus ip), optional_read (ip_interfaces ip)) of
       (Got version, Inr ccus, Inr ifs) \<Rightarrow> Some (system_information_of injected version (own_ccu name ccus) ifs)
     | _ \<Rightarrow> None)"

definition changes :: "'x list \<Rightarrow> ('x \<times> 'x) list" where
  "changes xs = filter (\<lambda>(x, y). x \<noteq> y) (zip xs (tl xs))"

lemma changes_simps [simp]:
  "changes [] = []" "changes [x] = []"
  "changes (x # y # zs) = (if x \<noteq> y then [(x, y)] else []) @ changes (y # zs)"
  by (simp_all add: changes_def)

lemma refresh_none:
  assumes "info_of_read name injected ip = None"
  shows "\<exists>e r'. refresh_system_information name injected ip r = (e, [], r') \<and> ir_read r' = ir_read r \<and> ir_info r' = ir_info r"
  using assms
  by (cases "ip_info ip"; cases "optional_read (ip_ccus ip)"; cases "optional_read (ip_interfaces ip)")
    (simp_all add: refresh_system_information_def info_of_read_def Let_def)

lemma refresh_some:
  assumes "info_of_read name injected ip = Some i"
  shows "\<exists>r'. refresh_system_information name injected ip r
      = (None, if ir_read r \<and> i \<noteq> ir_info r then [(ir_info r, i)] else [], r') \<and> ir_read r' \<and> ir_info r' = i"
  using assms
  by (cases "ip_info ip"; cases "optional_read (ip_ccus ip)"; cases "optional_read (ip_interfaces ip)")
    (simp_all add: refresh_system_information_def info_of_read_def Let_def)

lemma read_each_after_read:
  "ir_read r \<Longrightarrow> read_each name injected ips r = changes (ir_info r # List.map_filter (info_of_read name injected) ips)"
proof (induction ips arbitrary: r)
  case (Cons ip ips)
  show ?case
  proof (cases "info_of_read name injected ip")
    case None
    then obtain e r' where "refresh_system_information name injected ip r = (e, [], r')" "ir_read r' = ir_read r" "ir_info r' = ir_info r"
      using refresh_none by blast
    then show ?thesis using Cons.IH [of r'] Cons.prems None by (simp add: map_filter_simps)
  next
    case (Some i)
    then obtain r' where "refresh_system_information name injected ip r = (None, if i \<noteq> ir_info r then [(ir_info r, i)] else [], r')"
      "ir_read r'" "ir_info r' = i"
      using refresh_some [OF Some, of r] Cons.prems by auto
    then show ?thesis using Cons.IH [of r'] Some by (auto simp: map_filter_simps)
  qed
qed (simp add: map_filter_simps)

text \<open>C34: Home Assistant hears of every change of the system information and of nothing else. Over any sequence of reads by
  an adapter that has read none yet, with whatever failures in between, the changes announced are
  those between one read that completed and the next, each with the value before and the value
  after; the first read announces nothing.\<close>

theorem info_changes_exact:
  assumes "\<not> ir_read r"
  shows "read_each name injected ips r = changes (List.map_filter (info_of_read name injected) ips)"
  using assms
proof (induction ips arbitrary: r)
  case (Cons ip ips)
  show ?case
  proof (cases "info_of_read name injected ip")
    case None
    then obtain e r' where "refresh_system_information name injected ip r = (e, [], r')" "ir_read r' = ir_read r"
      using refresh_none by blast
    then show ?thesis using Cons.IH [of r'] Cons.prems None by (simp add: map_filter_simps)
  next
    case (Some i)
    then obtain r' where "refresh_system_information name injected ip r = (None, [], r')" "ir_read r'" "ir_info r' = i"
      using refresh_some [OF Some, of r] Cons.prems by auto
    then show ?thesis using read_each_after_read [of r' name injected ips] Some by (simp add: map_filter_simps)
  qed
qed (simp add: map_filter_simps)

definition demo_ccu :: ccu_info where
  "demo_ccu = \<lparr>ci_name = Some ''own'', ci_serial = Some ''S'', ci_version = Some ''3.87'', ci_hostname = None, ci_is_ha_app = False,
     ci_auth_enabled = None, ci_https_redirect = None, ci_system_type = None, ci_model = None, ci_features = None\<rparr>"

theorem info_changes_exact_witness:
  "let reply = (\<lambda>cs. \<lparr>ip_info = Got ''0.1'', ip_ccus = Got cs, ip_interfaces = Got []\<rparr>);
       failing = \<lparr>ip_info = Fault OtherError, ip_ccus = Got [], ip_interfaces = Got []\<rparr>;
       unread = \<lparr>ir_info = blank_system_information, ir_read = False, ir_store_serial = None\<rparr>
   in map (\<lambda>(x, y). (si_version x, si_version y)) (read_each ''own'' None [failing, reply [], reply [demo_ccu], failing, reply [demo_ccu]] unread)
    = [(''0.1'', ''3.87'')]"
proof -
  let ?u = "\<lparr>ir_info = blank_system_information, ir_read = False, ir_store_serial = None\<rparr>"
  have "\<not> ir_read ?u" by simp
  from info_changes_exact [OF this] show ?thesis
    by (simp add: Let_def map_filter_simps info_of_read_def optional_read_def own_ccu_def demo_ccu_def system_information_of_def
        given_some_def del: read_each.simps)
qed

end
