(* ===== verification/AdapterApi.thy ===== *)
theory AdapterApi
  imports WeekProfile Pairing "HOL-Library.Word"
begin

unbundle bit_operations_syntax

text \<open>
  The surfaces of the compatibility layer that forward to the daemon (compat/aiohomematic/central/adapter.py, its
  state_paths.py, model/device_client.py): state paths, paramsets and their descriptions, direct
  links, messages, incidents, the rename and the backup. A method is the calls it makes and its
  outcome, as a function of the daemon's replies; the validation of a paramset is aiohomematic's and
  an argument.
\<close>

type_synonym 'a told = "api_call list \<times> (exc + 'a)"

section \<open>State paths\<close>

definition device_state_path :: "string \<Rightarrow> int \<Rightarrow> string \<Rightarrow> string" where
  "device_state_path addr n p = ''device/status/'' @ upper addr @ ''/'' @ show_int n @ ''/'' @ upper p"

definition sysvar_state_path :: "string \<Rightarrow> string" where
  "sysvar_state_path n = ''sysvar/status/'' @ n"

definition parse_device_state_path :: "string \<Rightarrow> (string \<times> int \<times> string) option" where
  "parse_device_state_path path = (case split_slash path of
       [d, s, a, n, p] \<Rightarrow>
         if d \<noteq> ''device'' \<or> s \<noteq> ''status'' \<or> n = [] \<or> \<not> list_all is_digit_char n then None
         else map_option (\<lambda>k. (a, k, p)) (python_int n)
     | _ \<Rightarrow> None)"

definition parse_sysvar_state_path :: "string \<Rightarrow> string option" where
  "parse_sysvar_state_path path =
     (if starts_with ''sysvar/status/'' path then Some (drop (length ''sysvar/status/'') path) else None)"

definition get_generic_data_point :: "string \<Rightarrow> store \<Rightarrow> oid option" where
  "get_generic_data_point path s = (case parse_device_state_path path of
       None \<Rightarrow> None | Some (a, n, p) \<Rightarrow> get_data_point a n p s)"

definition get_state_paths :: "store \<Rightarrow> string list" where
  "get_state_paths s = map (\<lambda>i. let d = reg_heap (st_dps s) ! i in
     device_state_path (do_address d) (do_channel d) (dp_parameter (do_summary d))) (data_points s)"

section \<open>Channel addresses and paramsets\<close>

text \<open>\<open>int\<close> of a channel part that is not a number raises.\<close>

definition split_channel_address :: "string \<Rightarrow> (string \<times> int) option" where
  "split_channel_address ca = (case partition_colon ca of (device, sep, channel) \<Rightarrow>
     if channel = [] then Some (device, 0) else map_option (Pair device) (python_int channel))"

definition raising :: "'a told" where
  "raising = ([], Inl OtherError)"

definition single :: "api_call \<Rightarrow> ('b \<Rightarrow> 'a) \<Rightarrow> 'b reply_of \<Rightarrow> 'a told" where
  "single c f r = ([c], case r of Got x \<Rightarrow> Inr (f x) | Fault e \<Rightarrow> Inl e)"

definition adapter_get_paramset :: "string \<Rightarrow> string option \<Rightarrow> string option \<Rightarrow> (string \<times> json) list reply_of \<Rightarrow> (string \<times> json) list told" where
  "adapter_get_paramset token channel_address addr r =
     (case (case channel_address of Some a \<Rightarrow> Some a | None \<Rightarrow> addr) of
        None \<Rightarrow> raising
      | Some a \<Rightarrow> single (Dp (GetParamset a token)) id r)"

text \<open>
  The description of a paramset from the daemon's ui-schema. An attribute read off a value that is neither a
  dictionary nor falsy raises; so does an option without a key; several options whose
  \<open>value\<close> is no number are taken to have no order, which raises too.
\<close>

definition dict_or_empty :: "json \<Rightarrow> (string, json) dict option" where
  "dict_or_empty j = (if \<not> json_truth j then Some [] else case j of JObj d \<Rightarrow> Some d | _ \<Rightarrow> None)"

definition mask :: "(int \<times> string) list \<Rightarrow> (string, json) dict \<Rightarrow> int" where
  "mask bits d = foldl (\<lambda>m (b, k). m OR (if json_truth (obj_get d k) then b else 0)) 0 bits"

definition operations_mask :: "(string, json) dict \<Rightarrow> int" where
  "operations_mask = mask [(1, ''read''), (2, ''write''), (4, ''event'')]"

definition flags_mask :: "(string, json) dict \<Rightarrow> int" where
  "flags_mask = mask [(1, ''visible''), (2, ''internal''), (8, ''service'')]"

definition option_entry :: "json \<Rightarrow> (rat option \<times> json) option" where
  "option_entry j = (case j of
       JObj d \<Rightarrow> (case dict_get d ''key'' of
           None \<Rightarrow> None
         | Some k \<Rightarrow> Some (as_float (case dict_get d ''value'' of None \<Rightarrow> JInt 0 | Some v \<Rightarrow> v), k))
     | _ \<Rightarrow> None)"

definition ordered_keys :: "json list \<Rightarrow> json list option" where
  "ordered_keys js = (case all_of option_entry js of
       None \<Rightarrow> None
     | Some es \<Rightarrow>
         if length es \<le> 1 then Some (map snd es)
         else if list_ex (\<lambda>e. fst e = None) es then None else Some (map snd (sort_key (\<lambda>e. the (fst e)) es)))"

definition carried_keys :: "(string \<times> string) list" where
  "carried_keys = [(''min'', ''MIN''), (''max'', ''MAX''), (''default'', ''DEFAULT''), (''unit'', ''UNIT'')]"

definition carried :: "(string, json) dict \<Rightarrow> (string \<times> json) list" where
  "carried d = List.map_filter (\<lambda>(w, k). case obj_get d w of JNull \<Rightarrow> None | v \<Rightarrow> Some (k, v)) carried_keys"

definition parameter_data :: "json \<Rightarrow> (string, json) dict \<Rightarrow> (string \<times> json) list option" where
  "parameter_data name d =
     (case (dict_or_empty (obj_get d ''operations''), dict_or_empty (obj_get d ''flags'')) of
        (Some ops, Some flags) \<Rightarrow>
          map_option (\<lambda>options. [(''ID'', name), (''TYPE'', obj_get d ''type''), (''OPERATIONS'', JInt (operations_mask ops)),
              (''FLAGS'', JInt (flags_mask flags))] @ carried d @ options)
            (case obj_get d ''value_list'' of
               JArr (j # js) \<Rightarrow> map_option (\<lambda>ks. [(''VALUE_LIST'', JArr ks)]) (ordered_keys (j # js))
             | v \<Rightarrow> if json_truth v then None else Some [])
      | _ \<Rightarrow> None)"

fun parameters_each :: "json list \<Rightarrow> (string, (string \<times> json) list) dict \<Rightarrow> (string, (string \<times> json) list) dict option" where
  "parameters_each [] acc = Some acc"
| "parameters_each (j # js) acc = (case j of
       JObj d \<Rightarrow>
         (let name = obj_get d ''name'' in
          if \<not> json_truth name then parameters_each js acc
          else case name of
            JStr n \<Rightarrow> (case parameter_data name d of None \<Rightarrow> None | Some p \<Rightarrow> parameters_each js (dict_put n p acc))
          | _ \<Rightarrow> None)
     | _ \<Rightarrow> None)"

definition ui_schema_to_parameter_data :: "(string, json) dict \<Rightarrow> (string, (string \<times> json) list) dict option" where
  "ui_schema_to_parameter_data schema = (case obj_get schema ''parameters'' of
       JArr js \<Rightarrow> parameters_each js []
     | v \<Rightarrow> if json_truth v then None else Some [])"

type_synonym descriptions = "(string, (string \<times> json) list) dict"

definition described :: "(string, json) dict reply_of \<Rightarrow> exc + descriptions" where
  "described r = (case r of
       Fault e \<Rightarrow> Inl e
     | Got schema \<Rightarrow> (case ui_schema_to_parameter_data schema of None \<Rightarrow> Inl OtherError | Some ds \<Rightarrow> Inr ds))"

definition get_paramset_description ::
  "string \<Rightarrow> string \<Rightarrow> string option \<Rightarrow> string \<Rightarrow> bool option \<Rightarrow> (string, json) dict reply_of \<Rightarrow> descriptions told" where
  "get_paramset_description ca token peer locale expert r = (case split_channel_address ca of
       None \<Rightarrow> raising
     | Some (device, channel) \<Rightarrow> ([DeviceConfig (GetUiSchema device channel token peer locale expert)], described r))"

definition get_link_paramset_description ::
  "string \<Rightarrow> string \<Rightarrow> string \<Rightarrow> bool option \<Rightarrow> (string, json) dict reply_of \<Rightarrow> descriptions told" where
  "get_link_paramset_description ca peer locale expert r = get_paramset_description ca ''LINK'' (Some peer) locale expert r"

record put_result =
  pr_success :: bool
  pr_validated :: bool
  pr_errors :: "(string \<times> string) list"

text \<open>
  The locale of the validating read is the default. The reply to the write does not matter but for its failure.
\<close>

definition put_paramset ::
  "(descriptions \<Rightarrow> (string \<times> json) list \<Rightarrow> (string \<times> string) list) \<Rightarrow> bool \<Rightarrow> string \<Rightarrow> string \<Rightarrow> (string \<times> json) list
     \<Rightarrow> (string, json) dict reply_of \<Rightarrow> unit reply_of \<Rightarrow> put_result told" where
  "put_paramset failures_of validate ca token vals schema written =
     (let write = single (Dp (PutParamset ca token vals)) (\<lambda>u. \<lparr>pr_success = True, pr_validated = validate, pr_errors = []\<rparr>) written
      in if \<not> validate then write
         else case get_paramset_description ca token None ''en'' None schema of
           (cs, Inl e) \<Rightarrow> (cs, Inl e)
         | (cs, Inr ds) \<Rightarrow>
             (case failures_of ds vals of
                [] \<Rightarrow> (cs @ fst write, snd write)
              | fs \<Rightarrow> (cs, Inr \<lparr>pr_success = False, pr_validated = True, pr_errors = fs\<rparr>)))"

section \<open>The client of a device\<close>

definition paramset_keys :: "string list" where
  "paramset_keys = [''MASTER'', ''VALUES'', ''LINK'', ''SERVICE'']"

definition client_set_value :: "string \<Rightarrow> string \<Rightarrow> json \<Rightarrow> unit reply_of \<Rightarrow> unit told" where
  "client_set_value ca p v r = (case split_channel_address ca of
       None \<Rightarrow> raising | Some (a, c) \<Rightarrow> single (Dp (SetValue a c p v None)) id r)"

text \<open>The batch answers with the item's value, or with what went wrong with it.\<close>

definition item_value :: "json option \<Rightarrow> json" where
  "item_value j = (case j of
       None \<Rightarrow> JNull
     | Some (JObj d) \<Rightarrow> if dict_get d ''error'' = None then JObj d else JNull
     | Some v \<Rightarrow> v)"

definition client_get_value :: "string \<Rightarrow> string \<Rightarrow> (string \<times> int \<times> string, json) dict reply_of \<Rightarrow> json told" where
  "client_get_value ca p r = (case split_channel_address ca of
       None \<Rightarrow> raising
     | Some (a, c) \<Rightarrow> single (Dp (BatchRead [(a, c, p)])) (\<lambda>d. item_value (dict_get d (a, c, p))) r)"

definition client_get_paramset :: "string \<Rightarrow> string \<Rightarrow> (string \<times> json) list reply_of \<Rightarrow> (string \<times> json) list told" where
  "client_get_paramset ca token r = single
     (if token \<in> set paramset_keys then Dp (GetParamset ca token) else Link (GetLinkParamset ca token)) id r"

definition client_put_paramset ::
  "string \<Rightarrow> (string \<times> json) list \<Rightarrow> string option \<Rightarrow> string option \<Rightarrow> unit reply_of \<Rightarrow> unit told" where
  "client_put_paramset ca vals key key_or_link r =
     (case (case key_or_link of Some k \<Rightarrow> Some k | None \<Rightarrow> key) of
        None \<Rightarrow> raising
      | Some token \<Rightarrow> single (if token \<in> set paramset_keys then Dp (PutParamset ca token vals)
          else Link (PutLinkParamset ca token vals)) id r)"

record link_ends =
  le_sender :: string
  le_receiver :: string

definition peer_of :: "string \<Rightarrow> link_ends \<Rightarrow> string option" where
  "peer_of ca l = (if le_sender l = ca then Some (le_receiver l) else if le_receiver l = ca then Some (le_sender l) else None)"

definition client_link_peers :: "string \<Rightarrow> string \<Rightarrow> link_ends list reply_of \<Rightarrow> string list told" where
  "client_link_peers device ca r = single (Link (ListLinks device ''en'')) (List.map_filter (peer_of ca)) r"

section \<open>Direct links\<close>

text \<open>A refusal of the daemon is the answer False; an address without a number raises before the call.\<close>

definition unless_refused :: "api_call \<Rightarrow> unit reply_of \<Rightarrow> bool told" where
  "unless_refused c r = ([c], case r of
       Got u \<Rightarrow> Inr True | Fault e \<Rightarrow> if loom_exc BaseLoomException e then Inr False else Inl e)"

definition link_add :: "string \<Rightarrow> string \<Rightarrow> string \<Rightarrow> string \<Rightarrow> unit reply_of \<Rightarrow> bool told" where
  "link_add sender receiver name description r = (case split_channel_address sender of
       None \<Rightarrow> raising
     | Some (device, c) \<Rightarrow> unless_refused (Link (AddLink device sender receiver
         (Some (if name = [] then sender @ '' -> '' @ receiver else name)) (Some description))) r)"

definition link_remove :: "string \<Rightarrow> string \<Rightarrow> unit reply_of \<Rightarrow> bool told" where
  "link_remove sender receiver r = (case split_channel_address sender of
       None \<Rightarrow> raising | Some (device, c) \<Rightarrow> unless_refused (Link (RemoveLink device sender receiver)) r)"

section \<open>Messages, renames and incidents\<close>

definition acknowledge_message :: "string \<Rightarrow> unit reply_of \<Rightarrow> unit reply_of \<Rightarrow> bool told" where
  "acknowledge_message i service alarm = (case service of
       Got u \<Rightarrow> ([Message (AckServiceMessage i)], Inr True)
     | Fault e \<Rightarrow>
         if \<not> loom_exc LoomHttpError e then ([Message (AckServiceMessage i)], Inl e)
         else ([Message (AckServiceMessage i), Message (AckAlarmMessage i)],
               case alarm of Got u \<Rightarrow> Inr True | Fault e' \<Rightarrow> Inl e'))"

definition accept_device_in_inbox :: "string \<Rightarrow> string option \<Rightarrow> unit reply_of \<Rightarrow> bool told" where
  "accept_device_in_inbox a n r = single
     (DeviceConfig (AcceptDevice a (case n of None \<Rightarrow> None | Some t \<Rightarrow> if t = [] then None else Some t) None None None)) (\<lambda>u. True) r"

definition release_device_in_inbox :: "string \<Rightarrow> unit reply_of \<Rightarrow> bool told" where
  "release_device_in_inbox a r = single (DeviceConfig (ReleaseDevice a)) (\<lambda>u. True) r"

definition device_ise_id :: "device_obj \<Rightarrow> json" where
  "device_ise_id d = (case ds_rest (dv_summary d) of JObj r \<Rightarrow> obj_get r ''ise_id'' | _ \<Rightarrow> JNull)"

text \<open>The error of an unknown id is the one given: the code makes it a 404 of its own.\<close>

definition rename_device :: "exc \<Rightarrow> store \<Rightarrow> int \<Rightarrow> string \<Rightarrow> unit reply_of \<Rightarrow> bool told" where
  "rename_device not_found s ise_id new_name r =
     (case find (\<lambda>i. as_int (device_ise_id (reg_heap (st_devices s) ! i)) = Some ise_id) (devices s) of
        None \<Rightarrow> ([], Inl not_found)
      | Some i \<Rightarrow> single (DeviceWrite (PatchDevice (ds_address (dv_summary (reg_heap (st_devices s) ! i))) new_name)) (\<lambda>u. True) r)"

definition first_list :: "(string, json) dict \<Rightarrow> string list \<Rightarrow> json list" where
  "first_list d ks = (case find (\<lambda>k. case obj_get d k of JArr xs \<Rightarrow> True | _ \<Rightarrow> False) ks of
       None \<Rightarrow> [] | Some k \<Rightarrow> (case obj_get d k of JArr xs \<Rightarrow> xs | _ \<Rightarrow> []))"

definition incident_list :: "json \<Rightarrow> json list" where
  "incident_list payload = (case payload of
       JArr xs \<Rightarrow> xs
     | JObj d \<Rightarrow> first_list d [''incidents'', ''items'', ''entries'']
     | _ \<Rightarrow> [])"

definition get_recent_incidents :: "int \<Rightarrow> json reply_of \<Rightarrow> json list told" where
  "get_recent_incidents limit r = single (Cache ListIncidents)
     (\<lambda>j. if limit > 0 then take (nat limit) (incident_list j) else incident_list j) r"

definition incident_interface :: "json \<Rightarrow> json option" where
  "incident_interface j = (case j of JObj d \<Rightarrow> Some (obj_get d ''interface_id'') | _ \<Rightarrow> None)"

definition get_incidents_by_interface :: "string \<Rightarrow> json reply_of \<Rightarrow> json list told" where
  "get_incidents_by_interface i r = (case r of
       Fault e \<Rightarrow> ([Cache ListIncidents], Inl e)
     | Got j \<Rightarrow> ([Cache ListIncidents], (let js = incident_list j in
         if list_ex (\<lambda>x. incident_interface x = None) js then Inl OtherError
         else Inr (filter (\<lambda>x. incident_interface x = Some (JStr i)) js))))"

section \<open>The backup\<close>

record backup_entry =
  be_id :: string
  be_filename :: "string option"

datatype backup_result = NoBackup | BackupData string string

definition poll_attempts :: nat where "poll_attempts = 120"
definition poll_interval_ms :: nat where "poll_interval_ms = 2000"

text \<open>
  One attempt after the other, each with its own reply; a failed one counts as one that does not list the
  backup. A cancellation is not an \<open>Exception\<close> and goes through. The result carries the time slept.
\<close>

fun poll_backups :: "string \<Rightarrow> nat \<Rightarrow> (nat \<Rightarrow> backup_entry list reply_of) \<Rightarrow> nat \<Rightarrow> nat \<times> (exc + backup_entry option) \<times> nat" where
  "poll_backups i 0 replies n = (n, Inr None, 0)"
| "poll_backups i (Suc left) replies n =
     (let found = (case replies n of Got es \<Rightarrow> find (\<lambda>e. be_id e = i) es | Fault e \<Rightarrow> None) in
      case replies n of
        Fault Cancelled \<Rightarrow> (Suc n, Inl Cancelled, 0)
      | _ \<Rightarrow> (case found of
            Some e \<Rightarrow> (Suc n, Inr (Some e), 0)
          | None \<Rightarrow> (case poll_backups i left replies (Suc n) of (k, r, ms) \<Rightarrow> (k, r, poll_interval_ms + ms))))"

definition trigger_id :: "(json \<Rightarrow> string) \<Rightarrow> json \<Rightarrow> string" where
  "trigger_id repr j = (case j of
       JObj d \<Rightarrow> (case dict_get d ''id'' of None \<Rightarrow> [] | Some v \<Rightarrow> py_str repr v) | _ \<Rightarrow> [])"

definition or_text :: "string option list \<Rightarrow> string" where
  "or_text xs = (case find (\<lambda>x. x \<noteq> None \<and> x \<noteq> Some []) xs of Some (Some t) \<Rightarrow> t | _ \<Rightarrow> [])"

definition backup_filename :: "string option \<Rightarrow> string option \<Rightarrow> string option \<Rightarrow> string \<Rightarrow> string \<Rightarrow> string \<Rightarrow> string" where
  "backup_filename hostname info_serial serial name version timestamp =
     or_text [hostname, info_serial, serial, Some name, Some ''CCU''] @ ''-''
     @ (if version = [] then ''unknown'' else version) @ ''-'' @ timestamp @ ''.sbk''"

definition archive_filename :: "string \<Rightarrow> backup_entry option \<Rightarrow> string" where
  "archive_filename own e = (case e of
       Some x \<Rightarrow> (case be_filename x of Some f \<Rightarrow> if f = [] then own else f | None \<Rightarrow> own) | None \<Rightarrow> own)"

definition create_backup_and_download ::
  "(json \<Rightarrow> string) \<Rightarrow> string \<Rightarrow> json reply_of \<Rightarrow> (nat \<Rightarrow> backup_entry list reply_of) \<Rightarrow> string reply_of \<Rightarrow> backup_result told \<times> nat" where
  "create_backup_and_download repr own trigger replies download = (case trigger of
       Fault e \<Rightarrow> (([Backup TriggerBackup], if loom_exc LoomForbiddenError e \<or> \<not> any_exception e then Inl e else Inr NoBackup), 0)
     | Got j \<Rightarrow>
         (let i = trigger_id repr j in
          if i = [] then (([Backup TriggerBackup], Inr NoBackup), 0)
          else case poll_backups i poll_attempts replies 0 of (k, r, ms) \<Rightarrow>
            (let cs = Backup TriggerBackup # replicate k (Backup ListBackups) in
             case r of
               Inl e \<Rightarrow> ((cs, Inl e), ms)
             | Inr None \<Rightarrow> ((cs, Inr NoBackup), ms)
             | Inr (Some e) \<Rightarrow> ((cs @ [Backup (DownloadBackup i)], (case download of
                   Got content \<Rightarrow> Inr (BackupData (archive_filename own (Some e)) content)
                 | Fault x \<Rightarrow> if any_exception x then Inr NoBackup else Inl x)), ms))))"

section \<open>Paths read back\<close>

lemma split_five:
  assumes "CHR ''/'' \<notin> set a" "CHR ''/'' \<notin> set n" "CHR ''/'' \<notin> set p"
  shows "split_slash (''device/status/'' @ a @ ''/'' @ n @ ''/'' @ p) = [''device'', ''status'', a, n, p]"
proof -
  have "split_slash (a @ CHR ''/'' # n @ CHR ''/'' # p) = [a, n, p]"
    using assms by (simp add: split_slash_append split_slash_plain)
  then show ?thesis by simp
qed

lemma show_int_digits: "0 \<le> n \<Longrightarrow> show_int n \<noteq> [] \<and> list_all is_digit_char (show_int n)"
  using show_nat.simps [of "nat n"] by (auto simp: show_int_def list_all_iff show_nat_is_digit is_digit_digit)

lemma upper_slash: "CHR ''/'' \<in> set (upper s) \<longleftrightarrow> CHR ''/'' \<in> set s"
proof -
  have eq: "upper_char c = CHR ''/'' \<longleftrightarrow> c = CHR ''/''" for c
  proof
    assume u: "upper_char c = CHR ''/''"
    show "c = CHR ''/''"
    proof (cases "97 \<le> (of_char c :: nat) \<and> (of_char c :: nat) \<le> 122")
      case True
      then have "(of_char c - 32 :: nat) mod 256 = of_char c - 32" by (intro mod_less) arith
      then have "of_char (upper_char c) = (of_char c - 32 :: nat)"
        using True by (simp add: upper_char_def take_bit_eq_mod)
      then have "(of_char c - 32 :: nat) = 47" using u by simp
      then show ?thesis using True by arith
    next
      case False
      then have same: "upper_char c = c" unfolding upper_char_def by (rule if_not_P)
      show ?thesis using u unfolding same .
    qed
  next
    assume "c = CHR ''/''"
    then show "upper_char c = CHR ''/''" by (simp add: upper_char_def)
  qed
  show ?thesis unfolding upper_def set_map by (rule iffI) (metis eq imageE, metis eq imageI)
qed

lemma parse_path:
  assumes "0 \<le> n" and "CHR ''/'' \<notin> set a" and "CHR ''/'' \<notin> set p"
  shows "parse_device_state_path (device_state_path a n p) = Some (upper a, n, upper p)"
proof -
  have "CHR ''/'' \<notin> set (show_int n)" using show_int_digits [OF assms(1)] by (auto simp: list_all_iff is_digit_char_def)
  then have "split_slash (device_state_path a n p) = [''device'', ''status'', upper a, show_int n, upper p]"
    unfolding device_state_path_def using assms(2,3) by (intro split_five) (simp_all add: upper_slash)
  then show ?thesis using show_int_digits [OF assms(1)] by (simp add: parse_device_state_path_def)
qed

text \<open>Fact: the state path of a data point leads back to it exactly when the store keeps it under upper-case names. For a
  channel number that is not negative and names without a slash, looking up the path gives the data
  point under the upper-case names: a device with a lower-case letter in its address is never found
  by its own path.\<close>

theorem state_path_resolves:
  assumes "0 \<le> n" and "CHR ''/'' \<notin> set a" and "CHR ''/'' \<notin> set p"
  shows "get_generic_data_point (device_state_path a n p) s = get_data_point (upper a) n (upper p) s"
  using assms by (simp add: get_generic_data_point_def parse_path)

theorem state_path_resolves_witness:
  "get_generic_data_point (device_state_path ''d'' 1 ''STATE'') demo_store = get_data_point ''D'' 1 ''STATE'' demo_store"
proof -
  have "upper ''d'' = ''D''" "upper ''STATE'' = ''STATE''" by code_simp+
  then show ?thesis using state_path_resolves [of 1 "''d''" "''STATE''" demo_store] by simp
qed

section \<open>Masks\<close>

lemma mask_bits:
  "operations_mask d AND 1 \<noteq> 0 \<longleftrightarrow> json_truth (obj_get d ''read'')"
  "operations_mask d AND 2 \<noteq> 0 \<longleftrightarrow> json_truth (obj_get d ''write'')"
  "operations_mask d AND 4 \<noteq> 0 \<longleftrightarrow> json_truth (obj_get d ''event'')"
  "flags_mask d AND 1 \<noteq> 0 \<longleftrightarrow> json_truth (obj_get d ''visible'')"
  "flags_mask d AND 2 \<noteq> 0 \<longleftrightarrow> json_truth (obj_get d ''internal'')"
  "flags_mask d AND 8 \<noteq> 0 \<longleftrightarrow> json_truth (obj_get d ''service'')"
  by (auto simp: operations_mask_def flags_mask_def mask_def)

section \<open>Writes that are checked first\<close>

definition writes :: "api_call list \<Rightarrow> bool" where
  "writes cs \<longleftrightarrow> list_ex (\<lambda>c. case c of Dp (PutParamset a k vs) \<Rightarrow> True | _ \<Rightarrow> False) cs"

text \<open>Fact: a paramset whose validation is asked for is written only when the daemon's own description accepts every value.
  The call that writes is made exactly when validation is off, or the channel address is one, its
  description was read and nothing in it refuses the values; a result that names refused values was
  not written, and no result claims a write that was not made.\<close>

theorem put_paramset_checked:
  "case put_paramset failures_of validate ca token vals schema written of (cs, r) \<Rightarrow>
     (writes cs \<longleftrightarrow> \<not> validate
        \<or> (split_channel_address ca \<noteq> None \<and> (case described schema of Inl e \<Rightarrow> False | Inr ds \<Rightarrow> failures_of ds vals = [])))
     \<and> (case r of
          Inl e \<Rightarrow> True
        | Inr p \<Rightarrow> (pr_success p \<longleftrightarrow> writes cs) \<and> (pr_success p \<longleftrightarrow> pr_errors p = []) \<and> pr_validated p = validate)"
  by (auto simp: put_paramset_def get_paramset_description_def single_def writes_def raising_def Let_def
      split: option.splits sum.splits prod.splits reply_of.splits list.splits)

section \<open>The backup ends\<close>

definition listed :: "string \<Rightarrow> backup_entry list reply_of \<Rightarrow> backup_entry option" where
  "listed i r = (case r of Got es \<Rightarrow> find (\<lambda>e. be_id e = i) es | Fault e \<Rightarrow> None)"

lemma poll_step:
  "poll_backups i (Suc left) replies n =
     (if replies n = Fault Cancelled then (Suc n, Inl Cancelled, 0)
      else case listed i (replies n) of
        Some e \<Rightarrow> (Suc n, Inr (Some e), 0)
      | None \<Rightarrow> (case poll_backups i left replies (Suc n) of (k, r, ms) \<Rightarrow> (k, r, poll_interval_ms + ms)))"
  by (simp add: listed_def Let_def split: reply_of.splits exc.splits)

lemma poll_backups_ends:
  "poll_backups i left replies n = (k, r, ms) \<Longrightarrow>
     n \<le> k \<and> k \<le> n + left \<and> ms + poll_interval_ms * n \<le> poll_interval_ms * k
     \<and> (case r of
          Inl e \<Rightarrow> e = Cancelled
        | Inr None \<Rightarrow> k = n + left \<and> (\<forall>j. n \<le> j \<and> j < k \<longrightarrow> listed i (replies j) = None)
        | Inr (Some e) \<Rightarrow> n < k \<and> listed i (replies (k - 1)) = Some e)"
proof (induction left arbitrary: n ms)
  case (Suc left)
  consider "replies n = Fault Cancelled" | e where "replies n \<noteq> Fault Cancelled" "listed i (replies n) = Some e"
    | "replies n \<noteq> Fault Cancelled" "listed i (replies n) = None" by (cases "listed i (replies n)") auto
  then show ?case
  proof cases
    case 3
    obtain ms' where p: "poll_backups i left replies (Suc n) = (k, r, ms')" and ms: "ms = poll_interval_ms + ms'"
      using Suc.prems 3 by (auto simp: poll_step simp del: poll_backups.simps split: prod.splits)
    have "listed i (replies j) = None" if "r = Inr None" "n \<le> j" "j < k" for j
      using Suc.IH [OF p] that 3(2) by (cases "j = n") auto
    then show ?thesis using Suc.IH [OF p] ms by (auto split: sum.splits option.splits)
  qed (use Suc.prems in \<open>auto simp: poll_step simp del: poll_backups.simps\<close>)
qed auto

definition polls :: "api_call list \<Rightarrow> nat" where
  "polls cs = length (filter (\<lambda>c. c = Backup ListBackups) cs)"

lemma polls_simps [simp]: "polls [] = 0" "polls (c # cs) = (if c = Backup ListBackups then Suc (polls cs) else polls cs)"
  "polls (xs @ ys) = polls xs + polls ys" "polls (replicate k (Backup ListBackups)) = k"
  by (induction k) (simp_all add: polls_def)

text \<open>C36: creating a backup ends within its polling window, and what it hands over is the archive it asked for. At most 120
  times the list is read, and at most 240 seconds are slept; an archive is handed over only when a
  reply listed the very backup that was triggered, and then it is the content downloaded under that
  id; of the failures only a refused permission at the trigger and a cancellation surface, every
  other one is the answer that there is no backup.\<close>

theorem backup_ends:
  "case create_backup_and_download repr own trigger replies download of ((cs, r), ms) \<Rightarrow>
     polls cs \<le> 120 \<and> ms \<le> 240000
     \<and> (case r of
          Inl e \<Rightarrow> e = Cancelled \<or> (trigger = Fault e \<and> loom_exc LoomForbiddenError e)
        | Inr NoBackup \<Rightarrow> True
        | Inr (BackupData name content) \<Rightarrow> (\<exists>j e n. trigger = Got j \<and> n < 120 \<and> listed (trigger_id repr j) (replies n) = Some e
            \<and> name = archive_filename own (Some e) \<and> download = Got content
            \<and> last cs = Backup (DownloadBackup (trigger_id repr j))))"
proof (cases trigger)
  case (Got j)
  let ?i = "trigger_id repr j"
  obtain k r ms where p: "poll_backups ?i poll_attempts replies 0 = (k, r, ms)" by (cases "poll_backups ?i poll_attempts replies 0")
  have b: "k \<le> 120" "ms \<le> 2000 * k" and r: "case r of Inl e \<Rightarrow> e = Cancelled | Inr None \<Rightarrow> True
      | Inr (Some e) \<Rightarrow> 0 < k \<and> listed ?i (replies (k - 1)) = Some e"
    using poll_backups_ends [OF p] by (auto simp: poll_attempts_def poll_interval_ms_def split: sum.splits option.splits)
  have "ms \<le> 240000" using b by simp
  moreover have "\<exists>n<120. listed ?i (replies n) = Some e" if "r = Inr (Some e)" for e
    using r b(1) that by (intro exI [of _ "k - 1"]) auto
  ultimately show ?thesis
    using b(1) r
    by (simp add: create_backup_and_download_def Got p Let_def split: sum.splits option.splits reply_of.splits)
      (auto simp: any_exception_def)
qed (auto simp: create_backup_and_download_def any_exception_def)

end
