(* ===== verification/Graph.thy ===== *)
theory Graph
  imports Announce AdapterApi
begin

text \<open>
  Reading the object graph: the properties of a device and a channel that are computed
  (model/device.py, model/channel.py), the calculated data points
  (compat/aiohomematic/model/calculated.py) and the descriptors of the configuration panel
  (compat/aiohomematic/central/configurable_devices.py). A field of the wire record that the store
  does not interpret is read out of its rest.
\<close>

section \<open>The device\<close>

definition device_field :: "device_obj \<Rightarrow> string \<Rightarrow> json" where
  "device_field d k = (case ds_rest (dv_summary d) of JObj r \<Rightarrow> obj_get r k | _ \<Rightarrow> JNull)"

definition text_or_none_of :: "json \<Rightarrow> string option" where
  "text_or_none_of j = (case j of JStr t \<Rightarrow> Some t | _ \<Rightarrow> None)"

definition texts_of :: "json \<Rightarrow> string list" where
  "texts_of j = (case j of JArr xs \<Rightarrow> json_strings xs | _ \<Rightarrow> [])"

text \<open>The forced availability is the text of the enumeration's value, if one was set.\<close>

definition forced_available :: "string option \<Rightarrow> device_obj \<Rightarrow> bool" where
  "forced_available forced d = (case forced of
       None \<Rightarrow> device_available d
     | Some f \<Rightarrow> if sublist ''FALSE'' (upper f) then False else if sublist ''TRUE'' (upper f) then True else device_available d)"

record availability_info =
  ai_reachable :: bool
  ai_last_updated :: "instant option"
  ai_battery :: "int option"
  ai_low_battery :: "bool option"
  ai_signal :: "int option"

definition availability_info_of :: "string option \<Rightarrow> device_obj \<Rightarrow> availability_info" where
  "availability_info_of forced d = (case dv_availability d of
       None \<Rightarrow> \<lparr>ai_reachable = forced_available forced d, ai_last_updated = None, ai_battery = None, ai_low_battery = None,
         ai_signal = None\<rparr>
     | Some a \<Rightarrow> \<lparr>ai_reachable = (case av_reachable a of Some b \<Rightarrow> b | None \<Rightarrow> forced_available forced d),
         ai_last_updated = av_last_updated a, ai_battery = av_battery a, ai_low_battery = av_low_battery a, ai_signal = av_signal a\<rparr>)"

definition device_identifier :: "device_obj \<Rightarrow> string" where
  "device_identifier d = ds_address (dv_summary d) @ ''@'' @ ds_interface_id (dv_summary d)"

definition firmware_updatable :: "device_obj \<Rightarrow> bool" where
  "firmware_updatable d = (case (case dv_firmware d of Some (JObj f) \<Rightarrow> obj_get f ''Updatable'' | _ \<Rightarrow> JNull) of
       JNull \<Rightarrow> ds_updatable (dv_summary d) \<and> ds_update_available (dv_summary d)
     | v \<Rightarrow> json_truth v)"

section \<open>The channel\<close>

text \<open>\<open>group_no or None\<close>\<close>

definition group_no :: "channel_obj \<Rightarrow> int option" where
  "group_no c = (case as_int (channel_field c ''group_no'') of Some n \<Rightarrow> if n = 0 then None else Some n | None \<Rightarrow> None)"

definition channel_room :: "channel_obj \<Rightarrow> string option" where
  "channel_room c = (case channel_field c ''room'' of JStr t \<Rightarrow> if t = [] then None else Some t | _ \<Rightarrow> None)"

datatype link_role = Sender | Receiver | BothRoles | NoRole

definition link_role_of :: "channel_obj \<Rightarrow> link_role" where
  "link_role_of c =
     (let sends = json_truth (channel_field c ''link_source_roles''); receives = json_truth (channel_field c ''link_target_roles'') in
      if sends \<and> receives then BothRoles else if sends then Sender else if receives then Receiver else NoRole)"

definition group_master :: "store \<Rightarrow> oid \<Rightarrow> oid option" where
  "group_master s i = (let c = channel_at s i in case group_no c of
       None \<Rightarrow> None
     | Some n \<Rightarrow> if cs_number (ch_summary c) = n then Some i else get_channel (channel_device c) n s)"

definition remove_prefix :: "string \<Rightarrow> string \<Rightarrow> string" where
  "remove_prefix p t = (if starts_with p t then drop (length p) t else t)"

definition group_master_name :: "store \<Rightarrow> channel_obj \<Rightarrow> string" where
  "group_master_name s m =
     (let device = map_option (\<lambda>i. reg_heap (st_devices s) ! i) (get_device (channel_device m) s);
          own = (case device of None \<Rightarrow> [] | Some d \<Rightarrow> ds_name (dv_summary d));
          given = (case channel_name m of None \<Rightarrow> [] | Some n \<Rightarrow> n);
          raw = (case device of
              None \<Rightarrow> given
            | Some d \<Rightarrow> if given = [] \<or> given = ds_model (dv_summary d) @ '' '' @ cs_address (ch_summary m)
                then own @ '':'' @ show_int (cs_number (ch_summary m)) else given)
      in if raw = [] then []
         else if own \<noteq> [] \<and> starts_with own raw then remove_prefix '':'' (py_strip (remove_all own raw))
         else py_strip raw)"

definition device_channels :: "store \<Rightarrow> string \<Rightarrow> channel_obj list" where
  "device_channels s addr = map (channel_at s) (channels_of addr s)"

definition rooms_of_device :: "device_obj \<Rightarrow> string list" where
  "rooms_of_device d = texts_of (device_field d ''rooms'')"

definition device_room :: "store \<Rightarrow> device_obj \<Rightarrow> string option" where
  "device_room s d = (case rooms_of_device d of
       [r] \<Rightarrow> Some r
     | _ \<Rightarrow> (case get_channel (ds_address (dv_summary d)) 0 s of None \<Rightarrow> None | Some i \<Rightarrow> channel_room (channel_at s i)))"

fun group_sizes :: "channel_obj list \<Rightarrow> (int, nat) dict \<Rightarrow> (int, nat) dict" where
  "group_sizes [] d = d"
| "group_sizes (c # cs) d = group_sizes cs (case group_no c of
       None \<Rightarrow> d | Some g \<Rightarrow> dict_put g ((case dict_get d g of None \<Rightarrow> 0 | Some n \<Rightarrow> n) + 1) d)"

definition has_sub_devices :: "store \<Rightarrow> string \<Rightarrow> bool" where
  "has_sub_devices s addr =
     (let sizes = group_sizes (device_channels s addr) [] in
      if length sizes \<le> 1 then False else 1 < length (filter (\<lambda>n. 1 < n) (dict_values sizes)))"

definition device_get_channel :: "string \<Rightarrow> int option \<Rightarrow> string option \<Rightarrow> store \<Rightarrow> oid option" where
  "device_get_channel addr n ca s = (case ca of
       Some a \<Rightarrow> (case partition_colon a of (device, sep, channel) \<Rightarrow>
           if device \<noteq> addr \<or> channel = [] \<or> \<not> list_all is_digit_char channel then None
           else case python_int channel of None \<Rightarrow> None | Some k \<Rightarrow> get_channel addr k s)
     | None \<Rightarrow> (case n of None \<Rightarrow> None | Some k \<Rightarrow> get_channel addr k s))"

definition device_get_generic :: "string \<Rightarrow> string option \<Rightarrow> string option \<Rightarrow> store \<Rightarrow> oid option" where
  "device_get_generic addr ca parameter s = (case parameter of
       None \<Rightarrow> None
     | Some p \<Rightarrow>
         (let channels = (case ca of
              None \<Rightarrow> channels_of addr s
            | Some a \<Rightarrow> (case device_get_channel addr None (Some a) s of None \<Rightarrow> [] | Some i \<Rightarrow> [i]))
          in find (\<lambda>j. dp_parameter (do_summary (dp_at s j)) = p) (concat (map (data_points_of_channel s) channels))))"

text \<open>A device that does not offer central links is left alone: its refusal is no error.\<close>

definition central_links :: "bool \<Rightarrow> string \<Rightarrow> bool \<Rightarrow> unit reply_of \<Rightarrow> unit told" where
  "central_links bound addr create r =
     (if \<not> bound then raising
      else ([Link (if create then EnableCentralLinks addr else DisableCentralLinks addr)],
            case r of Got u \<Rightarrow> Inr () | Fault e \<Rightarrow> if loom_exc LoomValidationError e then Inr () else Inl e))"

section \<open>Calculated data points\<close>

definition calc_field :: "calc_summary \<Rightarrow> string \<Rightarrow> json" where
  "calc_field c k = (case ca_rest c of JObj r \<Rightarrow> obj_get r k | _ \<Rightarrow> JNull)"

definition calc_is_binary :: "calc_summary \<Rightarrow> bool" where
  "calc_is_binary c \<longleftrightarrow> calc_field c ''category'' = JStr ''binary_sensor''"

definition synthesize_summary :: "calc_summary \<Rightarrow> dp_summary" where
  "synthesize_summary c = \<lparr>dp_parameter = ca_name c, dp_value = ca_value c, dp_display_value = None, dp_observed = ca_observed c,
     dp_modified_at = ca_modified_at c, dp_last_changed_at = None, dp_last_seen_at = None,
     dp_rest = JObj [(''unique_id'', calc_field c ''unique_id''),
       (''operations'', JObj [(''read'', JBool True), (''write'', JBool False), (''event'', JBool True)]),
       (''category'', (case calc_field c ''category'' of JStr t \<Rightarrow> if t = [] then JStr ''sensor'' else JStr t | _ \<Rightarrow> JStr ''sensor'')),
       (''type'', if calc_is_binary c then JStr ''BOOL'' else JNull), (''translated_name'', calc_field c ''translated_name'')]\<rparr>"

definition make_calculated_data_point :: "calc_summary \<Rightarrow> string \<Rightarrow> int \<Rightarrow> generic_class \<times> dp_obj" where
  "make_calculated_data_point c addr n = (if calc_is_binary c then DpBinarySensor else DpSensor,
     (new_data_point (synthesize_summary c) addr n)\<lparr>do_calculated_available := Some (ca_available c)\<rparr>)"

definition calculated_value :: "generic_class \<times> dp_obj \<Rightarrow> json" where
  "calculated_value x = (if fst x = DpBinarySensor
     then (case binary_value (snd x) of None \<Rightarrow> JNull | Some b \<Rightarrow> JBool b) else generic_value (snd x))"

definition calculated_is_valid :: "generic_class \<times> dp_obj \<Rightarrow> bool" where
  "calculated_is_valid x \<longleftrightarrow> (case do_calculated_available (snd x) of None \<Rightarrow> True | Some b \<Rightarrow> b) \<and> calculated_value x \<noteq> JNull"

definition calculated_name :: "dp_obj \<Rightarrow> string" where
  "calculated_name d = (case text_field d ''translated_name'' of
       Some t \<Rightarrow> if t = [] then dp_parameter (do_summary d) else t | None \<Rightarrow> dp_parameter (do_summary d))"

section \<open>The configuration panel\<close>

definition maintenance_fields :: "(string, string) dict" where
  "maintenance_fields = [(''UNREACH'', ''unreach''), (''LOW_BAT'', ''low_bat''), (''LOWBAT'', ''low_bat''),
     (''RSSI_DEVICE'', ''rssi_device''), (''RSSI_PEER'', ''rssi_peer''), (''DUTY_CYCLE'', ''dutycycle''),
     (''DUTYCYCLE'', ''dutycycle''), (''CONFIG_PENDING'', ''config_pending'')]"

definition maintenance_for :: "store \<Rightarrow> string \<Rightarrow> (string, json) dict" where
  "maintenance_for s addr = (case get_channel addr 0 s of
       None \<Rightarrow> []
     | Some i \<Rightarrow> fold (\<lambda>j m. let d = dp_at s j; v = entity_value d in
           case dict_get maintenance_fields (dp_parameter (do_summary d)) of
             None \<Rightarrow> m | Some f \<Rightarrow> if v = JNull then m else dict_put f v m)
         (data_points_of_channel s i) [])"

record configurable_channel =
  gc_address :: string
  gc_type :: string
  gc_type_label :: string
  gc_name :: string
  gc_paramset_keys :: "string list"

record configurable_device =
  gd_address :: string
  gd_interface :: string
  gd_interface_id :: string
  gd_model :: string
  gd_model_description :: string
  gd_name :: string
  gd_firmware :: string
  gd_channels :: "configurable_channel list"
  gd_maintenance :: "(string, json) dict"

definition or_blank :: "json \<Rightarrow> string" where
  "or_blank j = (case j of JStr t \<Rightarrow> t | _ \<Rightarrow> [])"

definition configurable_channel_of :: "channel_obj \<Rightarrow> configurable_channel option" where
  "configurable_channel_of c =
     (let keys = texts_of (channel_field c ''paramset_keys''); ty = or_blank (channel_field c ''type'');
          label = or_blank (channel_field c ''type_label'')
      in if keys = [] then None
         else Some \<lparr>gc_address = cs_address (ch_summary c), gc_type = ty, gc_type_label = (if label = [] then ty else label),
           gc_name = or_blank (channel_field c ''name''), gc_paramset_keys = keys\<rparr>)"

definition configurable_device_of :: "store \<Rightarrow> device_obj \<Rightarrow> configurable_device option" where
  "configurable_device_of s d =
     (let sm = dv_summary d; cs = List.map_filter configurable_channel_of (device_channels s (ds_address sm)) in
      if cs = [] then None
      else Some \<lparr>gd_address = ds_address sm, gd_interface = ds_interface sm, gd_interface_id = ds_interface_id sm, gd_model = ds_model sm,
        gd_model_description = or_blank (device_field d ''model_label''), gd_name = ds_name sm, gd_firmware = device_firmware d,
        gd_channels = cs, gd_maintenance = maintenance_for s (ds_address sm)\<rparr>)"

definition build_configurable_devices :: "store \<Rightarrow> configurable_device list" where
  "build_configurable_devices s = List.map_filter (\<lambda>i. configurable_device_of s (reg_heap (st_devices s) ! i)) (devices s)"

section \<open>Icons\<close>

text \<open>The process-wide map from models to icon files (compat/aiohomematic/ccu_translations.py), filled with each listing.\<close>

definition device_icon :: "device_obj \<Rightarrow> string option" where
  "device_icon d = (let t = or_blank (device_field d ''model_icon'') in if t = [] then None else Some t)"

definition icon_key :: "string \<Rightarrow> string" where
  "icon_key model = map lower_char model"

definition register_device_icon :: "device_obj \<Rightarrow> (string, string) dict \<Rightarrow> (string, string) dict" where
  "register_device_icon d m = (case device_icon d of None \<Rightarrow> m | Some i \<Rightarrow> dict_put (icon_key (ds_model (dv_summary d))) i m)"

definition register_device_icons :: "device_obj list \<Rightarrow> (string, string) dict \<Rightarrow> (string, string) dict" where
  "register_device_icons ds m = fold register_device_icon ds m"

definition get_device_icon :: "string \<Rightarrow> (string, string) dict \<Rightarrow> string option" where
  "get_device_icon model m = dict_get m (icon_key model)"

text \<open>Fact: after a registration a model shows the icon of its last device that has one; a model without shows what it
  showed before, so the devices of another central keep theirs and a second registration changes
  nothing.\<close>

theorem icon_of_last_device:
  "get_device_icon model (register_device_icons ds m) =
     (case find (\<lambda>d. icon_key (ds_model (dv_summary d)) = icon_key model \<and> device_icon d \<noteq> None) (rev ds) of
        Some d \<Rightarrow> device_icon d
      | None \<Rightarrow> get_device_icon model m)"
proof (induction ds rule: rev_induct)
  case (snoc d ds)
  then show ?case
    by (cases "device_icon d") (simp_all add: register_device_icons_def register_device_icon_def get_device_icon_def)
qed (simp add: register_device_icons_def)

section \<open>Sub-devices\<close>

definition group_count :: "int \<Rightarrow> channel_obj list \<Rightarrow> nat" where
  "group_count g cs = length (filter (\<lambda>c. group_no c = Some g) cs)"

lemma group_sizes_counts:
  "dict_ok d \<Longrightarrow> list_all (\<lambda>e. 0 < snd e) d \<Longrightarrow> dict_ok (group_sizes cs d) \<and> list_all (\<lambda>e. 0 < snd e) (group_sizes cs d)
     \<and> (case dict_get (group_sizes cs d) g of None \<Rightarrow> 0 | Some n \<Rightarrow> n) = (case dict_get d g of None \<Rightarrow> 0 | Some n \<Rightarrow> n) + group_count g cs"
proof (induction cs arbitrary: d)
  case (Cons c cs)
  have put: "set (AList.update k v d) \<subseteq> insert (k, v) (set d)" for k and v :: nat
    by (induction d) auto
  show ?case
  proof (cases "group_no c")
    case None
    then show ?thesis using Cons by (simp add: group_count_def)
  next
    case (Some g')
    let ?d = "dict_put g' ((case dict_get d g' of None \<Rightarrow> 0 | Some n \<Rightarrow> n) + 1) d"
    have "dict_ok ?d" using Cons.prems(1) by simp
    moreover have "list_all (\<lambda>e. 0 < snd e) ?d"
      using Cons.prems(2) put unfolding list_all_iff by fastforce
    ultimately show ?thesis using Cons.IH [of ?d] Some by (auto simp: group_count_def)
  qed
qed (simp add: group_count_def)

lemma two_of_distinct:
  assumes "distinct xs"
  shows "1 < length xs \<longleftrightarrow> (\<exists>g h. g \<noteq> h \<and> g \<in> set xs \<and> h \<in> set xs)"
proof (cases xs)
  case (Cons a ys)
  then show ?thesis using assms by (cases ys) auto
qed simp

lemma big_groups:
  "g \<in> set (map fst (filter (\<lambda>e. 1 < snd e) (group_sizes cs []))) \<longleftrightarrow> 2 \<le> group_count g cs"
proof -
  have ok: "dict_ok (group_sizes cs [])" using group_sizes_counts [of "[]" cs] by simp
  have cnt: "(case dict_get (group_sizes cs []) g of None \<Rightarrow> 0 | Some n \<Rightarrow> n) = group_count g cs"
    using group_sizes_counts [of "[]" cs g] by simp
  have "g \<in> set (map fst (filter (\<lambda>e. 1 < snd e) (group_sizes cs []))) \<longleftrightarrow> (\<exists>n. (g, n) \<in> set (group_sizes cs []) \<and> 1 < n)"
    by (auto simp: image_iff)
  also have "\<dots> \<longleftrightarrow> (\<exists>n. dict_get (group_sizes cs []) g = Some n \<and> 1 < n)" using ok by (simp add: dict_get_iff_mem)
  also have "\<dots> \<longleftrightarrow> 2 \<le> group_count g cs" unfolding cnt [symmetric] by (cases "dict_get (group_sizes cs []) g") auto
  finally show ?thesis .
qed

text \<open>Fact: a device splits into sub-devices exactly when two of its channel groups have more than one channel each.\<close>

theorem sub_devices_exact:
  "has_sub_devices s addr \<longleftrightarrow>
     (\<exists>g h. g \<noteq> h \<and> 2 \<le> group_count g (device_channels s addr) \<and> 2 \<le> group_count h (device_channels s addr))"
proof -
  let ?d = "group_sizes (device_channels s addr) []"
  let ?big = "map fst (filter (\<lambda>e. 1 < snd e) ?d)"
  have "dict_ok ?d" using group_sizes_counts [of "[]" "device_channels s addr"] by simp
  then have dist: "distinct ?big" by (simp add: dict_ok_def distinct_map_filter)
  have len: "length (filter (\<lambda>n. 1 < n) (dict_values ?d)) = length ?big" by (simp add: filter_map o_def)
  have le: "length ?big \<le> length ?d" using length_filter_le [of _ ?d] by simp
  have "\<not> 1 < length ?big" if "length ?d \<le> 1" using le_trans [OF le that] by simp
  then have "has_sub_devices s addr \<longleftrightarrow> 1 < length ?big"
    unfolding has_sub_devices_def Let_def len by (cases "length ?d \<le> 1") simp_all
  then show ?thesis unfolding two_of_distinct [OF dist] big_groups .
qed

end
