(* ===== verification/Wire.thy ===== *)
theory Wire
  imports Pairing
begin

text \<open>
  Reading what a daemon of another version says: the enumerations of the generated wire layer, which
  accept tokens this build does not know (wire/rest.py, wire/enums.py), and the notes of the
  handshake on the daemon's API version and schema digest (transport/http.py).
\<close>

section \<open>Tolerant enumerations\<close>

text \<open>The base classes: \<open>StrEnum\<close>, a \<open>str\<close> mix-in, plain \<open>Enum\<close>, \<open>IntEnum\<close>. A class is its members, name and value.\<close>

datatype enum_base = StrBase | StrMixinBase | PlainBase | IntBase

type_synonym enum_member = "string \<times> json"

definition missing_member :: "enum_base \<Rightarrow> json \<Rightarrow> enum_member option" where
  "missing_member b v =
     (case b of
        IntBase \<Rightarrow> (case v of JInt i \<Rightarrow> Some (show_int i, v) | _ \<Rightarrow> None)
      | _ \<Rightarrow> (case v of JStr t \<Rightarrow> Some (t, v) | _ \<Rightarrow> None))"

text \<open>Python's equality of scalars, by which a class finds a member: a boolean is the integer 0 or 1, and a float may be an integer.\<close>

definition numeric :: "json \<Rightarrow> rat option" where
  "numeric v = (case v of JBool x \<Rightarrow> Some (if x then 1 else 0) | JInt i \<Rightarrow> Some (of_int i) | JFloat r \<Rightarrow> Some r | _ \<Rightarrow> None)"

definition same_value :: "json \<Rightarrow> json \<Rightarrow> bool" where
  "same_value v w \<longleftrightarrow> (case numeric v of None \<Rightarrow> v = w | Some x \<Rightarrow> numeric w = Some x)"

text \<open>\<open>Cls(value)\<close>; \<open>None\<close> is the \<open>ValueError\<close>.\<close>

definition enum_of :: "enum_base \<Rightarrow> enum_member list \<Rightarrow> json \<Rightarrow> enum_member option" where
  "enum_of b ms v = (case find (\<lambda>m. same_value (snd m) v) ms of Some m \<Rightarrow> Some m | None \<Rightarrow> missing_member b v)"

section \<open>Version and digest\<close>

fun split_dots :: "string \<Rightarrow> string list" where
  "split_dots [] = [[]]"
| "split_dots (c # cs) = (if c = CHR ''.'' then [] # split_dots cs
     else (case split_dots cs of p # ps \<Rightarrow> (c # p) # ps | [] \<Rightarrow> [[c]]))"

definition parse_major_minor :: "string \<Rightarrow> (int \<times> int) option" where
  "parse_major_minor v =
     (case split_dots v of
        a # b # ps \<Rightarrow> (case (python_int a, python_int b) of (Some x, Some y) \<Rightarrow> Some (x, y) | _ \<Rightarrow> None)
      | _ \<Rightarrow> None)"

text \<open>What the log gets: a warning when the majors differ, a note when only the minors do.\<close>

datatype version_note = MajorsDiffer | DaemonAhead | DaemonBehind

definition report_api_version :: "string \<Rightarrow> string \<Rightarrow> version_note option" where
  "report_api_version own daemon =
     (case (parse_major_minor own, parse_major_minor daemon) of
        (Some (em, en), Some (gm, gn)) \<Rightarrow>
          if gm \<noteq> em then Some MajorsDiffer
          else if gn \<noteq> en then Some (if gn > en then DaemonAhead else DaemonBehind)
          else None
      | _ \<Rightarrow> None)"

text \<open>Whether a mismatch of the schema digest is logged; \<open>own\<close> is the digest this build carries.\<close>

definition digest_mismatch :: "string \<Rightarrow> json \<Rightarrow> bool" where
  "digest_mismatch own payload =
     (let d = (case payload of JObj o' \<Rightarrow> get_or o' ''schema_digest'' (JStr []) | _ \<Rightarrow> JStr [])
      in json_truth d \<and> own \<noteq> [] \<and> d \<noteq> JStr own)"

section \<open>What holds of them\<close>

definition text_members :: "enum_member list \<Rightarrow> bool" where
  "text_members ms \<longleftrightarrow> list_all (\<lambda>m. \<exists>t. snd m = JStr t) ms \<and> distinct (map snd ms)"

lemma same_text: "same_value (JStr t) v \<longleftrightarrow> v = JStr t"
  by (auto simp: same_value_def numeric_def)

lemma find_text:
  "text_members ms \<Longrightarrow> find (\<lambda>m. same_value (snd m) v) ms = find (\<lambda>m. snd m = v) ms"
  by (induction ms) (auto simp: text_members_def same_text)

text \<open>Fact: no token is lost or refused: a class of text tokens reads any text, the member it gives carries that very text as
  its value, and a token the class declares gives the declared member.\<close>

theorem any_token_read:
  assumes "text_members ms" and "b \<noteq> IntBase"
  shows "case enum_of b ms (JStr t) of
     None \<Rightarrow> False
   | Some m \<Rightarrow> snd m = JStr t \<and> (if JStr t \<in> set (map snd ms) then m \<in> set ms else m = (t, JStr t))"
proof (cases "find (\<lambda>m. snd m = JStr t) ms")
  case None
  then have "JStr t \<notin> set (map snd ms)" by (auto simp: find_None_iff)
  with None assms(2) show ?thesis
    by (cases b) (simp_all add: enum_of_def find_text [OF assms(1)] missing_member_def)
next
  case (Some m)
  then have "snd m = JStr t" "m \<in> set ms" by (auto simp: find_Some_iff)
  with Some show ?thesis by (force simp: enum_of_def find_text [OF assms(1)])
qed

text \<open>Fact: the integer class reads any integer as itself, and, by Python's equality of booleans and integers, reads
  \<open>True\<close> as its member 1 although its fallback refuses booleans.\<close>

theorem true_is_member_one:
  "(case enum_of IntBase [(''integer_1'', JInt 1), (''integer_7'', JInt 7), (''integer_90'', JInt 90)] (JInt i) of
      None \<Rightarrow> False | Some m \<Rightarrow> snd m = JInt i)
   \<and> enum_of IntBase [(''integer_1'', JInt 1), (''integer_7'', JInt 7), (''integer_90'', JInt 90)] (JBool True)
      = Some (''integer_1'', JInt 1)
   \<and> missing_member IntBase (JBool True) = None"
  by (simp add: enum_of_def missing_member_def same_value_def numeric_def)

lemma split_dots_part: "CHR ''.'' \<notin> set p \<Longrightarrow> split_dots (p @ CHR ''.'' # cs) = p # split_dots cs"
  by (induction p) auto

lemma split_dots_whole: "CHR ''.'' \<notin> set p \<Longrightarrow> split_dots p = [p]"
  by (induction p) auto

lemma show_int_no_dot: "CHR ''.'' \<notin> set (show_int i)"
  using show_nat_is_digit [of "CHR ''.''"] by (auto simp: show_int_def is_digit_char_def)

lemma parse_shown:
  assumes "rest = [] \<or> hd rest = CHR ''.''"
  shows "parse_major_minor (show_int a @ CHR ''.'' # show_int b @ rest) = Some (a, b)"
proof (cases rest)
  case Nil
  then show ?thesis
    by (simp add: parse_major_minor_def split_dots_part split_dots_whole show_int_no_dot)
next
  case (Cons c cs)
  with assms show ?thesis
    by (simp add: parse_major_minor_def split_dots_part show_int_no_dot)
qed

text \<open>Fact: a difference in the version refuses nothing and is told exactly: of two versions written major.minor and perhaps
  more, the note is silent if and only if major and minor agree, whatever follows them, and a
  version that cannot be read is never reported.\<close>

theorem version_note_exact:
  assumes "rest = [] \<or> hd rest = CHR ''.''" and "rest' = [] \<or> hd rest' = CHR ''.''"
  shows "report_api_version (show_int a @ CHR ''.'' # show_int b @ rest) (show_int c @ CHR ''.'' # show_int d @ rest') =
      (if c \<noteq> a then Some MajorsDiffer else if b < d then Some DaemonAhead else if d < b then Some DaemonBehind else None)"
    and "parse_major_minor v = None \<Longrightarrow> report_api_version own v = None \<and> report_api_version v own = None"
  using parse_shown [OF assms(1)] parse_shown [OF assms(2)]
  by (auto simp: report_api_version_def split: option.split)

end
