(* ===== verification/Spec2Isabelle.thy ===== *)
theory Spec2Isabelle
  imports EventBus Http WsConn StoreProps OpsProps Bridge Bootstrap Client Alarm Held Pairing Discovery WeekProfile HubProps CustomOps Refresh Lifecycle Announce CentralSetup Graph Wire
begin

text \<open>
  Verification library for openccu-loom-client: the Python client of the openccu-loom daemon
  (openccu_loom_client) with its compatibility layer for Home Assistant
  (compat/aiohomematic). File names below are relative to src/openccu_loom_client.

  \<^bold>\<open>The program.\<close> A client talks to a daemon over HTTP and receives its events over a WebSocket. It
  keeps a mirror of the daemon's model, the store, whose objects a consumer holds by reference.
  \<^item> The transports: transport/http.py sends a request, retries it within one deadline and turns
    problem documents into exceptions; transport/ws.py keeps a connection, resumes it from a cursor,
    and hands envelopes through a bounded queue.
  \<^item> operations/ builds the requests, one class per area, on top of the HTTP transport.
  \<^item> events/ turns an envelope into a typed event and fans it out over a bus with routing keys;
    bridge.py applies the events to store.py, the only writer besides the bootstrap walk and the
    re-reads of client.py.
  \<^item> client.py is the lifecycle: connect, bootstrap, the event stream, re-bootstrap after a lost replay,
    reconciles of new devices, close.
  \<^item> compat/aiohomematic/ gives the store the shape of another library: the central adapter
    (central/adapter.py) with its state, announcements and forwarding surfaces, the hub
    (central/hub_coordinator.py, model/hub/), the refresh bridge (central/refresh.py) that turns the
    daemon's events into events of the consumer's bus, held devices, week profiles, and the
    categorised data points (model/generic/, model/custom/).

  \<^bold>\<open>How it is modelled.\<close> Records stand for the objects, datatypes for enumerations and errors, an
  insertion-ordered dictionary for a Python dict, \<open>json\<close> for an untyped payload. A store holds
  registries of live objects: a dictionary from keys to identities over a heap, so that identity,
  which consumers rely on, is part of the state. A method that awaits is a function of the world and
  of turns: at each await the other tasks apply any operations they may, time passes, and the reply
  arrives, fails or the task is cancelled. What runs as several tasks is a machine of inputs, one
  per stretch of code between awaits, and its theorems hold for every list of inputs. Exceptions
  are values of sums; a loop that may run for ever is a partial function with values in
  \<open>option\<close>, and that it returns is a theorem. Integers are unbounded as in Python; the size tally
  of the queue and times are natural numbers, the flag words of paramsets and the digits of a pairing code are bitwise or
  modular.

  \<^bold>\<open>Theories.\<close> Base layer:
  \<^item> Prelude: dictionaries, results, json. Registry: registries and the contracts \<open>fresh_registry\<close> (identities only grow) and
    \<open>live_registry\<close> (and, key by key, none is replaced). Flow: runs of machines and the contracts \<open>invariant\<close>, \<open>fifo_flow\<close>, \<open>transition_signal\<close>.
  \<^item> Errors (exceptions.py, boxgate.py), Config (config.py, auth.py), EventBus (events/bus.py).
  \<^item> Wire: enumerations that accept unknown tokens, notes on API version and digest.

  Transports and requests:
  \<^item> Http (transport/http.py): attempts are bounded, share one budget, which a late backoff
    alone can break, and only idempotent methods are repeated; capped downloads; session and handshake.
  \<^item> Ws, WsQueue, WsConn (transport/ws.py): state and steps; the queue in every interleaving (at most 4096
    envelopes and 64 MiB, first in first out, one resync per overflow); resume cursor, reconnect
    ladder, notifications that alternate, re-authentication.
  \<^item> ApiCore, Operations, OpsProps (operations/): paths and bodies of every call, which ids stay within
    their segment of a path, which calls are repeated; paged listings, batch reads, locked link writes.

  The mirror and its client:
  \<^item> Events (events/types.py, events/synthetic.py) and Bridge (bridge.py): every event class with key and wire
    type, the handlers, and that each envelope is applied once and in order however often the stream
    is started.
  \<^item> StoreData, Store, StoreLive, StoreProps (store.py, model/): live objects with their mutators; all operations;
    objects are not rebuilt, but for calculated data points and variables under a new factory; exact effects, and
    pushes that overtake a re-read.
  \<^item> Coroutine, StoreApi: worlds, turns and the relations on them (\<open>world_relation\<close>, \<open>announcing_relation\<close>);
    reads, re-reads and write-backs of the store.
  \<^item> Bootstrap, Client (client.py): readiness, pinning, the walk and its fallbacks; the machine of streams,
    background tasks and close: at most four reconciles, taken up in order, walks spaced by their
    cool-down, a close, also one among several, that ends with its fourth await, leaves no task and, if no
    start falls into it, nothing else, and starts nothing afterwards.
  \<^item> Alarm (model/alarm_panel.py), Pairing (pairing.py, boxpairing.py), Discovery (discovery.py, probe.py,
    capabilities.py), Graph (computed properties in model/device.py and model/channel.py, model/calculated.py,
    central/configurable_devices.py, ccu_translations.py).

  The compatibility layer:
  \<^item> Hub, HubCoordinator, HubProps (model/hub/, central/hub_coordinator.py): singletons on a heap behind named slots,
    the aggregate refresh and the push routing; a refresh announces every singleton that moved,
    whatever its calls answer, and a singleton's object is not replaced but by a
    second build that overlaps the first.
  \<^item> Held (central/held_devices.py): the announcer of devices held back, which offers a declined device
    again, and their confirmation, call by call up to the first that fails.
  \<^item> WeekProfile (model/week_profile.py): schedules, their front-end format and its round trip, locks.
  \<^item> Generic, Custom, CustomOps (model/generic/, model/custom/): class resolution, values, and every action as
    the invocations it sends; the staged on-time (\<open>timed_output\<close>).
  \<^item> EventGroups (model/event_group.py, model/event.py, model/naming.py), Refresh (central/refresh.py, canonical.py).
  \<^item> Central, Lifecycle, Announce, AdapterApi, CentralSetup (central/adapter.py, central/__init__.py,
    central/state_paths.py, const.py, model/combined.py, model/update.py, model/device_client.py): the state that
    follows the connection with its grace period, and the report of an outage; start, stop and rebuild, and
    what a failed start leaves; what is announced, and the schedules of a pass; the forwarding surfaces; configuration and system information.

  \<^bold>\<open>Interfaces.\<close> A locale states what a client of a component relies on; each is interpreted on the
  model's own definitions, in the theory that provides them. \<open>live_registry\<close>, an extension of \<open>fresh_registry\<close>, holds of the
  seven registries of the store; \<open>invariant\<close> of the store, of the client's slots, wiring and close, and of the envelope queue;
  \<open>fifo_flow\<close> of the queue, its sizes and the reconciles; \<open>transition_signal\<close> of the connection callbacks;
  the relations on worlds and walks of what a walk keeps and announces; \<open>hub_invariant\<close> of the
  singletons; \<open>timed_output\<close> of switch, light and valve; \<open>task_handle\<close> of the handles a stop reaps.

  \<^bold>\<open>Bounds and loops.\<close> Bounds are the code's constants: 4096 envelopes, 64 MiB, four reconciles, 15 s of
  grace, 120 polls of 2 s for a backup, the retry ladders. The only fuel is the number of attempts such
  a constant gives. The wait for readiness, the pairing polls and the paged listing are loops whose
  return is proved from what ends them: the deadline, a decided answer, a bounded total.

  \<^bold>\<open>Parameters.\<close> Code outside the repository is an argument: pydantic's acceptance of a payload, SHA-256, the
  certificate and the frames of a connection, random jitter, aiohomematic's key algorithm,
  slugify, paramset validation and enumerations, Python's \<open>repr\<close> of floats and containers, and all
  replies of the daemon.

  \<^bold>\<open>Not modelled.\<close> Log and message texts and wall-clock stamps of consumer events, since nothing in the
  code reads them. The constant properties that satisfy another library's protocols
  (model/_protocol_surface.py, model/hub/_surface.py, the entity attributes in compat's model/alarm_panel.py)
  and one-to-one copies of wire fields into foreign records (service and alarm messages, links, the
  health record): they compute nothing. The generated declarations in wire/ without operations,
  re-exports, and the linters and generators under script/, which are no part of the client.
  Sockets, TLS and the event loop itself: the turns stand for what they may do.
\<close>

end
